(* ===== verification/Prelude.thy ===== *)
theory Prelude
  imports Main "HOL-Library.Sublist"
begin

text \<open>
  Shared by every component: Go strings as byte lists (\<open>string\<close> is \<open>char list\<close>, a
  \<open>char\<close> is a byte), the functions of Go's \<open>strings\<close> package the sources call, results
  of fallible calls as sums, and the generic lemmas on occurrences of a literal in a string.
\<close>

named_theorems go_strings

type_synonym bytes = string

abbreviation nl :: char where "nl \<equiv> CHR 0x0A"

subsection \<open>Prefixes and the first occurrence of a literal\<close>

text \<open>\<open>strings.CutPrefix\<close>: the rest of \<open>s\<close> after the prefix \<open>p\<close>.\<close>

fun strip_prefix :: "'a list \<Rightarrow> 'a list \<Rightarrow> 'a list option" where
  "strip_prefix [] s = Some s"
| "strip_prefix (p # ps) [] = None"
| "strip_prefix (p # ps) (x # xs) = (if p = x then strip_prefix ps xs else None)"

definition has_prefix :: "'a list \<Rightarrow> 'a list \<Rightarrow> bool" where
  "has_prefix p s \<longleftrightarrow> strip_prefix p s \<noteq> None"

text \<open>\<open>strings.Cut\<close>: what stands before and after the first occurrence of \<open>p\<close>.\<close>

fun cut_sub :: "'a list \<Rightarrow> 'a list \<Rightarrow> ('a list \<times> 'a list) option" where
  "cut_sub p [] = (if p = [] then Some ([], []) else None)"
| "cut_sub p (x # xs) =
     (case strip_prefix p (x # xs) of
        Some r \<Rightarrow> Some ([], r)
      | None \<Rightarrow> (case cut_sub p xs of None \<Rightarrow> None | Some (a, b) \<Rightarrow> Some (x # a, b)))"

text \<open>\<open>strings.Contains\<close>.\<close>

definition contains :: "'a list \<Rightarrow> 'a list \<Rightarrow> bool" where
  "contains p s \<longleftrightarrow> cut_sub p s \<noteq> None"

lemma strip_prefix_Some [go_strings]: "strip_prefix p s = Some r \<longleftrightarrow> s = p @ r"
  by (induction p s rule: strip_prefix.induct) auto

lemma strip_prefix_append [simp]: "strip_prefix p (p @ r) = Some r"
  by (simp add: strip_prefix_Some)

lemma strip_prefix_self [simp]: "strip_prefix p p = Some []"
  by (simp add: strip_prefix_Some)

lemma strip_prefix_None: "strip_prefix p s = None \<longleftrightarrow> \<not> prefix p s"
  by (metis not_None_eq prefix_def strip_prefix_Some)

lemma has_prefix_iff [go_strings]: "has_prefix p s \<longleftrightarrow> prefix p s"
  by (metis has_prefix_def strip_prefix_None)

lemma cut_sub_Some: "cut_sub p s = Some (a, b) \<Longrightarrow> s = a @ p @ b"
  by (induction p s arbitrary: a b rule: cut_sub.induct)
    (auto simp: strip_prefix_Some split: option.splits if_splits)

lemma cut_sub_Some_length: "cut_sub p s = Some (a, b) \<Longrightarrow> length s = length a + length p + length b"
  by (drule cut_sub_Some) simp

lemma cut_sub_None: "cut_sub p s = None \<longleftrightarrow> \<not> sublist p s"
proof (induction p s rule: cut_sub.induct)
  case (1 p)
  show ?case by simp
next
  case (2 p x xs)
  show ?case
  proof (cases "strip_prefix p (x # xs)")
    case None
    then have "\<not> prefix p (x # xs)" by (simp add: strip_prefix_None)
    with None 2 show ?thesis by (auto simp: sublist_Cons_right split: option.splits)
  next
    case (Some r)
    then have "x # xs = p @ r" by (simp add: strip_prefix_Some)
    then have "sublist p (x # xs)" by (simp add: sublist_append_rightI)
    with Some show ?thesis by simp
  qed
qed

lemma contains_iff [go_strings]: "contains p s \<longleftrightarrow> sublist p s"
  by (metis contains_def cut_sub_None)

text \<open>The occurrence found is the first: none starts in what stands before it.\<close>

lemma cut_sub_first: "cut_sub p s = Some (a, b) \<Longrightarrow> s = a' @ p @ b' \<Longrightarrow> length a \<le> length a'"
proof (induction p s arbitrary: a b a' rule: cut_sub.induct)
  case (1 p)
  then show ?case by (auto split: if_splits)
next
  case (2 p x xs)
  show ?case
  proof (cases "strip_prefix p (x # xs)")
    case (Some r)
    with "2.prems"(1) show ?thesis by simp
  next
    case None
    with "2.prems"(1) obtain a1 where a: "a = x # a1" and c: "cut_sub p xs = Some (a1, b)"
      by (auto split: option.splits)
    from None "2.prems"(2) obtain a2 where a2: "a' = x # a2"
      by (cases a') (auto simp: strip_prefix_None prefix_def)
    with "2.prems"(2) have "xs = a2 @ p @ b'" by simp
    with 2 None c a a2 show ?thesis by simp
  qed
qed

lemma cut_sub_exact:
  assumes "\<And>a' b'. u @ p @ v = a' @ p @ b' \<Longrightarrow> length u \<le> length a'"
  shows "cut_sub p (u @ p @ v) = Some (u, v)"
proof -
  have "sublist p (u @ p @ v)" by (simp add: sublist_def) blast
  then obtain a b where c: "cut_sub p (u @ p @ v) = Some (a, b)"
    by (cases "cut_sub p (u @ p @ v)") (auto simp: cut_sub_None)
  then have eq: "u @ p @ v = a @ p @ b" by (rule cut_sub_Some)
  have "length a \<le> length u" using c by (rule cut_sub_first) simp
  moreover have "length u \<le> length a" using assms [OF eq] .
  ultimately have "length a = length u" by simp
  with eq show ?thesis using c by simp
qed

subsection \<open>Literals that cannot overlap themselves\<close>

text \<open>
  The sentinels of the sync client start with \<open><\<close> and hold no other, and hold no newline.
  Such a literal occurs in a concatenation cut at a \<open><\<close> or at a newline only on one side.
\<close>

lemma sublist_snoc_sep:
  assumes "d \<notin> set p"
  shows "sublist p (u @ d # v) \<longleftrightarrow> p = [] \<or> sublist p u \<or> sublist p v"
proof
  assume "sublist p (u @ d # v)"
  then consider "sublist p u" | "sublist p (d # v)"
    | xs ys where "p = xs @ ys" "suffix xs u" "prefix ys (d # v)"
    by (auto simp: sublist_append)
  then show "p = [] \<or> sublist p u \<or> sublist p v"
  proof cases
    case 2
    with assms show ?thesis by (cases p) (auto simp: sublist_Cons_right)
  next
    case 3
    with assms have "ys = []" by (cases ys) auto
    with 3 show ?thesis by (auto intro: suffix_imp_sublist)
  qed simp
next
  assume "p = [] \<or> sublist p u \<or> sublist p v"
  then show "sublist p (u @ d # v)"
    by (auto simp: sublist_append sublist_Cons_right)
qed

lemma sublist_at_head:
  assumes "c \<notin> set q"
  shows "sublist (c # q) (u @ c # v) \<longleftrightarrow> sublist (c # q) u \<or> sublist (c # q) (c # v)"
proof
  assume "sublist (c # q) (u @ c # v)"
  then consider "sublist (c # q) u" | "sublist (c # q) (c # v)"
    | xs ys where "c # q = xs @ ys" "suffix xs u" "prefix ys (c # v)"
    by (auto simp: sublist_append)
  then show "sublist (c # q) u \<or> sublist (c # q) (c # v)"
  proof cases
    case 3
    show ?thesis
    proof (cases xs)
      case Nil
      with 3 show ?thesis by (auto intro: prefix_imp_sublist)
    next
      case (Cons x xs')
      with 3 assms have "ys = []" by (cases ys) auto
      with 3 show ?thesis by (auto intro: suffix_imp_sublist)
    qed
  qed simp_all
qed (auto simp: sublist_append)

subsection \<open>Counting occurrences\<close>

text \<open>\<open>len(re.FindAllString(s, -1))\<close> for a literal pattern: occurrences that do not overlap.\<close>

function count_sub :: "'a list \<Rightarrow> 'a list \<Rightarrow> nat" where
  "count_sub p s =
     (if p = [] then 0
      else case cut_sub p s of None \<Rightarrow> 0 | Some (a, b) \<Rightarrow> Suc (count_sub p b))"
  by pat_completeness auto
termination
  by (relation "measure (\<lambda>(p, s). length s)") (auto dest!: cut_sub_Some_length)

declare count_sub.simps [simp del]

lemma count_sub_0 [go_strings]: "p \<noteq> [] \<Longrightarrow> count_sub p s = 0 \<longleftrightarrow> \<not> sublist p s"
  using cut_sub_None [of p s]
  by (subst count_sub.simps) (auto split: option.splits)

lemma cut_sub_sep_left:
  assumes "cut_sub p u = Some (a, b)"
  shows "cut_sub p (u @ v) = Some (a, b @ v)"
  using assms
proof (induction p u arbitrary: a b rule: cut_sub.induct)
  case (1 p)
  then show ?case by (cases v) (auto split: if_splits)
next
  case (2 p x xs)
  show ?case
  proof (cases "strip_prefix p (x # xs)")
    case (Some r)
    then have "x # xs @ v = p @ r @ v" by (simp add: strip_prefix_Some)
    then have "strip_prefix p (x # xs @ v) = Some (r @ v)" by (simp only: strip_prefix_Some)
    with Some 2 show ?thesis by simp
  next
    case None
    with "2.prems" obtain a1 where a: "a = x # a1" and c: "cut_sub p xs = Some (a1, b)"
      by (auto split: option.splits)
    have "strip_prefix p (x # xs @ v) = None"
    proof (rule ccontr)
      assume "strip_prefix p (x # xs @ v) \<noteq> None"
      then have pr: "prefix p ((x # xs) @ v)" by (auto simp: strip_prefix_None)
      have "length p \<le> length (x # xs)" using cut_sub_Some_length [OF c] by simp
      with pr have "prefix p (x # xs)"
        using prefix_length_prefix [of p "(x # xs) @ v" "x # xs"] by simp
      with None show False by (simp add: strip_prefix_None)
    qed
    with 2 None c a show ?thesis by simp
  qed
qed

text \<open>A literal that cannot straddle the seam is counted on each side.\<close>

lemma cut_sub_skip:
  assumes "\<not> sublist p u" and "p \<noteq> []"
    and seam: "\<And>xs ys. p = xs @ ys \<Longrightarrow> suffix xs u \<Longrightarrow> prefix ys v \<Longrightarrow> xs \<noteq> [] \<Longrightarrow> ys \<noteq> [] \<Longrightarrow> False"
  shows "cut_sub p (u @ v) = map_option (\<lambda>(a, b). (u @ a, b)) (cut_sub p v)"
  using assms(1) seam
proof (induction u)
  case Nil
  then show ?case by (cases "cut_sub p v") auto
next
  case (Cons x u)
  have np: "\<not> prefix p (x # u @ v)"
  proof
    assume "prefix p (x # u @ v)"
    then have "prefix p ((x # u) @ v)" by simp
    then consider "prefix p (x # u)" | ys where "p = (x # u) @ ys" "prefix ys v"
      unfolding prefix_append by blast
    then show False
    proof cases
      case 1
      with Cons.prems(1) show False by (meson prefix_imp_sublist)
    next
      case 2
      then have "ys \<noteq> []" using Cons.prems(1) by auto
      with 2 Cons.prems(2) [of "x # u" ys] show False by simp
    qed
  qed
  have "\<not> sublist p u" using Cons.prems(1) by (simp add: sublist_Cons_right)
  moreover have "\<And>xs ys. p = xs @ ys \<Longrightarrow> suffix xs u \<Longrightarrow> prefix ys v \<Longrightarrow> xs \<noteq> [] \<Longrightarrow> ys \<noteq> [] \<Longrightarrow> False"
    using Cons.prems(2) by (metis suffix_ConsI)
  ultimately have "cut_sub p (u @ v) = map_option (\<lambda>(a, b). (u @ a, b)) (cut_sub p v)"
    by (rule Cons.IH)
  with np show ?case by (auto simp: strip_prefix_None split: option.splits)
qed

lemma count_sub_append:
  assumes "p \<noteq> []"
    and seam: "\<And>xs ys. p = xs @ ys \<Longrightarrow> suffix xs u \<Longrightarrow> prefix ys v \<Longrightarrow> xs \<noteq> [] \<Longrightarrow> ys \<noteq> [] \<Longrightarrow> False"
  shows "count_sub p (u @ v) = count_sub p u + count_sub p v"
  using seam
proof (induction "length u" arbitrary: u rule: less_induct)
  case less
  show ?case
  proof (cases "cut_sub p u")
    case None
    then have "\<not> sublist p u" by (simp add: cut_sub_None)
    then have "cut_sub p (u @ v) = map_option (\<lambda>(a, b). (u @ a, b)) (cut_sub p v)"
      by (rule cut_sub_skip) (use assms(1) less.prems in blast)+
    then have "count_sub p (u @ v) = count_sub p v"
      by (subst (1 2) count_sub.simps) (auto split: option.splits)
    moreover have "count_sub p u = 0" using None by (subst count_sub.simps) simp
    ultimately show ?thesis by simp
  next
    case (Some ab)
    then obtain a b where c: "cut_sub p u = Some (a, b)" by (cases ab) auto
    have "suffix b u" using cut_sub_Some [OF c] by (auto simp: suffix_def)
    have "length b < length u" using cut_sub_Some_length [OF c] assms(1) by simp
    then have "count_sub p (b @ v) = count_sub p b + count_sub p v"
      by (rule less.hyps) (meson less.prems suffix_order.order_trans \<open>suffix b u\<close>)
    moreover have "count_sub p u = Suc (count_sub p b)"
      using c assms(1) by (subst count_sub.simps) simp
    moreover have "count_sub p (u @ v) = Suc (count_sub p (b @ v))"
      using cut_sub_sep_left [OF c, of v] assms(1) by (subst count_sub.simps) simp
    ultimately show ?thesis by simp
  qed
qed

lemma count_sub_sep:
  assumes "d \<notin> set p" and "p \<noteq> []"
  shows "count_sub p (u @ d # v) = count_sub p u + count_sub p v"
proof -
  have "count_sub p (u @ d # v) = count_sub p u + count_sub p (d # v)"
    by (rule count_sub_append) (use assms in \<open>auto simp: prefix_Cons\<close>)
  also have "count_sub p (d # v) = count_sub p ([d] @ v)" by simp
  also have "\<dots> = count_sub p [d] + count_sub p v"
    by (rule count_sub_append)
      (use assms in \<open>auto simp: suffix_Cons Cons_eq_append_conv\<close>)
  also have "count_sub p [d] = 0"
    using assms by (auto simp: count_sub_0 sublist_Cons_right prefix_Cons)
  finally show ?thesis by simp
qed

lemma count_sub_at_head:
  assumes "c \<notin> set q"
  shows "count_sub (c # q) (u @ c # v) = count_sub (c # q) u + count_sub (c # q) (c # v)"
  by (rule count_sub_append)
    (use assms in \<open>auto simp: prefix_Cons Cons_eq_append_conv\<close>)

lemma count_sub_self:
  assumes "p \<noteq> []"
  shows "count_sub p (p @ v) = Suc (count_sub p v)"
proof -
  have "cut_sub p (p @ v) = Some ([], v)" using assms by (cases p) auto
  then show ?thesis using assms by (subst count_sub.simps) simp
qed

subsection \<open>Trimming\<close>

text \<open>\<open>strings.TrimLeft\<close> and \<open>strings.TrimRight\<close> with a cutset.\<close>

definition trim_left :: "'a set \<Rightarrow> 'a list \<Rightarrow> 'a list" where
  "trim_left cs s = dropWhile (\<lambda>c. c \<in> cs) s"

definition trim_right :: "'a set \<Rightarrow> 'a list \<Rightarrow> 'a list" where
  "trim_right cs s = rev (dropWhile (\<lambda>c. c \<in> cs) (rev s))"

lemma trim_right_idem [simp]: "trim_right cs (trim_right cs s) = trim_right cs s"
  by (simp add: trim_right_def dropWhile_idem)

lemma trim_right_snoc: "trim_right cs (s @ [c]) = (if c \<in> cs then trim_right cs s else s @ [c])"
  by (simp add: trim_right_def)

lemma trim_right_eq: "\<exists>w. s = trim_right cs s @ w \<and> set w \<subseteq> cs"
proof -
  have "s = rev (dropWhile (\<lambda>c. c \<in> cs) (rev s)) @ rev (takeWhile (\<lambda>c. c \<in> cs) (rev s))"
    by (metis rev_append rev_rev_ident takeWhile_dropWhile_id)
  moreover have "set (rev (takeWhile (\<lambda>c. c \<in> cs) (rev s))) \<subseteq> cs"
    by (auto dest: set_takeWhileD)
  ultimately show ?thesis unfolding trim_right_def by blast
qed

lemma trim_right_append_ws: "set w \<subseteq> cs \<Longrightarrow> trim_right cs (s @ w) = trim_right cs s"
  by (induction w rule: rev_induct) (auto simp: trim_right_snoc simp flip: append_assoc)

lemma trim_right_prefix: "prefix (trim_right cs s) s"
  by (metis prefixI trim_right_eq)

lemma trim_left_suffix: "suffix (trim_left cs s) s"
  by (simp add: trim_left_def suffix_dropWhile)

lemma trim_left_idem [simp]: "trim_left cs (trim_left cs s) = trim_left cs s"
  by (simp add: trim_left_def dropWhile_idem)

lemma sublist_trim_right: "sublist p (trim_right cs s) \<Longrightarrow> sublist p s"
  by (meson prefix_imp_sublist sublist_order.order_trans trim_right_prefix)

lemma sublist_trim_left: "sublist p (trim_left cs s) \<Longrightarrow> sublist p s"
  by (meson suffix_imp_sublist sublist_order.order_trans trim_left_suffix)

subsection \<open>Splitting and joining\<close>

text \<open>\<open>strings.Split\<close> on a one-byte separator, and \<open>strings.Join\<close>.\<close>

fun split_on :: "'a \<Rightarrow> 'a list \<Rightarrow> 'a list list" where
  "split_on d [] = [[]]"
| "split_on d (c # s) =
     (if c = d then [] # split_on d s
      else case split_on d s of [] \<Rightarrow> [[c]] | w # ws \<Rightarrow> (c # w) # ws)"

fun join_with :: "'a \<Rightarrow> 'a list list \<Rightarrow> 'a list" where
  "join_with d [] = []"
| "join_with d [w] = w"
| "join_with d (w # v # ws) = w @ d # join_with d (v # ws)"

lemma split_on_ne [simp]: "split_on d s \<noteq> []"
  by (induction s) (auto split: list.splits)

lemma split_on_append: "split_on d (a @ d # b) = split_on d a @ split_on d b"
  by (induction a) (auto split: list.splits)

lemma split_on_none: "d \<notin> set w \<Longrightarrow> split_on d w = [w]"
  by (induction w) auto

lemma split_on_parts: "w \<in> set (split_on d s) \<Longrightarrow> d \<notin> set w"
  by (induction s arbitrary: w) (auto split: list.splits if_splits)

lemma split_join:
  "ws \<noteq> [] \<Longrightarrow> (\<And>w. w \<in> set ws \<Longrightarrow> d \<notin> set w) \<Longrightarrow> split_on d (join_with d ws) = ws"
  by (induction d ws rule: join_with.induct) (auto simp: split_on_none split_on_append)

lemma join_split: "join_with d (split_on d s) = s"
proof (induction s)
  case (Cons c s)
  obtain w ws where "split_on d s = w # ws" by (cases "split_on d s") auto
  with Cons show ?case by (cases ws) auto
qed simp

lemma join_append: "us \<noteq> [] \<Longrightarrow> vs \<noteq> [] \<Longrightarrow> join_with d (us @ vs) = join_with d us @ d # join_with d vs"
  by (induction d us rule: join_with.induct) (auto simp: neq_Nil_conv)

lemma join_inj:
  assumes "join_with d us = join_with d vs" "us \<noteq> []" "vs \<noteq> []"
    "\<And>w. w \<in> set us \<union> set vs \<Longrightarrow> d \<notin> set w"
  shows "us = vs"
  using assms by (metis UnI1 UnI2 split_join)

subsection \<open>The characters of a slug\<close>

definition is_lower_alnum :: "char \<Rightarrow> bool" where
  "is_lower_alnum c \<longleftrightarrow>
     (let n = (of_char c :: nat) in (97 \<le> n \<and> n \<le> 122) \<or> (48 \<le> n \<and> n \<le> 57))"

definition is_slug_char :: "char \<Rightarrow> bool" where
  "is_slug_char c \<longleftrightarrow> is_lower_alnum c \<or> c = CHR ''-''"

end
