(* ===== verification/Sha256.thy ===== *)
theory Sha256
  imports Prelude "HOL-Library.Word"
begin

unbundle bit_operations_syntax

text \<open>
  SHA-256 and hexadecimal as Go's \<open>crypto/sha256\<close> and \<open>encoding/hex\<close> compute them
  (FIPS 180-4): the hash the managed-block markers of \<open>internal/syncclient\<close> carry, and the
  digest of \<open>internal/govern/digest.go\<close>. The words are 32 bits wide and wrap.
\<close>

type_synonym w32 = "32 word"

text \<open>
  The constants are the leading 32 bits of the fractional parts of the roots of the first primes:
  square roots for the initial state, cube roots for the rounds.
\<close>

definition first_primes :: "nat list" where
  "first_primes = filter (\<lambda>n. list_all (\<lambda>d. n mod d \<noteq> 0) [2..<n]) [2..<312]"

text \<open>The largest number below \<open>2 ^ b\<close>, above \<open>r\<close>, whose \<open>k\<close>-th power is at most \<open>n\<close>, bit by bit.\<close>

fun root_below :: "nat \<Rightarrow> nat \<Rightarrow> nat \<Rightarrow> nat \<Rightarrow> nat" where
  "root_below k n 0 r = r"
| "root_below k n (Suc b) r = root_below k n b (if (r + 2 ^ b) ^ k \<le> n then r + 2 ^ b else r)"

definition root_fraction :: "nat \<Rightarrow> nat \<Rightarrow> w32" where
  "root_fraction k p = of_nat (root_below k (p * 2 ^ (32 * k)) 40 0)"

definition sha256_k :: "w32 list" where
  "sha256_k = map (root_fraction 3) first_primes"

definition sha256_init :: "w32 list" where
  "sha256_init = map (root_fraction 2) [2, 3, 5, 7, 11, 13, 17, 19]"

definition rotr32 :: "nat \<Rightarrow> w32 \<Rightarrow> w32" where
  "rotr32 n x = drop_bit n x OR push_bit (32 - n) x"

text \<open>The big-endian bytes of a number, the padding of a message, and its 512-bit blocks.\<close>

fun be_bytes :: "nat \<Rightarrow> nat \<Rightarrow> nat list" where
  "be_bytes 0 v = []"
| "be_bytes (Suc k) v = be_bytes k (v div 256) @ [v mod 256]"

definition sha256_pad :: "nat list \<Rightarrow> nat list" where
  "sha256_pad m =
     m @ [128] @ replicate ((119 - length m mod 64) mod 64) 0 @ be_bytes 8 ((8 * length m) mod 2 ^ 64)"

fun be_words :: "nat list \<Rightarrow> w32 list" where
  "be_words (a # b # c # d # r) =
     of_nat (((a * 256 + b) * 256 + c) * 256 + d) # be_words r"
| "be_words _ = []"

text \<open>The message schedule, kept newest word first while it grows.\<close>

fun sha256_extend :: "nat \<Rightarrow> w32 list \<Rightarrow> w32 list" where
  "sha256_extend 0 w = w"
| "sha256_extend (Suc k) w =
     (let a = w ! 14; b = w ! 1;
          s0 = rotr32 7 a XOR rotr32 18 a XOR drop_bit 3 a;
          s1 = rotr32 17 b XOR rotr32 19 b XOR drop_bit 10 b
      in sha256_extend k ((w ! 15 + s0 + w ! 6 + s1) # w))"

fun sha256_round :: "w32 list \<Rightarrow> w32 \<times> w32 \<Rightarrow> w32 list" where
  "sha256_round [a, b, c, d, e, f, g, h] (k, w) =
     (let s1 = rotr32 6 e XOR rotr32 11 e XOR rotr32 25 e;
          ch = (e AND f) XOR (NOT e AND g);
          t1 = h + s1 + ch + k + w;
          s0 = rotr32 2 a XOR rotr32 13 a XOR rotr32 22 a;
          maj = (a AND b) XOR (a AND c) XOR (b AND c)
      in [t1 + s0 + maj, a, b, c, d + t1, e, f, g])"
| "sha256_round st _ = st"

definition sha256_block :: "w32 list \<Rightarrow> w32 list \<Rightarrow> w32 list" where
  "sha256_block h ws =
     map2 (+) h (foldl sha256_round h (zip sha256_k (rev (sha256_extend 48 (rev ws)))))"

function sha256_blocks :: "w32 list \<Rightarrow> w32 list \<Rightarrow> w32 list" where
  "sha256_blocks h ws =
     (if length ws < 16 then h else sha256_blocks (sha256_block h (take 16 ws)) (drop 16 ws))"
  by pat_completeness auto
termination
  by (relation "measure (\<lambda>(h, ws). length ws)") auto

declare sha256_blocks.simps [simp del]

definition sha256_sum :: "bytes \<Rightarrow> nat list" where
  "sha256_sum m =
     concat (map (\<lambda>w. be_bytes 4 (unat w))
       (sha256_blocks sha256_init (be_words (sha256_pad (map of_char m)))))"

subsection \<open>\<open>encoding/hex\<close>\<close>

definition hex_digit :: "nat \<Rightarrow> char" where
  "hex_digit n = ''0123456789abcdef'' ! (n mod 16)"

definition hex_encode :: "nat list \<Rightarrow> string" where
  "hex_encode bs = concat (map (\<lambda>b. [hex_digit (b div 16), hex_digit b]) bs)"

definition is_lhex :: "char \<Rightarrow> bool" where
  "is_lhex c \<longleftrightarrow> c \<in> set ''0123456789abcdef''"

lemma hex_digit_lhex [simp]: "is_lhex (hex_digit n)"
proof -
  have "n mod 16 < length ''0123456789abcdef''" by simp
  then show ?thesis unfolding is_lhex_def hex_digit_def by (rule nth_mem)
qed

lemma hex_encode_lhex: "c \<in> set (hex_encode bs) \<Longrightarrow> is_lhex c"
  by (auto simp: hex_encode_def)

lemma length_hex_encode: "length (hex_encode bs) = 2 * length bs"
  by (induction bs) (auto simp: hex_encode_def)

lemma length_be_bytes [simp]: "length (be_bytes k v) = k"
  by (induction k arbitrary: v) auto

lemma length_sha256_round: "length st = 8 \<Longrightarrow> length (sha256_round st kw) = 8"
  by (induction st kw rule: sha256_round.induct) (auto simp: Let_def)

lemma length_foldl_round: "length st = 8 \<Longrightarrow> length (foldl sha256_round st kws) = 8"
  by (induction kws arbitrary: st) (auto simp: length_sha256_round)

lemma length_sha256_blocks: "length h = 8 \<Longrightarrow> length (sha256_blocks h ws) = 8"
proof (induction h ws rule: sha256_blocks.induct)
  case (1 h ws)
  then show ?case
    by (subst sha256_blocks.simps) (simp add: sha256_block_def length_foldl_round)
qed

text \<open>The digest has 32 bytes whatever the message is.\<close>

lemma length_sha256_sum: "length (sha256_sum m) = 32"
proof -
  have "length (concat (map (\<lambda>w. be_bytes 4 (unat w)) ws)) = 4 * length ws" for ws :: "w32 list"
    by (induction ws) auto
  then show ?thesis
    by (simp add: sha256_sum_def length_sha256_blocks sha256_init_def)
qed

end
