(* ===== verification/Blocks.thy ===== *)
theory Blocks
  imports Sha256
begin

text \<open>
  The managed-block engine that \<open>internal/syncclient/rules.go\<close> and \<open>seed.go\<close> share: a
  block is a BEGIN marker that carries the first 12 hex digits of the SHA-256 of its body, the
  body, and an END marker. Both files build the same regular expression,
  \<^verbatim>\<open>(?s)<begin> sha=([0-9a-f]{12}) [^\n]*\n(.*?)<end>\n?\<close>, and differ in the markers only, so the
  matcher takes the two marker literals. The locale states what the proofs need of a pair of
  markers; the rules and the seeds interpret it.
\<close>

subsection \<open>The hash in the marker\<close>

definition trim_nl :: "bytes \<Rightarrow> bytes" where
  "trim_nl s = trim_right {nl} s"

definition body_hash :: "bytes \<Rightarrow> string" where
  "body_hash body = take 12 (hex_encode (sha256_sum (trim_nl body)))"

lemma trim_nl_simps [simp]:
  "trim_nl [] = []" "trim_nl (trim_nl s) = trim_nl s"
  "trim_nl (s @ [nl]) = trim_nl s" "trim_nl (s @ [nl, nl]) = trim_nl s"
  using trim_right_append_ws [of "[nl, nl]" "{nl}" s]
  by (simp_all add: trim_nl_def trim_right_snoc) (simp add: trim_right_def)

lemma body_hash_trim [simp]: "body_hash (trim_nl s) = body_hash s"
  by (simp add: body_hash_def)

lemma body_hash_snoc [simp]: "body_hash (s @ [nl]) = body_hash s"
  by (simp add: body_hash_def)

lemma length_body_hash [simp]: "length (body_hash s) = 12"
  by (simp add: body_hash_def length_hex_encode length_sha256_sum)

lemma body_hash_lhex: "list_all is_lhex (body_hash s)"
  by (auto simp: body_hash_def list_all_iff dest!: in_set_takeD hex_encode_lhex)

subsection \<open>The block regular expression\<close>

definition sha_tag :: string where
  "sha_tag = ''sha=''"

fun strip_opt_nl :: "bytes \<Rightarrow> bytes" where
  "strip_opt_nl (c # s) = (if c = nl then s else c # s)"
| "strip_opt_nl [] = []"

text \<open>
  A match that starts here: the captured hash, the captured body, and what follows the match.
  Each part of the expression has one possible length: \<^verbatim>\<open>[^\n]*\n\<close> runs to the first newline and
  \<^verbatim>\<open>(.*?)<end>\<close> to the first END.
\<close>

definition block_here :: "string \<Rightarrow> string \<Rightarrow> bytes \<Rightarrow> (string \<times> bytes \<times> bytes) option" where
  "block_here bm em s =
     (case strip_prefix (bm @ sha_tag) s of
        None \<Rightarrow> None
      | Some s1 \<Rightarrow>
          if length (take 12 s1) = 12 \<and> list_all is_lhex (take 12 s1) then
            (case strip_prefix '' '' (drop 12 s1) of
               None \<Rightarrow> None
             | Some s2 \<Rightarrow>
                 (case cut_sub [nl] s2 of
                    None \<Rightarrow> None
                  | Some (hdr, s3) \<Rightarrow>
                      (case cut_sub em s3 of
                         None \<Rightarrow> None
                       | Some (body, s4) \<Rightarrow> Some (take 12 s1, body, strip_opt_nl s4))))
          else None)"

text \<open>The leftmost match: what stands before it, hash, body, what follows.\<close>

fun find_block :: "string \<Rightarrow> string \<Rightarrow> bytes \<Rightarrow> (bytes \<times> string \<times> bytes \<times> bytes) option" where
  "find_block bm em [] =
     (case block_here bm em [] of None \<Rightarrow> None | Some (h, b, r) \<Rightarrow> Some ([], h, b, r))"
| "find_block bm em (c # s) =
     (case block_here bm em (c # s) of
        Some (h, b, r) \<Rightarrow> Some ([], h, b, r)
      | None \<Rightarrow>
          (case find_block bm em s of
             None \<Rightarrow> None
           | Some (pre, h, b, r) \<Rightarrow> Some (c # pre, h, b, r)))"

lemma strip_opt_nl_decomp: "\<exists>w. s = w @ strip_opt_nl s \<and> (w = [] \<or> w = [nl])"
  by (cases s) auto

lemma length_strip_opt_nl: "length (strip_opt_nl s) \<le> length s"
  by (cases s) auto

lemma block_here_Some:
  assumes "block_here bm em s = Some (h, b, r)"
  obtains hdr w where
    "s = bm @ sha_tag @ h @ '' '' @ hdr @ nl # b @ em @ w @ r" "w = [] \<or> w = [nl]"
    "nl \<notin> set hdr" "length h = 12" "list_all is_lhex h" "cut_sub em (b @ em @ w @ r) = Some (b, w @ r)"
proof -
  from assms obtain s1 s2 hdr s3 s4 where
    s: "s = bm @ sha_tag @ s1" and len: "12 \<le> length s1" and hex: "list_all is_lhex (take 12 s1)"
    and s2: "drop 12 s1 = '' '' @ s2" and cn: "cut_sub [nl] s2 = Some (hdr, s3)"
    and ce: "cut_sub em s3 = Some (b, s4)" and h: "h = take 12 s1" and r: "r = strip_opt_nl s4"
    by (auto simp: block_here_def strip_prefix_Some split: option.splits if_splits)
  obtain w where w: "s4 = w @ r" "w = [] \<or> w = [nl]"
    using strip_opt_nl_decomp [of s4] r by blast
  have s3: "s3 = b @ em @ s4" by (rule cut_sub_Some [OF ce])
  have s2': "s2 = hdr @ nl # s3" using cut_sub_Some [OF cn] by simp
  have "nl \<notin> set hdr"
  proof
    assume "nl \<in> set hdr"
    then obtain a c where "hdr = a @ nl # c" by (meson split_list)
    then have "s2 = a @ [nl] @ (c @ nl # s3)" using s2' by simp
    from cut_sub_first [OF cn this] show False using \<open>hdr = a @ nl # c\<close> by simp
  qed
  moreover have "s1 = h @ '' '' @ s2" using s2 h by (metis append_take_drop_id)
  ultimately show thesis
    using that [of hdr w] s s2' s3 w len hex h ce by simp
qed

lemma block_here_prefix: "block_here bm em s \<noteq> None \<Longrightarrow> prefix bm s"
  by (auto simp: block_here_def strip_prefix_Some prefix_def split: option.splits)

lemma block_here_exact:
  assumes "length h = 12" "list_all is_lhex h" "nl \<notin> set hdr"
    and "cut_sub em (b @ em @ w @ r) = Some (b, w @ r)" "w = [nl] \<or> w = [] \<and> strip_opt_nl r = r"
  shows "block_here bm em (bm @ sha_tag @ h @ '' '' @ hdr @ nl # b @ em @ w @ r) = Some (h, b, r)"
proof -
  have "cut_sub [nl] (hdr @ [nl] @ (b @ em @ w @ r)) = Some (hdr, b @ em @ w @ r)"
  proof (rule cut_sub_exact)
    fix a' b'
    assume "hdr @ [nl] @ b @ em @ w @ r = a' @ [nl] @ b'"
    then show "length hdr \<le> length a'"
      using assms(3) by (auto simp: append_eq_append_conv2 Cons_eq_append_conv append_eq_Cons_conv)
  qed
  then have cn: "cut_sub [nl] (hdr @ nl # b @ em @ w @ r) = Some (hdr, b @ em @ w @ r)" by simp
  have "strip_prefix (bm @ sha_tag) (bm @ sha_tag @ h @ '' '' @ hdr @ nl # b @ em @ w @ r)
      = Some (h @ '' '' @ hdr @ nl # b @ em @ w @ r)"
    by (simp add: strip_prefix_Some)
  moreover have "strip_opt_nl (w @ r) = r" using assms(5) by auto
  ultimately show ?thesis
    using assms cn by (simp add: block_here_def)
qed

lemma find_block_Some:
  assumes "find_block bm em s = Some (pre, h, b, r)"
  shows "\<exists>s'. s = pre @ s' \<and> block_here bm em s' = Some (h, b, r)"
  using assms
proof (induction s arbitrary: pre)
  case (Cons c s)
  show ?case
  proof (cases "block_here bm em (c # s)")
    case None
    with Cons.prems obtain pre' where "pre = c # pre'" "find_block bm em s = Some (pre', h, b, r)"
      by (auto split: option.splits)
    with Cons.IH [of pre'] show ?thesis by auto
  next
    case (Some x)
    with Cons.prems show ?thesis by (auto split: prod.splits)
  qed
qed (auto split: option.splits)

lemma find_block_shorter:
  assumes "find_block bm em s = Some (pre, h, b, r)"
  shows "length pre + length r < length s"
proof -
  from find_block_Some [OF assms] obtain s' where s': "s = pre @ s'" "block_here bm em s' = Some (h, b, r)"
    by blast
  from s'(2) show ?thesis using s'(1) by (auto elim!: block_here_Some)
qed

lemma find_block_none: "\<not> sublist bm s \<Longrightarrow> find_block bm em s = None"
proof (induction s)
  case Nil
  then show ?case using block_here_prefix [of bm em "[]"] by (auto split: option.splits)
next
  case (Cons c s)
  then have "block_here bm em (c # s) = None"
    using block_here_prefix [of bm em "c # s"] by (meson prefix_imp_sublist)
  with Cons show ?case by (auto simp: sublist_Cons_right)
qed

text \<open>Two texts without markers hold no block when they are joined: it would need both at the seam.\<close>

lemma find_block_join:
  assumes "\<not> sublist bm u" "\<not> sublist em v"
  shows "find_block bm em (u @ v) = None"
proof (rule ccontr)
  assume "find_block bm em (u @ v) \<noteq> None"
  then obtain pre h b r where f: "find_block bm em (u @ v) = Some (pre, h, b, r)" by auto
  from find_block_Some [OF f] obtain s' where s': "u @ v = pre @ s'" "block_here bm em s' = Some (h, b, r)"
    by blast
  from s'(2) obtain hdr w where "s' = bm @ sha_tag @ h @ '' '' @ hdr @ nl # b @ em @ w @ r"
    by (rule block_here_Some) blast
  then have "s' = bm @ (sha_tag @ h @ '' '' @ hdr @ nl # b) @ em @ (w @ r)" by simp
  then obtain x y where "s' = bm @ x @ em @ y" by blast
  with s'(1) have "u @ v = (pre @ bm @ x) @ em @ y" by simp
  then consider us where "u = (pre @ bm @ x) @ us" | us where "v = us @ em @ y"
    unfolding append_eq_append_conv2 [of u v "pre @ bm @ x"] by blast
  then show False
  proof cases
    case 1
    then have "u = pre @ bm @ (x @ us)" by simp
    with assms(1) show False by (auto simp: sublist_def)
  next
    case 2
    with assms(2) show False by (auto simp: sublist_def)
  qed
qed

text \<open>\<open>len(rulesBlockRe.FindAllString(s, -1))\<close>: the matches that do not overlap.\<close>

function count_blocks :: "string \<Rightarrow> string \<Rightarrow> bytes \<Rightarrow> nat" where
  "count_blocks bm em s =
     (case find_block bm em s of None \<Rightarrow> 0 | Some (pre, h, b, r) \<Rightarrow> Suc (count_blocks bm em r))"
  by pat_completeness auto
termination
  by (relation "measure (\<lambda>(bm, em, s). length s)") (auto dest!: find_block_shorter)

declare count_blocks.simps [simp del]

text \<open>
  \<open>rulesMarkersHealthy\<close> and \<open>seedMarkersHealthy\<close>: at most one block, and no BEGIN and no
  END beside it. \<open>bm\<close> is the literal both the BEGIN expression and the block expression
  start with.
\<close>

definition markers_healthy :: "string \<Rightarrow> string \<Rightarrow> bytes \<Rightarrow> bool" where
  "markers_healthy bm em s =
     (let begins = count_sub bm s; ends = count_sub em s; blocks = count_blocks bm em s
      in blocks \<le> 1 \<and> begins = blocks \<and> ends = blocks)"

text \<open>The text \<open>renderRulesBlock\<close> and \<open>renderSeedBlock\<close> print: \<open>note\<close> is the rest of the header line.\<close>

definition render_block :: "string \<Rightarrow> string \<Rightarrow> bytes \<Rightarrow> bytes \<Rightarrow> bytes" where
  "render_block bm em note body =
     bm @ sha_tag @ body_hash body @ '' '' @ note @ nl # trim_nl body @ nl # em @ [nl]"

subsection \<open>Markers that hold one \<open><\<close>, at their start\<close>

definition lt_marker :: "string \<Rightarrow> bool" where
  "lt_marker p \<longleftrightarrow> (\<exists>q. p = CHR ''<'' # q \<and> CHR ''<'' \<notin> set q) \<and> nl \<notin> set p"

lemma lt_marker_ne [simp]: "lt_marker p \<Longrightarrow> p \<noteq> []"
  by (auto simp: lt_marker_def)

lemma lt_marker_nl [simp]: "lt_marker p \<Longrightarrow> nl \<notin> set p"
  by (simp add: lt_marker_def)

lemma lt_sublist_nl [simp]:
  "lt_marker p \<Longrightarrow> sublist p (u @ nl # v) \<longleftrightarrow> sublist p u \<or> sublist p v"
  using sublist_snoc_sep [of nl p u v] lt_marker_ne by auto

lemma lt_count_nl: "lt_marker p \<Longrightarrow> count_sub p (u @ nl # v) = count_sub p u + count_sub p v"
  by (rule count_sub_sep) simp_all

lemma lt_sublist_at:
  assumes "lt_marker p" "lt_marker m"
  shows "sublist p (u @ m @ v) \<longleftrightarrow> sublist p u \<or> sublist p (m @ v)"
  using assms sublist_at_head unfolding lt_marker_def by (metis append_Cons)

lemma lt_count_at:
  assumes "lt_marker p" "lt_marker m"
  shows "count_sub p (u @ m @ v) = count_sub p u + count_sub p (m @ v)"
  using assms count_sub_at_head unfolding lt_marker_def by (metis append_Cons)

lemma count_sub_Cons: "\<not> prefix p (x # xs) \<Longrightarrow> count_sub p (x # xs) = count_sub p xs"
  by (subst (1 2) count_sub.simps)
    (auto simp: strip_prefix_None [symmetric] split: option.splits)

lemma lt_count_skip: "lt_marker p \<Longrightarrow> CHR ''<'' \<notin> set w \<Longrightarrow> count_sub p (w @ v) = count_sub p v"
proof (induction w)
  case (Cons x w)
  then have "\<not> prefix p (x # w @ v)" by (auto simp: lt_marker_def)
  with Cons show ?case by (simp add: count_sub_Cons)
qed simp

lemma lt_count_other:
  assumes "lt_marker p" "lt_marker m" "\<not> prefix p (m @ v)"
  shows "count_sub p (m @ v) = count_sub p v"
proof -
  from assms(2) obtain q where q: "m = CHR ''<'' # q" "CHR ''<'' \<notin> set q" by (auto simp: lt_marker_def)
  with assms have "count_sub p (m @ v) = count_sub p (q @ v)" by (simp add: count_sub_Cons)
  with assms(1) q show ?thesis by (simp add: lt_count_skip)
qed

lemma lt_no_sublist: "lt_marker p \<Longrightarrow> CHR ''<'' \<notin> set w \<Longrightarrow> \<not> sublist p w"
  using set_mono_sublist by (fastforce simp: lt_marker_def)

lemma lt_count_none [simp]: "lt_marker p \<Longrightarrow> CHR ''<'' \<notin> set w \<Longrightarrow> count_sub p w = 0"
  using lt_count_skip [of p w "[]"] by (simp add: count_sub.simps)

lemma lt_cut_skip:
  assumes "lt_marker p" "lt_marker m" "\<not> sublist p u"
  shows "cut_sub p (u @ m @ v) = map_option (\<lambda>(a, b). (u @ a, b)) (cut_sub p (m @ v))"
proof (rule cut_sub_skip [OF assms(3)])
  show "p \<noteq> []" using assms(1) by simp
next
  fix xs ys assume "p = xs @ ys" "prefix ys (m @ v)" "xs \<noteq> []" "ys \<noteq> []"
  with assms(1,2) show False
    by (cases ys; cases xs) (auto simp: lt_marker_def)
qed

lemma find_block_skip:
  assumes "lt_marker bm" "lt_marker m" "\<not> sublist bm u"
  shows "find_block bm em (u @ m @ v) =
    map_option (\<lambda>(pre, h, b, r). (u @ pre, h, b, r)) (find_block bm em (m @ v))"
  using assms(3)
proof (induction u)
  case Nil
  then show ?case by (cases "find_block bm em (m @ v)") auto
next
  case (Cons x u)
  have "sublist bm (x # u @ m @ v) \<longleftrightarrow> sublist bm (x # u) \<or> sublist bm (m @ v)"
    using lt_sublist_at [OF assms(1,2), of "x # u" v] by simp
  have "\<not> prefix bm (x # u @ m @ v)"
  proof
    assume "prefix bm (x # u @ m @ v)"
    then have "prefix bm ((x # u) @ m @ v)" by simp
    then consider "prefix bm (x # u)" | ys where "bm = (x # u) @ ys" "prefix ys (m @ v)"
      unfolding prefix_append by blast
    then show False
    proof cases
      case 1
      with Cons.prems show False by (meson prefix_imp_sublist)
    next
      case 2
      with assms(1,2) Cons.prems show False by (cases ys) (auto simp: lt_marker_def)
    qed
  qed
  then have "block_here bm em (x # u @ m @ v) = None" using block_here_prefix by blast
  with Cons show ?case by (auto simp: sublist_Cons_right split: option.splits)
qed

subsection \<open>The contract of a pair of markers\<close>

lemma lhex_not_lt: "list_all is_lhex h \<Longrightarrow> CHR ''<'' \<notin> set h"
proof
  assume "list_all is_lhex h" "CHR ''<'' \<in> set h"
  then have "is_lhex CHR ''<''" by (simp add: list_all_iff)
  then show False by (simp add: is_lhex_def)
qed

text \<open>A body or a file that holds neither marker.\<close>

definition marker_free :: "string \<Rightarrow> string \<Rightarrow> bytes \<Rightarrow> bool" where
  "marker_free bm em s \<longleftrightarrow> \<not> contains bm s \<and> \<not> contains em s"

definition plain_note :: "bytes \<Rightarrow> bool" where
  "plain_note n \<longleftrightarrow> CHR ''<'' \<notin> set n \<and> nl \<notin> set n"

text \<open>
  \<open>bm k\<close> and \<open>em k\<close> are the markers of kind \<open>k\<close>: one kind for the rules, one per artifact
  name for the seeds.
\<close>

locale managed_markers =
  fixes bm em :: "'k \<Rightarrow> string" and ok :: "'k \<Rightarrow> bool"
  assumes bm_lt [simp]: "ok k \<Longrightarrow> lt_marker (bm k)"
    and em_lt [simp]: "ok k \<Longrightarrow> lt_marker (em k)"
    and apart: "ok k \<Longrightarrow> \<not> prefix (bm k) (em k) \<and> \<not> prefix (em k) (bm k)"
begin

lemma bm_not_at_em: "ok k \<Longrightarrow> \<not> prefix (bm k) (em k @ v)"
  by (metis apart prefix_same_cases prefixI)

lemma em_not_at_bm: "ok k \<Longrightarrow> \<not> prefix (em k) (bm k @ v)"
  by (metis apart prefix_same_cases prefixI)

lemma count_bm_em [simp]: "ok k \<Longrightarrow> count_sub (bm k) (em k @ v) = count_sub (bm k) v"
  by (simp add: lt_count_other bm_not_at_em)

lemma count_em_bm [simp]: "ok k \<Longrightarrow> count_sub (em k) (bm k @ v) = count_sub (em k) v"
  by (simp add: lt_count_other em_not_at_bm)

lemma count_zero: "ok k \<Longrightarrow> marker_free (bm k) (em k) s \<longleftrightarrow>
    count_sub (bm k) s = 0 \<and> count_sub (em k) s = 0"
  by (simp add: marker_free_def contains_iff count_sub_0)

lemma free_healthy:
  assumes "ok k" "marker_free (bm k) (em k) s"
  shows "markers_healthy (bm k) (em k) s"
proof -
  have "find_block (bm k) (em k) s = None"
    using assms by (auto simp: marker_free_def contains_iff intro: find_block_none)
  then have "count_blocks (bm k) (em k) s = 0" by (subst count_blocks.simps) simp
  with assms show ?thesis by (simp add: markers_healthy_def Let_def count_zero)
qed

text \<open>What a match is made of, counted marker by marker.\<close>

lemma count_bm_match:
  assumes "ok k" "w = [] \<or> w = [nl]" "nl \<notin> set hdr" "list_all is_lhex h"
  shows "count_sub (bm k) (pre @ bm k @ sha_tag @ h @ '' '' @ hdr @ nl # b @ em k @ w @ r) =
    Suc (count_sub (bm k) pre + count_sub (bm k) hdr + count_sub (bm k) b + count_sub (bm k) r)"
proof -
  have lt: "CHR ''<'' \<notin> set (sha_tag @ h @ '' '')"
    using lhex_not_lt [OF assms(4)] by (simp add: sha_tag_def)
  have h1: "count_sub (bm k) (sha_tag @ h @ '' '' @ hdr) = count_sub (bm k) hdr"
    using lt_count_skip [OF bm_lt [OF assms(1)] lt] by simp
  have h2: "count_sub (bm k) (w @ r) = count_sub (bm k) r"
    using assms(1,2) by (intro lt_count_skip) auto
  have "count_sub (bm k) (pre @ bm k @ sha_tag @ h @ '' '' @ hdr @ nl # b @ em k @ w @ r) =
      count_sub (bm k) pre + Suc (count_sub (bm k) ((sha_tag @ h @ '' '' @ hdr) @ nl # b @ em k @ w @ r))"
    using assms(1) by (simp add: lt_count_at count_sub_self)
  also have "count_sub (bm k) ((sha_tag @ h @ '' '' @ hdr) @ nl # b @ em k @ w @ r) =
      count_sub (bm k) (sha_tag @ h @ '' '' @ hdr) + count_sub (bm k) (b @ em k @ w @ r)"
    using assms(1) by (intro lt_count_nl) simp
  also have "count_sub (bm k) (b @ em k @ w @ r) = count_sub (bm k) b + count_sub (bm k) (w @ r)"
    using assms(1) by (simp add: lt_count_at)
  finally show ?thesis using h1 h2 by simp
qed

lemma count_em_match:
  assumes "ok k" "w = [] \<or> w = [nl]" "nl \<notin> set hdr" "list_all is_lhex h"
  shows "count_sub (em k) (pre @ bm k @ sha_tag @ h @ '' '' @ hdr @ nl # b @ em k @ w @ r) =
    Suc (count_sub (em k) pre + count_sub (em k) hdr + count_sub (em k) b + count_sub (em k) r)"
proof -
  have lt: "CHR ''<'' \<notin> set (sha_tag @ h @ '' '')"
    using lhex_not_lt [OF assms(4)] by (simp add: sha_tag_def)
  have h1: "count_sub (em k) (sha_tag @ h @ '' '' @ hdr) = count_sub (em k) hdr"
    using lt_count_skip [OF em_lt [OF assms(1)] lt] by simp
  have h2: "count_sub (em k) (w @ r) = count_sub (em k) r"
    using assms(1,2) by (intro lt_count_skip) auto
  have "count_sub (em k) (pre @ bm k @ sha_tag @ h @ '' '' @ hdr @ nl # b @ em k @ w @ r) =
      count_sub (em k) pre + count_sub (em k) ((sha_tag @ h @ '' '' @ hdr) @ nl # b @ em k @ w @ r)"
    using assms(1) by (simp add: lt_count_at)
  also have "count_sub (em k) ((sha_tag @ h @ '' '' @ hdr) @ nl # b @ em k @ w @ r) =
      count_sub (em k) (sha_tag @ h @ '' '' @ hdr) + count_sub (em k) (b @ em k @ w @ r)"
    using assms(1) by (intro lt_count_nl) simp
  also have "count_sub (em k) (b @ em k @ w @ r) = Suc (count_sub (em k) b + count_sub (em k) (w @ r))"
    using assms(1) by (simp add: lt_count_at count_sub_self)
  finally show ?thesis using h1 h2 by simp
qed

text \<open>A healthy file: no marker outside the one block, none at all where there is no block.\<close>

lemma healthy_none:
  assumes "ok k" "markers_healthy (bm k) (em k) s" "find_block (bm k) (em k) s = None"
  shows "marker_free (bm k) (em k) s"
proof -
  have "count_blocks (bm k) (em k) s = 0" using assms(3) by (subst count_blocks.simps) simp
  with assms show ?thesis by (simp add: markers_healthy_def Let_def count_zero)
qed

lemma healthy_block:
  assumes "ok k" "markers_healthy (bm k) (em k) s" "find_block (bm k) (em k) s = Some (pre, h, b, r)"
  shows "marker_free (bm k) (em k) pre \<and> marker_free (bm k) (em k) b \<and> marker_free (bm k) (em k) r"
proof -
  from find_block_Some [OF assms(3)] obtain s' where
    s': "s = pre @ s'" "block_here (bm k) (em k) s' = Some (h, b, r)" by blast
  from s'(2) obtain hdr w where m:
    "s' = bm k @ sha_tag @ h @ '' '' @ hdr @ nl # b @ em k @ w @ r" "w = [] \<or> w = [nl]"
    "nl \<notin> set hdr" "list_all is_lhex h"
    by (rule block_here_Some) blast
  have "count_sub (bm k) s \<le> 1" "count_sub (em k) s \<le> 1"
    using assms(2) by (auto simp: markers_healthy_def Let_def)
  moreover have "s = pre @ bm k @ sha_tag @ h @ '' '' @ hdr @ nl # b @ em k @ w @ r"
    using s'(1) m(1) by simp
  ultimately show ?thesis
    using count_bm_match [OF assms(1) m(2-4), of pre b r]
      count_em_match [OF assms(1) m(2-4), of pre b r] assms(1)
    by (simp add: count_zero)
qed

text \<open>Finding the block the client has just written, and the health of the written file.\<close>

lemma find_rendered:
  assumes k: "ok k" and pre: "\<not> contains (bm k) pre" and body: "\<not> contains (em k) body"
    and note': "plain_note note"
  shows "find_block (bm k) (em k) (pre @ render_block (bm k) (em k) note body @ r) =
    Some (pre, body_hash body, trim_nl body @ [nl], r)"
proof -
  have "\<not> sublist (em k) (trim_nl body)"
    using body by (auto simp: contains_iff trim_nl_def dest: sublist_trim_right)
  then have b: "\<not> sublist (em k) (trim_nl body @ [nl])"
    using lt_sublist_nl [OF em_lt [OF k], of "trim_nl body" "[]"] k by simp
  have "cut_sub (em k) ((trim_nl body @ [nl]) @ em k @ [nl] @ r) =
      map_option (\<lambda>(a, c). ((trim_nl body @ [nl]) @ a, c)) (cut_sub (em k) (em k @ [nl] @ r))"
    by (rule lt_cut_skip) (use k b in auto)
  also have "cut_sub (em k) (em k @ [nl] @ r) = Some ([], [nl] @ r)"
    by (rule cut_sub_exact [of "[]", simplified])
  finally have "cut_sub (em k) ((trim_nl body @ [nl]) @ em k @ [nl] @ r) =
      Some (trim_nl body @ [nl], [nl] @ r)" by simp
  then have "block_here (bm k) (em k)
      (bm k @ sha_tag @ body_hash body @ '' '' @ note @ nl # (trim_nl body @ [nl]) @ em k @ [nl] @ r) =
      Some (body_hash body, trim_nl body @ [nl], r)"
    by (intro block_here_exact) (use note' body_hash_lhex in \<open>auto simp: plain_note_def\<close>)
  then have bh: "block_here (bm k) (em k) (render_block (bm k) (em k) note body @ r) =
      Some (body_hash body, trim_nl body @ [nl], r)"
    by (simp add: render_block_def)
  then have "find_block (bm k) (em k) (render_block (bm k) (em k) note body @ r) =
      Some ([], body_hash body, trim_nl body @ [nl], r)"
    by (cases "render_block (bm k) (em k) note body @ r") simp_all
  moreover have "\<exists>v. render_block (bm k) (em k) note body @ r = bm k @ v"
    by (simp add: render_block_def)
  ultimately show ?thesis
    using find_block_skip [OF bm_lt [OF k] bm_lt [OF k], of pre] pre
    by (auto simp: contains_iff)
qed

lemma rendered_healthy:
  assumes k: "ok k" and free: "marker_free (bm k) (em k) pre" "marker_free (bm k) (em k) body"
    "marker_free (bm k) (em k) r" and note': "plain_note note"
  shows "markers_healthy (bm k) (em k) (pre @ render_block (bm k) (em k) note body @ r)"
proof -
  let ?s = "pre @ render_block (bm k) (em k) note body @ r"
  have s: "?s = pre @ bm k @ sha_tag @ body_hash body @ '' '' @ note @ nl # (trim_nl body @ [nl])
      @ em k @ [nl] @ r"
    by (simp add: render_block_def)
  have "marker_free (bm k) (em k) (trim_nl body)"
    using free(2) by (auto simp: marker_free_def contains_iff trim_nl_def dest: sublist_trim_right)
  then have cb: "count_sub (bm k) (trim_nl body @ [nl]) = 0" "count_sub (em k) (trim_nl body @ [nl]) = 0"
    using k lt_count_nl [of "bm k" "trim_nl body" "[]"] lt_count_nl [of "em k" "trim_nl body" "[]"]
    by (simp_all add: count_zero)
  have cn: "count_sub (bm k) note = 0" "count_sub (em k) note = 0" "nl \<notin> set note"
    using k note' by (simp_all add: plain_note_def)
  have "count_sub (bm k) ?s = 1" "count_sub (em k) ?s = 1"
    unfolding s using k free cb cn
      count_bm_match [OF k disjI2 [OF refl] cn(3) body_hash_lhex, of pre body "trim_nl body @ [nl]" r]
      count_em_match [OF k disjI2 [OF refl] cn(3) body_hash_lhex, of pre body "trim_nl body @ [nl]" r]
    by (simp_all add: count_zero)
  moreover have "count_blocks (bm k) (em k) ?s = 1"
  proof -
    have "find_block (bm k) (em k) r = None"
      using free(3) by (intro find_block_none) (simp add: marker_free_def contains_iff)
    then have "count_blocks (bm k) (em k) r = 0" by (subst count_blocks.simps) simp
    moreover have "find_block (bm k) (em k) ?s = Some (pre, body_hash body, trim_nl body @ [nl], r)"
      using k free note' by (intro find_rendered) (auto simp: marker_free_def)
    ultimately show ?thesis by (subst count_blocks.simps) simp
  qed
  ultimately show ?thesis by (simp add: markers_healthy_def)
qed

end

end
