(* ===== verification/SyncTypes.thy ===== *)
theory SyncTypes
  imports Blocks
begin

text \<open>
  The data the sync client works on (\<open>internal/syncclient/api.go\<close>, \<open>reconcile.go\<close>): the
  artifact the server serves, the applied record, the slug rule on names, and the fatal and
  non-fatal errors of \<open>errors.go\<close>.
\<close>

record artifact =
  art_id :: string
  art_revision :: int
  art_type :: string
  art_name :: string
  art_content :: bytes
  art_memory_scope :: string
  art_memory_seed :: bytes
  art_target_tags :: "string list"
  art_rule_scope :: string
  art_oldest_servable :: int
  art_latest :: int
  art_pin_override :: string

record applied_artifact =
  ap_id :: string
  ap_revision :: int

text \<open>A \<open>fatalError\<close> aborts the whole run; any other error is recorded and the run goes on.\<close>

datatype sync_error = Fatal string | Plain string

fun isFatal :: "sync_error \<Rightarrow> bool" where
  "isFatal (Fatal _) = True"
| "isFatal (Plain _) = False"

fun markFatal :: "sync_error \<Rightarrow> sync_error" where
  "markFatal (Fatal m) = Fatal m"
| "markFatal (Plain m) = Fatal m"

subsection \<open>\<open>artifactNameRe\<close>: \<^verbatim>\<open>^[a-z0-9][a-z0-9-]*$\<close>\<close>

fun artifactNameRe :: "string \<Rightarrow> bool" where
  "artifactNameRe [] = False"
| "artifactNameRe (c # s) = (is_lower_alnum c \<and> list_all is_slug_char s)"

lemma slug_chars: "artifactNameRe s \<Longrightarrow> c \<in> set s \<Longrightarrow> is_slug_char c"
  by (cases s) (auto simp: list_all_iff is_slug_char_def)

lemma slug_not_special:
  assumes "artifactNameRe s"
  shows "CHR ''<'' \<notin> set s" "nl \<notin> set s" "CHR '' '' \<notin> set s" "CHR ''/'' \<notin> set s" "CHR ''.'' \<notin> set s"
  using slug_chars [OF assms] by (fastforce simp: is_slug_char_def is_lower_alnum_def)+

lemma slug_nonempty: "artifactNameRe s \<Longrightarrow> s \<noteq> []"
  by auto

text \<open>\<open>appendApplied\<close>: an artifact the server did not identify is dropped.\<close>

definition appendApplied :: "applied_artifact list \<Rightarrow> string \<Rightarrow> int \<Rightarrow> applied_artifact list" where
  "appendApplied dst i rv =
     (if i = '''' then dst else dst @ [\<lparr>ap_id = i, ap_revision = rv\<rparr>])"

lemma appendApplied_known: "a \<in> set (appendApplied dst i rv) \<Longrightarrow> a \<in> set dst \<or> ap_id a \<noteq> ''''"
  by (auto simp: appendApplied_def split: if_splits)

end
