(* ===== verification/GoPath.thy ===== *)
theory GoPath
  imports SyncTypes
begin

text \<open>
  The lexical part of Go's \<open>path/filepath\<close> on Unix (\<open>Clean\<close>, \<open>Join\<close>, \<open>Base\<close>, \<open>Dir\<close>,
  \<open>IsAbs\<close>, \<open>Rel\<close>, \<open>Ext\<close>) and the path checks of the sync client built on it:
  \<open>resolveContained\<close>, \<open>rooted.rel\<close> and the shape checks of the four ledgers.
\<close>

subsection \<open>\<open>filepath\<close>\<close>

abbreviation slash :: char where "slash \<equiv> CHR ''/''"

text \<open>One component met by \<open>Clean\<close>; the components kept so far are in reverse order.\<close>

fun clean_step :: "bool \<Rightarrow> string \<Rightarrow> string list \<Rightarrow> string list" where
  "clean_step rooted c acc =
     (if c = '''' \<or> c = ''.'' then acc
      else if c = ''..'' then
        (case acc of
           [] \<Rightarrow> if rooted then [] else [''..'']
         | a # acc' \<Rightarrow> if a = ''..'' then ''..'' # acc else acc')
      else c # acc)"

definition clean_comps :: "bool \<Rightarrow> string list \<Rightarrow> string list" where
  "clean_comps rooted cs = rev (fold (clean_step rooted) cs [])"

fun IsAbs :: "string \<Rightarrow> bool" where
  "IsAbs [] = False"
| "IsAbs (c # s) = (c = slash)"

definition Clean :: "string \<Rightarrow> string" where
  "Clean p =
     (let body = join_with slash (clean_comps (IsAbs p) (split_on slash p)) in
      if IsAbs p then slash # body else if body = [] then ''.'' else body)"

definition Join :: "string list \<Rightarrow> string" where
  "Join es =
     (let ne = filter (\<lambda>e. e \<noteq> []) es in if ne = [] then [] else Clean (join_with slash ne))"

definition Base :: "string \<Rightarrow> string" where
  "Base p =
     (if p = [] then ''.''
      else let t = trim_right {slash} p in if t = [] then [slash] else last (split_on slash t))"

definition Dirname :: "string \<Rightarrow> string" where
  "Dirname p = Clean (rev (dropWhile (\<lambda>c. c \<noteq> slash) (rev p)))"

definition Ext :: "string \<Rightarrow> string" where
  "Ext p =
     (let t = takeWhile (\<lambda>c. c \<noteq> CHR ''.'' \<and> c \<noteq> slash) (rev p) in
      case drop (length t) (rev p) of
        [] \<Rightarrow> []
      | d # _ \<Rightarrow> if d = CHR ''.'' then d # rev t else [])"

definition TrimSuffix :: "string \<Rightarrow> string \<Rightarrow> string" where
  "TrimSuffix s suf = (case strip_prefix (rev suf) (rev s) of None \<Rightarrow> s | Some r \<Rightarrow> rev r)"

fun drop_common :: "'a list \<Rightarrow> 'a list \<Rightarrow> 'a list \<times> 'a list" where
  "drop_common (a # as) (b # bs) = (if a = b then drop_common as bs else (a # as, b # bs))"
| "drop_common as bs = (as, bs)"

definition Rel :: "string \<Rightarrow> string \<Rightarrow> string option" where
  "Rel basepath targpath =
     (if Clean basepath = Clean targpath then Some ''.''
      else if IsAbs basepath \<noteq> IsAbs targpath then None
      else
        case drop_common (clean_comps (IsAbs basepath) (split_on slash basepath))
               (clean_comps (IsAbs targpath) (split_on slash targpath)) of
          (bs, ts) \<Rightarrow>
            if bs \<noteq> [] \<and> hd bs = ''..'' then None
            else Some (join_with slash (map (\<lambda>_. ''..'') bs @ ts)))"

subsection \<open>Components of absolute paths\<close>

text \<open>Where an absolute path points in the file tree, component by component.\<close>

definition pcomps :: "string \<Rightarrow> string list" where
  "pcomps p = clean_comps True (split_on slash p)"

definition plain_comp :: "string \<Rightarrow> bool" where
  "plain_comp c \<longleftrightarrow> c \<noteq> '''' \<and> c \<noteq> ''.'' \<and> c \<noteq> ''..'' \<and> slash \<notin> set c"

definition abs_path :: "string list \<Rightarrow> string" where
  "abs_path cs = slash # join_with slash cs"

lemma fold_clean_plain:
  "list_all plain_comp cs \<Longrightarrow> fold (clean_step r) cs acc = rev cs @ acc"
  by (induction cs arbitrary: acc) (auto simp: plain_comp_def)

lemma clean_step_plain:
  assumes "list_all plain_comp acc" "slash \<notin> set c"
  shows "list_all plain_comp (clean_step True c acc)"
  using assms by (cases acc) (auto simp: plain_comp_def)

lemma fold_clean_keeps:
  "list_all plain_comp acc \<Longrightarrow> (\<And>c. c \<in> set cs \<Longrightarrow> slash \<notin> set c) \<Longrightarrow>
   list_all plain_comp (fold (clean_step True) cs acc)"
proof (induction cs arbitrary: acc)
  case (Cons c cs)
  then have "list_all plain_comp (clean_step True c acc)" by (intro clean_step_plain) auto
  with Cons show ?case by (simp del: clean_step.simps)
qed simp

lemma pcomps_plain: "list_all plain_comp (pcomps p)"
  unfolding pcomps_def clean_comps_def list_all_rev
  by (intro fold_clean_keeps) (auto dest: split_on_parts)

lemma plain_no_slash: "list_all plain_comp cs \<Longrightarrow> w \<in> set cs \<Longrightarrow> slash \<notin> set w"
  by (auto simp: list_all_iff plain_comp_def)

lemma pcomps_append:
  "pcomps (p @ slash # q) = rev (fold (clean_step True) (split_on slash q) (rev (pcomps p)))"
  by (simp add: pcomps_def clean_comps_def split_on_append del: clean_step.simps)

lemma split_abs_path:
  assumes "list_all plain_comp cs"
  shows "split_on slash (abs_path cs) = '''' # (if cs = [] then [''''] else cs)"
  using split_join [of cs slash] plain_no_slash [OF assms]
  by (auto simp: abs_path_def)

lemma pcomps_abs_path: "list_all plain_comp cs \<Longrightarrow> pcomps (abs_path cs) = cs"
  by (auto simp: pcomps_def clean_comps_def split_abs_path fold_clean_plain)

lemma IsAbs_abs_path [simp]: "IsAbs (abs_path cs)"
  by (simp add: abs_path_def)

lemma Clean_abs: "IsAbs p \<Longrightarrow> Clean p = abs_path (pcomps p)"
  by (simp add: Clean_def abs_path_def pcomps_def Let_def)

lemma Clean_abs_path: "list_all plain_comp cs \<Longrightarrow> Clean (abs_path cs) = abs_path cs"
  by (simp add: Clean_abs pcomps_abs_path)

lemma pcomps_Clean [simp]: "IsAbs p \<Longrightarrow> pcomps (Clean p) = pcomps p"
  by (simp add: Clean_abs pcomps_abs_path pcomps_plain)

lemma IsAbs_Clean [simp]: "IsAbs p \<Longrightarrow> IsAbs (Clean p)"
  by (simp add: Clean_abs)

lemma Clean_idem [simp]: "IsAbs p \<Longrightarrow> Clean (Clean p) = Clean p"
  by (simp add: Clean_abs pcomps_abs_path pcomps_plain)

lemma abs_path_inj:
  assumes "abs_path cs = abs_path ds" "list_all plain_comp cs" "list_all plain_comp ds"
  shows "cs = ds"
  using assms pcomps_abs_path by metis

lemma Clean_eq_iff: "IsAbs p \<Longrightarrow> IsAbs q \<Longrightarrow> Clean p = Clean q \<longleftrightarrow> pcomps p = pcomps q"
  using abs_path_inj pcomps_plain by (auto simp: Clean_abs)

lemma abs_path_append:
  "cs \<noteq> [] \<Longrightarrow> ds \<noteq> [] \<Longrightarrow> abs_path (cs @ ds) = abs_path cs @ slash # join_with slash ds"
  by (simp add: abs_path_def join_append)

subsection \<open>\<open>Join\<close> and \<open>Rel\<close> beneath a boundary\<close>

lemma IsAbs_append: "IsAbs p \<Longrightarrow> IsAbs (p @ q)"
  by (cases p) auto

lemma Join_abs:
  assumes "IsAbs d" "r \<noteq> []"
  shows "Join [d, r] = abs_path (rev (fold (clean_step True) (split_on slash r) (rev (pcomps d))))"
proof -
  have "d \<noteq> []" using assms(1) by auto
  with assms have "Join [d, r] = Clean (d @ slash # r)" by (simp add: Join_def)
  also have "\<dots> = abs_path (pcomps (d @ slash # r))"
    using assms(1) by (intro Clean_abs IsAbs_append)
  finally show ?thesis by (simp only: pcomps_append)
qed

lemma join_plain_ne: "list_all plain_comp cs \<Longrightarrow> cs \<noteq> [] \<Longrightarrow> join_with slash cs \<noteq> []"
  by (cases "(slash, cs)" rule: join_with.cases) (auto simp: plain_comp_def)

lemma split_join_plain: "list_all plain_comp cs \<Longrightarrow> cs \<noteq> [] \<Longrightarrow> split_on slash (join_with slash cs) = cs"
  using split_join [of cs slash] plain_no_slash [of cs] by blast

lemma Join_plain:
  assumes "IsAbs d" "cs \<noteq> []" "list_all plain_comp cs"
  shows "Join [d, join_with slash cs] = abs_path (pcomps d @ cs)"
  using Join_abs [OF assms(1) join_plain_ne [OF assms(3,2)]]
  by (simp only: split_join_plain [OF assms(3,2)] fold_clean_plain [OF assms(3)]) simp

lemma pcomps_Join_plain:
  assumes "IsAbs d" "cs \<noteq> []" "list_all plain_comp cs"
  shows "pcomps (Join [d, join_with slash cs]) = pcomps d @ cs"
  using assms by (simp add: Join_plain pcomps_abs_path pcomps_plain)

lemma drop_common_append [simp]: "drop_common cs (cs @ ds) = ([], ds)"
  by (induction cs) (cases ds; simp)+

lemma drop_common_spec:
  "drop_common as bs = (x, y) \<Longrightarrow> \<exists>c. as = c @ x \<and> bs = c @ y \<and> (x = [] \<or> y = [] \<or> hd x \<noteq> hd y)"
proof (induction as bs arbitrary: x y rule: drop_common.induct)
  case (1 a as b bs)
  show ?case
  proof (cases "a = b")
    case True
    with 1 obtain c where "as = c @ x \<and> bs = c @ y \<and> (x = [] \<or> y = [] \<or> hd x \<noteq> hd y)" by auto
    with True show ?thesis by (intro exI [of _ "a # c"]) simp
  next
    case False
    with 1 show ?thesis by auto
  qed
qed auto

lemma Rel_abs:
  assumes "IsAbs d" "IsAbs p"
  shows "Rel d p =
    (if pcomps d = pcomps p then Some ''.''
     else case drop_common (pcomps d) (pcomps p) of
       (bs, ts) \<Rightarrow> Some (join_with slash (map (\<lambda>_. ''..'') bs @ ts)))"
proof -
  have "hd bs \<noteq> ''..''" if "drop_common (pcomps d) (pcomps p) = (bs, ts)" "bs \<noteq> []" for bs ts
  proof -
    from drop_common_spec [OF that(1)] obtain c where "pcomps d = c @ bs" by auto
    with that(2) pcomps_plain [of d] show ?thesis by (cases bs) (auto simp: plain_comp_def)
  qed
  then show ?thesis
    using assms by (auto simp: Rel_def Clean_eq_iff simp flip: pcomps_def split: prod.splits)
qed

lemma Rel_beneath:
  assumes "IsAbs d" "list_all plain_comp cs" "cs \<noteq> []"
  shows "Rel d (abs_path (pcomps d @ cs)) = Some (join_with slash cs)"
  using assms by (simp add: Rel_abs pcomps_abs_path pcomps_plain)

subsection \<open>\<open>rooted.rel\<close> and \<open>resolveContained\<close>\<close>

text \<open>\<open>rooted.rel\<close> for the boundary \<open>dir\<close>; \<open>None\<close> is its error.\<close>

definition rooted_rel :: "string \<Rightarrow> string \<Rightarrow> string option" where
  "rooted_rel dir path =
     (case Rel dir path of
        None \<Rightarrow> None
      | Some rel \<Rightarrow> if rel = ''..'' \<or> has_prefix ''../'' rel then None else Some rel)"

definition resolveContained :: "string \<Rightarrow> string \<Rightarrow> sync_error + string" where
  "resolveContained claudeDir rel =
     (let full = Join [claudeDir, rel]; cleanDir = Clean claudeDir in
      if full \<noteq> cleanDir \<and> \<not> has_prefix (cleanDir @ [slash]) full
      then Inl (Fatal ''reconcile: path escapes the sync root'') else Inr full)"

lemma dotdot_prefix:
  assumes "bs \<noteq> []"
  shows "join_with slash (map (\<lambda>_. ''..'') bs @ ts) = ''..'' \<or>
    has_prefix ''../'' (join_with slash (map (\<lambda>_. ''..'') bs @ ts))"
  using assms by (cases bs; cases "map (\<lambda>_. ''..'') (tl bs) @ ts") (auto simp: has_prefix_def)

lemma plain_join_not_dotdot:
  assumes "list_all plain_comp cs" "cs \<noteq> []"
  shows "join_with slash cs \<noteq> ''..'' \<and> \<not> has_prefix ''../'' (join_with slash cs)"
proof -
  note s = split_join_plain [OF assms]
  have "split_on slash (''..'' @ slash # r) = ''..'' # split_on slash r" for r
    by (simp only: split_on_append) simp
  then have "join_with slash cs \<noteq> ''..'' @ slash # r" for r
    using s assms by (cases cs) (auto simp: plain_comp_def)
  moreover have "join_with slash cs \<noteq> ''..''"
  proof
    assume "join_with slash cs = ''..''"
    with s have "cs = [''..'']" by simp
    with assms(1) show False by (simp add: plain_comp_def)
  qed
  ultimately show ?thesis by (auto simp: has_prefix_iff prefix_def)
qed

text \<open>\<open>rel\<close> accepts a path exactly when its components extend those of the boundary.\<close>

lemma rooted_rel_iff:
  assumes "IsAbs d" "IsAbs p"
  shows "rooted_rel d p \<noteq> None \<longleftrightarrow> prefix (pcomps d) (pcomps p)"
proof (cases "drop_common (pcomps d) (pcomps p)")
  case (Pair bs ts)
  from drop_common_spec [OF Pair] obtain c where c: "pcomps d = c @ bs" "pcomps p = c @ ts"
    "bs = [] \<or> ts = [] \<or> hd bs \<noteq> hd ts" by blast
  show ?thesis
  proof (cases "bs = []")
    case True
    have "list_all plain_comp ts" using pcomps_plain [of p] c(2) by simp
    then have "ts \<noteq> [] \<Longrightarrow> rooted_rel d p = Some (join_with slash ts)"
      using plain_join_not_dotdot [of ts] Pair c True assms
      by (simp add: rooted_rel_def Rel_abs)
    moreover have "ts = [] \<Longrightarrow> rooted_rel d p = Some ''.''"
      using c True assms by (simp add: rooted_rel_def Rel_abs has_prefix_def)
    ultimately show ?thesis using c True by auto
  next
    case False
    then have "rooted_rel d p = None"
      using c Pair assms dotdot_prefix [OF False, of ts]
      by (auto simp: rooted_rel_def Rel_abs)
    moreover have "\<not> prefix (pcomps d) (pcomps p)"
      using c False by (cases bs; cases ts) (auto simp: prefix_def)
    ultimately show ?thesis by simp
  qed
qed

lemma rooted_rel_beneath:
  assumes "IsAbs d" "list_all plain_comp cs" "cs \<noteq> []"
  shows "rooted_rel d (abs_path (pcomps d @ cs)) = Some (join_with slash cs)"
  using assms plain_join_not_dotdot [OF assms(2,3)] by (simp add: rooted_rel_def Rel_beneath)

lemma abs_path_prefix_iff:
  assumes "list_all plain_comp cs" "list_all plain_comp ds" "cs \<noteq> []"
  shows "has_prefix (abs_path cs @ [slash]) (abs_path ds) \<longleftrightarrow> strict_prefix cs ds"
proof
  assume "has_prefix (abs_path cs @ [slash]) (abs_path ds)"
  then obtain r where r: "abs_path ds = abs_path cs @ slash # r" by (auto simp: has_prefix_iff prefix_def)
  have "split_on slash (abs_path ds) = split_on slash (abs_path cs) @ split_on slash r"
    by (simp only: r split_on_append)
  with assms have "(if ds = [] then [''''] else ds) = cs @ split_on slash r"
    by (simp add: split_abs_path)
  moreover have "split_on slash r \<noteq> []" by simp
  ultimately show "strict_prefix cs ds"
    using assms(3) by (cases "ds = []") (auto simp: append_eq_Cons_conv Cons_eq_append_conv strict_prefix_def)
next
  assume "strict_prefix cs ds"
  then obtain x xs where "ds = cs @ x # xs" by (auto elim: strict_prefixE')
  with assms(3) show "has_prefix (abs_path cs @ [slash]) (abs_path ds)"
    by (simp add: abs_path_append has_prefix_iff)
qed

text \<open>
  \<open>resolveContained\<close> answers for a boundary other than the root directory: what it accepts
  lies at or below the boundary, component by component, however \<^verbatim>\<open>..\<close> and \<^verbatim>\<open>.\<close> are spelled.
\<close>

lemma resolveContained_iff:
  assumes "IsAbs d" "pcomps d \<noteq> []" "r \<noteq> []"
  shows "resolveContained d r =
    (if prefix (pcomps d) (pcomps (Join [d, r])) then Inr (abs_path (pcomps (Join [d, r])))
     else Inl (Fatal ''reconcile: path escapes the sync root''))"
proof -
  define cs where "cs = rev (fold (clean_step True) (split_on slash r) (rev (pcomps d)))"
  have plain: "list_all plain_comp cs"
    unfolding cs_def list_all_rev
    by (rule fold_clean_keeps) (use pcomps_plain [of d] in \<open>auto dest: split_on_parts\<close>)
  have j: "Join [d, r] = abs_path cs" unfolding cs_def using assms(1,3) by (rule Join_abs)
  have p: "pcomps (Join [d, r]) = cs" using j plain by (simp add: pcomps_abs_path)
  have "Join [d, r] = Clean d \<longleftrightarrow> cs = pcomps d"
    using abs_path_inj [OF _ plain pcomps_plain] assms(1) j by (auto simp: Clean_abs)
  moreover have "has_prefix (Clean d @ [slash]) (Join [d, r]) \<longleftrightarrow> strict_prefix (pcomps d) cs"
    using abs_path_prefix_iff [OF pcomps_plain plain assms(2)] assms(1) j by (simp add: Clean_abs)
  ultimately show ?thesis
    using j p by (auto simp: resolveContained_def Let_def strict_prefix_def)
qed

lemma resolveContained_plain:
  assumes "IsAbs d" "pcomps d \<noteq> []" "cs \<noteq> []" "list_all plain_comp cs"
  shows "resolveContained d (join_with slash cs) = Inr (abs_path (pcomps d @ cs))"
  using assms join_plain_ne [OF assms(4,3)]
  by (simp add: resolveContained_iff pcomps_Join_plain)

end
