(* ===== verification/ShapeChecks.thy ===== *)
theory ShapeChecks
  imports GoPath
begin

text \<open>
  What the sync client accepts from its own ledgers before it acts on an entry: the table of
  file-backed artifact types and the shape checks of \<open>reconcile.go\<close>, \<open>seed.go\<close>,
  \<open>rules.go\<close> and \<open>rules_global.go\<close>, and the choice of a containment root among the
  roots the run was handed.
\<close>

subsection \<open>The file-backed types\<close>

definition fileBackedTypes :: "(string \<times> (string \<Rightarrow> string)) list" where
  "fileBackedTypes =
     [(''skill'', \<lambda>n. ''skills/'' @ n @ ''/SKILL.md''),
      (''subagent'', \<lambda>n. ''agents/'' @ n @ ''.md'')]"

definition validManagedFilePath :: "string \<Rightarrow> bool" where
  "validManagedFilePath rel \<longleftrightarrow>
     list_ex (\<lambda>seg.
       list_ex (\<lambda>name.
         artifactNameRe name \<and> list_ex (\<lambda>(t, pathFn). pathFn name = rel) fileBackedTypes)
       [seg, TrimSuffix seg (Ext seg)])
     (split_on slash rel)"

definition validRulesPath :: "string \<Rightarrow> bool" where
  "validRulesPath p \<longleftrightarrow> IsAbs p \<and> p = Clean p"

definition validGlobalRulesPath :: "string \<Rightarrow> bool" where
  "validGlobalRulesPath p \<longleftrightarrow>
     (if \<not> IsAbs p \<or> p \<noteq> Clean p then False else Base p \<in> {''CLAUDE.md'', ''AGENTS.md''})"

definition validSeedPath :: "string \<Rightarrow> bool" where
  "validSeedPath p \<longleftrightarrow>
     (if \<not> IsAbs p \<or> Base p \<noteq> ''MEMORY.md'' then False
      else let dir = Dirname p in
        if \<not> artifactNameRe (Base dir) then False
        else Base (Dirname dir) = ''agent-memory'')"

subsection \<open>Containment roots\<close>

fun trusted_loop :: "string list \<Rightarrow> string \<Rightarrow> string \<Rightarrow> string" where
  "trusted_loop [] p best = best"
| "trusted_loop (root # roots) p best =
     (if p \<noteq> root \<and> \<not> has_prefix (root @ [slash]) p then trusted_loop roots p best
      else if length best < length root then trusted_loop roots p root
      else trusted_loop roots p best)"

definition trustedSeedBoundary :: "string list \<Rightarrow> string \<Rightarrow> string \<times> bool" where
  "trustedSeedBoundary trusted p =
     (let best = trusted_loop trusted p [] in (best, best \<noteq> []))"

definition seedProjectGuess :: "string \<Rightarrow> string \<Rightarrow> string" where
  "seedProjectGuess claudeDir p =
     (let cd = Clean claudeDir in
      if p = cd \<or> has_prefix (cd @ [slash]) p then cd
      else Dirname (Dirname (Dirname (Dirname p))))"

subsection \<open>Lemmas\<close>

lemma slug_plain: "artifactNameRe n \<Longrightarrow> plain_comp n"
  using slug_not_special(4,5) [of n] slug_nonempty [of n] by (auto simp: plain_comp_def)

lemma slug_append_plain:
  "artifactNameRe n \<Longrightarrow> slash \<notin> set s \<Longrightarrow> plain_comp (n @ s)"
  using slug_not_special(4,5) [of n] slug_nonempty [of n]
  by (cases n) (auto simp: plain_comp_def)

text \<open>The two shapes as component lists.\<close>

lemma skill_path: "''skills/'' @ n @ ''/SKILL.md'' = join_with slash [''skills'', n, ''SKILL.md'']"
  by simp

lemma agent_path: "''agents/'' @ n @ ''.md'' = join_with slash [''agents'', n @ ''.md'']"
  by simp

lemma skill_plain: "artifactNameRe n \<Longrightarrow> list_all plain_comp [''skills'', n, ''SKILL.md'']"
  by (simp add: slug_plain) (simp add: plain_comp_def)

lemma agent_plain: "artifactNameRe n \<Longrightarrow> list_all plain_comp [''agents'', n @ ''.md'']"
  by (simp add: slug_append_plain) (simp add: plain_comp_def)

lemma Ext_md:
  assumes "artifactNameRe n"
  shows "TrimSuffix (n @ ''.md'') (Ext (n @ ''.md'')) = n"
  by (simp add: Ext_def TrimSuffix_def)

lemma fileBacked_valid:
  assumes "artifactNameRe n"
  shows "validManagedFilePath (''skills/'' @ n @ ''/SKILL.md'')"
    "validManagedFilePath (''agents/'' @ n @ ''.md'')"
proof -
  show "validManagedFilePath (''skills/'' @ n @ ''/SKILL.md'')"
    using assms split_join_plain [OF skill_plain [OF assms]]
    by (simp add: validManagedFilePath_def fileBackedTypes_def)
  show "validManagedFilePath (''agents/'' @ n @ ''.md'')"
    using assms split_join_plain [OF agent_plain [OF assms]] Ext_md [OF assms]
    by (simp add: validManagedFilePath_def fileBackedTypes_def)
qed

text \<open>A rendered path of a file-backed type is one of two shapes, and both stay in the root.\<close>

lemma fileBacked_shape:
  assumes "map_of fileBackedTypes t = Some f" "artifactNameRe n"
  obtains cs where "f n = join_with slash cs" "cs \<noteq> []" "list_all plain_comp cs" "validManagedFilePath (f n)"
proof -
  from assms(1) consider "f = (\<lambda>n. ''skills/'' @ n @ ''/SKILL.md'')" | "f = (\<lambda>n. ''agents/'' @ n @ ''.md'')"
    by (auto simp: fileBackedTypes_def split: if_splits)
  then show thesis
  proof cases
    case 1
    then show thesis
      using that [of "[''skills'', n, ''SKILL.md'']"] fileBacked_valid [OF assms(2)] skill_plain [OF assms(2)]
      by simp
  next
    case 2
    then show thesis
      using that [of "[''agents'', n @ ''.md'']"] fileBacked_valid [OF assms(2)] agent_plain [OF assms(2)]
      by simp
  qed
qed

text \<open>
  The removal loop acts on a ledger entry only if this client could have written it: the
  shape check accepts a path exactly when it is \<open>skills/<slug>/SKILL.md\<close> or
  \<open>agents/<slug>.md\<close>, so a tampered ledger can name no other file of the sync root.
\<close>

theorem validManagedFilePath_iff:
  "validManagedFilePath rel \<longleftrightarrow>
     (\<exists>n. artifactNameRe n \<and> (rel = ''skills/'' @ n @ ''/SKILL.md'' \<or> rel = ''agents/'' @ n @ ''.md''))"
proof
  assume "validManagedFilePath rel"
  then obtain n where "artifactNameRe n" "list_ex (\<lambda>(t, pathFn). pathFn n = rel) fileBackedTypes"
    unfolding validManagedFilePath_def by (auto simp: list_ex_iff)
  then show "\<exists>n. artifactNameRe n \<and> (rel = ''skills/'' @ n @ ''/SKILL.md'' \<or> rel = ''agents/'' @ n @ ''.md'')"
    by (intro exI [of _ n]) (auto simp: fileBackedTypes_def)
qed (use fileBacked_valid in blast)

lemma trusted_loop_cases:
  "trusted_loop roots p best = b \<Longrightarrow>
   (b = best \<or> (b \<in> set roots \<and> (p = b \<or> has_prefix (b @ [slash]) p))) \<and> length best \<le> length b \<and>
   (\<forall>r \<in> set roots. p = r \<or> has_prefix (r @ [slash]) p \<longrightarrow> length r \<le> length b)"
  by (induction roots p best rule: trusted_loop.induct) (auto split: if_splits)

text \<open>
  The containment root of a ledgered seed path is never derived from the untrusted path: it
  is one of the roots the run was handed, an ancestor of the path or the path itself, and the
  longest such root; where no such root exists, the choice fails and the file is left alone.
\<close>

theorem trustedSeedBoundary_spec:
  "(case trustedSeedBoundary trusted p of (b, ok) \<Rightarrow>
      (ok \<longleftrightarrow> (\<exists>r \<in> set trusted. r \<noteq> [] \<and> (p = r \<or> has_prefix (r @ [slash]) p))) \<and>
      (ok \<longrightarrow> b \<in> set trusted \<and> (p = b \<or> has_prefix (b @ [slash]) p) \<and>
         (\<forall>r \<in> set trusted. p = r \<or> has_prefix (r @ [slash]) p \<longrightarrow> length r \<le> length b)))"
proof -
  let ?b = "trusted_loop trusted p []"
  have b: "?b = [] \<or> (?b \<in> set trusted \<and> (p = ?b \<or> has_prefix (?b @ [slash]) p))"
    "\<forall>r \<in> set trusted. p = r \<or> has_prefix (r @ [slash]) p \<longrightarrow> length r \<le> length ?b"
    using trusted_loop_cases [of trusted p "[]" ?b] by auto
  have "?b \<noteq> []" if "r \<in> set trusted" "r \<noteq> []" "p = r \<or> has_prefix (r @ [slash]) p" for r
    using that b(2) by fastforce
  with b show ?thesis
    unfolding trustedSeedBoundary_def Let_def prod.case by blast
qed

theorem trustedSeedBoundary_spec_witness:
  "trustedSeedBoundary [''/home/u/.claude'', ''/home/u/p''] ''/home/u/p/.claude/agent-memory/x/MEMORY.md''
     = (''/home/u/p'', True) \<and>
   (''/home/u/p'' \<in> set [''/home/u/.claude'', ''/home/u/p''])"
proof -
  have e: "trustedSeedBoundary [''/home/u/.claude'', ''/home/u/p''] ''/home/u/p/.claude/agent-memory/x/MEMORY.md''
     = (''/home/u/p'', True)"
    by (simp add: trustedSeedBoundary_def has_prefix_def)
  show ?thesis
    using trustedSeedBoundary_spec [of "[''/home/u/.claude'', ''/home/u/p'']"
        "''/home/u/p/.claude/agent-memory/x/MEMORY.md''"]
    unfolding e by simp
qed

end
