(* ===== verification/FileSystem.thy ===== *)
theory FileSystem
  imports ShapeChecks "HOL-Library.AList"
begin

text \<open>
  The file system the sync client runs on and its containment layer
  (\<open>internal/syncclient/contained.go\<close>, \<open>plan.go\<close>). A tree is an association list from
  component paths to files, directories and symbolic links; path resolution follows links the
  way \<open>os.Root\<close> does inside a boundary and the way plain \<open>os\<close> calls do outside one. The
  operating system may refuse any operation on any path; which ones is a parameter. The
  standard library's JSON codec of the manifest is a parameter as well.
\<close>

subsection \<open>State and environment\<close>

type_synonym path = "string list"

datatype node = File bytes nat | Dir | Link string

datatype ioerr = NotExist | Exists | NotDir | IsDir | NotEmpty | Escapes | TooManyLinks | Refused

datatype io_op =
  OpStat | OpRead | OpOpenRoot | OpList | OpMkdir | OpTemp | OpWrite | OpChmod | OpSync | OpClose
  | OpRename | OpRemove

text \<open>\<open>manifest\<close> of \<open>reconcile.go\<close>: the four ledgers; \<open>Seeds\<close> is a Go map.\<close>

record manifest =
  mf_files :: "string list"
  mf_seeds :: "(string \<times> string list) list"
  mf_rules :: "string list"
  mf_globals :: "string list"

definition empty_manifest :: manifest where
  "empty_manifest = \<lparr>mf_files = [], mf_seeds = [], mf_rules = [], mf_globals = []\<rparr>"

text \<open>
  \<open>range_order\<close> is the order in which a Go \<open>range\<close> visits the keys of a map;
  \<open>temp_suffix\<close> is what \<open>randSuffix\<close> returns.
\<close>

record env =
  refuses :: "io_op \<Rightarrow> path \<Rightarrow> bool"
  link_budget :: nat
  temp_suffix :: string
  home_dir :: "string option"
  range_order :: "string list \<Rightarrow> string list"
  json_marshal :: "manifest \<Rightarrow> bytes"
  json_unmarshal :: "bytes \<Rightarrow> manifest option"

datatype Op = OpCreate | OpOverwrite | OpRemoved

record change =
  ch_path :: string
  ch_op :: Op

text \<open>\<open>plan\<close> is the \<open>*Plan\<close> every call of a run passes on: \<open>None\<close> is the real write path.\<close>

record world =
  nodes :: "(path \<times> node) list"
  plan :: "change list option"

definition look :: "world \<Rightarrow> path \<Rightarrow> node option" where
  "look w p = (if p = [] then Some Dir else map_of (nodes w) p)"

definition set_node :: "path \<Rightarrow> node \<Rightarrow> world \<Rightarrow> world" where
  "set_node p nd w = w\<lparr>nodes := AList.update p nd (nodes w)\<rparr>"

definition del_node :: "path \<Rightarrow> world \<Rightarrow> world" where
  "del_node p w = w\<lparr>nodes := AList.delete p (nodes w)\<rparr>"

definition dir_entries :: "world \<Rightarrow> path \<Rightarrow> string list" where
  "dir_entries w d = map last (filter (\<lambda>q. q \<noteq> [] \<and> butlast q = d) (map fst (nodes w)))"

subsection \<open>\<open>Plan\<close>\<close>

definition active :: "world \<Rightarrow> bool" where
  "active w \<longleftrightarrow> plan w \<noteq> None"

definition recordWrite :: "string \<Rightarrow> bool \<Rightarrow> world \<Rightarrow> world" where
  "recordWrite p create w =
     w\<lparr>plan := map_option (\<lambda>cs. cs @ [\<lparr>ch_path = p, ch_op = (if create then OpCreate else OpOverwrite)\<rparr>]) (plan w)\<rparr>"

definition recordRemove :: "string \<Rightarrow> world \<Rightarrow> world" where
  "recordRemove p w = w\<lparr>plan := map_option (\<lambda>cs. cs @ [\<lparr>ch_path = p, ch_op = OpRemoved\<rparr>]) (plan w)\<rparr>"

subsection \<open>Resolution\<close>

text \<open>
  \<open>base\<close> is \<open>Some b\<close> beneath an \<open>os.Root\<close> opened at \<open>b\<close>: a \<^verbatim>\<open>..\<close> out of \<open>b\<close> and every
  absolute link fail. \<open>n\<close> bounds the number of links followed.
\<close>

function walk :: "world \<Rightarrow> path option \<Rightarrow> nat \<Rightarrow> path \<Rightarrow> string list \<Rightarrow> ioerr + path" where
  "walk w base n d [] = Inr d"
| "walk w base n d (c # cs) =
     (if c = '''' \<or> c = ''.'' then walk w base n d cs
      else if c = ''..'' then (if base = Some d then Inl Escapes else walk w base n (butlast d) cs)
      else case look w (d @ [c]) of
          None \<Rightarrow> if cs = [] then Inr (d @ [c]) else Inl NotExist
        | Some Dir \<Rightarrow> walk w base n (d @ [c]) cs
        | Some (File _ _) \<Rightarrow> if cs = [] then Inr (d @ [c]) else Inl NotDir
        | Some (Link t) \<Rightarrow>
            (case n of
               0 \<Rightarrow> Inl TooManyLinks
             | Suc m \<Rightarrow>
                 if IsAbs t
                 then (if base \<noteq> None then Inl Escapes else walk w base m [] (split_on slash t @ cs))
                 else walk w base m d (split_on slash t @ cs)))"
  by pat_completeness auto
termination
  by (relation "measures [\<lambda>(w, base, n, d, cs). n, \<lambda>(w, base, n, d, cs). length cs]") auto

declare walk.simps [simp del]

lemma look_set_node [simp]: "p \<noteq> [] \<Longrightarrow> look (set_node p nd w) q = (if q = p then Some nd else look w q)"
  by (simp add: look_def set_node_def update_conv')

lemma look_del_node [simp]: "p \<noteq> [] \<Longrightarrow> look (del_node p w) q = (if q = p then None else look w q)"
  by (simp add: look_def del_node_def delete_conv')

lemma look_record [simp]: "look (recordWrite p c w) q = look w q" "look (recordRemove p w) q = look w q"
  by (simp_all add: look_def recordWrite_def recordRemove_def)

lemma plan_nodes [simp]:
  "plan (set_node p nd w) = plan w" "plan (del_node p w) = plan w"
  "nodes (recordWrite s c w) = nodes w" "nodes (recordRemove s w) = nodes w"
  by (simp_all add: set_node_def del_node_def recordWrite_def recordRemove_def)

lemma active_simps [simp]:
  "active (set_node p nd w) = active w" "active (del_node p w) = active w"
  "active (recordWrite s c w) = active w" "active (recordRemove s w) = active w"
  by (simp_all add: active_def) (simp_all add: recordWrite_def recordRemove_def)

text \<open>Resolution beneath a root never leaves it.\<close>

lemma walk_jailed:
  "walk w base n d cs = Inr q \<Longrightarrow> base = Some b \<Longrightarrow> prefix b d \<Longrightarrow> prefix b q"
proof (induction w base n d cs rule: walk.induct)
  case (1 w base n d)
  then show ?case by (simp add: walk.simps)
next
  case (2 w base n d c cs)
  have up: "prefix b (butlast d)" if "d \<noteq> b"
    using "2.prems"(3) that by (cases d rule: rev_cases) auto
  have down: "prefix b (d @ [c])" using "2.prems"(3) by (simp add: prefix_prefix)
  consider "c = '''' \<or> c = ''.''" | "c = ''..''" | (name) "c \<noteq> ''''" "c \<noteq> ''.''" "c \<noteq> ''..''" by blast
  then show ?case
  proof cases
    case 1
    with 2 show ?thesis by (simp add: walk.simps)
  next
    case 2
    with "2.IH"(2) "2.prems" up show ?thesis by (auto simp: walk.simps split: if_splits)
  next
    case name
    show ?thesis
    proof (cases "look w (d @ [c])")
      case None
      with name "2.prems" down show ?thesis by (auto simp: walk.simps split: if_splits)
    next
      case (Some nd)
      show ?thesis
      proof (cases nd)
        case (File x y)
        with Some name "2.prems" down show ?thesis by (auto simp: walk.simps split: if_splits)
      next
        case Dir
        with Some name "2.IH"(3) "2.prems" down show ?thesis by (auto simp: walk.simps)
      next
        case (Link t)
        with Some name "2.prems" show ?thesis
          using "2.IH"(5) by (auto simp: walk.simps split: nat.splits if_splits)
      qed
    qed
  qed
qed

text \<open>Without links and dots resolution is the lexical one.\<close>

lemma walk_plain:
  assumes "list_all plain_comp cs" "cs \<noteq> []"
    and "\<And>p q. cs = p @ q \<Longrightarrow> p \<noteq> [] \<Longrightarrow> q \<noteq> [] \<Longrightarrow> look w (d @ p) = Some Dir"
    and "\<And>t. look w (d @ cs) \<noteq> Some (Link t)"
  shows "walk w base n d cs = Inr (d @ cs)"
  using assms
proof (induction cs arbitrary: d)
  case (Cons c cs)
  then have c: "c \<noteq> ''''" "c \<noteq> ''.''" "c \<noteq> ''..''" by (auto simp: plain_comp_def)
  show ?case
  proof (cases "cs = []")
    case True
    with c Cons.prems(4) show ?thesis by (auto simp: walk.simps split: option.splits node.splits)
  next
    case False
    with Cons.prems(3) [of "[c]" cs] have "look w (d @ [c]) = Some Dir" by simp
    moreover have "walk w base n (d @ [c]) cs = Inr ((d @ [c]) @ cs)"
    proof (rule Cons.IH)
      fix p q assume "cs = p @ q" "p \<noteq> []" "q \<noteq> []"
      with Cons.prems(3) [of "c # p" q] show "look w ((d @ [c]) @ p) = Some Dir" by simp
    qed (use Cons.prems False in auto)
    ultimately show ?thesis using c by (simp add: walk.simps)
  qed
qed simp

subsection \<open>Unrooted calls\<close>

text \<open>\<open>os.Stat\<close>.\<close>

definition node_at :: "env \<Rightarrow> world \<Rightarrow> (ioerr + path) \<Rightarrow> ioerr + node" where
  "node_at env w r =
     (case r of
        Inl e \<Rightarrow> Inl e
      | Inr q \<Rightarrow>
          if refuses env OpStat q then Inl Refused
          else case look w q of None \<Rightarrow> Inl NotExist | Some nd \<Rightarrow> Inr nd)"

definition os_walk :: "env \<Rightarrow> world \<Rightarrow> string \<Rightarrow> ioerr + path" where
  "os_walk env w p = walk w None (link_budget env) [] (split_on slash p)"

definition os_Stat :: "env \<Rightarrow> world \<Rightarrow> string \<Rightarrow> ioerr + node" where
  "os_Stat env w p = node_at env w (os_walk env w p)"

definition is_dir :: "ioerr + node \<Rightarrow> bool" where
  "is_dir r \<longleftrightarrow> r = Inr Dir"

definition is_regular :: "ioerr + node \<Rightarrow> bool" where
  "is_regular r \<longleftrightarrow> (case r of Inr (File _ _) \<Rightarrow> True | _ \<Rightarrow> False)"

text \<open>\<open>os.ReadDir\<close>: the names in a directory, with what each entry is (links not followed).\<close>

definition os_ReadDir :: "env \<Rightarrow> world \<Rightarrow> string \<Rightarrow> ioerr + (string \<times> node option) list" where
  "os_ReadDir env w p =
     (case os_walk env w p of
        Inl e \<Rightarrow> Inl e
      | Inr q \<Rightarrow>
          (case look w q of
             None \<Rightarrow> Inl NotExist
           | Some Dir \<Rightarrow>
               if refuses env OpList q then Inl Refused
               else Inr (map (\<lambda>n. (n, look w (q @ [n]))) (dir_entries w q))
           | Some _ \<Rightarrow> Inl NotDir))"

text \<open>\<open>MkdirAll\<close>, plain (\<open>base = None\<close>) or beneath a root.\<close>

fun mkdirs :: "env \<Rightarrow> path option \<Rightarrow> world \<Rightarrow> path \<Rightarrow> string list \<Rightarrow> ioerr option \<times> world" where
  "mkdirs env base w d [] = (None, w)"
| "mkdirs env base w d (c # cs) =
     (if c = '''' \<or> c = ''.'' then mkdirs env base w d cs
      else if c = ''..'' then (if base = Some d then (Some Escapes, w) else mkdirs env base w (butlast d) cs)
      else case look w (d @ [c]) of
          None \<Rightarrow>
            if refuses env OpMkdir (d @ [c]) then (Some Refused, w)
            else mkdirs env base (set_node (d @ [c]) Dir w) (d @ [c]) cs
        | Some Dir \<Rightarrow> mkdirs env base w (d @ [c]) cs
        | Some (File _ _) \<Rightarrow> (Some NotDir, w)
        | Some (Link t) \<Rightarrow>
            (case walk w base (link_budget env) d [c] of
               Inl e \<Rightarrow> (Some e, w)
             | Inr q \<Rightarrow> if look w q = Some Dir then mkdirs env base w q cs else (Some Exists, w)))"

definition os_MkdirAll :: "env \<Rightarrow> string \<Rightarrow> world \<Rightarrow> ioerr option \<times> world" where
  "os_MkdirAll env p w = mkdirs env None w [] (split_on slash p)"

subsection \<open>\<open>rooted\<close>\<close>

text \<open>
  \<open>rt_root\<close> is the directory the \<open>os.Root\<close> is open on, \<open>None\<close> for the absent root of a
  plan against a boundary that does not exist yet (\<open>openRootedPlannedAbsent\<close>).
\<close>

record rooted =
  rt_root :: "path option"
  rt_dir :: string

definition openRooted :: "env \<Rightarrow> world \<Rightarrow> string \<Rightarrow> ioerr + rooted" where
  "openRooted env w dir =
     (case os_walk env w dir of
        Inl e \<Rightarrow> Inl e
      | Inr q \<Rightarrow>
          if refuses env OpOpenRoot q then Inl Refused
          else (case look w q of
                  None \<Rightarrow> Inl NotExist
                | Some Dir \<Rightarrow> Inr \<lparr>rt_root = Some q, rt_dir = Clean dir\<rparr>
                | Some _ \<Rightarrow> Inl NotDir))"

definition openRootedOptional :: "env \<Rightarrow> world \<Rightarrow> string \<Rightarrow> ioerr + rooted option" where
  "openRootedOptional env w dir =
     (case openRooted env w dir of
        Inl NotExist \<Rightarrow> Inr None
      | Inl e \<Rightarrow> Inl e
      | Inr r \<Rightarrow> Inr (Some r))"

definition openRootedPlannedAbsent :: "string \<Rightarrow> rooted" where
  "openRootedPlannedAbsent dir = \<lparr>rt_root = None, rt_dir = Clean dir\<rparr>"

definition openRootedFor :: "env \<Rightarrow> world \<Rightarrow> string \<Rightarrow> ioerr + rooted" where
  "openRootedFor env w dir =
     (if \<not> active w then openRooted env w dir
      else case os_Stat env w dir of
          Inl NotExist \<Rightarrow> Inr (openRootedPlannedAbsent dir)
        | Inl e \<Rightarrow> Inl e
        | Inr _ \<Rightarrow> openRooted env w dir)"

definition r_walk :: "env \<Rightarrow> world \<Rightarrow> path \<Rightarrow> string \<Rightarrow> ioerr + path" where
  "r_walk env w b rel = walk w (Some b) (link_budget env) b (split_on slash rel)"

definition r_stat :: "env \<Rightarrow> world \<Rightarrow> rooted \<Rightarrow> string \<Rightarrow> ioerr + node" where
  "r_stat env w r p =
     (case rooted_rel (rt_dir r) p of
        None \<Rightarrow> Inl Escapes
      | Some rel \<Rightarrow>
          (case rt_root r of
             None \<Rightarrow> Inl NotExist
           | Some b \<Rightarrow> node_at env w (r_walk env w b rel)))"

definition r_readFile :: "env \<Rightarrow> world \<Rightarrow> rooted \<Rightarrow> string \<Rightarrow> ioerr + bytes" where
  "r_readFile env w r p =
     (case rooted_rel (rt_dir r) p of
        None \<Rightarrow> Inl Escapes
      | Some rel \<Rightarrow>
          (case rt_root r of
             None \<Rightarrow> Inl NotExist
           | Some b \<Rightarrow>
               (case r_walk env w b rel of
                  Inl e \<Rightarrow> Inl e
                | Inr q \<Rightarrow>
                    (case look w q of
                       None \<Rightarrow> Inl NotExist
                     | Some (File data _) \<Rightarrow> if refuses env OpRead q then Inl Refused else Inr data
                     | Some _ \<Rightarrow> Inl IsDir))))"

text \<open>
  Where a call that does not follow its last component acts (\<open>Remove\<close>, \<open>Rename\<close>, an exclusive
  create): the directory is resolved beneath the root, the leaf is not.
\<close>

definition leaf_at :: "env \<Rightarrow> world \<Rightarrow> path \<Rightarrow> string \<Rightarrow> ioerr + path" where
  "leaf_at env w b rel =
     (if \<not> plain_comp (Base rel) then Inl Refused
      else case r_walk env w b (Dirname rel) of
          Inl e \<Rightarrow> Inl e
        | Inr d \<Rightarrow>
            (case look w d of
               None \<Rightarrow> Inl NotExist
             | Some Dir \<Rightarrow> Inr (d @ [Base rel])
             | Some _ \<Rightarrow> Inl NotDir))"

text \<open>\<open>os.Root.Remove\<close>: a file, a link, or an empty directory.\<close>

definition root_Remove :: "env \<Rightarrow> path \<Rightarrow> string \<Rightarrow> world \<Rightarrow> ioerr option \<times> world" where
  "root_Remove env b rel w =
     (case leaf_at env w b rel of
        Inl e \<Rightarrow> (Some e, w)
      | Inr q \<Rightarrow>
          (case look w q of
             None \<Rightarrow> (Some NotExist, w)
           | Some nd \<Rightarrow>
               if refuses env OpRemove q then (Some Refused, w)
               else if nd = Dir \<and> dir_entries w q \<noteq> [] then (Some NotEmpty, w)
               else (None, del_node q w)))"

text \<open>On a nil root a mutating call in real mode would be a nil dereference; no caller makes one.\<close>

definition r_remove :: "env \<Rightarrow> rooted \<Rightarrow> string \<Rightarrow> world \<Rightarrow> ioerr option \<times> world" where
  "r_remove env r p w =
     (case rooted_rel (rt_dir r) p of
        None \<Rightarrow> (Some Escapes, w)
      | Some rel \<Rightarrow>
          if active w then
            (case r_stat env w r p of
               Inl e \<Rightarrow> (Some e, w)
             | Inr _ \<Rightarrow> (None, recordRemove p w))
          else
            (case rt_root r of
               None \<Rightarrow> (Some NotExist, w)
             | Some b \<Rightarrow> root_Remove env b rel w))"

definition node_perm :: "node \<Rightarrow> nat" where
  "node_perm nd = (case nd of File _ p \<Rightarrow> p | _ \<Rightarrow> 0x1ED)"

definition r_existingPerm :: "env \<Rightarrow> world \<Rightarrow> rooted \<Rightarrow> string \<Rightarrow> nat \<Rightarrow> nat" where
  "r_existingPerm env w r p def =
     (case r_stat env w r p of Inr nd \<Rightarrow> node_perm nd | Inl _ \<Rightarrow> def)"

subsection \<open>\<open>writeAtomic\<close>\<close>

fun remove_all :: "env \<Rightarrow> path \<Rightarrow> string list \<Rightarrow> world \<Rightarrow> world" where
  "remove_all env b [] w = w"
| "remove_all env b (rel # rels) w = remove_all env b rels (snd (root_Remove env b rel w))"

definition cleanStaleTemps :: "env \<Rightarrow> path \<Rightarrow> string \<Rightarrow> string \<Rightarrow> world \<Rightarrow> world" where
  "cleanStaleTemps env b dir base w =
     (if active w then w
      else case r_walk env w b dir of
          Inl _ \<Rightarrow> w
        | Inr d \<Rightarrow>
            if look w d \<noteq> Some Dir \<or> refuses env OpList d then w
            else remove_all env b
              (map (\<lambda>n. Join [dir, n])
                (filter (has_prefix (base @ ''.tmp-'')) (dir_entries w d))) w)"

text \<open>
  The temporary file from its exclusive creation to the rename over the target; the deferred
  \<open>Remove\<close> runs on every path and finds nothing after a rename.
\<close>

definition write_temp :: "env \<Rightarrow> path \<Rightarrow> string \<Rightarrow> string \<Rightarrow> bytes \<Rightarrow> nat \<Rightarrow> world \<Rightarrow> ioerr option \<times> world" where
  "write_temp env b tmpRel rel data perm w =
     (case leaf_at env w b tmpRel of
        Inl e \<Rightarrow> (Some e, w)
      | Inr t \<Rightarrow>
          if look w t \<noteq> None then (Some Exists, w)
          else if refuses env OpTemp t then (Some Refused, w)
          else
            let w1 = set_node t (File [] 0x180) w;
                undo = (\<lambda>v. if refuses env OpRemove t then v else del_node t v) in
            if refuses env OpWrite t then (Some Refused, undo w1)
            else
              let w2 = set_node t (File data 0x180) w1 in
              if refuses env OpChmod t then (Some Refused, undo w2)
              else
                let w3 = set_node t (File data perm) w2 in
                if refuses env OpSync t \<or> refuses env OpClose t then (Some Refused, undo w3)
                else
                  (case leaf_at env w3 b rel of
                     Inl e \<Rightarrow> (Some e, undo w3)
                   | Inr q \<Rightarrow>
                       if refuses env OpRename q then (Some Refused, undo w3)
                       else if look w3 q = Some Dir then (Some IsDir, undo w3)
                       else (None, set_node q (File data perm) (del_node t w3))))"

definition r_writeAtomic :: "env \<Rightarrow> rooted \<Rightarrow> string \<Rightarrow> bytes \<Rightarrow> nat \<Rightarrow> world \<Rightarrow> ioerr option \<times> world" where
  "r_writeAtomic env r p data perm w =
     (case rooted_rel (rt_dir r) p of
        None \<Rightarrow> (Some Escapes, w)
      | Some rel \<Rightarrow>
          if active w then
            (None, recordWrite p (case r_stat env w r p of Inl _ \<Rightarrow> True | Inr _ \<Rightarrow> False) w)
          else
            (case rt_root r of
               None \<Rightarrow> (Some NotExist, w)
             | Some b \<Rightarrow>
                 let dir = Dirname rel; base = Base rel in
                 case (if dir \<noteq> ''.'' then mkdirs env (Some b) w b (split_on slash dir) else (None, w)) of
                   (Some e, w1) \<Rightarrow> (Some e, w1)
                 | (None, w1) \<Rightarrow>
                     write_temp env b (Join [dir, base @ ''.tmp-'' @ temp_suffix env]) rel data perm
                       (cleanStaleTemps env b dir base w1)))"

definition dirEmptyExcept :: "env \<Rightarrow> world \<Rightarrow> rooted \<Rightarrow> string \<Rightarrow> string \<Rightarrow> ioerr + bool" where
  "dirEmptyExcept env w r p exceptName =
     (case rooted_rel (rt_dir r) p of
        None \<Rightarrow> Inl Escapes
      | Some rel \<Rightarrow>
          (case rt_root r of
             None \<Rightarrow> Inl NotExist
           | Some b \<Rightarrow>
               (case r_walk env w b rel of
                  Inl e \<Rightarrow> Inl e
                | Inr q \<Rightarrow>
                    (case look w q of
                       None \<Rightarrow> Inl NotExist
                     | Some Dir \<Rightarrow>
                         if refuses env OpList q then Inl Refused
                         else Inr (list_all (\<lambda>n. n = exceptName) (dir_entries w q))
                     | Some _ \<Rightarrow> Inl NotDir))))"

subsection \<open>Plan mode performs no write\<close>

lemma mkdirs_plan: "plan (snd (mkdirs env base w d cs)) = plan w"
  by (induction env base w d cs rule: mkdirs.induct)
    (auto split: option.splits node.splits sum.splits)

lemma root_Remove_plan [simp]: "plan (snd (root_Remove env b rel w)) = plan w"
  by (auto simp: root_Remove_def split: sum.splits option.splits)

lemma remove_all_plan [simp]: "plan (remove_all env b rels w) = plan w"
  by (induction env b rels w rule: remove_all.induct) auto

lemma cleanStaleTemps_plan [simp]: "plan (cleanStaleTemps env b dir base w) = plan w"
  by (auto simp: cleanStaleTemps_def split: sum.splits)

lemma write_temp_plan: "plan (snd (write_temp env b t rel data perm w)) = plan w"
  by (auto simp: write_temp_def Let_def split: sum.splits)

lemma active_snd_r_remove [simp]: "active (snd (r_remove env r p w)) = active w"
  by (auto simp: r_remove_def active_def split: option.splits sum.splits)
    (auto simp: recordRemove_def)

lemma active_snd_r_writeAtomic [simp]: "active (snd (r_writeAtomic env r p data perm w)) = active w"
proof -
  have "plan (snd (mkdirs env base w d cs)) = plan w" for base d cs by (rule mkdirs_plan)
  then show ?thesis
    using write_temp_plan
    by (auto simp: r_writeAtomic_def active_def recordWrite_def Let_def split: option.splits prod.splits)
      (metis cleanStaleTemps_plan snd_conv)+
qed

lemma r_remove_planned: "active w \<Longrightarrow> nodes (snd (r_remove env r p w)) = nodes w"
  by (auto simp: r_remove_def split: option.splits sum.splits)

lemma r_writeAtomic_planned: "active w \<Longrightarrow> nodes (snd (r_writeAtomic env r p data perm w)) = nodes w"
  by (auto simp: r_writeAtomic_def split: option.splits)

end
