(* ===== verification/Containment.thy ===== *)
theory Containment
  imports FileSystem
begin

text \<open>
  What the rooted operations guarantee: whatever links the tree holds and whatever the
  operating system refuses, they change nothing outside the directory the root is open on; in a
  tree without links they act on the lexical path, a failed write leaves its target as it was,
  and nothing else changes but stale temporary files and missing parent directories.
\<close>

subsection \<open>Confinement\<close>

definition confined :: "path \<Rightarrow> world \<Rightarrow> world \<Rightarrow> bool" where
  "confined b w w' \<longleftrightarrow> (\<forall>q. \<not> strict_prefix b q \<longrightarrow> look w' q = look w q)"

lemma confined_refl [simp]: "confined b w w"
  by (simp add: confined_def)

lemma confined_trans: "confined b u v \<Longrightarrow> confined b v w \<Longrightarrow> confined b u w"
  by (simp add: confined_def)

lemma confined_set: "strict_prefix b q \<Longrightarrow> confined b w (set_node q nd w)"
  by (cases "q = []") (auto simp: confined_def)

lemma confined_del: "strict_prefix b q \<Longrightarrow> confined b w (del_node q w)"
  by (cases "q = []") (auto simp: confined_def)

lemma snoc_below: "prefix b d \<Longrightarrow> strict_prefix b (d @ [c])"
  by (simp add: prefix_snoc strict_prefix_def) (auto simp: prefix_def)

lemma butlast_below: "prefix b d \<Longrightarrow> d \<noteq> b \<Longrightarrow> prefix b (butlast d)"
  by (cases d rule: rev_cases) auto

lemma leaf_below: "leaf_at env w b rel = Inr q \<Longrightarrow> strict_prefix b q"
  unfolding leaf_at_def r_walk_def
  by (auto split: if_splits sum.splits option.splits node.splits
      dest!: walk_jailed [OF _ refl prefix_order.refl] intro: snoc_below)

lemma mkdirs_confined:
  "prefix b d \<Longrightarrow> confined b w (snd (mkdirs env (Some b) w d cs))"
proof (induction cs arbitrary: w d)
  case (Cons c cs)
  show ?case
  proof (cases "look w (d @ [c])")
    case None
    have "confined b w (set_node (d @ [c]) Dir w)"
      using Cons.prems by (intro confined_set snoc_below)
    moreover have "confined b (set_node (d @ [c]) Dir w)
        (snd (mkdirs env (Some b) (set_node (d @ [c]) Dir w) (d @ [c]) cs))"
      by (rule Cons.IH) (use Cons.prems in \<open>simp add: prefix_prefix\<close>)
    ultimately show ?thesis
      using None Cons by (auto simp: butlast_below intro: confined_trans)
  next
    case (Some nd)
    have "prefix b (d @ [c])" using Cons.prems by (simp add: prefix_prefix)
    moreover have "prefix b q" if "walk w (Some b) (link_budget env) d [c] = Inr q" for q
      using walk_jailed [OF that refl Cons.prems] .
    ultimately show ?thesis
      using Some Cons by (auto simp: butlast_below split: node.splits sum.splits)
  qed
qed simp

lemma root_Remove_confined: "confined b w (snd (root_Remove env b rel w))"
  by (auto simp: root_Remove_def split: sum.splits option.splits intro!: confined_del leaf_below)

lemma remove_all_confined: "confined b w (remove_all env b rels w)"
proof (induction rels arbitrary: w)
  case (Cons rel rels)
  show ?case using root_Remove_confined Cons [of "snd (root_Remove env b rel w)"]
    by (simp, meson confined_trans)
qed simp

lemma cleanStaleTemps_confined: "confined b w (cleanStaleTemps env b dir base w)"
  by (auto simp: cleanStaleTemps_def remove_all_confined split: sum.splits)

lemma write_temp_confined: "confined b w (snd (write_temp env b t rel data perm w))"
proof (cases "leaf_at env w b t")
  case (Inr q)
  note q = leaf_below [OF Inr]
  have f: "confined b w (set_node q nd w)" for nd by (rule confined_set [OF q])
  have g: "confined b u (set_node q nd u)" "confined b u (del_node q u)" for nd u
    by (rule confined_set [OF q], rule confined_del [OF q])
  have h: "leaf_at env v b rel = Inr p \<Longrightarrow> confined b u (set_node p nd u)" for v p nd u
    by (drule leaf_below) (rule confined_set)
  show ?thesis
    unfolding write_temp_def Inr sum.case
    by (auto simp: Let_def split: sum.splits) (meson f g h confined_refl confined_trans)+
qed (simp add: write_temp_def)

lemma r_writeAtomic_confined:
  assumes "rt_root r = Some b"
  shows "confined b w (snd (r_writeAtomic env r p data perm w))"
proof (cases "rooted_rel (rt_dir r) p")
  case (Some rel)
  show ?thesis
  proof (cases "active w")
    case True
    with Some show ?thesis by (simp add: r_writeAtomic_def confined_def)
  next
    case False
    define m where "m = (if Dirname rel \<noteq> ''.'' then mkdirs env (Some b) w b (split_on slash (Dirname rel)) else (None, w))"
    have "confined b w (snd m)" by (simp add: m_def mkdirs_confined)
    moreover have "confined b (snd m) (snd (write_temp env b t rel data perm (cleanStaleTemps env b (Dirname rel) (Base rel) (snd m))))" for t
      using cleanStaleTemps_confined write_temp_confined by (meson confined_trans)
    moreover have "r_writeAtomic env r p data perm w =
        (case m of (Some e, w1) \<Rightarrow> (Some e, w1)
         | (None, w1) \<Rightarrow> write_temp env b (Join [Dirname rel, Base rel @ ''.tmp-'' @ temp_suffix env])
             rel data perm (cleanStaleTemps env b (Dirname rel) (Base rel) w1))"
      using Some False assms by (simp add: r_writeAtomic_def Let_def m_def)
    ultimately show ?thesis
      by (cases m; cases "fst m") (auto intro: confined_trans)
  qed
qed (simp add: r_writeAtomic_def)

lemma r_remove_confined:
  assumes "rt_root r = Some b"
  shows "confined b w (snd (r_remove env r p w))"
  using assms root_Remove_confined
  by (auto simp: r_remove_def split: option.splits sum.splits) (simp add: confined_def)

subsection \<open>Relative paths made of plain components\<close>

lemma not_IsAbs_join: "list_all plain_comp cs \<Longrightarrow> \<not> IsAbs (join_with slash cs)"
  by (cases "(slash, cs)" rule: join_with.cases)
    (auto simp: plain_comp_def neq_Nil_conv)

lemma Clean_join_dots:
  assumes "list_all plain_comp cs" "cs \<noteq> []" "set ds \<subseteq> {'''', ''.''}" "set es \<subseteq> {'''', ''.''}"
    "\<not> IsAbs p" "split_on slash p = ds @ cs @ es"
  shows "Clean p = join_with slash cs"
proof -
  have skip: "fold (clean_step False) xs acc = acc" if "set xs \<subseteq> {'''', ''.''}" for xs acc
    using that by (induction xs arbitrary: acc) auto
  have "clean_comps False (ds @ cs @ es) = cs"
    using assms(1,3,4) by (simp add: clean_comps_def skip fold_clean_plain)
  then show ?thesis
    using assms(5,6) join_plain_ne [OF assms(1,2)] by (simp add: Clean_def)
qed

lemma Base_join:
  assumes "list_all plain_comp cs" "cs \<noteq> []"
  shows "Base (join_with slash cs) = last cs"
proof -
  have l: "last cs \<noteq> []" "slash \<notin> set (last cs)"
    using assms by (auto simp: list_all_iff plain_comp_def)
  have "\<exists>u. join_with slash cs = u @ last cs"
    using assms(2) by (induction slash cs rule: join_with.induct) auto
  then obtain u where u: "join_with slash cs = u @ last cs" by blast
  have "last cs = butlast (last cs) @ [last (last cs)]" "last (last cs) \<noteq> slash"
    using l by (simp, metis last_in_set)
  then have "trim_right {slash} (join_with slash cs) = join_with slash cs"
    using u trim_right_snoc [of "{slash}" "u @ butlast (last cs)" "last (last cs)"] by simp
  then show ?thesis
    using join_plain_ne [OF assms] split_join_plain [OF assms] by (simp add: Base_def Let_def)
qed

lemma Dirname_join:
  assumes "list_all plain_comp cs" "cs \<noteq> []"
  shows "Dirname (join_with slash cs) = (if butlast cs = [] then ''.'' else join_with slash (butlast cs))"
proof -
  have l: "slash \<notin> set (last cs)" using assms by (auto simp: list_all_iff plain_comp_def)
  have pb: "list_all plain_comp (butlast cs)" using assms(1) by (auto simp: list_all_iff dest: in_set_butlastD)
  have drop: "rev (dropWhile (\<lambda>c. c \<noteq> slash) (rev (u @ v))) = rev (dropWhile (\<lambda>c. c \<noteq> slash) (rev u))"
    if "slash \<notin> set v" for u v :: string
  proof -
    have "\<And>c. c \<in> set (rev v) \<Longrightarrow> c \<noteq> slash" using that by auto
    then have "dropWhile (\<lambda>c. c \<noteq> slash) (rev v @ rev u) = dropWhile (\<lambda>c. c \<noteq> slash) (rev u)"
      by (rule dropWhile_append2)
    then show ?thesis by simp
  qed
  have snoc: "cs = butlast cs @ [last cs]" using assms(2) by simp
  show ?thesis
  proof (cases "butlast cs = []")
    case True
    with snoc have "join_with slash cs = [] @ last cs" by (metis append_Nil join_with.simps(2))
    then have "Dirname (join_with slash cs) = Clean []"
      using drop [OF l, of "[]"] by (simp only: Dirname_def) simp
    with True show ?thesis by (simp add: Clean_def clean_comps_def)
  next
    case False
    then have "join_with slash cs = (join_with slash (butlast cs) @ [slash]) @ last cs"
      using join_append [of "butlast cs" "[last cs]" slash] snoc by simp
    then have "Dirname (join_with slash cs) = Clean (join_with slash (butlast cs) @ [slash])"
      using drop [OF l, of "join_with slash (butlast cs) @ [slash]"] by (simp only: Dirname_def) simp
    also have "\<dots> = join_with slash (butlast cs)"
    proof (rule Clean_join_dots [of _ "[]" "['''']"])
      show "\<not> IsAbs (join_with slash (butlast cs) @ [slash])"
        using not_IsAbs_join [OF pb] join_plain_ne [OF pb False]
        by (cases "join_with slash (butlast cs)") auto
      show "split_on slash (join_with slash (butlast cs) @ [slash]) = [] @ butlast cs @ ['''']"
        using split_on_append [of slash "join_with slash (butlast cs)" "[]"] split_join_plain [OF pb False]
        by simp
    qed (use pb False in simp_all)
    finally show ?thesis using False by simp
  qed
qed

lemma Join_rel:
  assumes "list_all plain_comp ds" "plain_comp x"
  shows "Join [if ds = [] then ''.'' else join_with slash ds, x] = join_with slash (ds @ [x])"
proof -
  have x: "x \<noteq> []" "split_on slash x = [x]"
    using assms(2) by (auto simp: plain_comp_def split_on_none)
  show ?thesis
  proof (cases "ds = []")
    case True
    have "Clean (''.'' @ slash # x) = join_with slash [x]"
      by (rule Clean_join_dots [of _ "[''.'']" "[]"])
        (use assms x split_on_append [of slash "''.''" x] in simp_all)
    with True x show ?thesis by (simp add: Join_def)
  next
    case False
    have "Clean (join_with slash ds @ slash # x) = join_with slash (ds @ [x])"
    proof (rule Clean_join_dots [of _ "[]" "[]"])
      show "\<not> IsAbs (join_with slash ds @ slash # x)"
        using not_IsAbs_join [OF assms(1)] join_plain_ne [OF assms(1) False]
        by (cases "join_with slash ds") auto
    qed (use assms x False split_on_append [of slash "join_with slash ds" x] split_join_plain [OF assms(1) False] in simp_all)
    with False x join_plain_ne [OF assms(1) False] show ?thesis by (simp add: Join_def)
  qed
qed

subsection \<open>Trees without links\<close>

definition link_free :: "world \<Rightarrow> bool" where
  "link_free w \<longleftrightarrow> (\<forall>q t. look w q \<noteq> Some (Link t))"

lemma link_free_set [simp]: "link_free w \<Longrightarrow> q \<noteq> [] \<Longrightarrow> (\<And>t. nd \<noteq> Link t) \<Longrightarrow> link_free (set_node q nd w)"
  by (simp add: link_free_def)

lemma link_free_del [simp]: "link_free w \<Longrightarrow> q \<noteq> [] \<Longrightarrow> link_free (del_node q w)"
  by (simp add: link_free_def)

lemma walk_link_free:
  "link_free w \<Longrightarrow> list_all plain_comp cs \<Longrightarrow> walk w base n d cs = Inr q \<Longrightarrow> q = d @ cs"
proof (induction cs arbitrary: d)
  case (Cons c cs)
  then have c: "c \<noteq> ''''" "c \<noteq> ''.''" "c \<noteq> ''..''" by (auto simp: plain_comp_def)
  have "walk w base n (d @ [c]) cs = Inr q \<Longrightarrow> q = d @ c # cs"
    using Cons.IH [of "d @ [c]"] Cons.prems by simp
  with c Cons.prems show ?case
    by (auto simp: walk.simps(2) [of w base n d c cs] link_free_def
        split: option.splits node.splits if_splits)
qed (simp add: walk.simps)

lemma r_walk_link_free:
  assumes "link_free w" "list_all plain_comp cs" "cs \<noteq> []" "r_walk env w b (join_with slash cs) = Inr q"
  shows "q = b @ cs"
  using assms walk_link_free split_join_plain unfolding r_walk_def by metis

lemma walk_dot: "walk w base n d [''.''] = Inr d"
  by (simp add: walk.simps)

lemma plain_butlast: "list_all plain_comp cs \<Longrightarrow> list_all plain_comp (butlast cs)"
  by (auto simp: list_all_iff dest: in_set_butlastD)

lemma plain_last: "list_all plain_comp cs \<Longrightarrow> cs \<noteq> [] \<Longrightarrow> plain_comp (last cs)"
  by (simp add: list_all_iff)

lemma leaf_link_free:
  assumes "link_free w" "list_all plain_comp cs" "cs \<noteq> []" "leaf_at env w b (join_with slash cs) = Inr q"
  shows "q = b @ cs"
proof -
  have bl: "r_walk env w b (Dirname (join_with slash cs)) = Inr d \<Longrightarrow> d = b @ butlast cs" for d
    using r_walk_link_free [OF assms(1) plain_butlast [OF assms(2)]] assms(2,3)
    by (cases "butlast cs = []") (auto simp: Dirname_join r_walk_def walk_dot)
  from assms(4) obtain d where "r_walk env w b (Dirname (join_with slash cs)) = Inr d" "q = d @ [last cs]"
    unfolding leaf_at_def Base_join [OF assms(2,3)]
    by (auto split: if_splits sum.splits option.splits node.splits)
  with bl assms(3) show ?thesis by simp
qed

text \<open>What a write beneath \<open>b\<close> at \<open>cs\<close> may change.\<close>

definition write_frame :: "path \<Rightarrow> path \<Rightarrow> string \<Rightarrow> world \<Rightarrow> world \<Rightarrow> bool" where
  "write_frame b cs tmp w w' \<longleftrightarrow>
     (\<forall>q. look w' q \<noteq> look w q \<and> q \<noteq> b @ cs \<longrightarrow>
        (\<exists>x. q = b @ butlast cs @ [x] \<and> has_prefix (last cs @ ''.tmp-'') x \<and> (look w' q = None \<or> x = tmp)) \<or>
        look w q = None \<and> look w' q = Some Dir \<and> strict_prefix q (b @ cs))"

definition names_ok :: "world \<Rightarrow> bool" where
  "names_ok w \<longleftrightarrow> (\<forall>q. look w q \<noteq> None \<longrightarrow> list_all plain_comp q)"

lemma mkdirs_link_free:
  assumes "link_free w" "list_all plain_comp cs"
  shows "link_free (snd (mkdirs env base w d cs)) \<and>
    (\<forall>q. look (snd (mkdirs env base w d cs)) q \<noteq> look w q \<longrightarrow>
       look w q = None \<and> look (snd (mkdirs env base w d cs)) q = Some Dir \<and> prefix q (d @ cs))"
  using assms
proof (induction cs arbitrary: w d)
  case (Cons c cs)
  have c: "c \<noteq> ''''" "c \<noteq> ''.''" "c \<noteq> ''..''" using Cons.prems by (auto simp: plain_comp_def)
  show ?case
  proof (cases "look w (d @ [c])")
    case None
    let ?w = "set_node (d @ [c]) Dir w"
    let ?v = "snd (mkdirs env base ?w (d @ [c]) cs)"
    have lf: "link_free ?w" using Cons.prems by simp
    have "list_all plain_comp cs" using Cons.prems by simp
    note IH = Cons.IH [OF lf this, of "d @ [c]"]
    have "look w q = None \<and> look ?v q = Some Dir \<and> prefix q (d @ c # cs)" if "look ?v q \<noteq> look w q" for q
    proof (cases "look ?v q = look ?w q")
      case True
      with that have "q = d @ [c]" "look ?v q = Some Dir" by (auto split: if_splits)
      with None show ?thesis by simp
    next
      case False
      with IH have "look ?w q = None" "look ?v q = Some Dir" "prefix q (d @ c # cs)" by auto
      then show ?thesis by (auto split: if_splits)
    qed
    with c None IH Cons.prems show ?thesis by simp
  next
    case (Some nd)
    with c Cons.prems Cons.IH [of w "d @ [c]"] show ?thesis
      by (cases nd) (auto simp: link_free_def)
  qed
qed simp

lemma dir_entries_look: "look w (d @ [n]) \<noteq> None \<Longrightarrow> n \<in> set (dir_entries w d)"
proof -
  assume "look w (d @ [n]) \<noteq> None"
  then have "d @ [n] \<in> set (map fst (nodes w))"
    by (metis image_set look_def map_of_eq_None_iff snoc_eq_iff_butlast)
  then show ?thesis unfolding dir_entries_def by force
qed

lemma remove_all_link_free:
  assumes "link_free w" "list_all plain_comp ds"
    "\<And>rel. rel \<in> set rels \<Longrightarrow> \<exists>x. plain_comp x \<and> P x \<and> rel = join_with slash (ds @ [x])"
  shows "link_free (remove_all env b rels w) \<and>
    (\<forall>q. look (remove_all env b rels w) q \<noteq> look w q \<longrightarrow>
      look (remove_all env b rels w) q = None \<and> (\<exists>x. q = b @ ds @ [x] \<and> P x))"
  using assms(1,3)
proof (induction rels arbitrary: w)
  case (Cons rel rels)
  obtain x where x: "plain_comp x" "P x" "rel = join_with slash (ds @ [x])"
    using Cons.prems(2) [of rel] by auto
  have leaf: "leaf_at env w b rel = Inr q \<Longrightarrow> q = b @ ds @ [x]" for q
    using leaf_link_free [of w "ds @ [x]"] Cons.prems(1) x assms(2) by simp
  have one: "link_free (snd (root_Remove env b rel w))"
    "look (snd (root_Remove env b rel w)) q \<noteq> look w q \<Longrightarrow>
       q = b @ ds @ [x] \<and> look (snd (root_Remove env b rel w)) q = None" for q
    using Cons.prems(1) leaf
    by (auto simp: root_Remove_def split: sum.splits option.splits if_splits)
  have "\<And>rel. rel \<in> set rels \<Longrightarrow> \<exists>x. plain_comp x \<and> P x \<and> rel = join_with slash (ds @ [x])"
    using Cons.prems(2) by simp
  note rest = Cons.IH [OF one(1) this]
  let ?u = "snd (root_Remove env b rel w)"
  have "look (remove_all env b rels ?u) q = None \<and> (\<exists>x. q = b @ ds @ [x] \<and> P x)"
    if "look (remove_all env b rels ?u) q \<noteq> look w q" for q
  proof (cases "look (remove_all env b rels ?u) q = look ?u q")
    case True
    with that one(2) [of q] x(2) show ?thesis by auto
  next
    case False
    with rest show ?thesis by blast
  qed
  with rest show ?case by simp
qed simp

lemma cleanStaleTemps_link_free:
  assumes "link_free w" "list_all plain_comp cs" "cs \<noteq> []"
    and names: "\<And>n. n \<in> set (dir_entries w (b @ butlast cs)) \<Longrightarrow> plain_comp n"
  shows "let v = cleanStaleTemps env b (Dirname (join_with slash cs)) (last cs) w in
    link_free v \<and> look v (b @ cs) = look w (b @ cs) \<and>
    (\<forall>q. look v q \<noteq> look w q \<longrightarrow> look v q = None \<and>
       (\<exists>x. q = b @ butlast cs @ [x] \<and> has_prefix (last cs @ ''.tmp-'') x))"
proof -
  let ?dir = "Dirname (join_with slash cs)"
  let ?P = "has_prefix (last cs @ ''.tmp-'')"
  have dir: "?dir = (if butlast cs = [] then ''.'' else join_with slash (butlast cs))"
    using assms(2,3) by (rule Dirname_join)
  have walked: "r_walk env w b ?dir = Inr d \<Longrightarrow> d = b @ butlast cs" for d
    using r_walk_link_free [OF assms(1) plain_butlast [OF assms(2)]] dir
    by (cases "butlast cs = []") (auto simp: r_walk_def walk_dot)
  have rels: "\<exists>x. plain_comp x \<and> ?P x \<and> rel = join_with slash (butlast cs @ [x])"
    if "rel \<in> set (map (\<lambda>n. Join [?dir, n]) (filter ?P (dir_entries w (b @ butlast cs))))" for rel
    using that names Join_rel [OF plain_butlast [OF assms(2)]] dir by auto
  let ?v = "cleanStaleTemps env b ?dir (last cs) w"
  have v: "link_free ?v \<and> (\<forall>q. look ?v q \<noteq> look w q \<longrightarrow> look ?v q = None \<and> (\<exists>x. q = b @ butlast cs @ [x] \<and> ?P x))"
  proof (cases "\<exists>d. r_walk env w b ?dir = Inr d \<and> \<not> active w \<and> look w d = Some Dir \<and> \<not> refuses env OpList d")
    case True
    then have veq: "?v = remove_all env b (map (\<lambda>n. Join [?dir, n]) (filter ?P (dir_entries w (b @ butlast cs)))) w"
      using walked by (auto simp: cleanStaleTemps_def)
    show ?thesis
      unfolding veq using assms(1) plain_butlast [OF assms(2)]
      by (rule remove_all_link_free) (rule rels)
  next
    case False
    then have "?v = w" by (auto simp: cleanStaleTemps_def split: sum.splits)
    then show ?thesis using assms(1) by simp
  qed
  moreover have "\<not> ?P (last cs)" by (auto simp: has_prefix_iff prefix_def)
  have "look ?v (b @ cs) = look w (b @ cs)"
  proof (rule ccontr)
    assume "look ?v (b @ cs) \<noteq> look w (b @ cs)"
    with v obtain x where x: "b @ cs = b @ butlast cs @ [x]" "?P x" by blast
    then have "last cs = last (butlast cs @ [x])" by simp
    with x(2) \<open>\<not> ?P (last cs)\<close> show False by simp
  qed
  ultimately show ?thesis by (simp add: Let_def)
qed

lemma write_temp_cases:
  assumes r: "write_temp env b tr rel data perm w = (e, w')"
    and t: "leaf_at env w b tr = Inr t" "t \<noteq> []" "q \<noteq> []" "t \<noteq> q" "link_free w"
    and lq: "\<And>v q'. link_free v \<Longrightarrow> leaf_at env v b rel = Inr q' \<Longrightarrow> q' = q"
  shows "link_free w' \<and> (\<forall>p. p \<noteq> q \<longrightarrow> p \<noteq> t \<longrightarrow> look w' p = look w p) \<and>
    look w' q = (if e = None then Some (File data perm) else look w q)"
proof -
  define w1 where "w1 = set_node t (File [] 0x180) w"
  define w2 where "w2 = set_node t (File data 0x180) w1"
  define w3 where "w3 = set_node t (File data perm) w2"
  have l: "link_free w1" "link_free w2" "link_free w3"
    using t by (simp_all add: w1_def w2_def w3_def)
  have k: "p \<noteq> t \<Longrightarrow> look w1 p = look w p" "p \<noteq> t \<Longrightarrow> look w2 p = look w p"
    "p \<noteq> t \<Longrightarrow> look w3 p = look w p" for p
    using t by (simp_all add: w1_def w2_def w3_def)
  have r': "write_temp env b tr rel data perm w =
    (let undo = (\<lambda>v. if refuses env OpRemove t then v else del_node t v) in
     if look w t \<noteq> None then (Some Exists, w)
     else if refuses env OpTemp t then (Some Refused, w)
     else if refuses env OpWrite t then (Some Refused, undo w1)
     else if refuses env OpChmod t then (Some Refused, undo w2)
     else if refuses env OpSync t \<or> refuses env OpClose t then (Some Refused, undo w3)
     else (case leaf_at env w3 b rel of
         Inl e \<Rightarrow> (Some e, undo w3)
       | Inr q \<Rightarrow>
           if refuses env OpRename q then (Some Refused, undo w3)
           else if look w3 q = Some Dir then (Some IsDir, undo w3)
           else (None, set_node q (File data perm) (del_node t w3))))"
    by (simp only: write_temp_def t(1) sum.case Let_def w1_def w2_def w3_def)
  show ?thesis
    using r t l k lq [OF l(3)] unfolding r'
    by (auto simp: Let_def split: if_splits sum.splits)
qed

lemma write_temp_link_free:
  assumes lf: "link_free w" and cs: "list_all plain_comp cs" "cs \<noteq> []" and x: "plain_comp x" "x \<noteq> last cs"
    and r: "write_temp env b (join_with slash (butlast cs @ [x])) (join_with slash cs) data perm w = (e, w')"
  shows "link_free w'"
    "q \<noteq> b @ cs \<Longrightarrow> q \<noteq> b @ butlast cs @ [x] \<Longrightarrow> look w' q = look w q"
    "look w' (b @ cs) = (if e = None then Some (File data perm) else look w (b @ cs))"
proof -
  let ?t = "b @ butlast cs @ [x]"
  have pt: "list_all plain_comp (butlast cs @ [x])" using plain_butlast [OF cs(1)] x by simp
  have ne: "?t \<noteq> b @ cs" using x(2) cs(2) by (metis append_butlast_last_id last_snoc same_append_eq)
  have lt: "leaf_at env v b (join_with slash (butlast cs @ [x])) = Inr t \<Longrightarrow> link_free v \<Longrightarrow> t = ?t" for v t
    using leaf_link_free [OF _ pt] by auto
  have lq: "link_free v \<Longrightarrow> leaf_at env v b (join_with slash cs) = Inr t \<Longrightarrow> t = b @ cs" for v t
    using leaf_link_free [OF _ cs] by auto
  have nn: "?t \<noteq> []" "b @ cs \<noteq> []" using cs by auto
  have "link_free w' \<and> (\<forall>q. q \<noteq> b @ cs \<longrightarrow> q \<noteq> ?t \<longrightarrow> look w' q = look w q) \<and>
      look w' (b @ cs) = (if e = None then Some (File data perm) else look w (b @ cs))"
  proof (cases "leaf_at env w b (join_with slash (butlast cs @ [x]))")
    case (Inl a)
    with r lf show ?thesis by (auto simp: write_temp_def)
  next
    case (Inr t)
    with lt lf have "leaf_at env w b (join_with slash (butlast cs @ [x])) = Inr ?t" by blast
    from write_temp_cases [OF r this nn ne lf lq] show ?thesis .
  qed
  then show "link_free w'" "q \<noteq> b @ cs \<Longrightarrow> q \<noteq> ?t \<Longrightarrow> look w' q = look w q"
    "look w' (b @ cs) = (if e = None then Some (File data perm) else look w (b @ cs))"
    by blast+
qed

text \<open>
  The atomic write in a tree without links: the target holds the new content or is as it was,
  and the frame above describes everything else.
\<close>

lemma names_ok_entries: "names_ok w \<Longrightarrow> n \<in> set (dir_entries w d) \<Longrightarrow> plain_comp n"
proof -
  assume ok: "names_ok w" and "n \<in> set (dir_entries w d)"
  then obtain q where q: "q \<in> set (map fst (nodes w))" "q \<noteq> []" "n = last q"
    unfolding dir_entries_def by auto
  then have "look w q \<noteq> None" by (simp add: look_def map_of_eq_None_iff)
  with ok q show ?thesis by (simp add: names_ok_def list_all_iff)
qed

lemma temp_name_plain:
  assumes "plain_comp c" "slash \<notin> set s"
  shows "plain_comp (c @ ''.tmp-'' @ s)"
  using assms by (cases c) (auto simp: plain_comp_def)

lemma write_frame_names:
  assumes "write_frame b cs tmp w w'" "names_ok w" "list_all plain_comp (b @ cs)" "plain_comp tmp"
  shows "names_ok w'"
  unfolding names_ok_def
proof safe
  fix q nd assume nd: "look w' q = Some nd"
  have "list_all plain_comp (butlast cs)" using assms(3) plain_butlast by auto
  moreover have "list_all plain_comp q" if "strict_prefix q (b @ cs)"
    using that assms(3) by (metis list_all_append prefix_def strict_prefix_def)
  moreover have "look w q = Some nd \<or> q = b @ cs \<or> q = b @ butlast cs @ [tmp] \<or> strict_prefix q (b @ cs)"
    using assms(1) nd unfolding write_frame_def by (metis option.distinct(1))
  ultimately show "list_all plain_comp q"
    using assms(2-4) unfolding names_ok_def by auto
qed

lemma r_writeAtomic_link_free:
  assumes "\<not> active w" "rt_root r = Some b" "rooted_rel (rt_dir r) p = Some (join_with slash cs)"
    and cs: "list_all plain_comp cs" "cs \<noteq> []" and b: "list_all plain_comp b"
    and lf: "link_free w" and nm: "names_ok w" and suf: "slash \<notin> set (temp_suffix env)"
    and run: "r_writeAtomic env r p data perm w = (e, w')"
  shows "link_free w'" "names_ok w'" "write_frame b cs (last cs @ ''.tmp-'' @ temp_suffix env) w w'"
    "look w' (b @ cs) = (if e = None then Some (File data perm) else look w (b @ cs))"
proof -
  let ?dir = "Dirname (join_with slash cs)" and ?tmp = "last cs @ ''.tmp-'' @ temp_suffix env"
  note dir = Dirname_join [OF cs] and pb = plain_butlast [OF cs(1)]
  define m where "m = (if ?dir \<noteq> ''.'' then mkdirs env (Some b) w b (split_on slash ?dir) else (None, w))"
  have tp: "plain_comp ?tmp" using plain_last [OF cs] suf by (rule temp_name_plain)
  have m: "link_free (snd m)" "look (snd m) q \<noteq> look w q \<Longrightarrow>
      look w q = None \<and> look (snd m) q = Some Dir \<and> prefix q (b @ butlast cs)" for q
    using mkdirs_link_free [OF lf pb, of env "Some b" b] lf dir split_join_plain [OF pb]
    by (auto simp: m_def split: if_splits)
  have below: "strict_prefix q (b @ cs)" if "prefix q (b @ butlast cs)" for q
    using that cs(2) by (metis append_assoc append_butlast_last_id snoc_below)
  have mq: "look (snd m) (b @ cs) = look w (b @ cs)"
    using m(2) [of "b @ cs"] below by (meson prefix_order.less_irrefl)
  have fm: "write_frame b cs ?tmp w (snd m)"
    using m(2) below unfolding write_frame_def by blast
  have nm1: "names_ok (snd m)" using fm nm cs b tp by (intro write_frame_names [OF fm]) auto
  define v where "v = cleanStaleTemps env b ?dir (last cs) (snd m)"
  have v: "link_free v" "look v (b @ cs) = look w (b @ cs)"
    "look v q \<noteq> look (snd m) q \<Longrightarrow> look v q = None \<and>
       (\<exists>x. q = b @ butlast cs @ [x] \<and> has_prefix (last cs @ ''.tmp-'') x)" for q
    using cleanStaleTemps_link_free [OF m(1) cs, of b env] names_ok_entries [OF nm1] mq
    by (auto simp: v_def Let_def)
  have tmp: "Join [?dir, ?tmp] = join_with slash (butlast cs @ [?tmp])"
    using Join_rel [OF pb tp] dir by simp
  have run': "(case m of (Some e, w1) \<Rightarrow> (Some e, w1)
      | (None, w1) \<Rightarrow> write_temp env b (join_with slash (butlast cs @ [?tmp])) (join_with slash cs) data perm
          (cleanStaleTemps env b ?dir (last cs) w1)) = (e, w')"
  proof -
    have "r_writeAtomic env r p data perm w =
        (case m of (Some e, w1) \<Rightarrow> (Some e, w1)
         | (None, w1) \<Rightarrow> write_temp env b (Join [?dir, Base (join_with slash cs) @ ''.tmp-'' @ temp_suffix env])
             (join_with slash cs) data perm (cleanStaleTemps env b ?dir (Base (join_with slash cs)) w1))"
      using assms(1-3) by (simp add: r_writeAtomic_def Let_def m_def)
    with run show ?thesis unfolding Base_join [OF cs] tmp by simp
  qed
  have "link_free w' \<and> write_frame b cs ?tmp w w' \<and>
    look w' (b @ cs) = (if e = None then Some (File data perm) else look w (b @ cs))"
  proof (cases "fst m")
    case (Some x)
    with run' have "e = Some x" "w' = snd m" by (auto split: prod.splits)
    with fm m(1) mq show ?thesis by simp
  next
    case None
    then have w: "write_temp env b (join_with slash (butlast cs @ [?tmp])) (join_with slash cs) data perm v = (e, w')"
      using run' by (auto simp: v_def split: prod.splits)
    have "?tmp \<noteq> last cs" by simp
    note wt = write_temp_link_free [OF v(1) cs tp this w]
    have "has_prefix (last cs @ ''.tmp-'') ?tmp" by (simp add: has_prefix_iff)
    then have "write_frame b cs ?tmp w w'"
      unfolding write_frame_def using wt(2) v(3) m(2) below by metis
    with wt(1,3) v(2) show ?thesis by simp
  qed
  then show l: "link_free w'" and f: "write_frame b cs ?tmp w w'"
    and "look w' (b @ cs) = (if e = None then Some (File data perm) else look w (b @ cs))" by auto
  show "names_ok w'" using f nm cs b tp by (intro write_frame_names [OF f]) auto
qed

subsection \<open>The tree stays a tree\<close>

definition shaped :: "world \<Rightarrow> bool" where
  "shaped w \<longleftrightarrow> (\<forall>d c. look w (d @ [c]) \<noteq> None \<longrightarrow> look w d = Some Dir)"

lemma shaped_set:
  assumes "shaped w" "look w d = Some Dir" "nd = Dir \<or> look w (d @ [c]) \<noteq> Some Dir"
  shows "shaped (set_node (d @ [c]) nd w)"
  unfolding shaped_def
proof (intro allI impI)
  fix d' c' assume l: "look (set_node (d @ [c]) nd w) (d' @ [c']) \<noteq> None"
  show "look (set_node (d @ [c]) nd w) d' = Some Dir"
  proof (cases "d' = d \<and> c' = c")
    case True
    with assms(2) show ?thesis by simp
  next
    case False
    with l have "look w (d' @ [c']) \<noteq> None" by auto
    with assms(1) have "look w d' = Some Dir" unfolding shaped_def by blast
    with assms(3) show ?thesis by auto
  qed
qed

lemma shaped_del:
  assumes "shaped w" "q \<noteq> []" "look w q \<noteq> Some Dir \<or> dir_entries w q = []"
  shows "shaped (del_node q w)"
proof -
  have "look w (q @ [c]) = None" for c
    using assms dir_entries_look [of w q c] unfolding shaped_def by fastforce
  with assms(1,2) show ?thesis unfolding shaped_def by auto
qed

lemma leaf_parent:
  assumes "leaf_at env w b rel = Inr q"
  obtains d where "q = d @ [Base rel]" "look w d = Some Dir" "r_walk env w b (Dirname rel) = Inr d"
  using assms unfolding leaf_at_def
  by (auto split: if_splits sum.splits option.splits node.splits)

lemma mkdirs_shaped:
  "shaped w \<Longrightarrow> look w d = Some Dir \<Longrightarrow> link_free w \<Longrightarrow> list_all plain_comp cs \<Longrightarrow>
   shaped (snd (mkdirs env base w d cs))"
proof (induction cs arbitrary: w d)
  case (Cons c cs)
  have c: "c \<noteq> ''''" "c \<noteq> ''.''" "c \<noteq> ''..''" using Cons.prems by (auto simp: plain_comp_def)
  have "shaped (set_node (d @ [c]) Dir w)" using Cons.prems by (intro shaped_set) auto
  with c Cons show ?case by (auto split: option.splits node.splits simp: link_free_def)
qed simp

lemma root_Remove_shaped: "shaped w \<Longrightarrow> shaped (snd (root_Remove env b rel w))"
  unfolding root_Remove_def
  by (auto split: sum.splits option.splits elim!: leaf_parent intro!: shaped_del)

lemma remove_all_shaped: "shaped w \<Longrightarrow> shaped (remove_all env b rels w)"
  by (induction rels arbitrary: w) (auto simp: root_Remove_shaped)

lemma cleanStaleTemps_shaped: "shaped w \<Longrightarrow> shaped (cleanStaleTemps env b dir base w)"
  by (auto simp: cleanStaleTemps_def remove_all_shaped split: sum.splits)

lemma write_temp_shaped:
  assumes sh: "shaped w" and run: "write_temp env b tr rel data perm w = (e, w')"
  shows "shaped w'"
proof (cases "leaf_at env w b tr")
  case (Inl a)
  with run sh show ?thesis by (auto simp: write_temp_def)
next
  case (Inr t)
  from leaf_parent [OF Inr] obtain d where d: "t = d @ [Base tr]" "look w d = Some Dir" by blast
  show ?thesis
  proof (cases "look w t = None")
    case False
    with Inr run sh show ?thesis by (auto simp: write_temp_def)
  next
    case True
    have s: "shaped (set_node t nd v)" if "shaped v" "look v d = Some Dir" "look v t \<noteq> Some Dir" for nd v
      using shaped_set [of v d nd "Base tr"] that d(1) by simp
    have u: "shaped (del_node t v)" if "shaped v" "look v t \<noteq> Some Dir" for v
      using shaped_del [of v t] that d(1) by simp
    define w1 where "w1 = set_node t (File [] 0x180) w"
    define w2 where "w2 = set_node t (File data 0x180) w1"
    define w3 where "w3 = set_node t (File data perm) w2"
    have dt: "d \<noteq> t" "t \<noteq> []" using d(1) by auto
    have 1: "shaped w1" "look w1 d = Some Dir" "look w1 t = Some (File [] 0x180)"
      using s [OF sh d(2)] True d dt by (simp_all add: w1_def)
    have 2: "shaped w2" "look w2 d = Some Dir" "look w2 t = Some (File data 0x180)"
      using s [OF 1(1,2)] 1 dt by (simp_all add: w2_def)
    have 3: "shaped w3" "look w3 d = Some Dir" "look w3 t = Some (File data perm)"
      using s [OF 2(1,2)] 2 dt by (simp_all add: w3_def)
    have fin: "shaped (set_node q (File data perm) (del_node t w3))"
      if "leaf_at env w3 b rel = Inr q" "look w3 q \<noteq> Some Dir" for q
    proof -
      from leaf_parent [OF that(1)] obtain d' where d': "q = d' @ [Base rel]" "look w3 d' = Some Dir" by blast
      have "d' \<noteq> t" using d'(2) 3(3) by auto
      with d' have "look (del_node t w3) d' = Some Dir" using dt by simp
      moreover have "look (del_node t w3) q \<noteq> Some Dir" using that(2) dt by simp
      moreover have "shaped (del_node t w3)" using u 3 by simp
      ultimately show ?thesis using d'(1) shaped_set by blast
    qed
    have r': "write_temp env b tr rel data perm w =
      (let undo = (\<lambda>v. if refuses env OpRemove t then v else del_node t v) in
       if look w t \<noteq> None then (Some Exists, w)
       else if refuses env OpTemp t then (Some Refused, w)
       else if refuses env OpWrite t then (Some Refused, undo w1)
       else if refuses env OpChmod t then (Some Refused, undo w2)
       else if refuses env OpSync t \<or> refuses env OpClose t then (Some Refused, undo w3)
       else (case leaf_at env w3 b rel of
           Inl e \<Rightarrow> (Some e, undo w3)
         | Inr q \<Rightarrow>
             if refuses env OpRename q then (Some Refused, undo w3)
             else if look w3 q = Some Dir then (Some IsDir, undo w3)
             else (None, set_node q (File data perm) (del_node t w3))))"
      by (simp only: write_temp_def Inr sum.case Let_def w1_def w2_def w3_def)
    have un: "shaped (del_node t w1)" "shaped (del_node t w2)" "shaped (del_node t w3)"
      using u 1 2 3 by simp_all
    show ?thesis
      using run sh 1(1) 2(1) 3(1) un fin unfolding r'
      by (auto simp: Let_def split: if_splits sum.splits)
  qed
qed

lemma r_writeAtomic_shaped:
  assumes "rt_root r = Some b" "rooted_rel (rt_dir r) p = Some (join_with slash cs)"
    "list_all plain_comp cs" "cs \<noteq> []" "look w b = Some Dir" "link_free w" "shaped w"
  shows "shaped (snd (r_writeAtomic env r p data perm w))"
proof (cases "active w")
  case True
  with assms show ?thesis by (simp add: r_writeAtomic_def shaped_def)
next
  case False
  let ?dir = "Dirname (join_with slash cs)"
  define m where "m = (if ?dir \<noteq> ''.'' then mkdirs env (Some b) w b (split_on slash ?dir) else (None, w))"
  note dir = Dirname_join [OF assms(3,4)] and pb = plain_butlast [OF assms(3)]
  have "shaped (snd m)"
    using mkdirs_shaped [OF assms(7,5,6) pb, of env "Some b"] assms(7) dir split_join_plain [OF pb]
    by (auto simp: m_def split: if_splits)
  moreover have "r_writeAtomic env r p data perm w =
      (case m of (Some e, w1) \<Rightarrow> (Some e, w1)
       | (None, w1) \<Rightarrow> write_temp env b (Join [?dir, Base (join_with slash cs) @ ''.tmp-'' @ temp_suffix env])
           (join_with slash cs) data perm (cleanStaleTemps env b ?dir (Base (join_with slash cs)) w1))"
    using assms(1,2) False by (simp add: r_writeAtomic_def Let_def m_def)
  ultimately show ?thesis
    using write_temp_shaped [OF cleanStaleTemps_shaped]
    by (cases m; cases "fst m") (auto, metis prod.collapse)
qed

end
