(* ===== verification/Manifest.thy ===== *)
theory Manifest
  imports Containment "HOL-Library.Char_ord" "HOL-Library.List_Lexorder"
begin

text \<open>
  The sync ledger (\<open>loadManifest\<close> and \<open>saveManifest\<close> of \<open>internal/syncclient/reconcile.go\<close>)
  and the notices a run reports. A notice stands for the text the code formats, with the
  values it formats as arguments.
\<close>

datatype notice =
    Unknown_type string
  | Ignored_file_entry string
  | Write_failed string ioerr
  | Remove_failed string ioerr
  | Manifest_failed ioerr
  | Project_missing string
  | Malformed_markers string
  | Block_restored string
  | Root_failed string ioerr
  | Root_vanished string
  | Read_failed string ioerr
  | Strip_failed string ioerr
  | Malformed_entry string
  | Untrusted_entry string
  | Unreachable string
  | Unknown_scope string string

definition manifestName :: string where "manifestName = ''.orbeat-sync-manifest.json''"

definition manifest_path :: "string \<Rightarrow> string" where
  "manifest_path claudeDir = Join [claudeDir, manifestName]"

definition loadManifest :: "env \<Rightarrow> world \<Rightarrow> string \<Rightarrow> sync_error + manifest" where
  "loadManifest env w claudeDir =
     (case openRootedOptional env w claudeDir of
        Inl _ \<Rightarrow> Inl (Fatal ''reconcile: open sync root'')
      | Inr None \<Rightarrow> Inr empty_manifest
      | Inr (Some r) \<Rightarrow>
          (case r_readFile env w r (manifest_path claudeDir) of
             Inl NotExist \<Rightarrow> Inr empty_manifest
           | Inl _ \<Rightarrow> Inl (Fatal ''reconcile: read manifest'')
           | Inr data \<Rightarrow>
               (case json_unmarshal env data of
                  None \<Rightarrow> Inl (Fatal ''reconcile: parse manifest'')
                | Some m \<Rightarrow> Inr m)))"

definition sorted_manifest :: "manifest \<Rightarrow> manifest" where
  "sorted_manifest m =
     m\<lparr>mf_files := sort (mf_files m), mf_seeds := map (\<lambda>(n, ps). (n, sort ps)) (mf_seeds m)\<rparr>"

definition saveManifest :: "env \<Rightarrow> string \<Rightarrow> manifest \<Rightarrow> world \<Rightarrow> ioerr option \<times> world" where
  "saveManifest env claudeDir m w =
     (let data = json_marshal env (sorted_manifest m) in
      case (if \<not> active w then os_MkdirAll env claudeDir w else (None, w)) of
        (Some e, w1) \<Rightarrow> (Some e, w1)
      | (None, w1) \<Rightarrow>
          (case openRootedFor env w1 claudeDir of
             Inl e \<Rightarrow> (Some e, w1)
           | Inr r \<Rightarrow> r_writeAtomic env r (manifest_path claudeDir) data 0x1A4 w1))"

text \<open>Plan mode: the ledger is recorded, not written.\<close>

lemma saveManifest_planned:
  assumes "active w"
  shows "nodes (snd (saveManifest env claudeDir m w)) = nodes w" "active (snd (saveManifest env claudeDir m w))"
  using assms r_writeAtomic_planned
  by (auto simp: saveManifest_def Let_def split: sum.splits)

end
