(* ===== verification/RulesBlock.thy ===== *)
theory RulesBlock
  imports SyncTypes
begin

text \<open>
  The ORBEAT-RULES block (\<open>internal/syncclient/rules.go\<close>, first part): rendering, the health
  check of a file, merging the block into a file and stripping it. The lemmas show that a merge
  is idempotent, touches nothing outside the block, restores an edited body, and is undone by a
  strip.
\<close>

subsection \<open>Markers\<close>

definition rulesBegin :: string where "rulesBegin = ''<!-- ORBEAT-RULES:BEGIN ''"
definition rulesEnd :: string where "rulesEnd = ''<!-- ORBEAT-RULES:END -->''"

text \<open>The rest of the header line; the first three bytes are the UTF-8 em dash.\<close>

definition rulesNote :: bytes where
  "rulesNote = [CHR 0xE2, CHR 0x80, CHR 0x94] @ '' managed by orbeat-sync; edit OUTSIDE this block -->''"

definition rulesClaudeImport :: bytes where "rulesClaudeImport = ''@AGENTS.md''"

definition rulesHash :: "bytes \<Rightarrow> string" where "rulesHash body = body_hash body"

definition renderRulesBlock :: "bytes \<Rightarrow> bytes" where
  "renderRulesBlock body = render_block rulesBegin rulesEnd rulesNote body"

definition rulesBlockRe :: "bytes \<Rightarrow> (bytes \<times> string \<times> bytes \<times> bytes) option" where
  "rulesBlockRe s = find_block rulesBegin rulesEnd s"

definition rulesMarkersHealthy :: "bytes \<Rightarrow> bool" where
  "rulesMarkersHealthy existing = markers_healthy rulesBegin rulesEnd existing"

definition rules_free :: "bytes \<Rightarrow> bool" where
  "rules_free s = marker_free rulesBegin rulesEnd s"

subsection \<open>Merge and strip\<close>

definition mergeRules :: "bytes \<Rightarrow> bytes \<Rightarrow> bytes \<times> bool \<times> bool" where
  "mergeRules existing body =
     (let block = renderRulesBlock body in
      case rulesBlockRe existing of
        Some (pre, markerHash, old, post) \<Rightarrow>
          let restored = (rulesHash old \<noteq> markerHash) in
          if \<not> restored \<and> markerHash = rulesHash body then (existing, False, False)
          else (pre @ block @ post, True, restored)
      | None \<Rightarrow>
          let trimmed = trim_nl existing in
          if trimmed = [] then (block, True, False)
          else (trimmed @ [nl, nl] @ block, True, False))"

function strip_rules_loop :: "bytes \<Rightarrow> nat \<Rightarrow> bytes \<times> nat" where
  "strip_rules_loop existing n =
     (case rulesBlockRe existing of
        None \<Rightarrow> (existing, n)
      | Some (pre, h, b, post) \<Rightarrow> strip_rules_loop (pre @ post) (Suc n))"
  by pat_completeness auto
termination
  by (relation "measure (\<lambda>(s, n). length s)") (auto simp: rulesBlockRe_def dest!: find_block_shorter)

declare strip_rules_loop.simps [simp del]

definition normal_end :: "bytes \<Rightarrow> bytes" where
  "normal_end s = (let t = trim_nl s in if t = [] then [] else t @ [nl])"

definition stripRules :: "bytes \<Rightarrow> bytes \<times> nat" where
  "stripRules existing =
     (case strip_rules_loop existing 0 of
        (s, n) \<Rightarrow> if 0 < n then (normal_end s, n) else (s, n))"

subsection \<open>The markers satisfy the contract\<close>

lemma rules_markers_lt: "lt_marker rulesBegin" "lt_marker rulesEnd"
  by (simp_all add: lt_marker_def rulesBegin_def rulesEnd_def)

interpretation rb: managed_markers "\<lambda>_::unit. rulesBegin" "\<lambda>_. rulesEnd" "\<lambda>_. True"
  by unfold_locales (simp_all add: rules_markers_lt, simp add: rulesBegin_def rulesEnd_def)

lemma rules_note_plain: "plain_note rulesNote"
  by (simp add: plain_note_def rulesNote_def)

lemmas rules_defs = renderRulesBlock_def rulesBlockRe_def rulesMarkersHealthy_def rules_free_def rulesHash_def

lemma rulesBlockRe_none: "rules_free s \<Longrightarrow> rulesBlockRe s = None"
  by (simp add: rules_defs marker_free_def contains_iff find_block_none)

lemma rulesBlockRe_rendered:
  "rules_free pre \<Longrightarrow> rules_free body \<Longrightarrow>
   rulesBlockRe (pre @ renderRulesBlock body @ post) = Some (pre, rulesHash body, trim_nl body @ [nl], post)"
  using rb.find_rendered [of pre body rulesNote post] rules_note_plain
  by (simp add: rules_defs marker_free_def)

lemma rules_rendered_healthy:
  "rules_free pre \<Longrightarrow> rules_free body \<Longrightarrow> rules_free post \<Longrightarrow>
   rulesMarkersHealthy (pre @ renderRulesBlock body @ post)"
  using rb.rendered_healthy [of pre body post rulesNote] rules_note_plain
  by (simp add: rules_defs)

lemma rules_healthy_none: "rulesMarkersHealthy s \<Longrightarrow> rulesBlockRe s = None \<Longrightarrow> rules_free s"
  using rb.healthy_none [of s] by (simp add: rules_defs)

lemma rules_healthy_block:
  "rulesMarkersHealthy s \<Longrightarrow> rulesBlockRe s = Some (pre, h, b, post) \<Longrightarrow>
   rules_free pre \<and> rules_free b \<and> rules_free post"
  using rb.healthy_block [of s pre h b post] by (simp add: rules_defs)

lemma rules_free_Nil [simp]: "rules_free []"
  by (simp add: rules_free_def marker_free_def contains_iff rulesBegin_def rulesEnd_def)

lemma rules_free_nl [simp]: "rules_free (u @ nl # v) \<longleftrightarrow> rules_free u \<and> rules_free v"
  by (auto simp: rules_free_def marker_free_def contains_iff rules_markers_lt)

lemma rules_free_trim: "rules_free s \<Longrightarrow> rules_free (trim_nl s)"
  by (auto simp: rules_free_def marker_free_def contains_iff trim_nl_def dest: sublist_trim_right)

subsection \<open>Shape of a merge\<close>

lemma mergeRules_shape:
  assumes "rulesMarkersHealthy existing" "rules_free body"
  obtains (kept) "mergeRules existing body = (existing, False, False)"
      "\<exists>pre old post. rulesBlockRe existing = Some (pre, rulesHash body, old, post) \<and>
         rulesHash old = rulesHash body"
  | (written) pre post where
      "fst (mergeRules existing body) = pre @ renderRulesBlock body @ post"
      "fst (snd (mergeRules existing body))" "rules_free pre" "rules_free post"
      "fst (mergeRules existing body) \<noteq> existing"
proof (cases "rulesBlockRe existing")
  case None
  then have free: "rules_free existing" using assms(1) rules_healthy_none by blast
  define pre where "pre = (if trim_nl existing = [] then [] else trim_nl existing @ [nl, nl])"
  have m: "mergeRules existing body = (pre @ renderRulesBlock body, True, False)"
    using None by (simp add: mergeRules_def pre_def)
  have fp: "rules_free pre"
    using free rules_free_nl [of "trim_nl existing" "[nl]"] rules_free_nl [of "[]" "[]"]
    by (auto simp: pre_def rules_free_trim)
  have "rulesBlockRe (fst (mergeRules existing body)) \<noteq> None"
    using rulesBlockRe_rendered [OF fp assms(2), of "[]"] m by simp
  with None have "fst (mergeRules existing body) \<noteq> existing" by auto
  then show thesis using written [of pre "[]"] m fp by simp
next
  case (Some x)
  then obtain pre mh old post where found: "rulesBlockRe existing = Some (pre, mh, old, post)"
    by (cases x) auto
  from rules_healthy_block [OF assms(1) found]
  have free: "rules_free pre" "rules_free post" by auto
  show thesis
  proof (cases "rulesHash old = mh \<and> mh = rulesHash body")
    case True
    with found have "mergeRules existing body = (existing, False, False)"
      by (simp add: mergeRules_def)
    then show thesis using kept found True by simp
  next
    case False
    with found have m: "fst (mergeRules existing body) = pre @ renderRulesBlock body @ post"
      "fst (snd (mergeRules existing body))"
      by (auto simp: mergeRules_def Let_def)
    have "rulesBlockRe (pre @ renderRulesBlock body @ post) =
        Some (pre, rulesHash body, trim_nl body @ [nl], post)"
      using free(1) assms(2) by (rule rulesBlockRe_rendered)
    then have "fst (mergeRules existing body) \<noteq> existing"
      using False found m by (auto simp: rulesHash_def)
    then show thesis using written [of pre post] m free by simp
  qed
qed

lemma mergeRules_written:
  assumes "rules_free pre" "rules_free body"
  shows "mergeRules (pre @ renderRulesBlock body @ post) body =
    (pre @ renderRulesBlock body @ post, False, False)"
  using rulesBlockRe_rendered [OF assms, of post] by (simp add: mergeRules_def rulesHash_def)

subsection \<open>Stripping\<close>

lemma normal_end_idem [simp]: "normal_end (normal_end s) = normal_end s"
  by (simp add: normal_end_def Let_def)

lemma stripRules_free: "rulesBlockRe s = None \<Longrightarrow> stripRules s = (s, 0)"
  by (simp add: stripRules_def strip_rules_loop.simps)

lemma stripRules_one:
  assumes "rulesBlockRe s = Some (pre, h, b, post)" "rules_free pre" "rules_free post"
  shows "stripRules s = (normal_end (pre @ post), 1)"
proof -
  have "rulesBlockRe (pre @ post) = None"
    using assms(2,3) by (auto simp: rules_defs marker_free_def contains_iff intro: find_block_join)
  with assms(1) show ?thesis
    by (simp add: stripRules_def strip_rules_loop.simps [of s] strip_rules_loop.simps [of "pre @ post"])
qed

lemma stripRules_rendered:
  assumes "rules_free pre" "rules_free body" "rules_free post"
  shows "stripRules (pre @ renderRulesBlock body @ post) = (normal_end (pre @ post), 1)"
  using rulesBlockRe_rendered [OF assms(1,2)] assms by (intro stripRules_one)

subsection \<open>The aggregated body\<close>

text \<open>\<open>renderRulesBody\<close>: one section per rule, a blank line between two sections.\<close>

definition rule_section :: "artifact \<Rightarrow> bytes" where
  "rule_section r = ''## '' @ art_name r @ [nl, nl] @ trim_nl (art_content r) @ [nl]"

fun renderRulesBody :: "artifact list \<Rightarrow> bytes" where
  "renderRulesBody [] = []"
| "renderRulesBody (r # rs) = rule_section r @ concat (map (\<lambda>x. nl # rule_section x) rs)"

text \<open>\<open>rulesFor\<close>: an untargeted rule applies everywhere, a targeted one where a tag is shared.\<close>

fun rulesFor :: "artifact list \<Rightarrow> string list \<Rightarrow> artifact list" where
  "rulesFor [] tags = []"
| "rulesFor (r # rs) tags =
     (if art_target_tags r = [] \<or> list_ex (\<lambda>t. t \<in> set tags) (art_target_tags r)
      then r # rulesFor rs tags else rulesFor rs tags)"

lemma rulesFor_set: "r \<in> set (rulesFor rs tags) \<longleftrightarrow>
    r \<in> set rs \<and> (art_target_tags r = [] \<or> set (art_target_tags r) \<inter> set tags \<noteq> {})"
  by (induction rs) (auto simp: list_ex_iff)

lemma rulesFor_untagged: "rulesFor rs [] = filter (\<lambda>r. art_target_tags r = []) rs"
  by (induction rs) (auto simp: list_ex_iff)

lemma rulesFor_mono: "set tags \<subseteq> set tags' \<Longrightarrow> set (rulesFor rs tags) \<subseteq> set (rulesFor rs tags')"
  unfolding subset_iff rulesFor_set by blast

lemma rulesFor_subseq: "subseq (rulesFor rs tags) rs"
  by (induction rs) auto

lemma rules_free_no_lt: "CHR ''<'' \<notin> set s \<Longrightarrow> rules_free s"
  using lt_no_sublist rules_markers_lt
  by (simp add: rules_free_def marker_free_def contains_iff)

lemma rule_section_free:
  assumes "artifactNameRe (art_name r)" "rules_free (art_content r)"
  shows "rules_free (rule_section r)" "rules_free (rule_section r @ [nl])"
proof -
  have "rules_free (''## '' @ art_name r)"
    using slug_not_special(1) [OF assms(1)] by (intro rules_free_no_lt) simp
  then have "rules_free ((''## '' @ art_name r) @ nl # [] @ nl # trim_nl (art_content r) @ nl # [])"
    using rules_free_trim [OF assms(2)] rules_free_nl rules_free_Nil by blast
  then show 1: "rules_free (rule_section r)" by (simp add: rule_section_def)
  then show "rules_free (rule_section r @ [nl])" by simp
qed

text \<open>A body made of slug-named rules whose contents hold no sentinel holds none.\<close>

lemma renderRulesBody_free:
  assumes "\<And>r. r \<in> set rs \<Longrightarrow> artifactNameRe (art_name r) \<and> rules_free (art_content r)"
  shows "rules_free (renderRulesBody rs)"
proof -
  have tail: "rules_free u \<Longrightarrow> rules_free (u @ concat (map (\<lambda>x. nl # rule_section x) xs))"
    if "\<And>r. r \<in> set xs \<Longrightarrow> artifactNameRe (art_name r) \<and> rules_free (art_content r)" for u xs
    using that
  proof (induction xs arbitrary: u)
    case (Cons x xs)
    then have "rules_free (u @ nl # rule_section x)" by (simp add: rule_section_free)
    with Cons.IH [of "u @ nl # rule_section x"] Cons.prems show ?case by simp
  qed simp
  show ?thesis
  proof (cases rs)
    case (Cons r rs')
    with assms show ?thesis using tail [of rs' "rule_section r"] by (simp add: rule_section_free)
  qed simp
qed

subsection \<open>Properties\<close>

lemma mergeRules_settles:
  assumes "rulesMarkersHealthy existing" "rules_free body"
  shows "rulesMarkersHealthy (fst (mergeRules existing body)) \<and>
    mergeRules (fst (mergeRules existing body)) body = (fst (mergeRules existing body), False, False)"
proof (cases rule: mergeRules_shape [OF assms])
  case 1
  with assms show ?thesis by simp
next
  case (2 pre post)
  with assms(2) show ?thesis
    using mergeRules_written [of pre body post] rules_rendered_healthy [of pre body post] by simp
qed

text \<open>
  A merge settles: on a file with healthy markers and a body that holds no sentinel, the
  merged file is healthy again and merging the same body once more changes nothing, so a
  steady-state sync is a no-op.
\<close>

theorem mergeRules_idempotent:
  assumes "rulesMarkersHealthy existing" "rules_free body"
  shows "rulesMarkersHealthy (fst (mergeRules existing body)) \<and>
    mergeRules (fst (mergeRules existing body)) body = (fst (mergeRules existing body), False, False)"
  by (rule mergeRules_settles [OF assms])

theorem mergeRules_idempotent_witness:
  "rulesMarkersHealthy ''# my notes'' \<and> rules_free ''use tabs'' \<and>
   mergeRules (fst (mergeRules ''# my notes'' ''use tabs'')) ''use tabs'' =
     (fst (mergeRules ''# my notes'' ''use tabs''), False, False)"
proof -
  have f: "rules_free ''# my notes''" "rules_free ''use tabs''"
    by (simp_all add: rules_free_def marker_free_def contains_def rulesBegin_def rulesEnd_def)
  then have h: "rulesMarkersHealthy ''# my notes''"
    using rb.free_healthy by (simp add: rules_defs)
  show ?thesis using mergeRules_idempotent [OF h f(2)] h f by simp
qed

text \<open>
  C33. Stripping undoes a merge: whatever the file was, merging the block and stripping it gives
  the text that stripping the file itself gives, up to the newlines at its end; the developer's
  content outside the block is never lost.
\<close>

theorem stripRules_mergeRules:
  assumes "rulesMarkersHealthy existing" "rules_free body"
  shows "stripRules (fst (mergeRules existing body)) = (normal_end (fst (stripRules existing)), 1)"
proof (cases "rulesBlockRe existing")
  case None
  then have free: "rules_free existing" using assms(1) rules_healthy_none by blast
  define pre where "pre = (if trim_nl existing = [] then [] else trim_nl existing @ [nl, nl])"
  have "fst (mergeRules existing body) = pre @ renderRulesBlock body @ []"
    using None by (simp add: mergeRules_def pre_def)
  moreover have "rules_free pre"
    using free rules_free_nl [of "trim_nl existing" "[nl]"] rules_free_nl [of "[]" "[]"]
    by (auto simp: pre_def rules_free_trim)
  moreover have "normal_end pre = normal_end existing"
    by (auto simp: pre_def normal_end_def Let_def)
  ultimately show ?thesis
    using stripRules_rendered [of pre body "[]"] assms(2) stripRules_free [OF None] by simp
next
  case (Some x)
  then obtain pre mh old post where found: "rulesBlockRe existing = Some (pre, mh, old, post)"
    by (cases x) auto
  from rules_healthy_block [OF assms(1) found] have free: "rules_free pre" "rules_free post" by auto
  have strip: "stripRules existing = (normal_end (pre @ post), 1)"
    using found free by (rule stripRules_one)
  show ?thesis
  proof (cases "rulesHash old = mh \<and> mh = rulesHash body")
    case True
    with found strip show ?thesis by (simp add: mergeRules_def)
  next
    case False
    with found have "fst (mergeRules existing body) = pre @ renderRulesBlock body @ post"
      by (auto simp: mergeRules_def Let_def)
    with stripRules_rendered [OF free(1) assms(2) free(2)] strip show ?thesis by simp
  qed
qed

theorem stripRules_mergeRules_witness:
  "stripRules (fst (mergeRules ''# my notes'' ''use tabs'')) =
     (normal_end (fst (stripRules ''# my notes'')), 1)"
proof -
  have f: "rules_free ''# my notes''" "rules_free ''use tabs''"
    by (simp_all add: rules_free_no_lt)
  then have h: "rulesMarkersHealthy ''# my notes''"
    using rb.free_healthy by (simp add: rules_defs)
  show ?thesis by (rule stripRules_mergeRules [OF h f(2)])
qed

text \<open>
  C31. After a merge the file carries the governed body: the block found in the merged file is
  attested by the hash of the requested body and its content hashes to that hash, so an edit
  made inside the block never survives a sync. The file is reported changed exactly when its
  bytes differ, a restoration is reported exactly when the block found did not hash to its own
  marker, and a restoration is always a change.
\<close>

theorem mergeRules_enforces:
  assumes "rulesMarkersHealthy existing" "rules_free body"
    "mergeRules existing body = (merged, changed, restored)"
  shows "(\<exists>pre b post. rulesBlockRe merged = Some (pre, rulesHash body, b, post) \<and>
           rulesHash b = rulesHash body) \<and>
         (changed \<longleftrightarrow> merged \<noteq> existing) \<and> (restored \<longrightarrow> changed) \<and>
         (restored \<longleftrightarrow> (\<exists>pre h b post. rulesBlockRe existing = Some (pre, h, b, post) \<and> rulesHash b \<noteq> h))"
proof -
  have r: "restored \<longrightarrow> changed"
    "restored \<longleftrightarrow> (\<exists>pre h b post. rulesBlockRe existing = Some (pre, h, b, post) \<and> rulesHash b \<noteq> h)"
    using assms(3) by (auto simp: mergeRules_def Let_def split: option.splits if_splits)
  show ?thesis
  proof (cases rule: mergeRules_shape [OF assms(1,2)])
    case 1
    with assms(3) r show ?thesis by auto
  next
    case (2 pre post)
    moreover have "rulesHash (trim_nl body @ [nl]) = rulesHash body"
      by (simp add: rulesHash_def)
    ultimately show ?thesis
      using assms(3) r rulesBlockRe_rendered [of pre body post] assms(2) by auto
  qed
qed

theorem mergeRules_enforces_witness:
  "\<exists>m c r. mergeRules ''# my notes'' ''use tabs'' = (m, c, r) \<and> c = (m \<noteq> ''# my notes'') \<and>
     (\<exists>pre b post. rulesBlockRe m = Some (pre, rulesHash ''use tabs'', b, post))"
proof -
  have f: "rules_free ''# my notes''" "rules_free ''use tabs''"
    by (simp_all add: rules_free_no_lt)
  then have h: "rulesMarkersHealthy ''# my notes''"
    using rb.free_healthy by (simp add: rules_defs)
  obtain m c r where m: "mergeRules ''# my notes'' ''use tabs'' = (m, c, r)"
    by (metis prod_cases3)
  from mergeRules_enforces [OF h f(2) m] m show ?thesis by blast
qed

end
