(* ===== verification/RootedOps.thy ===== *)
theory RootedOps
  imports Containment
begin

text \<open>
  The rooted operations in a well-formed tree without links, as the reconcilers use them: a
  root open on the boundary \<open>b\<close>, absolute paths of the form boundary plus plain components.
\<close>

definition good_tree :: "world \<Rightarrow> bool" where
  "good_tree w \<longleftrightarrow> link_free w \<and> names_ok w \<and> shaped w"

definition root_on :: "rooted \<Rightarrow> path \<Rightarrow> world \<Rightarrow> bool" where
  "root_on r b w \<longleftrightarrow> rt_root r = Some b \<and> rt_dir r = abs_path b \<and> list_all plain_comp b \<and> b \<noteq> [] \<and>
     look w b = Some Dir"

definition plain_env :: "env \<Rightarrow> bool" where
  "plain_env env \<longleftrightarrow> slash \<notin> set (temp_suffix env)"

text \<open>Regular files that changed lie in \<open>Q\<close>.\<close>

definition files_kept :: "world \<Rightarrow> world \<Rightarrow> (path \<Rightarrow> bool) \<Rightarrow> bool" where
  "files_kept w w' Q \<longleftrightarrow>
     (\<forall>q c p. look w q = Some (File c p) \<and> look w' q \<noteq> look w q \<longrightarrow> Q q)"

definition temp_of :: "path \<Rightarrow> path \<Rightarrow> bool" where
  "temp_of q t \<longleftrightarrow> (\<exists>x. t = butlast q @ [x] \<and> has_prefix (last q @ ''.tmp-'') x)"

lemma files_kept_refl [simp]: "files_kept w w Q"
  by (simp add: files_kept_def)

lemma files_kept_trans:
  "files_kept u v Q \<Longrightarrow> files_kept v w Q' \<Longrightarrow> (\<And>q. Q q \<Longrightarrow> R q) \<Longrightarrow> (\<And>q. Q' q \<Longrightarrow> R q) \<Longrightarrow> files_kept u w R"
  unfolding files_kept_def by metis

lemma files_kept_mono: "files_kept w w' Q \<Longrightarrow> (\<And>q. Q q \<Longrightarrow> R q) \<Longrightarrow> files_kept w w' R"
  unfolding files_kept_def by blast

lemma root_on_rel:
  assumes "root_on r b w" "list_all plain_comp cs" "cs \<noteq> []"
  shows "rooted_rel (rt_dir r) (abs_path (b @ cs)) = Some (join_with slash cs)"
proof -
  have "IsAbs (rt_dir r)" "pcomps (rt_dir r) = b"
    using assms(1) by (auto simp: root_on_def pcomps_abs_path)
  with rooted_rel_beneath [OF _ assms(2,3), of "rt_dir r"] show ?thesis by simp
qed

lemma shaped_parents: "shaped w \<Longrightarrow> look w (p @ q) \<noteq> None \<Longrightarrow> q \<noteq> [] \<Longrightarrow> look w p = Some Dir"
proof (induction q rule: rev_induct)
  case (snoc c q)
  then have "look w (p @ q) = Some Dir" unfolding shaped_def by (metis append_assoc)
  with snoc show ?case by (cases "q = []") auto
qed simp

lemma walk_found:
  assumes "good_tree w" "list_all plain_comp cs" "cs \<noteq> []" "look w (d @ cs) \<noteq> None"
  shows "walk w base n d cs = Inr (d @ cs)"
proof (rule walk_plain [OF assms(2,3)])
  fix p q assume "cs = p @ q" "q \<noteq> []"
  then show "look w (d @ p) = Some Dir"
    using assms(1,4) shaped_parents [of w "d @ p" q] by (simp add: good_tree_def)
qed (use assms(1) in \<open>simp add: good_tree_def link_free_def\<close>)

lemma r_walk_found:
  "good_tree w \<Longrightarrow> list_all plain_comp cs \<Longrightarrow> cs \<noteq> [] \<Longrightarrow> look w (b @ cs) \<noteq> None \<Longrightarrow>
   r_walk env w b (join_with slash cs) = Inr (b @ cs)"
  by (simp add: r_walk_def split_join_plain walk_found)

lemma r_stat_found:
  assumes "good_tree w" "root_on r b w" "list_all plain_comp cs" "cs \<noteq> []" "look w (b @ cs) = Some nd"
  shows "r_stat env w r (abs_path (b @ cs)) = (if refuses env OpStat (b @ cs) then Inl Refused else Inr nd)"
  using assms root_on_rel [OF assms(2-4)] r_walk_found [OF assms(1,3,4)]
  by (simp add: r_stat_def node_at_def root_on_def)

lemma r_stat_Inr:
  assumes "good_tree w" "root_on r b w" "list_all plain_comp cs" "cs \<noteq> []"
    "r_stat env w r (abs_path (b @ cs)) = Inr nd"
  shows "look w (b @ cs) = Some nd"
  using assms root_on_rel [OF assms(2-4)] r_walk_link_free [of w cs env b]
  by (auto simp: r_stat_def node_at_def root_on_def good_tree_def split: sum.splits if_splits option.splits)

lemma r_readFile_Inr:
  assumes "good_tree w" "root_on r b w" "list_all plain_comp cs" "cs \<noteq> []"
    "r_readFile env w r (abs_path (b @ cs)) = Inr data"
  shows "\<exists>p. look w (b @ cs) = Some (File data p)"
  using assms root_on_rel [OF assms(2-4)] r_walk_link_free [of w cs env b]
  by (auto simp: r_readFile_def root_on_def good_tree_def split: sum.splits if_splits option.splits node.splits)

lemma r_readFile_found:
  assumes "good_tree w" "root_on r b w" "list_all plain_comp cs" "cs \<noteq> []"
    "look w (b @ cs) = Some (File data p)" "\<not> refuses env OpRead (b @ cs)"
  shows "r_readFile env w r (abs_path (b @ cs)) = Inr data"
  using assms root_on_rel [OF assms(2-4)] r_walk_found [OF assms(1,3,4)]
  by (simp add: r_readFile_def root_on_def)

subsection \<open>Writing\<close>

lemma write_frame_root:
  assumes "write_frame b cs tmp w w'" "look w b = Some Dir" "cs \<noteq> []"
  shows "look w' b = Some Dir"
proof (rule ccontr)
  assume n: "look w' b \<noteq> Some Dir"
  then have "look w' b \<noteq> look w b" "b \<noteq> b @ cs" using assms(2,3) by auto
  then have "(\<exists>x. b = b @ butlast cs @ [x]) \<or> look w' b = Some Dir"
    using assms(1) unfolding write_frame_def by blast
  with n show False by simp
qed

lemma write_frame_files:
  assumes "write_frame b cs tmp w w'" "cs \<noteq> []"
  shows "files_kept w w' (\<lambda>q. q = b @ cs \<or> temp_of (b @ cs) q)"
  unfolding files_kept_def
proof safe
  fix q c p assume "look w q = Some (File c p)" "look w' q \<noteq> look w q" "\<not> temp_of (b @ cs) q"
  with assms show "q = b @ cs"
    unfolding write_frame_def temp_of_def by (metis append_assoc butlast_append last_appendR option.distinct(1))
qed

lemma write_good:
  assumes "good_tree w" "\<not> active w" "root_on r b w" "list_all plain_comp cs" "cs \<noteq> []" "plain_env env"
    and run: "r_writeAtomic env r (abs_path (b @ cs)) data perm w = (e, w')"
  shows "good_tree w'" "\<not> active w'" "root_on r b w'"
    "files_kept w w' (\<lambda>q. q = b @ cs \<or> temp_of (b @ cs) q)"
    "look w' (b @ cs) = (if e = None then Some (File data perm) else look w (b @ cs))"
    "look w' q \<noteq> look w q \<Longrightarrow> q = b @ cs \<or> temp_of (b @ cs) q \<or> look w q = None \<and> look w' q = Some Dir"
proof -
  note rel = root_on_rel [OF assms(3-5)]
  have b: "rt_root r = Some b" "list_all plain_comp b" "look w b = Some Dir" using assms(3) by (auto simp: root_on_def)
  have g: "link_free w" "names_ok w" "shaped w" using assms(1) by (auto simp: good_tree_def)
  have s: "slash \<notin> set (temp_suffix env)" using assms(6) by (simp add: plain_env_def)
  note W = r_writeAtomic_link_free [OF assms(2) b(1) rel assms(4,5) b(2) g(1,2) s run]
  have "shaped w'" using r_writeAtomic_shaped [OF b(1) rel assms(4,5) b(3) g(1,3), of env data perm] run by simp
  with W show "good_tree w'" by (simp add: good_tree_def)
  show "\<not> active w'" using assms(2) run active_snd_r_writeAtomic by (metis snd_conv)
  show "root_on r b w'" using assms(3) write_frame_root [OF W(3) b(3) assms(5)] by (simp add: root_on_def)
  show "files_kept w w' (\<lambda>q. q = b @ cs \<or> temp_of (b @ cs) q)" using W(3) assms(5) by (rule write_frame_files)
  show "look w' (b @ cs) = (if e = None then Some (File data perm) else look w (b @ cs))" by (rule W(4))
  show "look w' q \<noteq> look w q \<Longrightarrow> q = b @ cs \<or> temp_of (b @ cs) q \<or> look w q = None \<and> look w' q = Some Dir"
    using W(3) assms(5) unfolding write_frame_def temp_of_def
    by (metis append_assoc butlast_append last_appendR)
qed

subsection \<open>Removing\<close>

lemma abs_path_snoc: "abs_path (cs @ [c]) = (if cs = [] then [] else abs_path cs) @ slash # c"
  by (simp add: abs_path_def join_append)

lemma Dirname_abs:
  assumes "list_all plain_comp cs" "cs \<noteq> []"
  shows "Dirname (abs_path cs) = abs_path (butlast cs)"
proof -
  let ?u = "if butlast cs = [] then [] else abs_path (butlast cs)"
  have "slash \<notin> set (last cs)" using assms by (auto simp: list_all_iff plain_comp_def)
  then have "\<And>c. c \<in> set (rev (last cs)) \<Longrightarrow> c \<noteq> slash" by auto
  then have "dropWhile (\<lambda>c. c \<noteq> slash) (rev (last cs) @ slash # rev ?u) = dropWhile (\<lambda>c. c \<noteq> slash) (slash # rev ?u)"
    by (rule dropWhile_append2)
  moreover have "abs_path cs = ?u @ slash # last cs" using abs_path_snoc [of "butlast cs" "last cs"] assms(2) by simp
  ultimately have "Dirname (abs_path cs) = Clean (?u @ [slash])" by (simp add: Dirname_def)
  also have "\<dots> = abs_path (pcomps (?u @ [slash]))"
    by (intro Clean_abs) (simp add: abs_path_def)
  also have "pcomps (?u @ [slash]) = butlast cs"
  proof (cases "butlast cs = []")
    case True
    then show ?thesis by (simp add: pcomps_def clean_comps_def)
  next
    case False
    then show ?thesis
      using pcomps_append [of "abs_path (butlast cs)" "[]"] plain_butlast [OF assms(1)]
      by (simp add: pcomps_abs_path)
  qed
  finally show ?thesis .
qed

lemma root_Remove_good:
  assumes "good_tree w" "list_all plain_comp cs" "cs \<noteq> []" "root_Remove env b (join_with slash cs) w = (e, w')"
  shows "good_tree w'" "e \<noteq> None \<Longrightarrow> w' = w"
    "e = None \<Longrightarrow> w' = del_node (b @ cs) w \<and> look w (b @ butlast cs) = Some Dir"
proof -
  have lf: "link_free w" and nm: "names_ok w" and sh: "shaped w" using assms(1) by (auto simp: good_tree_def)
  have ne: "b @ cs \<noteq> []" using assms(3) by simp
  have 1: "e \<noteq> None \<Longrightarrow> w' = w"
    using assms(4) by (auto simp: root_Remove_def split: sum.splits option.splits if_splits)
  moreover have 2: "w' = del_node (b @ cs) w \<and> look w (b @ butlast cs) = Some Dir" if e: "e = None"
  proof -
    from assms(4) e obtain q where q: "leaf_at env w b (join_with slash cs) = Inr q" "w' = del_node q w"
      by (auto simp: root_Remove_def split: sum.splits option.splits if_splits)
    have "q = b @ cs" using leaf_link_free [OF lf assms(2,3) q(1)] .
    moreover from leaf_parent [OF q(1)] obtain d where "q = d @ [Base (join_with slash cs)]" "look w d = Some Dir" by blast
    ultimately show ?thesis using q(2) assms(3) by (auto simp: append_eq_append_conv2 butlast_append dest: arg_cong [of _ _ butlast])
  qed
  moreover have "shaped w'" using root_Remove_shaped [OF sh, of env b "join_with slash cs"] assms(4) by simp
  moreover have "e = None \<Longrightarrow> link_free w' \<and> names_ok w'"
    using 2 lf nm ne by (auto simp: names_ok_def)
  ultimately show "good_tree w'" "e \<noteq> None \<Longrightarrow> w' = w"
    "e = None \<Longrightarrow> w' = del_node (b @ cs) w \<and> look w (b @ butlast cs) = Some Dir"
    using lf nm by (auto simp: good_tree_def)
qed

text \<open>A removal that succeeds or finds nothing leaves a directory, or nothing, above the leaf.\<close>

lemma root_Remove_parent:
  assumes "good_tree w" "list_all plain_comp cs" "cs \<noteq> []" "butlast cs \<noteq> []"
    "root_Remove env b (join_with slash cs) w = (e, w')" "e = None \<or> e = Some NotExist"
  shows "look w' (b @ butlast cs) \<in> {None, Some Dir}"
proof (cases "e = None")
  case True
  with root_Remove_good [OF assms(1-3,5)] assms(3) show ?thesis
    by (auto simp: append_eq_append_conv2 dest: arg_cong [of _ _ length])
next
  case False
  with root_Remove_good(2) [OF assms(1-3,5)] have w: "w' = w" by simp
  have pb: "list_all plain_comp (butlast cs)" using assms(2) by (rule plain_butlast)
  have pl: "plain_comp (last cs)" using assms(2,3) by (rule plain_last)
  show ?thesis
  proof (rule ccontr)
    assume n: "look w' (b @ butlast cs) \<notin> {None, Some Dir}"
    then have "r_walk env w b (join_with slash (butlast cs)) = Inr (b @ butlast cs)"
      using r_walk_found [OF assms(1) pb assms(4)] w by auto
    with n w assms pl show False
      by (auto simp: root_Remove_def leaf_at_def Base_join Dirname_join split: sum.splits option.splits node.splits)
  qed
qed

subsection \<open>A concrete tree\<close>

lemma good_treeI:
  assumes "\<And>q nd. (q, nd) \<in> set (nodes w) \<Longrightarrow>
    q \<noteq> [] \<and> list_all plain_comp q \<and> (\<forall>t. nd \<noteq> Link t) \<and> look w (butlast q) = Some Dir"
  shows "good_tree w"
proof -
  have l: "q = [] \<and> nd = Dir \<or> (q, nd) \<in> set (nodes w)" if "look w q = Some nd" for q nd
    using that by (auto simp: look_def dest: map_of_SomeD split: if_splits)
  have "link_free w" using l assms unfolding link_free_def by blast
  moreover have "names_ok w" using l assms unfolding names_ok_def by fastforce
  moreover have "shaped w"
    unfolding shaped_def
  proof (intro allI impI)
    fix d c assume "look w (d @ [c]) \<noteq> None"
    then obtain nd where "look w (d @ [c]) = Some nd" by blast
    from l [OF this] assms [of "d @ [c]" nd] show "look w d = Some Dir" by simp
  qed
  ultimately show ?thesis by (simp add: good_tree_def)
qed

definition sample_env :: env where
  "sample_env = \<lparr>refuses = (\<lambda>_ _. False), link_budget = 40, temp_suffix = ''0f'',
     home_dir = Some ''/home/u'', range_order = (\<lambda>ks. ks), json_marshal = (\<lambda>_. ''{}''),
     json_unmarshal = (\<lambda>_. Some empty_manifest)\<rparr>"

definition sample_tree :: "node \<Rightarrow> world" where
  "sample_tree nd = \<lparr>nodes = [([''h''], Dir), ([''h'', ''skills''], Dir), ([''h'', ''skills'', ''x''], Dir),
     ([''h'', ''skills'', ''x'', ''SKILL.md''], nd)], plan = None\<rparr>"

lemma sample_good: "good_tree (sample_tree (File c p))"
  by (rule good_treeI) (auto simp: sample_tree_def plain_comp_def look_def)

lemma sample_env_ok [simp]: "plain_env sample_env" "\<not> refuses sample_env op q"
  by (simp_all add: plain_env_def sample_env_def)

lemma sample_inactive [simp]: "\<not> active (sample_tree nd)"
  by (simp add: active_def sample_tree_def)

subsection \<open>Properties\<close>

text \<open>
  C4. Containment: a write or a removal through a root opened on a directory changes nothing
  outside that directory and not the directory itself, whatever links the tree holds, at the
  leaf or in between, and whatever the operating system refuses; a path that leaves the
  boundary lexically is refused before anything is touched.
\<close>

theorem rooted_confines:
  assumes "rt_root r = Some b"
    and "w' = snd (r_writeAtomic env r p data perm w) \<or> w' = snd (r_remove env r p w)"
  shows "(\<forall>q. \<not> strict_prefix b q \<longrightarrow> look w' q = look w q) \<and>
    (IsAbs (rt_dir r) \<and> IsAbs p \<and> \<not> prefix (pcomps (rt_dir r)) (pcomps p) \<longrightarrow> w' = w)"
proof
  show "\<forall>q. \<not> strict_prefix b q \<longrightarrow> look w' q = look w q"
    using assms r_writeAtomic_confined r_remove_confined unfolding confined_def by metis
  show "IsAbs (rt_dir r) \<and> IsAbs p \<and> \<not> prefix (pcomps (rt_dir r)) (pcomps p) \<longrightarrow> w' = w"
    using assms(2) rooted_rel_iff [of "rt_dir r" p] by (auto simp: r_writeAtomic_def r_remove_def)
qed

theorem rooted_confines_witness:
  "look (snd (r_writeAtomic sample_env \<lparr>rt_root = Some [''h''], rt_dir = ''/h''\<rparr> ''/h/skills/x/SKILL.md'' ''d'' 0
     (sample_tree (Link ''/etc'')))) [''etc''] = look (sample_tree (Link ''/etc'')) [''etc'']"
proof -
  have "\<not> strict_prefix [''h''] [''etc'']" by simp
  with rooted_confines [of "\<lparr>rt_root = Some [''h''], rt_dir = ''/h''\<rparr>" "[''h'']" _ sample_env "''/h/skills/x/SKILL.md''" "''d''" 0
      "sample_tree (Link ''/etc'')"]
  show ?thesis by simp
qed

end
