(* ===== verification/RulesSync.thy ===== *)
theory RulesSync
  imports Manifest RulesBlock RootedOps
begin

text \<open>
  The rules pass of a sync run (\<open>internal/syncclient/rules.go\<close>, second part, and
  \<open>rules_global.go\<close>): the aggregated block is merged into the two managed files of every live
  project and into the user-level files, and stripped from every place a previous run wrote to
  and this one does not; the ledger records where a block may be.
\<close>

subsection \<open>Data\<close>

record project =
  pj_path :: string
  pj_tags :: "string list"

record rules_result =
  ru_written :: nat
  ru_unchanged :: nat
  ru_stripped :: nat
  ru_warnings :: "notice list"
  ru_failures :: "notice list"
  ru_applied :: "applied_artifact list"

definition empty_rules_result :: rules_result where
  "empty_rules_result = \<lparr>ru_written = 0, ru_unchanged = 0, ru_stripped = 0, ru_warnings = [],
     ru_failures = [], ru_applied = []\<rparr>"

record rules_notes =
  rn_skips :: "notice list"
  rn_restored :: "notice list"

definition no_notes :: rules_notes where
  "no_notes = \<lparr>rn_skips = [], rn_restored = []\<rparr>"

definition notes_merge :: "rules_notes \<Rightarrow> rules_notes \<Rightarrow> rules_notes" where
  "notes_merge n o' = \<lparr>rn_skips = rn_skips n @ rn_skips o', rn_restored = rn_restored n @ rn_restored o'\<rparr>"

definition notes_all :: "rules_notes \<Rightarrow> notice list" where
  "notes_all n = rn_skips n @ rn_restored n"

text \<open>
  What a call over several files returns for an error: \<open>Inl\<close> a fatal one that ends it at once,
  \<open>Inr\<close> the failures \<open>errors.Join\<close> collects, empty for a nil error.
\<close>

type_synonym joined = "sync_error + ioerr list"

definition failed_with :: "joined \<Rightarrow> bool" where
  "failed_with j \<longleftrightarrow> j \<noteq> Inr []"

subsection \<open>One file\<close>

definition mergeRulesFile ::
  "env \<Rightarrow> rooted \<Rightarrow> string \<Rightarrow> bytes \<Rightarrow> world \<Rightarrow> (ioerr + bool \<times> rules_notes) \<times> world" where
  "mergeRulesFile env r p body w =
     (case (case r_readFile env w r p of Inr data \<Rightarrow> Inr data | Inl NotExist \<Rightarrow> Inr [] | Inl e \<Rightarrow> Inl e) of
        Inl e \<Rightarrow> (Inl e, w)
      | Inr existing \<Rightarrow>
          if \<not> rulesMarkersHealthy existing
          then (Inr (False, no_notes\<lparr>rn_skips := [Malformed_markers p]\<rparr>), w)
          else
            (case mergeRules existing body of
               (merged, ch, restored) \<Rightarrow>
                 (case (if ch then r_writeAtomic env r p merged (r_existingPerm env w r p 0x1A4) w else (None, w)) of
                    (Some e, w1) \<Rightarrow> (Inl e, w1)
                  | (None, w1) \<Rightarrow>
                      (Inr (ch, no_notes\<lparr>rn_restored := (if restored then [Block_restored p] else [])\<rparr>), w1))))"

definition stripRulesFile ::
  "env \<Rightarrow> rooted \<Rightarrow> string \<Rightarrow> world \<Rightarrow> (ioerr + nat \<times> notice option) \<times> world" where
  "stripRulesFile env r p w =
     (case r_readFile env w r p of
        Inl NotExist \<Rightarrow> (Inr (0, None), w)
      | Inl e \<Rightarrow> (Inl e, w)
      | Inr existing \<Rightarrow>
          if \<not> rulesMarkersHealthy existing then (Inr (0, Some (Malformed_markers p)), w)
          else
            (case stripRules existing of
               (out, n) \<Rightarrow>
                 if n = 0 then (Inr (0, None), w)
                 else
                   (case r_writeAtomic env r p out (r_existingPerm env w r p 0x1A4) w of
                      (Some e, w1) \<Rightarrow> (Inl e, w1)
                    | (None, w1) \<Rightarrow> (Inr (n, None), w1))))"

subsection \<open>One project\<close>

definition rulesManagedFiles :: "string list" where
  "rulesManagedFiles = [''AGENTS.md'', ''CLAUDE.md'']"

fun write_files ::
  "env \<Rightarrow> rooted \<Rightarrow> string \<Rightarrow> (string \<times> bytes) list \<Rightarrow> bool \<Rightarrow> rules_notes \<Rightarrow> ioerr list \<Rightarrow> world \<Rightarrow>
   (bool \<times> rules_notes \<times> joined) \<times> world" where
  "write_files env r proj [] changed notes errs w = ((changed, notes, Inr errs), w)"
| "write_files env r proj ((file, body) # specs) changed notes errs w =
     (case resolveContained proj file of
        Inl err \<Rightarrow> ((changed, notes, Inl err), w)
      | Inr p \<Rightarrow>
          (case mergeRulesFile env r p body w of
             (Inl e, w1) \<Rightarrow> write_files env r proj specs changed notes (errs @ [e]) w1
           | (Inr (c, fileNotes), w1) \<Rightarrow>
               write_files env r proj specs (changed \<or> c) (notes_merge notes fileNotes) errs w1))"

definition writeRulesToProject ::
  "env \<Rightarrow> string \<Rightarrow> bytes \<Rightarrow> world \<Rightarrow> (bool \<times> rules_notes \<times> joined) \<times> world" where
  "writeRulesToProject env proj agentsBody w =
     (case openRootedOptional env w proj of
        Inl e \<Rightarrow> ((False, no_notes, Inr [e]), w)
      | Inr None \<Rightarrow> ((False, no_notes, Inr [NotExist]), w)
      | Inr (Some r) \<Rightarrow>
          write_files env r proj [(''AGENTS.md'', agentsBody), (''CLAUDE.md'', rulesClaudeImport)]
            False no_notes [] w)"

fun strip_files ::
  "env \<Rightarrow> rooted \<Rightarrow> string \<Rightarrow> string list \<Rightarrow> nat \<Rightarrow> notice list \<Rightarrow> ioerr list \<Rightarrow> world \<Rightarrow>
   (nat \<times> notice list \<times> joined) \<times> world" where
  "strip_files env r proj [] stripped warnings errs w = ((stripped, warnings, Inr errs), w)"
| "strip_files env r proj (file # files) stripped warnings errs w =
     (case resolveContained proj file of
        Inl err \<Rightarrow> ((stripped, warnings, Inl err), w)
      | Inr p \<Rightarrow>
          (case stripRulesFile env r p w of
             (Inl e, w1) \<Rightarrow> strip_files env r proj files stripped warnings (errs @ [e]) w1
           | (Inr (n, warning), w1) \<Rightarrow>
               strip_files env r proj files (stripped + n)
                 (case warning of None \<Rightarrow> warnings | Some x \<Rightarrow> warnings @ [x]) errs w1))"

definition stripRulesFromProject ::
  "env \<Rightarrow> string \<Rightarrow> world \<Rightarrow> (nat \<times> notice list \<times> joined) \<times> world" where
  "stripRulesFromProject env proj w =
     (case openRootedOptional env w proj of
        Inl e \<Rightarrow> ((0, [], Inr [e]), w)
      | Inr None \<Rightarrow> ((0, [], Inr []), w)
      | Inr (Some r) \<Rightarrow> strip_files env r proj rulesManagedFiles 0 [] [] w)"

subsection \<open>User-level files\<close>

record globalTarget =
  gt_dir :: string
  gt_file :: string

definition gt_path :: "globalTarget \<Rightarrow> string" where
  "gt_path g = Join [gt_dir g, gt_file g]"

definition globalRuleTargets :: "env \<Rightarrow> world \<Rightarrow> string \<Rightarrow> globalTarget list" where
  "globalRuleTargets env w claudeDir =
     \<lparr>gt_dir = claudeDir, gt_file = ''CLAUDE.md''\<rparr> #
     (case home_dir env of
        None \<Rightarrow> []
      | Some home \<Rightarrow>
          let codex = Join [home, ''.codex''] in
          if is_dir (os_Stat env w codex) then [\<lparr>gt_dir = codex, gt_file = ''AGENTS.md''\<rparr>] else [])"

definition allGlobalRuleTargets :: "env \<Rightarrow> string \<Rightarrow> globalTarget list" where
  "allGlobalRuleTargets env claudeDir =
     \<lparr>gt_dir = Clean claudeDir, gt_file = ''CLAUDE.md''\<rparr> #
     (case home_dir env of
        None \<Rightarrow> []
      | Some home \<Rightarrow> [\<lparr>gt_dir = Join [home, ''.codex''], gt_file = ''AGENTS.md''\<rparr>])"

definition isTrustedGlobalRulesPath :: "env \<Rightarrow> string \<Rightarrow> string \<Rightarrow> bool" where
  "isTrustedGlobalRulesPath env claudeDir p \<longleftrightarrow>
     list_ex (\<lambda>g. gt_path g = p) (allGlobalRuleTargets env claudeDir)"

definition writeGlobalRules ::
  "env \<Rightarrow> globalTarget \<Rightarrow> bytes \<Rightarrow> world \<Rightarrow> (bool \<times> rules_notes \<times> joined) \<times> world" where
  "writeGlobalRules env g body w =
     (case openRootedOptional env w (gt_dir g) of
        Inl e \<Rightarrow> ((False, no_notes, Inr [e]), w)
      | Inr None \<Rightarrow> ((False, no_notes, Inr [NotExist]), w)
      | Inr (Some r) \<Rightarrow>
          (case resolveContained (gt_dir g) (gt_file g) of
             Inl err \<Rightarrow> ((False, no_notes, Inl err), w)
           | Inr p \<Rightarrow>
               (case mergeRulesFile env r p body w of
                  (Inl e, w1) \<Rightarrow> ((False, no_notes, Inr [e]), w1)
                | (Inr (c, notes), w1) \<Rightarrow> ((c, notes, Inr []), w1))))"

definition stripGlobalRules ::
  "env \<Rightarrow> string \<Rightarrow> world \<Rightarrow> (ioerr + nat \<times> notice option) \<times> world" where
  "stripGlobalRules env p w =
     (case openRootedOptional env w (Dirname p) of
        Inl e \<Rightarrow> (Inl e, w)
      | Inr None \<Rightarrow> (Inr (0, None), w)
      | Inr (Some r) \<Rightarrow> stripRulesFile env r p w)"

fun globals_write ::
  "env \<Rightarrow> bytes \<Rightarrow> globalTarget list \<Rightarrow> rules_result \<Rightarrow> string set \<Rightarrow> string list \<Rightarrow> bool \<Rightarrow> world \<Rightarrow>
   sync_error option \<times> rules_result \<times> string set \<times> string list \<times> bool \<times> world" where
  "globals_write env body [] res desired ledger landed w = (None, res, desired, ledger, landed, w)"
| "globals_write env body (g # gs) res desired ledger landed w =
     (let p = gt_path g in
      case writeGlobalRules env g body w of
        ((changed, notes, Inl err), w1) \<Rightarrow> (Some err, res, desired, ledger, landed, w1)
      | ((changed, notes, Inr (e # es)), w1) \<Rightarrow>
          globals_write env body gs (res\<lparr>ru_failures := ru_failures res @ [Write_failed p e]\<rparr>)
            desired (ledger @ [p]) landed w1
      | ((changed, notes, Inr []), w1) \<Rightarrow>
          let res1 = res\<lparr>ru_warnings := ru_warnings res @ notes_all notes\<rparr>;
              res2 = (if changed then res1\<lparr>ru_written := ru_written res1 + 1\<rparr>
                      else res1\<lparr>ru_unchanged := ru_unchanged res1 + 1\<rparr>) in
          globals_write env body gs res2 (insert p desired) (ledger @ [p])
            (landed \<or> rn_skips notes = []) w1)"

fun globals_strip ::
  "env \<Rightarrow> string \<Rightarrow> string set \<Rightarrow> string list \<Rightarrow> rules_result \<Rightarrow> string list \<Rightarrow> world \<Rightarrow>
   rules_result \<times> string list \<times> world" where
  "globals_strip env claudeDir desired [] res ledger w = (res, ledger, w)"
| "globals_strip env claudeDir desired (p # ps) res ledger w =
     (if p \<in> desired then globals_strip env claudeDir desired ps res ledger w
      else if \<not> validGlobalRulesPath p then
        globals_strip env claudeDir desired ps
          (res\<lparr>ru_warnings := ru_warnings res @ [Malformed_entry p]\<rparr>) ledger w
      else if \<not> isTrustedGlobalRulesPath env claudeDir p then
        globals_strip env claudeDir desired ps
          (res\<lparr>ru_warnings := ru_warnings res @ [Untrusted_entry p]\<rparr>) (ledger @ [p]) w
      else
        (case stripGlobalRules env p w of
           (Inl e, w1) \<Rightarrow>
             globals_strip env claudeDir desired ps
               (res\<lparr>ru_failures := ru_failures res @ [Strip_failed p e]\<rparr>) (ledger @ [p]) w1
         | (Inr (n, Some warning), w1) \<Rightarrow>
             globals_strip env claudeDir desired ps
               (res\<lparr>ru_warnings := ru_warnings res @ [warning]\<rparr>) (ledger @ [p]) w1
         | (Inr (n, None), w1) \<Rightarrow>
             globals_strip env claudeDir desired ps
               (res\<lparr>ru_stripped := ru_stripped res + n\<rparr>) ledger w1))"

fun append_all_applied :: "applied_artifact list \<Rightarrow> artifact list \<Rightarrow> applied_artifact list" where
  "append_all_applied dst [] = dst"
| "append_all_applied dst (a # as) = append_all_applied (appendApplied dst (art_id a) (art_revision a)) as"

definition reconcileGlobalRules ::
  "env \<Rightarrow> string \<Rightarrow> artifact list \<Rightarrow> manifest \<Rightarrow> rules_result \<Rightarrow> world \<Rightarrow>
   sync_error option \<times> manifest \<times> rules_result \<times> world" where
  "reconcileGlobalRules env claudeDir globals m res w =
     (case (if globals \<noteq> [] then
              globals_write env (renderRulesBody globals) (globalRuleTargets env w claudeDir) res {} [] False w
            else (None, res, {}, [], False, w)) of
        (Some err, res1, _, _, _, w1) \<Rightarrow> (Some err, m, res1, w1)
      | (None, res1, desired, ledger, landed, w1) \<Rightarrow>
          let res2 = (if landed then res1\<lparr>ru_applied := append_all_applied (ru_applied res1) globals\<rparr> else res1) in
          (case globals_strip env claudeDir desired (mf_globals m) res2 ledger w1 of
             (res3, ledger1, w2) \<Rightarrow> (None, m\<lparr>mf_globals := ledger1\<rparr>, res3, w2)))"

subsection \<open>The project pass\<close>

fun collect_rules :: "artifact list \<Rightarrow> sync_error + artifact list" where
  "collect_rules [] = Inr []"
| "collect_rules (a # as) =
     (if art_type a \<noteq> ''rule'' then collect_rules as
      else if \<not> artifactNameRe (art_name a) then Inl (Fatal ''rules: unsafe artifact name'')
      else case collect_rules as of Inl err \<Rightarrow> Inl err | Inr rs \<Rightarrow> Inr (a # rs))"

definition is_live :: "env \<Rightarrow> world \<Rightarrow> project \<Rightarrow> bool" where
  "is_live env w pj \<longleftrightarrow> is_dir (os_Stat env w (pj_path pj))"

record rules_state =
  rs_res :: rules_result
  rs_desired :: "string set"
  rs_failed :: "string set"
  rs_ledger :: "string list"
  rs_landed :: "string set"

fun keep_not_live :: "string set \<Rightarrow> string list \<Rightarrow> rules_state \<Rightarrow> rules_state" where
  "keep_not_live notLive [] st = st"
| "keep_not_live notLive (p # ps) st =
     (let clean = Clean p in
      keep_not_live notLive ps
        (if clean \<in> notLive
         then st\<lparr>rs_failed := insert clean (rs_failed st), rs_ledger := rs_ledger st @ [clean]\<rparr>
         else st))"

text \<open>The write pass over the live projects.\<close>

fun projects_write ::
  "env \<Rightarrow> artifact list \<Rightarrow> project list \<Rightarrow> rules_state \<Rightarrow> world \<Rightarrow> sync_error option \<times> rules_state \<times> world" where
  "projects_write env rules [] st w = (None, st, w)"
| "projects_write env rules (pj # pjs) st w =
     (let clean = Clean (pj_path pj); matched = rulesFor rules (pj_tags pj) in
      if matched = [] then projects_write env rules pjs st w
      else
        (case writeRulesToProject env (pj_path pj) (renderRulesBody matched) w of
           ((changed, notes, Inl err), w1) \<Rightarrow> (Some err, st, w1)
         | ((changed, notes, Inr (e # es)), w1) \<Rightarrow>
             projects_write env rules pjs
               (st\<lparr>rs_res := (rs_res st)\<lparr>ru_failures := ru_failures (rs_res st) @ [Write_failed (pj_path pj) e]\<rparr>,
                   rs_failed := insert clean (rs_failed st), rs_ledger := rs_ledger st @ [clean]\<rparr>) w1
         | ((changed, notes, Inr []), w1) \<Rightarrow>
             let res1 = (rs_res st)\<lparr>ru_warnings := ru_warnings (rs_res st) @ notes_all notes\<rparr>;
                 res2 = (if changed then res1\<lparr>ru_written := ru_written res1 + 1\<rparr>
                         else res1\<lparr>ru_unchanged := ru_unchanged res1 + 1\<rparr>) in
             projects_write env rules pjs
               (st\<lparr>rs_res := res2,
                   rs_landed := (if rn_skips notes = [] then rs_landed st \<union> set (map art_id matched) else rs_landed st),
                   rs_desired := insert clean (rs_desired st), rs_ledger := rs_ledger st @ [clean]\<rparr>) w1))"

text \<open>The strip pass over the ledger.\<close>

fun projects_strip ::
  "env \<Rightarrow> string set \<Rightarrow> string list \<Rightarrow> rules_state \<Rightarrow> world \<Rightarrow> sync_error option \<times> rules_state \<times> world" where
  "projects_strip env trusted [] st w = (None, st, w)"
| "projects_strip env trusted (p # ps) st w =
     (let clean = Clean p;
          warn = (\<lambda>n s. s\<lparr>rs_res := (rs_res s)\<lparr>ru_warnings := ru_warnings (rs_res s) @ n\<rparr>\<rparr>);
          keep = (\<lambda>s. s\<lparr>rs_ledger := rs_ledger s @ [clean]\<rparr>) in
      if clean \<in> rs_desired st \<or> clean \<in> rs_failed st then projects_strip env trusted ps st w
      else if \<not> validRulesPath p then projects_strip env trusted ps (warn [Malformed_entry p] st) w
      else if clean \<notin> trusted then projects_strip env trusted ps (keep (warn [Untrusted_entry clean] st)) w
      else if \<not> is_dir (os_Stat env w p) then projects_strip env trusted ps (keep (warn [Unreachable p] st)) w
      else
        (case stripRulesFromProject env p w of
           ((n, warnings, Inl err), w1) \<Rightarrow> (Some err, st, w1)
         | ((n, warnings, Inr (e # es)), w1) \<Rightarrow>
             projects_strip env trusted ps
               (keep (st\<lparr>rs_res := (rs_res st)\<lparr>ru_failures := ru_failures (rs_res st) @ [Strip_failed p e]\<rparr>\<rparr>)) w1
         | ((n, warnings, Inr []), w1) \<Rightarrow>
             let st1 = st\<lparr>rs_res := (rs_res st)\<lparr>ru_stripped := ru_stripped (rs_res st) + n\<rparr>\<rparr> in
             projects_strip env trusted ps
               (if warnings \<noteq> [] then keep (warn warnings st1) else st1) w1))"

text \<open>The first occurrence of every entry.\<close>

fun dedupe :: "string set \<Rightarrow> string list \<Rightarrow> string list" where
  "dedupe seen [] = []"
| "dedupe seen (p # ps) = (if p \<in> seen then dedupe seen ps else p # dedupe (insert p seen) ps)"

fun landed_applied :: "string set \<Rightarrow> artifact list \<Rightarrow> applied_artifact list \<Rightarrow> applied_artifact list" where
  "landed_applied landed [] dst = dst"
| "landed_applied landed (a # as) dst =
     landed_applied landed as (if art_id a \<in> landed then appendApplied dst (art_id a) (art_revision a) else dst)"

subsection \<open>\<open>ReconcileRules\<close>\<close>

text \<open>Everything between the load and the save of the ledger.\<close>

definition rules_pass ::
  "env \<Rightarrow> string \<Rightarrow> project list \<Rightarrow> artifact list \<Rightarrow> manifest \<Rightarrow> world \<Rightarrow>
   sync_error option \<times> rules_result \<times> manifest \<times> world" where
  "rules_pass env claudeDir projects artifacts m w =
     (case collect_rules artifacts of
        Inl err \<Rightarrow> (Some err, empty_rules_result, m, w)
      | Inr collected \<Rightarrow>
          let sorted = sort_key art_name collected;
              globalRules = filter (\<lambda>r. art_rule_scope r = ''global'') sorted;
              rules = filter (\<lambda>r. art_rule_scope r \<noteq> ''global'') sorted;
              live = filter (is_live env w) projects;
              dead = filter (\<lambda>pj. \<not> is_live env w pj) projects;
              res0 = empty_rules_result\<lparr>ru_warnings := map (\<lambda>pj. Project_missing (pj_path pj)) dead\<rparr>;
              st0 = keep_not_live (set (map (\<lambda>pj. Clean (pj_path pj)) dead)) (mf_rules m)
                \<lparr>rs_res = res0, rs_desired = {}, rs_failed = {}, rs_ledger = [], rs_landed = {}\<rparr> in
          (case (if rules \<noteq> [] then projects_write env rules live st0 w else (None, st0, w)) of
             (Some err, st1, w1) \<Rightarrow> (Some err, rs_res st1, m, w1)
           | (None, st1, w1) \<Rightarrow>
               let res1 = (rs_res st1)\<lparr>ru_applied := landed_applied (rs_landed st1) rules (ru_applied (rs_res st1))\<rparr> in
               (case reconcileGlobalRules env claudeDir globalRules m res1 w1 of
                  (Some err, m1, res2, w2) \<Rightarrow> (Some err, res2, m1, w2)
                | (None, m1, res2, w2) \<Rightarrow>
                    let trusted = set (map (\<lambda>pj. Clean (pj_path pj)) projects) in
                    (case projects_strip env trusted (mf_rules m1) (st1\<lparr>rs_res := res2\<rparr>) w2 of
                       (Some err, st2, w3) \<Rightarrow> (Some err, rs_res st2, m1, w3)
                     | (None, st2, w3) \<Rightarrow>
                         (None, rs_res st2, m1\<lparr>mf_rules := sort (dedupe {} (rs_ledger st2))\<rparr>, w3)))))"

definition ReconcileRules ::
  "env \<Rightarrow> string \<Rightarrow> project list \<Rightarrow> artifact list \<Rightarrow> world \<Rightarrow> sync_error option \<times> rules_result \<times> world" where
  "ReconcileRules env claudeDir projects artifacts w =
     (case loadManifest env w claudeDir of
        Inl err \<Rightarrow> (Some err, empty_rules_result, w)
      | Inr m \<Rightarrow>
          (case rules_pass env claudeDir projects artifacts m w of
             (Some err, res, m1, w1) \<Rightarrow> (Some err, res, w1)
           | (None, res, m1, w1) \<Rightarrow>
               (case saveManifest env claudeDir m1 w1 of
                  (None, w2) \<Rightarrow> (None, res, w2)
                | (Some e, w2) \<Rightarrow> (None, res\<lparr>ru_failures := ru_failures res @ [Manifest_failed e]\<rparr>, w2))))"

subsection \<open>\<open>StripProjectRules\<close>\<close>

definition StripProjectRules :: "env \<Rightarrow> string \<Rightarrow> string \<Rightarrow> world \<Rightarrow> (nat \<times> joined) \<times> world" where
  "StripProjectRules env claudeDir proj w =
     (case loadManifest env w claudeDir of
        Inl err \<Rightarrow> ((0, Inl err), w)
      | Inr m \<Rightarrow>
          (case stripRulesFromProject env proj w of
             ((stripped, warnings, Inl err), w1) \<Rightarrow> ((stripped, Inl err), w1)
           | ((stripped, warnings, Inr errs), w1) \<Rightarrow>
               let keep = (errs \<noteq> [] \<or> warnings \<noteq> []); clean = Clean proj in
               (case saveManifest env claudeDir
                       (m\<lparr>mf_rules := filter (\<lambda>p. Clean p \<noteq> clean \<or> keep) (mf_rules m)\<rparr>) w1 of
                  (None, w2) \<Rightarrow> ((stripped, Inr errs), w2)
                | (Some e, w2) \<Rightarrow> ((stripped, Inr (errs @ [e])), w2))))"

end
