(* ===== verification/SeedBlock.thy ===== *)
theory SeedBlock
  imports SyncTypes
begin

text \<open>
  The ORBEAT-SEED block of one subagent (\<open>internal/syncclient/seed.go\<close>, first part). It is the
  block of theory Blocks with the artifact name in both markers; a merge hoists it to the top of
  the file. The lemmas show that a merge settles, that it hoists, that stripping it loses
  newlines only, and that the scan of a file for managed names finds exactly the names whose
  BEGIN marker occurs.
\<close>

subsection \<open>Markers\<close>

definition seedBeginRe :: "string \<Rightarrow> string" where
  "seedBeginRe name = ''<!-- ORBEAT-SEED:BEGIN '' @ name @ '' ''"

definition seedEndRe :: "string \<Rightarrow> string" where
  "seedEndRe name = ''<!-- ORBEAT-SEED:END '' @ name @ '' -->''"

definition seedNote :: bytes where
  "seedNote = [CHR 0xE2, CHR 0x80, CHR 0x94] @ '' managed by orbeat-sync; edit BELOW this block -->''"

definition seedHash :: "bytes \<Rightarrow> string" where "seedHash body = body_hash body"

definition renderSeedBlock :: "string \<Rightarrow> bytes \<Rightarrow> bytes" where
  "renderSeedBlock name body = render_block (seedBeginRe name) (seedEndRe name) seedNote body"

definition seedBlockRe :: "string \<Rightarrow> bytes \<Rightarrow> (bytes \<times> string \<times> bytes \<times> bytes) option" where
  "seedBlockRe name s = find_block (seedBeginRe name) (seedEndRe name) s"

definition seedMarkersHealthy :: "bytes \<Rightarrow> string \<Rightarrow> bool" where
  "seedMarkersHealthy existing name = markers_healthy (seedBeginRe name) (seedEndRe name) existing"

definition seed_free :: "string \<Rightarrow> bytes \<Rightarrow> bool" where
  "seed_free name s = marker_free (seedBeginRe name) (seedEndRe name) s"

definition lead_nl :: "bytes \<Rightarrow> bytes" where
  "lead_nl s = trim_left {nl} s"

subsection \<open>Merge, strip and scan\<close>

definition hoist :: "bytes \<Rightarrow> bytes \<Rightarrow> bytes" where
  "hoist block existing =
     (let rest = lead_nl existing in if rest = [] then block else block @ [nl] @ rest)"

definition mergeSeed :: "bytes \<Rightarrow> string \<Rightarrow> bytes \<Rightarrow> bytes \<times> bool \<times> bool" where
  "mergeSeed existing name body =
     (let block = renderSeedBlock name body in
      case seedBlockRe name existing of
        Some (pre, markerHash, old, post) \<Rightarrow>
          let restored = (seedHash old \<noteq> markerHash) in
          if \<not> restored \<and> markerHash = seedHash body then (existing, False, False)
          else (hoist block (pre @ lead_nl post), True, restored)
      | None \<Rightarrow> (hoist block existing, True, False))"

definition stripSeed :: "bytes \<Rightarrow> string \<Rightarrow> bytes \<times> bool" where
  "stripSeed existing name =
     (case seedBlockRe name existing of
        None \<Rightarrow> (existing, False)
      | Some (pre, h, b, post) \<Rightarrow>
          let out = pre @ post in (if pre = [] then lead_nl out else out, True))"

text \<open>\<open>seedNameRe\<close> where it may match: the captured name and what follows the match.\<close>

definition seed_name_here :: "bytes \<Rightarrow> (string \<times> bytes) option" where
  "seed_name_here s =
     (case strip_prefix ''<!-- ORBEAT-SEED:BEGIN '' s of
        None \<Rightarrow> None
      | Some r \<Rightarrow>
          let n = takeWhile is_slug_char r in
          if artifactNameRe n then map_option (\<lambda>r'. (n, r')) (strip_prefix '' '' (dropWhile is_slug_char r))
          else None)"

lemma seed_name_here_Some:
  assumes "seed_name_here s = Some (n, r)"
  shows "s = seedBeginRe n @ r" "artifactNameRe n"
  using assms unfolding seed_name_here_def seedBeginRe_def Let_def
  by (auto simp: strip_prefix_Some split: option.splits if_splits)
    (metis append_Cons append_Nil append_assoc takeWhile_dropWhile_id)

function seedNamesIn :: "bytes \<Rightarrow> string list" where
  "seedNamesIn [] = []"
| "seedNamesIn (c # s) =
     (case seed_name_here (c # s) of
        None \<Rightarrow> seedNamesIn s
      | Some (n, r) \<Rightarrow> n # seedNamesIn r)"
  by pat_completeness auto
termination
  by (relation "measure length")
    (auto dest!: seed_name_here_Some(1) arg_cong [of _ _ length] simp: seedBeginRe_def)

subsection \<open>The markers satisfy the contract\<close>

lemma seed_markers_lt:
  assumes "artifactNameRe name"
  shows "lt_marker (seedBeginRe name)" "lt_marker (seedEndRe name)"
  using slug_not_special [OF assms]
  by (auto simp: lt_marker_def seedBeginRe_def seedEndRe_def)

interpretation sb: managed_markers seedBeginRe seedEndRe artifactNameRe
  by unfold_locales (simp_all add: seed_markers_lt, simp add: seedBeginRe_def seedEndRe_def)

lemma seed_note_plain: "plain_note seedNote"
  by (simp add: plain_note_def seedNote_def)

lemmas seed_defs = renderSeedBlock_def seedBlockRe_def seedMarkersHealthy_def seed_free_def seedHash_def

lemma seedBlockRe_rendered:
  "artifactNameRe k \<Longrightarrow> seed_free k pre \<Longrightarrow> seed_free k body \<Longrightarrow>
   seedBlockRe k (pre @ renderSeedBlock k body @ post) = Some (pre, seedHash body, trim_nl body @ [nl], post)"
  using sb.find_rendered [of k pre body seedNote post] seed_note_plain
  by (simp add: seed_defs marker_free_def)

lemma seedBlockRe_rendered_top:
  "artifactNameRe k \<Longrightarrow> seed_free k body \<Longrightarrow>
   seedBlockRe k (renderSeedBlock k body @ post) = Some ([], seedHash body, trim_nl body @ [nl], post)"
  using seedBlockRe_rendered [of k "[]" body post]
  by (simp add: seed_free_def marker_free_def contains_iff seedBeginRe_def seedEndRe_def)

lemma seed_rendered_healthy:
  "artifactNameRe k \<Longrightarrow> seed_free k body \<Longrightarrow> seed_free k post \<Longrightarrow>
   seedMarkersHealthy (renderSeedBlock k body @ post) k"
  using sb.rendered_healthy [of k "[]" body post seedNote] seed_note_plain
  by (simp add: seed_defs marker_free_def contains_iff seedBeginRe_def seedEndRe_def)

lemma seed_healthy_none:
  "artifactNameRe k \<Longrightarrow> seedMarkersHealthy s k \<Longrightarrow> seedBlockRe k s = None \<Longrightarrow> seed_free k s"
  using sb.healthy_none [of k s] by (simp add: seed_defs)

lemma seed_healthy_block:
  "artifactNameRe k \<Longrightarrow> seedMarkersHealthy s k \<Longrightarrow> seedBlockRe k s = Some (pre, h, b, post) \<Longrightarrow>
   seed_free k pre \<and> seed_free k b \<and> seed_free k post"
  using sb.healthy_block [of k s pre h b post] by (simp add: seed_defs)

lemma seed_free_lead: "seed_free k s \<Longrightarrow> seed_free k (lead_nl s)"
  by (auto simp: seed_free_def marker_free_def contains_iff lead_nl_def dest: sublist_trim_left)

lemma seed_free_Nil [simp]: "seed_free k []"
  by (simp add: seed_free_def marker_free_def contains_iff seedBeginRe_def seedEndRe_def)

lemma seed_free_nl: "artifactNameRe k \<Longrightarrow> seed_free k (nl # s) \<longleftrightarrow> seed_free k s"
  using lt_sublist_nl [of "seedBeginRe k" "[]" s] lt_sublist_nl [of "seedEndRe k" "[]" s] seed_markers_lt [of k]
  by (simp add: seed_free_def marker_free_def contains_iff)

subsection \<open>Newlines aside\<close>

definition no_nl :: "bytes \<Rightarrow> bytes" where "no_nl s = filter (\<lambda>c. c \<noteq> nl) s"

lemma no_nl_append [simp]: "no_nl (u @ v) = no_nl u @ no_nl v"
  by (simp add: no_nl_def)

lemma no_nl_lead [simp]: "no_nl (lead_nl s) = no_nl s"
  by (induction s) (auto simp: no_nl_def lead_nl_def trim_left_def)

lemma no_nl_nl [simp]: "no_nl [] = []" "no_nl (nl # s) = no_nl s"
  by (simp_all add: no_nl_def)

lemma no_nl_hoist: "no_nl (lead_nl (if lead_nl s = [] then [] else nl # lead_nl s)) = no_nl s"
  using no_nl_lead [of s] by (simp del: no_nl_lead) (simp add: lead_nl_def trim_left_def no_nl_def)

lemma lead_nl_nl [simp]: "lead_nl (nl # s) = lead_nl s"
  by (simp add: lead_nl_def trim_left_def)

lemma hoist_shape: "hoist b s = b @ (if lead_nl s = [] then [] else nl # lead_nl s)"
  by (simp add: hoist_def Let_def)

subsection \<open>Properties\<close>

lemma seed_join_free:
  "seed_free k u \<Longrightarrow> seed_free k v \<Longrightarrow> seedBlockRe k (u @ v) = None"
  by (simp add: seed_defs marker_free_def contains_iff find_block_join)

lemma stripSeed_rendered:
  assumes "artifactNameRe k" "seed_free k body"
  shows "fst (stripSeed (renderSeedBlock k body @ post) k) = lead_nl post"
  using seedBlockRe_rendered_top [OF assms, of post] by (simp add: stripSeed_def)

lemma mergeSeed_shape:
  obtains (kept) pre old post where "mergeSeed existing name body = (existing, False, False)"
      "seedBlockRe name existing = Some (pre, seedHash body, old, post)" "seedHash old = seedHash body"
  | (fresh) "mergeSeed existing name body = (hoist (renderSeedBlock name body) existing, True, False)"
      "seedBlockRe name existing = None"
  | (replaced) pre h old post where
      "seedBlockRe name existing = Some (pre, h, old, post)"
      "mergeSeed existing name body =
         (hoist (renderSeedBlock name body) (pre @ lead_nl post), True, seedHash old \<noteq> h)"
proof (cases "seedBlockRe name existing")
  case None
  then show thesis using fresh by (simp add: mergeSeed_def)
next
  case (Some x)
  then obtain pre h old post where f: "seedBlockRe name existing = Some (pre, h, old, post)"
    by (cases x) auto
  show thesis
  proof (cases "seedHash old = h \<and> h = seedHash body")
    case True
    with f show thesis using kept by (simp add: mergeSeed_def)
  next
    case False
    with f show thesis using replaced by (auto simp: mergeSeed_def Let_def)
  qed
qed

lemma mergeSeed_settles:
  assumes "artifactNameRe name" "seed_free name body"
    "mergeSeed existing name body = (merged, changed, restored)"
  shows "mergeSeed merged name body = (merged, False, False) \<and> (restored \<longrightarrow> changed) \<and>
    (\<exists>pre b post. seedBlockRe name merged = Some (pre, seedHash body, b, post) \<and>
       seedHash b = seedHash body \<and> (changed \<longrightarrow> pre = []))"
proof (cases rule: mergeSeed_shape [of existing name body])
  case (kept pre old post)
  with assms(3) show ?thesis by auto
next
  case fresh
  have "seedBlockRe name merged =
      Some ([], seedHash body, trim_nl body @ [nl], (if lead_nl existing = [] then [] else nl # lead_nl existing))"
    using fresh assms(3) seedBlockRe_rendered_top [OF assms(1,2)] by (simp add: hoist_shape)
  with fresh assms(3) show ?thesis
    by (simp add: mergeSeed_def seedHash_def)
next
  case (replaced pre h old post)
  have "\<exists>q. seedBlockRe name merged = Some ([], seedHash body, trim_nl body @ [nl], q)"
    using replaced assms(3) seedBlockRe_rendered_top [OF assms(1,2)] by (auto simp: hoist_shape)
  with replaced assms(3) show ?thesis
    by (auto simp: mergeSeed_def seedHash_def)
qed

text \<open>
  C32. A seed merge settles and enforces the governed body: whatever the file holds, merging once
  more changes nothing, the file then carries a block for the name whose content hashes to the
  governed body, and when the file changed that block stands at its very top.
\<close>

theorem mergeSeed_idempotent:
  assumes "artifactNameRe name" "seed_free name body"
    "mergeSeed existing name body = (merged, changed, restored)"
  shows "mergeSeed merged name body = (merged, False, False) \<and> (restored \<longrightarrow> changed) \<and>
    (\<exists>pre b post. seedBlockRe name merged = Some (pre, seedHash body, b, post) \<and>
       seedHash b = seedHash body \<and> (changed \<longrightarrow> pre = []))"
  by (rule mergeSeed_settles [OF assms])

theorem mergeSeed_idempotent_witness:
  "\<exists>m c r. mergeSeed ''notes'' ''reviewer'' ''be kind'' = (m, c, r) \<and>
     mergeSeed m ''reviewer'' ''be kind'' = (m, False, False)"
proof -
  have n: "artifactNameRe ''reviewer''"
    by (simp add: is_slug_char_def is_lower_alnum_def)
  then have f: "seed_free ''reviewer'' ''be kind''"
    using seed_markers_lt [OF n] lt_no_sublist
    by (simp add: seed_free_def marker_free_def contains_iff)
  obtain m c r where m: "mergeSeed ''notes'' ''reviewer'' ''be kind'' = (m, c, r)"
    by (metis prod_cases3)
  from mergeSeed_idempotent [OF n f m] m show ?thesis by blast
qed

text \<open>
  A hoist can break the markers of its file: what stood before the block and what stood after it are
  joined without a line end between them, and here they join into a BEGIN marker. The file was healthy
  before the merge; afterwards every pass skips it as malformed.
\<close>

definition seam_file :: bytes where
  "seam_file = ''<!-- ORBEAT-SEED:'' @ (''<!-- ORBEAT-SEED:BEGIN x sha=00112233aabb '' @ seedNote @ nl # ''old'' @ nl #
     ''<!-- ORBEAT-SEED:END x -->'' @ [nl]) @ ''BEGIN x y''"

lemma hoist_makes_orphan:
  assumes "seed_free ''x'' body" "seedHash body \<noteq> ''00112233aabb''"
  shows "seedMarkersHealthy seam_file ''x'' \<and> fst (snd (mergeSeed seam_file ''x'' body)) \<and>
    \<not> seedMarkersHealthy (fst (mergeSeed seam_file ''x'' body)) ''x''"
proof -
  let ?rest = "''<!-- ORBEAT-SEED:BEGIN x y''"
  have x: "artifactNameRe ''x''" by code_simp
  have h: "seedMarkersHealthy seam_file ''x''" by code_simp
  have f: "seedBlockRe ''x'' seam_file = Some (''<!-- ORBEAT-SEED:'', ''00112233aabb'', ''old'' @ [nl], ''BEGIN x y'')" by code_simp
  have l: "lead_nl (''<!-- ORBEAT-SEED:'' @ lead_nl ''BEGIN x y'') = ?rest" by code_simp
  have m: "mergeSeed seam_file ''x'' body = (renderSeedBlock ''x'' body @ nl # ?rest, True, seedHash (''old'' @ [nl]) \<noteq> ''00112233aabb'')"
    using assms(2) l by (simp add: mergeSeed_def f hoist_def Let_def)
  have b: "seedBlockRe ''x'' (renderSeedBlock ''x'' body @ nl # ?rest) = Some ([], seedHash body, trim_nl body @ [nl], nl # ?rest)"
    by (rule seedBlockRe_rendered_top [OF x assms(1)])
  have c: "contains (seedBeginRe ''x'') (nl # ?rest)" by code_simp
  have "\<not> seedMarkersHealthy (renderSeedBlock ''x'' body @ nl # ?rest) ''x''"
    using seed_healthy_block [OF x _ b] c unfolding seed_free_def marker_free_def by blast
  with h m show ?thesis by simp
qed

text \<open>
  De-entitling a seed gives the agent's notes back: stripping the merged file yields the
  text that stripping the original file yields, in the same order, with nothing but newlines
  lost.
\<close>

theorem stripSeed_mergeSeed:
  assumes "artifactNameRe name" "seed_free name body"
  shows "no_nl (fst (stripSeed (fst (mergeSeed existing name body)) name)) =
    no_nl (fst (stripSeed existing name))"
proof (cases rule: mergeSeed_shape [of existing name body])
  case (kept pre old post)
  then show ?thesis by simp
next
  case fresh
  then have "fst (stripSeed existing name) = existing" by (simp add: stripSeed_def)
  with fresh(1) no_nl_hoist [of existing] show ?thesis
    by (simp only: hoist_shape stripSeed_rendered [OF assms] fst_conv)
next
  case (replaced pre h old post)
  then have "no_nl (fst (stripSeed existing name)) = no_nl (pre @ post)"
    by (simp add: stripSeed_def Let_def)
  moreover have "no_nl (fst (stripSeed (fst (mergeSeed existing name body)) name)) = no_nl (pre @ lead_nl post)"
    using replaced no_nl_hoist [of "pre @ lead_nl post"]
    by (simp only: hoist_shape stripSeed_rendered [OF assms] fst_conv)
  ultimately show ?thesis by simp
qed

theorem stripSeed_mergeSeed_witness:
  "no_nl (fst (stripSeed (fst (mergeSeed ''notes'' ''reviewer'' ''be kind'')) ''reviewer'')) =
     no_nl (fst (stripSeed ''notes'' ''reviewer''))"
proof -
  have n: "artifactNameRe ''reviewer''"
    by (simp add: is_slug_char_def is_lower_alnum_def)
  then have "seed_free ''reviewer'' ''be kind''"
    using seed_markers_lt [OF n] lt_no_sublist
    by (simp add: seed_free_def marker_free_def contains_iff)
  then show ?thesis by (rule stripSeed_mergeSeed [OF n])
qed

subsection \<open>The scan for managed names\<close>

lemma seed_name_here_exact:
  assumes "artifactNameRe n"
  shows "seed_name_here (seedBeginRe n @ r) = Some (n, r)"
proof -
  have "\<And>c. c \<in> set n \<Longrightarrow> is_slug_char c" by (rule slug_chars [OF assms])
  moreover have "\<not> is_slug_char CHR '' ''" by (simp add: is_slug_char_def is_lower_alnum_def)
  ultimately have "takeWhile is_slug_char (n @ '' '' @ r) = n" "dropWhile is_slug_char (n @ '' '' @ r) = '' '' @ r"
    by (simp_all add: takeWhile_append2 dropWhile_append2)
  with assms show ?thesis
    by (simp add: seed_name_here_def seedBeginRe_def Let_def strip_prefix_Some)
qed

lemma sublist_Cons_no_lt:
  assumes "lt_marker p" "CHR ''<'' \<notin> set w"
  shows "sublist p (w @ r) \<longleftrightarrow> sublist p r"
  using assms(2) by (induction w) (use assms(1) in \<open>auto simp: sublist_Cons_right lt_marker_def\<close>)

text \<open>
  The scan that finds the managed blocks of a file for de-entitlement is complete and exact:
  it lists a name precisely when it is a slug and a BEGIN marker for that name occurs in the
  file, so no block the client wrote can be missed.
\<close>

theorem seedNamesIn_iff:
  "n \<in> set (seedNamesIn s) \<longleftrightarrow> artifactNameRe n \<and> contains (seedBeginRe n) s"
proof (induction s rule: seedNamesIn.induct)
  case 1
  show ?case by (simp add: contains_iff seedBeginRe_def)
next
  case (2 c s)
  show ?case
  proof (cases "seed_name_here (c # s)")
    case None
    have "\<not> prefix (seedBeginRe n) (c # s)" if "artifactNameRe n"
      using seed_name_here_exact [OF that] None by (auto simp: prefix_def)
    with None 2(1) [OF None] show ?thesis by (auto simp: contains_iff sublist_Cons_right)
  next
    case (Some x)
    then obtain m r where x: "seed_name_here (c # s) = Some (m, r)" by (cases x) auto
    note here = seed_name_here_Some [OF x]
    from here(2) obtain q where q: "seedBeginRe m = CHR ''<'' # q" "CHR ''<'' \<notin> set q"
      using seed_markers_lt [of m] by (auto simp: lt_marker_def)
    have "sublist (seedBeginRe n) (c # s) \<longleftrightarrow> n = m \<or> sublist (seedBeginRe n) r" if ok: "artifactNameRe n"
    proof -
      have "prefix (seedBeginRe n) (c # s) \<longleftrightarrow> n = m"
      proof
        assume "prefix (seedBeginRe n) (c # s)"
        then obtain y where "c # s = seedBeginRe n @ y" by (auto simp: prefix_def)
        with x seed_name_here_exact [OF ok, of y] show "n = m" by simp
      qed (use here in simp)
      moreover have "sublist (seedBeginRe n) (q @ r) \<longleftrightarrow> sublist (seedBeginRe n) r"
        using sublist_Cons_no_lt seed_markers_lt(1) [OF ok] q(2) by blast
      ultimately show ?thesis using here(1) q(1) by (simp add: sublist_Cons_right)
    qed
    with 2(2) [OF x refl] x here(2) show ?thesis by (auto simp: contains_iff)
  qed
qed

end
