(* ===== verification/SeedSync.thy ===== *)
theory SeedSync
  imports RulesSync SeedBlock
begin

text \<open>
  The seed pass of a sync run (\<open>internal/syncclient/seed.go\<close>, from \<open>SeedResult\<close> on): the
  governed block of every entitled subagent seed is merged into its memory files, and stripped
  from every memory file a ledger or a scan names and this run does not want it in. Roots are
  opened once per boundary through \<open>rootCache\<close> of \<open>contained.go\<close>.
\<close>

subsection \<open>Data\<close>

record seed_result =
  sr_written :: nat
  sr_unchanged :: nat
  sr_stripped :: nat
  sr_warnings :: "notice list"
  sr_failures :: "notice list"

definition empty_seed_result :: seed_result where
  "empty_seed_result = \<lparr>sr_written = 0, sr_unchanged = 0, sr_stripped = 0, sr_warnings = [], sr_failures = []\<rparr>"

record seedTarget =
  st_name :: string
  st_boundary :: string
  st_path :: string
  st_body :: bytes

record rootCache =
  rc_roots :: "(string \<times> rooted) list"
  rc_gone :: "string set"

definition newRootCache :: rootCache where
  "newRootCache = \<lparr>rc_roots = [], rc_gone = {}\<rparr>"

text \<open>\<open>get\<close>: the root for a directory, opened at the first call; \<open>None\<close> when it does not exist.\<close>

definition rc_get :: "env \<Rightarrow> world \<Rightarrow> rootCache \<Rightarrow> string \<Rightarrow> (ioerr + rooted option) \<times> rootCache" where
  "rc_get env w rc dir =
     (let clean = Clean dir in
      case map_of (rc_roots rc) clean of
        Some r \<Rightarrow> (Inr (Some r), rc)
      | None \<Rightarrow>
          if clean \<in> rc_gone rc then (Inr None, rc)
          else (case openRootedOptional env w clean of
                  Inl e \<Rightarrow> (Inl e, rc)
                | Inr None \<Rightarrow> (Inr None, rc\<lparr>rc_gone := insert clean (rc_gone rc)\<rparr>)
                | Inr (Some r) \<Rightarrow> (Inr (Some r), rc\<lparr>rc_roots := (clean, r) # rc_roots rc\<rparr>)))"

definition rc_seed :: "rootCache \<Rightarrow> string \<Rightarrow> rooted \<Rightarrow> rootCache" where
  "rc_seed rc dir r = rc\<lparr>rc_roots := AList.update (Clean dir) r (rc_roots rc)\<rparr>"

text \<open>The ledger under construction: a Go map from subagent names to paths.\<close>

definition paths_of :: "(string \<times> string list) list \<Rightarrow> string \<Rightarrow> string list" where
  "paths_of m n = (case map_of m n of None \<Rightarrow> [] | Some ps \<Rightarrow> ps)"

definition add_path :: "string \<Rightarrow> string \<Rightarrow> (string \<times> string list) list \<Rightarrow> (string \<times> string list) list" where
  "add_path n p m = AList.update n (paths_of m n @ [p]) m"

record seed_state =
  ss_res :: seed_result
  ss_new :: "(string \<times> string list) list"
  ss_failed :: "string set"
  ss_cache :: rootCache

definition seed_warn :: "notice list \<Rightarrow> seed_state \<Rightarrow> seed_state" where
  "seed_warn ns st = st\<lparr>ss_res := (ss_res st)\<lparr>sr_warnings := sr_warnings (ss_res st) @ ns\<rparr>\<rparr>"

definition seed_fail :: "string \<Rightarrow> notice \<Rightarrow> seed_state \<Rightarrow> seed_state" where
  "seed_fail p n st =
     st\<lparr>ss_res := (ss_res st)\<lparr>sr_failures := sr_failures (ss_res st) @ [n]\<rparr>,
        ss_failed := insert p (ss_failed st)\<rparr>"

subsection \<open>Targets\<close>

fun project_targets :: "artifact \<Rightarrow> string list \<Rightarrow> seedTarget list \<Rightarrow> sync_error + seedTarget list" where
  "project_targets a [] ts = Inr ts"
| "project_targets a (proj # projs) ts =
     (case resolveContained proj (''.claude/agent-memory/'' @ art_name a @ ''/MEMORY.md'') of
        Inl err \<Rightarrow> Inl err
      | Inr full \<Rightarrow>
          project_targets a projs
            (ts @ [\<lparr>st_name = art_name a, st_boundary = Clean proj, st_path = full, st_body = art_memory_seed a\<rparr>]))"

fun seed_targets ::
  "string \<Rightarrow> string list \<Rightarrow> artifact list \<Rightarrow> notice list \<Rightarrow> seedTarget list \<Rightarrow>
   notice list \<times> (sync_error + seedTarget list)" where
  "seed_targets claudeDir live [] ws ts = (ws, Inr ts)"
| "seed_targets claudeDir live (a # as) ws ts =
     (if art_type a \<noteq> ''subagent'' \<or> art_memory_seed a = [] then seed_targets claudeDir live as ws ts
      else if \<not> artifactNameRe (art_name a) then (ws, Inl (Fatal ''seed: unsafe artifact name''))
      else if art_memory_scope a = ''user'' then
        (case resolveContained claudeDir (''agent-memory/'' @ art_name a @ ''/MEMORY.md'') of
           Inl err \<Rightarrow> (ws, Inl err)
         | Inr full \<Rightarrow>
             seed_targets claudeDir live as ws
               (ts @ [\<lparr>st_name = art_name a, st_boundary = Clean claudeDir, st_path = full, st_body = art_memory_seed a\<rparr>]))
      else if art_memory_scope a = ''project'' then
        (case project_targets a live ts of
           Inl err \<Rightarrow> (ws, Inl err)
         | Inr ts1 \<Rightarrow> seed_targets claudeDir live as ws ts1)
      else if art_memory_scope a = ''local'' then seed_targets claudeDir live as ws ts
      else seed_targets claudeDir live as (ws @ [Unknown_scope (art_name a) (art_memory_scope a)]) ts)"

subsection \<open>The write pass\<close>

text \<open>A missing memory file counts as an empty one.\<close>

definition read_existing :: "env \<Rightarrow> world \<Rightarrow> rooted \<Rightarrow> string \<Rightarrow> ioerr + bytes" where
  "read_existing env w r p =
     (case r_readFile env w r p of Inr data \<Rightarrow> Inr data | Inl NotExist \<Rightarrow> Inr [] | Inl e \<Rightarrow> Inl e)"

definition write_seed ::
  "env \<Rightarrow> seedTarget \<Rightarrow> seed_state \<Rightarrow> world \<Rightarrow> seed_state \<times> world" where
  "write_seed env tg st w =
     (case rc_get env w (ss_cache st) (st_boundary tg) of
        (Inl e, rc) \<Rightarrow> (seed_fail (st_path tg) (Root_failed (st_path tg) e) (st\<lparr>ss_cache := rc\<rparr>), w)
      | (Inr None, rc) \<Rightarrow> (seed_fail (st_path tg) (Root_vanished (st_path tg)) (st\<lparr>ss_cache := rc\<rparr>), w)
      | (Inr (Some r), rc) \<Rightarrow>
          let st0 = st\<lparr>ss_cache := rc\<rparr> in
          (case read_existing env w r (st_path tg) of
             Inl e \<Rightarrow> (seed_fail (st_path tg) (Read_failed (st_path tg) e) st0, w)
           | Inr existing \<Rightarrow>
               if \<not> seedMarkersHealthy existing (st_name tg) then
                 ((seed_warn [Malformed_markers (st_path tg)] st0)
                    \<lparr>ss_new := add_path (st_name tg) (st_path tg) (ss_new st)\<rparr>, w)
               else
                 (case mergeSeed existing (st_name tg) (st_body tg) of
                    (merged, ch, restored) \<Rightarrow>
                      (case (if ch then r_writeAtomic env r (st_path tg) merged
                                          (r_existingPerm env w r (st_path tg) 0x1A4) w
                             else (None, w)) of
                         (Some e, w1) \<Rightarrow> (seed_fail (st_path tg) (Write_failed (st_path tg) e) st0, w1)
                       | (None, w1) \<Rightarrow>
                           let res = ss_res st;
                               st1 = st0\<lparr>ss_res :=
                                 (if ch then res\<lparr>sr_written := sr_written res + 1\<rparr>
                                  else res\<lparr>sr_unchanged := sr_unchanged res + 1\<rparr>)\<rparr> in
                           ((seed_warn (if restored then [Block_restored (st_path tg)] else []) st1)
                              \<lparr>ss_new := add_path (st_name tg) (st_path tg) (ss_new st)\<rparr>, w1)))))"

fun write_seeds :: "env \<Rightarrow> seedTarget list \<Rightarrow> seed_state \<Rightarrow> world \<Rightarrow> seed_state \<times> world" where
  "write_seeds env [] st w = (st, w)"
| "write_seeds env (tg # tgs) st w = (case write_seed env tg st w of (st1, w1) \<Rightarrow> write_seeds env tgs st1 w1)"

subsection \<open>The strip pass\<close>

definition scanSeedFiles :: "env \<Rightarrow> world \<Rightarrow> string \<Rightarrow> string list" where
  "scanSeedFiles env w root =
     (case os_ReadDir env w root of
        Inl _ \<Rightarrow> []
      | Inr entries \<Rightarrow>
          filter (\<lambda>mem. is_regular (os_Stat env w mem))
            (map (\<lambda>e. Join [root, fst e, ''MEMORY.md''])
              (filter (\<lambda>e. snd e = Some Dir \<and> artifactNameRe (fst e)) entries)))"

text \<open>\<open>stripUndesired\<close>: the loop over the names in the file, then one write.\<close>

fun strip_names ::
  "string \<Rightarrow> (string \<times> string) set \<Rightarrow> string set \<Rightarrow> string list \<Rightarrow> bytes \<Rightarrow> nat \<Rightarrow> notice list \<Rightarrow>
   bytes \<times> nat \<times> notice list" where
  "strip_names p desired seen [] content n ws = (content, n, ws)"
| "strip_names p desired seen (name # names) content n ws =
     (if name \<in> seen then strip_names p desired seen names content n ws
      else let seen1 = insert name seen in
        if (name, p) \<in> desired then strip_names p desired seen1 names content n ws
        else if \<not> seedMarkersHealthy content name then
          strip_names p desired seen1 names content n (ws @ [Malformed_markers p])
        else
          (case stripSeed content name of
             (out, ch) \<Rightarrow>
               if ch then strip_names p desired seen1 names out (n + 1) ws
               else strip_names p desired seen1 names content n ws))"

definition stripUndesired ::
  "env \<Rightarrow> rooted \<Rightarrow> string \<Rightarrow> (string \<times> string) set \<Rightarrow> world \<Rightarrow> (ioerr + nat \<times> notice list) \<times> world" where
  "stripUndesired env r p desired w =
     (case r_readFile env w r p of
        Inl NotExist \<Rightarrow> (Inr (0, []), w)
      | Inl e \<Rightarrow> (Inl e, w)
      | Inr data \<Rightarrow>
          (case strip_names p desired {} (seedNamesIn data) data 0 [] of
             (content, n, ws) \<Rightarrow>
               if n > 0 then
                 (case r_writeAtomic env r p content (r_existingPerm env w r p 0x1A4) w of
                    (Some e, w1) \<Rightarrow> (Inl e, w1)
                  | (None, w1) \<Rightarrow> (Inr (n, ws), w1))
               else (Inr (n, ws), w)))"

text \<open>The candidates of the ledger: what is misshapen is dropped, what no root holds is kept as failed.\<close>

fun ledger_candidates ::
  "string list \<Rightarrow> string list \<Rightarrow> (string \<times> string) list \<Rightarrow> string set \<Rightarrow> seed_state \<Rightarrow>
   (string \<times> string) list \<times> string set \<times> seed_state" where
  "ledger_candidates trusted [] cands warned st = (cands, warned, st)"
| "ledger_candidates trusted (p # ps) cands warned st =
     (if \<not> validSeedPath p then ledger_candidates trusted ps cands warned st
      else case trustedSeedBoundary trusted p of
          (boundary, True) \<Rightarrow> ledger_candidates trusted ps (AList.update p boundary cands) warned st
        | (boundary, False) \<Rightarrow>
            ledger_candidates trusted ps cands (insert p warned)
              ((if p \<in> warned then st else seed_warn [Untrusted_entry p] st)
                 \<lparr>ss_failed := insert p (ss_failed st)\<rparr>))"

fun add_scanned :: "string \<Rightarrow> string list \<Rightarrow> (string \<times> string) list \<Rightarrow> (string \<times> string) list" where
  "add_scanned boundary [] cands = cands"
| "add_scanned boundary (p # ps) cands = add_scanned boundary ps (AList.update p boundary cands)"

fun scan_projects ::
  "env \<Rightarrow> world \<Rightarrow> string list \<Rightarrow> (string \<times> string) list \<Rightarrow> (string \<times> string) list" where
  "scan_projects env w [] cands = cands"
| "scan_projects env w (proj # projs) cands =
     scan_projects env w projs
       (add_scanned (Clean proj) (scanSeedFiles env w (Join [proj, ''.claude'', ''agent-memory''])) cands)"

definition strip_candidate ::
  "env \<Rightarrow> string \<Rightarrow> (string \<times> string) set \<Rightarrow> string \<Rightarrow> string \<Rightarrow> string set \<Rightarrow> seed_state \<Rightarrow> world \<Rightarrow>
   string set \<times> seed_state \<times> world" where
  "strip_candidate env cleanClaudeDir desired p boundary warned st w =
     (if p \<in> ss_failed st then (warned, st, w)
      else case rc_get env w (ss_cache st) boundary of
          (Inl e, rc) \<Rightarrow> (warned, seed_fail p (Root_failed p e) (st\<lparr>ss_cache := rc\<rparr>), w)
        | (Inr None, rc) \<Rightarrow>
            let st0 = st\<lparr>ss_cache := rc\<rparr> in
            if boundary \<noteq> cleanClaudeDir then
              (insert boundary warned,
               (if boundary \<in> warned then st0 else seed_warn [Unreachable boundary] st0)
                 \<lparr>ss_failed := insert p (ss_failed st)\<rparr>, w)
            else (warned, st0, w)
        | (Inr (Some r), rc) \<Rightarrow>
            let st0 = st\<lparr>ss_cache := rc\<rparr> in
            (case stripUndesired env r p desired w of
               (Inl e, w1) \<Rightarrow> (warned, seed_fail p (Strip_failed p e) st0, w1)
             | (Inr (n, ws), w1) \<Rightarrow>
                 let st1 = seed_warn ws st0 in
                 (warned,
                  st1\<lparr>ss_res := (ss_res st1)\<lparr>sr_stripped := sr_stripped (ss_res st1) + n\<rparr>,
                      ss_failed := (if ws \<noteq> [] then insert p (ss_failed st) else ss_failed st)\<rparr>, w1)))"

fun strip_candidates ::
  "env \<Rightarrow> string \<Rightarrow> (string \<times> string) set \<Rightarrow> (string \<times> string) list \<Rightarrow> string list \<Rightarrow> string set \<Rightarrow>
   seed_state \<Rightarrow> world \<Rightarrow> seed_state \<times> world" where
  "strip_candidates env ccd desired cands [] warned st w = (st, w)"
| "strip_candidates env ccd desired cands (p # ps) warned st w =
     (case map_of cands p of
        None \<Rightarrow> strip_candidates env ccd desired cands ps warned st w
      | Some boundary \<Rightarrow>
          (case strip_candidate env ccd desired p boundary warned st w of
             (warned1, st1, w1) \<Rightarrow> strip_candidates env ccd desired cands ps warned1 st1 w1))"

subsection \<open>The new ledger\<close>

fun preserve_paths ::
  "string set \<Rightarrow> string \<Rightarrow> string list \<Rightarrow> (string \<times> string list) list \<Rightarrow> (string \<times> string list) list" where
  "preserve_paths failed name [] new = new"
| "preserve_paths failed name (p # ps) new =
     preserve_paths failed name ps
       (if p \<in> failed \<and> p \<notin> set (paths_of new name) then add_path name p new else new)"

fun preserve_failed ::
  "string set \<Rightarrow> (string \<times> string list) list \<Rightarrow> string list \<Rightarrow> (string \<times> string list) list \<Rightarrow>
   (string \<times> string list) list" where
  "preserve_failed failed old [] new = new"
| "preserve_failed failed old (name # names) new =
     preserve_failed failed old names (preserve_paths failed name (paths_of old name) new)"

definition dedupe_seeds :: "(string \<times> string list) list \<Rightarrow> (string \<times> string list) list" where
  "dedupe_seeds m = map (\<lambda>(n, ps). (n, dedupe {} ps)) m"

definition seed_keys :: "env \<Rightarrow> manifest \<Rightarrow> string list" where
  "seed_keys env m = range_order env (map fst (mf_seeds m))"

subsection \<open>\<open>ReconcileSeeds\<close>\<close>

definition seed_state0 :: "notice list \<Rightarrow> rootCache \<Rightarrow> seed_state" where
  "seed_state0 ws rc = \<lparr>ss_res = empty_seed_result\<lparr>sr_warnings := ws\<rparr>, ss_new = [], ss_failed = {}, ss_cache = rc\<rparr>"

definition strip_pass ::
  "env \<Rightarrow> string \<Rightarrow> string list \<Rightarrow> manifest \<Rightarrow> (string \<times> string) set \<Rightarrow> seed_state \<Rightarrow> world \<Rightarrow> seed_state \<times> world" where
  "strip_pass env claudeDir projects m desired st w =
     (let ccd = Clean claudeDir; trusted = ccd # map Clean projects in
      case ledger_candidates trusted (concat (map (paths_of (mf_seeds m)) (seed_keys env m))) [] {} st of
        (cands0, warnedUntrusted, st1) \<Rightarrow>
          let cands1 = add_scanned ccd (scanSeedFiles env w (Join [claudeDir, ''agent-memory''])) cands0;
              cands = scan_projects env w projects cands1 in
          strip_candidates env ccd desired cands (range_order env (map fst cands)) {} st1 w)"

definition seed_ledger :: "env \<Rightarrow> manifest \<Rightarrow> seed_state \<Rightarrow> manifest" where
  "seed_ledger env m st =
     m\<lparr>mf_seeds := dedupe_seeds (preserve_failed (ss_failed st) (mf_seeds m) (seed_keys env m) (ss_new st))\<rparr>"

definition seed_pass ::
  "env \<Rightarrow> string \<Rightarrow> string list \<Rightarrow> artifact list \<Rightarrow> manifest \<Rightarrow> rootCache \<Rightarrow> world \<Rightarrow>
   sync_error option \<times> seed_result \<times> manifest \<times> world" where
  "seed_pass env claudeDir projects artifacts m rc w =
     (let live = filter (\<lambda>p. is_dir (os_Stat env w p)) projects;
          dead = filter (\<lambda>p. \<not> is_dir (os_Stat env w p)) projects in
      case seed_targets claudeDir live artifacts (map Project_missing dead) [] of
        (ws, Inl err) \<Rightarrow> (Some err, empty_seed_result\<lparr>sr_warnings := ws\<rparr>, m, w)
      | (ws, Inr targets) \<Rightarrow>
          let desired = set (map (\<lambda>tg. (st_name tg, st_path tg)) targets) in
          (case write_seeds env targets (seed_state0 ws rc) w of
             (st1, w1) \<Rightarrow>
               (case strip_pass env claudeDir projects m desired st1 w1 of
                  (st2, w2) \<Rightarrow> (None, ss_res st2, seed_ledger env m st2, w2))))"

definition open_seed_roots :: "env \<Rightarrow> string \<Rightarrow> world \<Rightarrow> (sync_error + rootCache) \<times> world" where
  "open_seed_roots env claudeDir w =
     (if \<not> active w then
        (case os_MkdirAll env claudeDir w of
           (Some e, w1) \<Rightarrow> (Inl (Fatal ''seed: create sync root''), w1)
         | (None, w1) \<Rightarrow> (Inr newRootCache, w1))
      else
        (case os_Stat env w claudeDir of
           Inl NotExist \<Rightarrow> (Inr (rc_seed newRootCache claudeDir (openRootedPlannedAbsent claudeDir)), w)
         | Inl e \<Rightarrow> (Inl (Fatal ''seed: stat sync root''), w)
         | Inr _ \<Rightarrow> (Inr newRootCache, w)))"

definition ReconcileSeeds ::
  "env \<Rightarrow> string \<Rightarrow> string list \<Rightarrow> artifact list \<Rightarrow> world \<Rightarrow> sync_error option \<times> seed_result \<times> world" where
  "ReconcileSeeds env claudeDir projects artifacts w =
     (case loadManifest env w claudeDir of
        Inl err \<Rightarrow> (Some err, empty_seed_result, w)
      | Inr m \<Rightarrow>
          (case open_seed_roots env claudeDir w of
             (Inl err, w1) \<Rightarrow> (Some err, empty_seed_result, w1)
           | (Inr rc, w1) \<Rightarrow>
               (case seed_pass env claudeDir projects artifacts m rc w1 of
                  (Some err, res, m1, w2) \<Rightarrow> (Some err, res, w2)
                | (None, res, m1, w2) \<Rightarrow>
                    (case saveManifest env claudeDir m1 w2 of
                       (None, w3) \<Rightarrow> (None, res, w3)
                     | (Some e, w3) \<Rightarrow> (None, res\<lparr>sr_failures := sr_failures res @ [Manifest_failed e]\<rparr>, w3)))))"

subsection \<open>\<open>StripProjectSeeds\<close>\<close>

record strip_state =
  sp_stripped :: nat
  sp_malformed :: "string set"
  sp_failed :: "string set"
  sp_errs :: "ioerr list"

fun strip_project_candidates ::
  "env \<Rightarrow> rooted \<Rightarrow> string list \<Rightarrow> strip_state \<Rightarrow> world \<Rightarrow> strip_state \<times> world" where
  "strip_project_candidates env r [] st w = (st, w)"
| "strip_project_candidates env r (p # ps) st w =
     (case stripUndesired env r p {} w of
        (Inl e, w1) \<Rightarrow>
          strip_project_candidates env r ps
            (st\<lparr>sp_errs := sp_errs st @ [e], sp_failed := insert p (sp_failed st)\<rparr>) w1
      | (Inr (n, ws), w1) \<Rightarrow>
          strip_project_candidates env r ps
            (st\<lparr>sp_malformed := (if ws \<noteq> [] then insert p (sp_malformed st) else sp_malformed st),
                sp_stripped := sp_stripped st + n\<rparr>) w1)"

definition forget_project :: "string \<Rightarrow> strip_state \<Rightarrow> (string \<times> string list) list \<Rightarrow> (string \<times> string list) list" where
  "forget_project pfx st seeds =
     filter (\<lambda>(n, ps). ps \<noteq> [])
       (map (\<lambda>(n, ps). (n, filter (\<lambda>p. has_prefix pfx p \<longrightarrow> p \<in> sp_malformed st \<or> p \<in> sp_failed st) ps)) seeds)"

text \<open>The memory files to strip: what a scan of the project finds, and what the ledger names beneath it.\<close>

definition seed_candidates :: "env \<Rightarrow> manifest \<Rightarrow> string \<Rightarrow> world \<Rightarrow> string list" where
  "seed_candidates env m proj w =
     remdups (scanSeedFiles env w (Join [proj, ''.claude'', ''agent-memory'']) @
       filter (\<lambda>p. has_prefix (Clean proj @ [slash]) p \<and> validSeedPath p)
         (concat (map (paths_of (mf_seeds m)) (seed_keys env m))))"

definition StripProjectSeeds :: "env \<Rightarrow> string \<Rightarrow> string \<Rightarrow> world \<Rightarrow> (nat \<times> joined) \<times> world" where
  "StripProjectSeeds env claudeDir proj w =
     (case loadManifest env w claudeDir of
        Inl err \<Rightarrow> ((0, Inl err), w)
      | Inr m \<Rightarrow>
          let pfx = Clean proj @ [slash];
              candidates = seed_candidates env m proj w;
              st0 = \<lparr>sp_stripped = 0, sp_malformed = {}, sp_failed = {}, sp_errs = []\<rparr> in
          (case openRootedOptional env w proj of
             Inl e \<Rightarrow> ((0, Inr [e]), w)
           | Inr o' \<Rightarrow>
               (case (case o' of
                        None \<Rightarrow> (st0, w)
                      | Some r \<Rightarrow> strip_project_candidates env r (range_order env candidates) st0 w) of
                  (st, w1) \<Rightarrow>
                    (case saveManifest env claudeDir
                            (m\<lparr>mf_seeds := forget_project pfx st (mf_seeds m)\<rparr>) w1 of
                       (None, w2) \<Rightarrow> ((sp_stripped st, Inr (sp_errs st)), w2)
                     | (Some e, w2) \<Rightarrow> ((sp_stripped st, Inr (sp_errs st @ [e])), w2)))))"

end
