(* ===== verification/Reconcile.thy ===== *)
theory Reconcile
  imports Manifest
begin

text \<open>
  The file reconciler (\<open>Reconcile\<close> of \<open>internal/syncclient/reconcile.go\<close>): skills and
  subagents are rendered beneath the sync root, files no longer entitled are removed, the
  ledger of managed files is rebuilt.
\<close>

subsection \<open>Data\<close>

record desired_file =
  df_content :: bytes
  df_id :: string
  df_revision :: int

record reconcile_result =
  rr_added :: nat
  rr_updated :: nat
  rr_removed :: nat
  rr_unchanged :: nat
  rr_handled :: nat
  rr_skipped :: "string list"
  rr_warnings :: "notice list"
  rr_failures :: "notice list"
  rr_applied :: "applied_artifact list"

definition empty_result :: reconcile_result where
  "empty_result = \<lparr>rr_added = 0, rr_updated = 0, rr_removed = 0, rr_unchanged = 0, rr_handled = 0,
     rr_skipped = [], rr_warnings = [], rr_failures = [], rr_applied = []\<rparr>"

subsection \<open>The desired files\<close>

text \<open>Keyed by rendered path: of two artifacts with one path the last one stays.\<close>

fun build_desired ::
  "artifact list \<Rightarrow> (string \<times> desired_file) list \<Rightarrow> reconcile_result \<Rightarrow>
   reconcile_result \<times> (sync_error + (string \<times> desired_file) list)" where
  "build_desired [] desired res = (res, Inr desired)"
| "build_desired (a # as) desired res =
     (case map_of fileBackedTypes (art_type a) of
        None \<Rightarrow>
          build_desired as desired
            (if art_type a \<noteq> ''rule''
             then res\<lparr>rr_warnings := rr_warnings res @ [Unknown_type (art_type a)]\<rparr> else res)
      | Some pathFn \<Rightarrow>
          let res1 = res\<lparr>rr_handled := rr_handled res + 1\<rparr> in
          if \<not> artifactNameRe (art_name a) then (res1, Inl (Fatal ''reconcile: unsafe artifact name''))
          else build_desired as
            (AList.update (pathFn (art_name a))
               \<lparr>df_content = art_content a, df_id = art_id a, df_revision = art_revision a\<rparr> desired) res1)"

subsection \<open>The write loop\<close>

text \<open>One desired path: the result, the managed paths and the world after it.\<close>

definition write_one ::
  "env \<Rightarrow> rooted \<Rightarrow> string \<Rightarrow> string set \<Rightarrow> string \<Rightarrow> desired_file \<Rightarrow>
   reconcile_result \<Rightarrow> string list \<Rightarrow> world \<Rightarrow> reconcile_result \<times> string list \<times> world" where
  "write_one env root full oldSet rel want res managed w =
     (let exists = (case r_stat env w root full of Inr _ \<Rightarrow> True | Inl _ \<Rightarrow> False) in
      if exists \<and> r_readFile env w root full = Inr (df_content want)
      then (res\<lparr>rr_unchanged := rr_unchanged res + 1,
                rr_applied := appendApplied (rr_applied res) (df_id want) (df_revision want)\<rparr>,
            managed @ [rel], w)
      else if exists \<and> rel \<notin> oldSet
      then (res\<lparr>rr_skipped := rr_skipped res @ [rel]\<rparr>, managed, w)
      else
        (case r_writeAtomic env root full (df_content want) (r_existingPerm env w root full 0x1A4) w of
           (Some e, w1) \<Rightarrow>
             (res\<lparr>rr_failures := rr_failures res @ [Write_failed rel e]\<rparr>,
              if rel \<in> oldSet then managed @ [rel] else managed, w1)
         | (None, w1) \<Rightarrow>
             let res1 = (if rel \<in> oldSet then res\<lparr>rr_updated := rr_updated res + 1\<rparr>
                         else res\<lparr>rr_added := rr_added res + 1\<rparr>) in
             (res1\<lparr>rr_applied := appendApplied (rr_applied res1) (df_id want) (df_revision want)\<rparr>,
              managed @ [rel], w1)))"

fun write_loop ::
  "env \<Rightarrow> rooted \<Rightarrow> string \<Rightarrow> string set \<Rightarrow> (string \<times> desired_file) list \<Rightarrow> string list \<Rightarrow>
   reconcile_result \<Rightarrow> string list \<Rightarrow> world \<Rightarrow>
   sync_error option \<times> reconcile_result \<times> string list \<times> world" where
  "write_loop env root claudeDir oldSet desired [] res managed w = (None, res, managed, w)"
| "write_loop env root claudeDir oldSet desired (rel # rels) res managed w =
     (case map_of desired rel of
        None \<Rightarrow> write_loop env root claudeDir oldSet desired rels res managed w
      | Some want \<Rightarrow>
          (case resolveContained claudeDir rel of
             Inl err \<Rightarrow> (Some err, res, managed, w)
           | Inr full \<Rightarrow>
               (case write_one env root full oldSet rel want res managed w of
                  (res1, managed1, w1) \<Rightarrow>
                    write_loop env root claudeDir oldSet desired rels res1 managed1 w1)))"

subsection \<open>The removal loop\<close>

definition prune_dir :: "env \<Rightarrow> rooted \<Rightarrow> string \<Rightarrow> string \<Rightarrow> world \<Rightarrow> world" where
  "prune_dir env root rel full w =
     (if 2 \<le> length (filter (\<lambda>c. c = slash) rel) then
        let skillDir = Dirname full in
        if active w then
          (if dirEmptyExcept env w root skillDir (Base full) = Inr True
           then snd (r_remove env root skillDir w) else w)
        else snd (r_remove env root skillDir w)
      else w)"

definition remove_one ::
  "env \<Rightarrow> rooted \<Rightarrow> string \<Rightarrow> string \<Rightarrow> reconcile_result \<Rightarrow> string list \<Rightarrow> world \<Rightarrow>
   reconcile_result \<times> string list \<times> world" where
  "remove_one env root full rel res managed w =
     (if \<not> validManagedFilePath rel then
        (res\<lparr>rr_warnings := rr_warnings res @ [Ignored_file_entry rel]\<rparr>, managed, w)
      else
        case r_remove env root full w of
          (rmErr, w1) \<Rightarrow>
            if rmErr \<noteq> None \<and> rmErr \<noteq> Some NotExist then
              (res\<lparr>rr_failures := rr_failures res @ [Remove_failed rel (the rmErr)]\<rparr>, managed @ [rel], w1)
            else
              (if rmErr = None then res\<lparr>rr_removed := rr_removed res + 1\<rparr> else res,
               managed, prune_dir env root rel full w1))"

fun remove_loop ::
  "env \<Rightarrow> rooted \<Rightarrow> string \<Rightarrow> string set \<Rightarrow> string list \<Rightarrow>
   reconcile_result \<Rightarrow> string list \<Rightarrow> world \<Rightarrow>
   sync_error option \<times> reconcile_result \<times> string list \<times> world" where
  "remove_loop env root claudeDir keep [] res managed w = (None, res, managed, w)"
| "remove_loop env root claudeDir keep (rel # rels) res managed w =
     (if rel \<in> keep then remove_loop env root claudeDir keep rels res managed w
      else case resolveContained claudeDir rel of
          Inl err \<Rightarrow> (Some err, res, managed, w)
        | Inr full \<Rightarrow>
            (case remove_one env root full rel res managed w of
               (res1, managed1, w1) \<Rightarrow>
                 remove_loop env root claudeDir keep rels res1 managed1 w1))"

text \<open>Invariants of the two loops.\<close>

lemma write_loop_inv:
  assumes "write_loop env root c S desired rels res managed w = (e, res', managed', w')" "P res managed w"
    and "\<And>rel want full res managed w. rel \<in> set rels \<Longrightarrow> map_of desired rel = Some want \<Longrightarrow>
      resolveContained c rel = Inr full \<Longrightarrow> P res managed w \<Longrightarrow>
      (case write_one env root full S rel want res managed w of (r, m, v) \<Rightarrow> P r m v)"
  shows "P res' managed' w'"
  using assms
proof (induction rels arbitrary: res managed w)
  case (Cons rel rels)
  show ?case
  proof (cases "map_of desired rel")
    case None
    with Cons.prems show ?thesis by (intro Cons.IH) auto
  next
    case (Some want)
    show ?thesis
    proof (cases "resolveContained c rel")
      case (Inl err)
      with Some Cons.prems show ?thesis by simp
    next
      case (Inr full)
      obtain r m v where o: "write_one env root full S rel want res managed w = (r, m, v)"
        by (metis prod_cases3)
      from Cons.prems(3) [OF _ Some Inr Cons.prems(2)] o have "P r m v" by simp
      moreover have "write_loop env root c S desired rels r m v = (e, res', managed', w')"
        using Cons.prems(1) Some Inr o by simp
      ultimately show ?thesis using Cons.prems(3) by (intro Cons.IH) auto
    qed
  qed
qed simp

lemma remove_loop_inv:
  assumes "remove_loop env root c keep rels res managed w = (e, res', managed', w')" "P res managed w"
    and "\<And>rel full res managed w. rel \<in> set rels \<Longrightarrow> rel \<notin> keep \<Longrightarrow>
      resolveContained c rel = Inr full \<Longrightarrow> P res managed w \<Longrightarrow>
      (case remove_one env root full rel res managed w of (r, m, v) \<Rightarrow> P r m v)"
  shows "P res' managed' w'"
  using assms
proof (induction rels arbitrary: res managed w)
  case (Cons rel rels)
  show ?case
  proof (cases "rel \<in> keep")
    case True
    with Cons.prems show ?thesis by (intro Cons.IH) auto
  next
    case False
    show ?thesis
    proof (cases "resolveContained c rel")
      case (Inl err)
      with False Cons.prems show ?thesis by simp
    next
      case (Inr full)
      obtain r m v where o: "remove_one env root full rel res managed w = (r, m, v)"
        by (metis prod_cases3)
      from Cons.prems(3) [OF _ False Inr Cons.prems(2)] o have "P r m v" by simp
      moreover have "remove_loop env root c keep rels r m v = (e, res', managed', w')"
        using Cons.prems(1) False Inr o by simp
      ultimately show ?thesis using Cons.prems(3) by (intro Cons.IH) auto
    qed
  qed
qed simp

subsection \<open>\<open>Reconcile\<close>\<close>

text \<open>What runs once the ledger is loaded and the root is open.\<close>

definition reconcile_body ::
  "env \<Rightarrow> string \<Rightarrow> artifact list \<Rightarrow> manifest \<Rightarrow> rooted \<Rightarrow> world \<Rightarrow>
   sync_error option \<times> reconcile_result \<times> world" where
  "reconcile_body env claudeDir artifacts m root w =
     (case build_desired artifacts [] empty_result of
        (res, Inl err) \<Rightarrow> (Some err, res, w)
      | (res, Inr desired) \<Rightarrow>
          (case write_loop env root claudeDir (set (mf_files m)) desired
                  (range_order env (map fst desired)) res [] w of
             (Some err, res1, _, w1) \<Rightarrow> (Some err, res1, w1)
           | (None, res1, managed1, w1) \<Rightarrow>
               let res2 = res1\<lparr>rr_applied := sort_key ap_id (rr_applied res1)\<rparr> in
               (case remove_loop env root claudeDir (set (map fst desired)) (mf_files m) res2 managed1 w1 of
                  (Some err, res3, _, w2) \<Rightarrow> (Some err, res3, w2)
                | (None, res3, managed2, w2) \<Rightarrow>
                    (case saveManifest env claudeDir (m\<lparr>mf_files := managed2\<rparr>) w2 of
                       (None, w3) \<Rightarrow> (None, res3, w3)
                     | (Some e, w3) \<Rightarrow>
                         (None, res3\<lparr>rr_failures := rr_failures res3 @ [Manifest_failed e]\<rparr>, w3)))))"

definition Reconcile ::
  "env \<Rightarrow> string \<Rightarrow> artifact list \<Rightarrow> world \<Rightarrow> sync_error option \<times> reconcile_result \<times> world" where
  "Reconcile env claudeDir artifacts w =
     (case loadManifest env w claudeDir of
        Inl err \<Rightarrow> (Some err, empty_result, w)
      | Inr m \<Rightarrow>
          (case (if \<not> active w then os_MkdirAll env claudeDir w else (None, w)) of
             (Some _, w1) \<Rightarrow> (Some (Fatal ''reconcile: create sync root''), empty_result, w1)
           | (None, w1) \<Rightarrow>
               (case openRootedFor env w1 claudeDir of
                  Inl _ \<Rightarrow> (Some (Fatal ''reconcile: open sync root''), empty_result, w1)
                | Inr root \<Rightarrow> reconcile_body env claudeDir artifacts m root w1)))"

end
