(* ===== verification/ReconcileProofs.thy ===== *)
theory ReconcileProofs
  imports Reconcile RootedOps
begin

text \<open>
  The correctness of the file reconciler: a dry run writes nothing; files the client does not
  manage keep their content; what is reported as applied is on disk; a tree that already holds
  the desired bytes is left alone.
\<close>

subsection \<open>Managed paths\<close>

abbreviation rel_comps :: "string \<Rightarrow> string list" where
  "rel_comps rel \<equiv> split_on slash rel"

definition suffix_name :: "string \<Rightarrow> bool" where
  "suffix_name s \<longleftrightarrow> (\<exists>n. artifactNameRe n \<and> s = n @ ''.md'') \<or> s = ''SKILL.md''"

lemma valid_rel:
  assumes "validManagedFilePath rel"
  shows "list_all plain_comp (rel_comps rel)" "rel_comps rel \<noteq> []" "butlast (rel_comps rel) \<noteq> []"
    "join_with slash (rel_comps rel) = rel" "suffix_name (last (rel_comps rel))"
proof -
  from assms obtain n where n: "artifactNameRe n"
    and r: "rel = join_with slash [''skills'', n, ''SKILL.md''] \<or> rel = join_with slash [''agents'', n @ ''.md'']"
    unfolding validManagedFilePath_iff skill_path agent_path by blast
  note s = split_join_plain [OF skill_plain [OF n]] and a = split_join_plain [OF agent_plain [OF n]]
  from r s a have "rel_comps rel = [''skills'', n, ''SKILL.md''] \<or> rel_comps rel = [''agents'', n @ ''.md'']"
    by blast
  then show "list_all plain_comp (rel_comps rel)" "rel_comps rel \<noteq> []" "butlast (rel_comps rel) \<noteq> []"
    "suffix_name (last (rel_comps rel))"
    using skill_plain [OF n] agent_plain [OF n] n by (auto simp: suffix_name_def)
  show "join_with slash (rel_comps rel) = rel" by (rule join_split)
qed

lemma rel_comps_inj: "rel_comps r = rel_comps s \<Longrightarrow> r = s"
  by (metis join_split)

text \<open>No managed leaf looks like a temporary file of another.\<close>

lemma suffix_name_no_temp:
  assumes "suffix_name s" "suffix_name t"
  shows "\<not> has_prefix (s @ ''.tmp-'') t"
proof
  assume "has_prefix (s @ ''.tmp-'') t"
  then obtain r where t: "t = s @ ''.tmp-'' @ r" by (auto simp: has_prefix_iff prefix_def)
  have dots: "count_list u CHR ''.'' = 1" if "suffix_name u" for u
    using that slug_not_special(5) by (auto simp: suffix_name_def count_list_0_iff)
  show False using dots [OF assms(1)] dots [OF assms(2)] t by (simp add: count_list_append)
qed

lemma managed_no_temp:
  assumes "validManagedFilePath r" "validManagedFilePath s"
  shows "\<not> temp_of (b @ rel_comps r) (b @ rel_comps s)"
proof
  assume "temp_of (b @ rel_comps r) (b @ rel_comps s)"
  then obtain x where x: "b @ rel_comps s = butlast (b @ rel_comps r) @ [x]"
    "has_prefix (last (b @ rel_comps r) @ ''.tmp-'') x"
    by (auto simp: temp_of_def)
  then have "last (rel_comps s) = x" using valid_rel(2) [OF assms(2)] by (metis last_appendR last_snoc)
  moreover have "last (b @ rel_comps r) = last (rel_comps r)" using valid_rel(2) [OF assms(1)] by simp
  ultimately show False
    using suffix_name_no_temp [OF valid_rel(5) [OF assms(1)] valid_rel(5) [OF assms(2)]] x(2) by simp
qed

lemma manifest_plain: "plain_comp manifestName"
  by (simp add: plain_comp_def manifestName_def)

lemma manifest_no_temp:
  assumes "validManagedFilePath s"
  shows "\<not> temp_of (b @ [manifestName]) (b @ rel_comps s)" "b @ rel_comps s \<noteq> b @ [manifestName]"
  using valid_rel(2,3) [OF assms] by (auto simp: temp_of_def butlast_append)

lemma resolve_managed:
  assumes "list_all plain_comp b" "b \<noteq> []" "validManagedFilePath rel"
  shows "resolveContained (abs_path b) rel = Inr (abs_path (b @ rel_comps rel))"
proof -
  have "resolveContained (abs_path b) (join_with slash (rel_comps rel)) = Inr (abs_path (pcomps (abs_path b) @ rel_comps rel))"
    using assms valid_rel [OF assms(3)] by (intro resolveContained_plain) (simp_all add: pcomps_abs_path)
  then show ?thesis using valid_rel(4) [OF assms(3)] assms(1) by (simp add: pcomps_abs_path)
qed

lemma build_desired_valid:
  assumes "build_desired as desired res = (res', Inr desired')"
    "\<And>rel. rel \<in> fst ` set desired \<Longrightarrow> validManagedFilePath rel" "distinct (map fst desired)"
  shows "(\<forall>rel \<in> fst ` set desired'. validManagedFilePath rel) \<and> distinct (map fst desired') \<and>
    rr_applied res' = rr_applied res"
  using assms
proof (induction as desired res rule: build_desired.induct)
  case (1 desired res)
  then show ?case by auto
next
  case (2 a as desired res)
  show ?case
  proof (cases "map_of fileBackedTypes (art_type a)")
    case None
    with 2 show ?thesis by (auto split: if_splits)
  next
    case (Some f)
    show ?thesis
    proof (cases "artifactNameRe (art_name a)")
      case False
      with Some 2 show ?thesis by (simp add: Let_def)
    next
      case True
      let ?d = "AList.update (f (art_name a)) \<lparr>df_content = art_content a, df_id = art_id a,
        df_revision = art_revision a\<rparr> desired"
      have v: "validManagedFilePath (f (art_name a))" using fileBacked_shape [OF Some True] by metis
      have "rel \<in> fst ` set ?d \<Longrightarrow> validManagedFilePath rel" for rel
        using 2(4) v by (auto simp: dom_update simp flip: image_set)
      moreover have "distinct (map fst ?d)" using 2(5) by (rule distinct_update)
      ultimately show ?thesis
        using 2(2) [OF Some refl] Some True 2(3) by (simp add: Let_def)
    qed
  qed
qed

subsection \<open>Dry runs\<close>

definition untouched :: "world \<Rightarrow> world \<Rightarrow> bool" where
  "untouched w v \<longleftrightarrow> nodes v = nodes w \<and> active v"

lemma r_ops_untouched:
  "untouched w v \<Longrightarrow> untouched w (snd (r_writeAtomic env r p data perm v))"
  "untouched w v \<Longrightarrow> untouched w (snd (r_remove env r p v))"
  by (simp_all add: untouched_def r_writeAtomic_planned r_remove_planned)

lemma write_one_untouched:
  assumes "untouched w v"
  shows "case write_one env root full S rel want res managed v of (r, m, u) \<Rightarrow> untouched w u"
proof -
  obtain e u where o: "r_writeAtomic env root full (df_content want) (r_existingPerm env v root full 0x1A4) v = (e, u)"
    by fastforce
  have "untouched w u" using r_ops_untouched(1) [OF assms] o by (metis snd_conv)
  with assms o show ?thesis by (simp add: write_one_def Let_def split: option.splits)
qed

lemma prune_dir_untouched: "untouched w v \<Longrightarrow> untouched w (prune_dir env root rel full v)"
  by (simp add: prune_dir_def Let_def r_ops_untouched)

lemma remove_one_untouched:
  assumes "untouched w v"
  shows "case remove_one env root full rel res managed v of (r, m, u) \<Rightarrow> untouched w u"
proof -
  obtain e u where o: "r_remove env root full v = (e, u)" by fastforce
  have "untouched w u" using r_ops_untouched(2) [OF assms] o by (metis snd_conv)
  with assms o show ?thesis by (simp add: remove_one_def prune_dir_untouched)
qed

text \<open>
  A dry run touches nothing: with a plan attached, the whole reconciliation leaves every
  file, directory and link as it was, on every path of the code, errors included.
\<close>

theorem Reconcile_dry_run:
  assumes "active w" "Reconcile env claudeDir artifacts w = (e, res, w')"
  shows "nodes w' = nodes w"
proof -
  have body: "nodes w' = nodes w" if "reconcile_body env claudeDir artifacts m root w = (e, res, w')" for m root
  proof -
    from that consider "w' = w"
      | res0 desired e1 res1 m1 w1 where
        "write_loop env root claudeDir (set (mf_files m)) desired (range_order env (map fst desired)) res0 [] w = (e1, res1, m1, w1)"
        "w' = w1 \<or> (\<exists>k rs r2 e2 res2 m2 w2. remove_loop env root claudeDir k rs r2 m1 w1 = (e2, res2, m2, w2) \<and>
           (w' = w2 \<or> w' = snd (saveManifest env claudeDir (m\<lparr>mf_files := m2\<rparr>) w2)))"
      unfolding reconcile_body_def
      by (auto simp: Let_def split: prod.splits sum.splits option.splits) (metis snd_conv)+
    then show ?thesis
    proof cases
      case 2
      have "untouched w w" using assms(1) by (simp add: untouched_def)
      then have w1: "untouched w w1"
        by (rule write_loop_inv [OF 2(1), where P = "\<lambda>_ _. untouched w"]) (rule write_one_untouched)
      have w2: "untouched w w2" if "remove_loop env root claudeDir k rs r2 m1 w1 = (e2, res2, m2, w2)" for k rs r2 e2 res2 m2 w2
        using w1 by (rule remove_loop_inv [OF that, where P = "\<lambda>_ _. untouched w"]) (rule remove_one_untouched)
      from 2(2) w1 w2 show ?thesis using saveManifest_planned(1) unfolding untouched_def by metis
    qed simp
  qed
  show ?thesis
    using assms body by (auto simp: Reconcile_def split: sum.splits)
qed

subsection \<open>Opening the sync root\<close>

lemma split_abs: "list_all plain_comp b \<Longrightarrow> b \<noteq> [] \<Longrightarrow> split_on slash (abs_path b) = '''' # b"
  by (simp add: split_abs_path)

lemma active_plan: "plan w' = plan w \<Longrightarrow> active w' = active w"
  by (simp add: active_def)

lemma MkdirAll_good:
  assumes "good_tree w" "list_all plain_comp b" "b \<noteq> []" "os_MkdirAll env (abs_path b) w = (e, w')"
  shows "good_tree w'" "active w' = active w" "files_kept w w' (\<lambda>_. False)"
proof -
  have w': "w' = snd (mkdirs env None w [] b)"
    using assms(4) split_abs [OF assms(2,3)] by (simp add: os_MkdirAll_def)
  have lf: "link_free w" and nm: "names_ok w" and sh: "shaped w" using assms(1) by (auto simp: good_tree_def)
  note M = mkdirs_link_free [OF lf assms(2), of env None "[]"]
  have "list_all plain_comp q" if "look w' q \<noteq> None" for q
  proof (cases "look w' q = look w q")
    case True
    with that nm show ?thesis by (simp add: names_ok_def)
  next
    case False
    with M w' have "prefix q b" by auto
    with assms(2) show ?thesis by (auto simp: prefix_def)
  qed
  moreover have "shaped w'"
    using mkdirs_shaped [OF sh _ lf assms(2), of "[]" env None] w' by (simp add: look_def)
  ultimately show "good_tree w'" using M w' by (auto simp: good_tree_def names_ok_def)
  show "active w' = active w" unfolding w' by (rule active_plan [OF mkdirs_plan])
  have "look w q = None" if "look w' q \<noteq> look w q" for q using M w' that by blast
  then show "files_kept w w' (\<lambda>_. False)" unfolding files_kept_def by (metis option.distinct(1))
qed

lemma openRooted_good:
  assumes "good_tree w" "list_all plain_comp b" "b \<noteq> []" "openRooted env w (abs_path b) = Inr r"
  shows "root_on r b w"
proof -
  have "os_walk env w (abs_path b) = walk w None (link_budget env) [] b"
    using split_abs [OF assms(2,3)] by (simp add: os_walk_def walk.simps(2))
  moreover have "walk w None (link_budget env) [] b = Inr q \<Longrightarrow> q = b" for q
    using walk_link_free [of w b None _ "[]"] assms(1,2) by (auto simp: good_tree_def)
  ultimately show ?thesis
    using assms(2-4)
    by (auto simp: openRooted_def root_on_def Clean_abs_path split: sum.splits if_splits option.splits node.splits)
qed

lemma manifest_path_abs:
  "list_all plain_comp b \<Longrightarrow> manifest_path (abs_path b) = abs_path (b @ [manifestName])"
  using Join_plain [of "abs_path b" "[manifestName]"] manifest_plain
  by (simp add: manifest_path_def pcomps_abs_path)

lemma saveManifest_good:
  assumes "good_tree w" "\<not> active w" "plain_env env" "list_all plain_comp b" "b \<noteq> []"
    "saveManifest env (abs_path b) m w = (e, w')"
  shows "good_tree w'"
    "files_kept w w' (\<lambda>q. q = b @ [manifestName] \<or> temp_of (b @ [manifestName]) q)"
proof -
  obtain e1 w1 where mk: "os_MkdirAll env (abs_path b) w = (e1, w1)" by fastforce
  note M = MkdirAll_good [OF assms(1,4,5) mk]
  have "good_tree w' \<and> files_kept w w' (\<lambda>q. q = b @ [manifestName] \<or> temp_of (b @ [manifestName]) q)"
  proof (cases e1)
    case (Some x)
    with assms(2,6) mk M show ?thesis
      by (auto simp: saveManifest_def Let_def intro: files_kept_mono)
  next
    case None
    show ?thesis
    proof (cases "openRooted env w1 (abs_path b)")
      case (Inl x)
      with None assms(2,6) mk M show ?thesis
        by (auto simp: saveManifest_def Let_def openRootedFor_def intro: files_kept_mono)
    next
      case (Inr r)
      note ro = openRooted_good [OF M(1) assms(4,5) Inr]
      have run: "r_writeAtomic env r (abs_path (b @ [manifestName])) (json_marshal env (sorted_manifest m)) 0x1A4 w1 = (e, w')"
        using None Inr assms(2,6) mk M(2) manifest_path_abs [OF assms(4)]
        by (simp add: saveManifest_def Let_def openRootedFor_def)
      have "\<not> active w1" using M(2) assms(2) by simp
      note W = write_good [OF M(1) this ro _ _ assms(3) run]
      from W(1,4) manifest_plain M(3) show ?thesis by (auto intro: files_kept_trans)
    qed
  qed
  then show "good_tree w'" "files_kept w w' (\<lambda>q. q = b @ [manifestName] \<or> temp_of (b @ [manifestName]) q)"
    by auto
qed

subsection \<open>One file\<close>

definition in_run :: "env \<Rightarrow> rooted \<Rightarrow> path \<Rightarrow> world \<Rightarrow> bool" where
  "in_run env root b w \<longleftrightarrow> good_tree w \<and> \<not> active w \<and> root_on root b w \<and> plain_env env"

lemma write_one_good:
  assumes run: "in_run env root b w" and v: "validManagedFilePath rel"
    and o: "write_one env root (abs_path (b @ rel_comps rel)) S rel want res managed w = (res', managed', w')"
  shows "in_run env root b w' \<and>
    files_kept w w' (\<lambda>q. q = b @ rel_comps rel \<or> temp_of (b @ rel_comps rel) q) \<and>
    ((\<forall>q. \<not> refuses env OpStat q) \<longrightarrow> rel \<notin> S \<longrightarrow> files_kept w w' (\<lambda>q. temp_of (b @ rel_comps rel) q)) \<and>
    (rr_applied res' = rr_applied res \<or>
     rr_applied res' = appendApplied (rr_applied res) (df_id want) (df_revision want) \<and>
     (\<exists>p. look w' (b @ rel_comps rel) = Some (File (df_content want) p))) \<and>
    (look w' (b @ rel_comps rel) = look w (b @ rel_comps rel) \<or>
     (\<exists>p. look w' (b @ rel_comps rel) = Some (File (df_content want) p)))"
proof -
  let ?p = "abs_path (b @ rel_comps rel)"
  have g: "good_tree w" "\<not> active w" "root_on root b w" "plain_env env" using run by (auto simp: in_run_def)
  note c = valid_rel(1,2) [OF v]
  define ex where "ex = (case r_stat env w root ?p of Inr _ \<Rightarrow> True | Inl _ \<Rightarrow> False)"
  consider (same) "ex" "r_readFile env w root ?p = Inr (df_content want)"
    | (skip) "ex" "r_readFile env w root ?p \<noteq> Inr (df_content want)" "rel \<notin> S"
    | (wr) "\<not> ex \<or> rel \<in> S" "\<not> (ex \<and> r_readFile env w root ?p = Inr (df_content want))" by blast
  then show ?thesis
  proof cases
    case same
    with o have "w' = w" "rr_applied res' = appendApplied (rr_applied res) (df_id want) (df_revision want)"
      by (auto simp: write_one_def Let_def ex_def split: sum.splits)
    with run r_readFile_Inr [OF g(1,3) c same(2)] show ?thesis by simp
  next
    case skip
    with o have "w' = w" "rr_applied res' = rr_applied res"
      by (auto simp: write_one_def Let_def ex_def split: sum.splits)
    with run show ?thesis by simp
  next
    case wr
    obtain e v where wv: "r_writeAtomic env root ?p (df_content want) (r_existingPerm env w root ?p 0x1A4) w = (e, v)"
      by fastforce
    note W = write_good [OF g(1-3) c g(4) wv]
    have eq: "w' = v" "e \<noteq> None \<Longrightarrow> rr_applied res' = rr_applied res"
      "e = None \<Longrightarrow> rr_applied res' = appendApplied (rr_applied res) (df_id want) (df_revision want)"
      using o wr wv by (auto simp: write_one_def Let_def ex_def split: sum.splits option.splits)
    have "files_kept w v (\<lambda>q. temp_of (b @ rel_comps rel) q)" if st: "\<And>q. \<not> refuses env OpStat q" and n: "rel \<notin> S"
      unfolding files_kept_def
    proof (intro allI impI)
      fix q cc p assume a: "look w q = Some (File cc p) \<and> look v q \<noteq> look w q"
      with W(4) have "q = b @ rel_comps rel \<or> temp_of (b @ rel_comps rel) q" unfolding files_kept_def by blast
      moreover have "ex" if "q = b @ rel_comps rel"
        using a that r_stat_found [OF g(1,3) c] st by (auto simp: ex_def)
      ultimately show "temp_of (b @ rel_comps rel) q" using wr(1) n by blast
    qed
    with W eq g(4) show ?thesis by (cases e) (auto simp: in_run_def)
  qed
qed

lemma r_remove_real:
  assumes "in_run env root b w" "list_all plain_comp cs" "cs \<noteq> []"
  shows "r_remove env root (abs_path (b @ cs)) w = root_Remove env b (join_with slash cs) w"
proof -
  have "root_on root b w" "\<not> active w" "rt_root root = Some b" using assms(1) by (auto simp: in_run_def root_on_def)
  with root_on_rel [OF this(1) assms(2,3)] show ?thesis by (simp add: r_remove_def)
qed

lemma root_Remove_run:
  assumes "in_run env root b w" "list_all plain_comp cs" "cs \<noteq> []"
    "root_Remove env b (join_with slash cs) w = (e, w')"
  shows "in_run env root b w'" "files_kept w w' (\<lambda>q. q = b @ cs)"
    "\<And>q. q \<noteq> b @ cs \<Longrightarrow> look w' q = look w q"
proof -
  have g: "good_tree w" using assms(1) by (simp add: in_run_def)
  note R = root_Remove_good [OF g assms(2-4)]
  have ne: "b @ cs \<noteq> []" "b \<noteq> b @ cs" using assms(3) by auto
  show k: "\<And>q. q \<noteq> b @ cs \<Longrightarrow> look w' q = look w q"
    using R(2,3) ne by (cases e) auto
  have "active w' = active w" using R(2,3) by (cases e) auto
  then show "in_run env root b w'" using assms(1) R(1) k ne by (auto simp: in_run_def root_on_def)
  show "files_kept w w' (\<lambda>q. q = b @ cs)" unfolding files_kept_def using k by blast
qed

lemma remove_one_good:
  assumes run: "in_run env root b w" and v: "validManagedFilePath rel"
    and o: "remove_one env root (abs_path (b @ rel_comps rel)) rel res managed w = (res', managed', w')"
  shows "in_run env root b w' \<and> files_kept w w' (\<lambda>q. q = b @ rel_comps rel) \<and> rr_applied res' = rr_applied res"
proof -
  let ?cs = "rel_comps rel" and ?p = "abs_path (b @ rel_comps rel)"
  note c = valid_rel(1-4) [OF v]
  have g: "good_tree w" "list_all plain_comp b" using run by (auto simp: in_run_def root_on_def)
  obtain e w1 where r: "r_remove env root ?p w = (e, w1)" by fastforce
  have rR: "root_Remove env b (join_with slash ?cs) w = (e, w1)"
    using r r_remove_real [OF run c(1,2)] by simp
  note R = root_Remove_run [OF run c(1,2) rR]
  have ap: "rr_applied res' = rr_applied res" using o v by (auto simp: remove_one_def split: prod.splits if_splits)
  show ?thesis
  proof (cases "e \<noteq> None \<and> e \<noteq> Some NotExist")
    case True
    with o v r have "w' = w1" by (simp add: remove_one_def)
    with R ap show ?thesis by simp
  next
    case False
    with o v r have w': "w' = prune_dir env root rel ?p w1" by (auto simp: remove_one_def)
    show ?thesis
    proof (cases "2 \<le> length (filter (\<lambda>c. c = slash) rel)")
      case False
      with w' R ap show ?thesis by (simp add: prune_dir_def)
    next
      case True
      note pb = plain_butlast [OF c(1)]
      have dir: "Dirname ?p = abs_path (b @ butlast ?cs)"
        using Dirname_abs [of "b @ ?cs"] c g(2) by (simp add: butlast_append)
      have na: "\<not> active w1" using R(1) by (simp add: in_run_def)
      obtain e2 w2 where r2: "root_Remove env b (join_with slash (butlast ?cs)) w1 = (e2, w2)" by fastforce
      have "w' = w2"
        using w' True dir na r2 r_remove_real [OF R(1) pb c(3)] by (simp add: prune_dir_def Let_def)
      note R2 = root_Remove_run [OF R(1) pb c(3) r2]
      have "look w1 (b @ butlast ?cs) \<in> {None, Some Dir}"
        using root_Remove_parent [OF g(1) c(1-3) rR] False by blast
      then have "files_kept w1 w2 (\<lambda>_. False)" using R2(2) unfolding files_kept_def by force
      with R(2) have "files_kept w w2 (\<lambda>q. q = b @ ?cs)" by (rule files_kept_trans) auto
      with R2(1) ap \<open>w' = w2\<close> show ?thesis by simp
    qed
  qed
qed

subsection \<open>The loops\<close>

lemma write_loop_good:
  assumes run: "in_run env root b w"
    and v: "\<And>rel. rel \<in> fst ` set desired \<Longrightarrow> validManagedFilePath rel"
    and l: "write_loop env root (abs_path b) S desired rels res managed w = (e, res', managed', w')"
  shows "in_run env root b w'"
    "(\<And>q. \<not> refuses env OpStat q) \<Longrightarrow>
       files_kept w w' (\<lambda>q. \<exists>rel \<in> fst ` set desired. q = b @ rel_comps rel \<and> rel \<in> S \<or> temp_of (b @ rel_comps rel) q)"
proof -
  let ?Q = "\<lambda>q. \<exists>rel \<in> fst ` set desired. q = b @ rel_comps rel \<and> rel \<in> S \<or> temp_of (b @ rel_comps rel) q"
  let ?st = "\<forall>q. \<not> refuses env OpStat q"
  have b: "list_all plain_comp b" "b \<noteq> []" using run by (auto simp: in_run_def root_on_def)
  have "in_run env root b w' \<and> (?st \<longrightarrow> files_kept w w' ?Q)"
  proof (rule write_loop_inv [OF l, where P = "\<lambda>_ _ v. in_run env root b v \<and> (?st \<longrightarrow> files_kept w v ?Q)"])
    fix rel want full res managed v'
    assume a: "map_of desired rel = Some want" "resolveContained (abs_path b) rel = Inr full"
      "in_run env root b v' \<and> (?st \<longrightarrow> files_kept w v' ?Q)"
    have rd: "rel \<in> fst ` set desired" using map_of_SomeD [OF a(1)] by force
    then have vr: "validManagedFilePath rel" by (rule v)
    obtain r m u where o: "write_one env root full S rel want res managed v' = (r, m, u)" by (metis prod_cases3)
    have "full = abs_path (b @ rel_comps rel)" using a(2) resolve_managed [OF b vr] by simp
    with o have o': "write_one env root (abs_path (b @ rel_comps rel)) S rel want res managed v' = (r, m, u)" by simp
    have W: "in_run env root b u" "files_kept v' u (\<lambda>q. q = b @ rel_comps rel \<or> temp_of (b @ rel_comps rel) q)"
      "?st \<Longrightarrow> rel \<notin> S \<Longrightarrow> files_kept v' u (\<lambda>q. temp_of (b @ rel_comps rel) q)"
      using write_one_good [OF _ vr o'] a(3) by auto
    have "files_kept v' u ?Q" if ?st
    proof (cases "rel \<in> S")
      case True
      with rd show ?thesis by (intro files_kept_mono [OF W(2)]) blast
    next
      case False
      with rd show ?thesis by (intro files_kept_mono [OF W(3) [OF that False]]) blast
    qed
    then have "in_run env root b u \<and> (?st \<longrightarrow> files_kept w u ?Q)"
      using a(3) W(1) by (auto intro: files_kept_trans)
    with o show "case write_one env root full S rel want res managed v' of (r, m, v) \<Rightarrow>
        in_run env root b v \<and> (?st \<longrightarrow> files_kept w v ?Q)"
      by simp
  qed (use run in simp)
  then show "in_run env root b w'" "(\<And>q. \<not> refuses env OpStat q) \<Longrightarrow> files_kept w w' ?Q" by auto
qed

lemma remove_loop_good:
  assumes run: "in_run env root b w"
    and l: "remove_loop env root (abs_path b) keep rels res managed w = (e, res', managed', w')"
  shows "in_run env root b w'" "rr_applied res' = rr_applied res"
    "files_kept w w' (\<lambda>q. \<exists>rel \<in> set rels. rel \<notin> keep \<and> validManagedFilePath rel \<and> q = b @ rel_comps rel)"
proof -
  let ?Q = "\<lambda>q. \<exists>rel \<in> set rels. rel \<notin> keep \<and> validManagedFilePath rel \<and> q = b @ rel_comps rel"
  have b: "list_all plain_comp b" "b \<noteq> []" using run by (auto simp: in_run_def root_on_def)
  let ?P = "\<lambda>(r :: reconcile_result) (_ :: string list) v. in_run env root b v \<and> rr_applied r = rr_applied res \<and> files_kept w v ?Q"
  have "?P res' managed' w'"
  proof (rule remove_loop_inv [OF l, where P = ?P])
    fix rel full r managed v'
    assume a: "rel \<in> set rels" "rel \<notin> keep" "resolveContained (abs_path b) rel = Inr full" "?P r managed v'"
    show "case remove_one env root full rel r managed v' of (r, m, v) \<Rightarrow> ?P r m v"
    proof (cases "validManagedFilePath rel")
      case False
      with a show ?thesis by (simp add: remove_one_def)
    next
      case True
      obtain r1 m u where o: "remove_one env root full rel r managed v' = (r1, m, u)" by (metis prod_cases3)
      have "full = abs_path (b @ rel_comps rel)" using a(3) resolve_managed [OF b True] by simp
      with o have o': "remove_one env root (abs_path (b @ rel_comps rel)) rel r managed v' = (r1, m, u)" by simp
      from a(4) have "in_run env root b v'" "files_kept w v' ?Q" "rr_applied r = rr_applied res" by auto
      with remove_one_good [OF _ True o'] a(1,2) True o show ?thesis
        by (auto intro: files_kept_trans)
    qed
  qed (use run in simp)
  then show "in_run env root b w'" "rr_applied res' = rr_applied res" "files_kept w w' ?Q" by auto
qed

subsection \<open>The whole run\<close>

text \<open>The stages of a run in real mode.\<close>

lemma Reconcile_cases:
  assumes "\<not> active w" "good_tree w" "plain_env env" "list_all plain_comp b" "b \<noteq> []"
    "Reconcile env (abs_path b) artifacts w = (e, res, w')"
  obtains (early) "files_kept w w' (\<lambda>_. False)" "rr_applied res = []" "e \<noteq> None"
  | (body) m root w1 where "loadManifest env w (abs_path b) = Inr m" "in_run env root b w1"
      "files_kept w w1 (\<lambda>_. False)" "reconcile_body env (abs_path b) artifacts m root w1 = (e, res, w')"
proof (cases "loadManifest env w (abs_path b)")
  case (Inl err)
  with assms(6) have "w' = w" "rr_applied res = []" "e \<noteq> None"
    by (auto simp: Reconcile_def empty_result_def)
  then show thesis using early by simp
next
  case (Inr m)
  obtain e1 w1 where mk: "os_MkdirAll env (abs_path b) w = (e1, w1)" by fastforce
  note M = MkdirAll_good [OF assms(2,4,5) mk]
  show thesis
  proof (cases "e1 = None \<and> (\<exists>root. openRooted env w1 (abs_path b) = Inr root)")
    case False
    then have "w' = w1" "rr_applied res = []" "e \<noteq> None"
      using assms(1,6) Inr mk M(2)
      by (auto simp: Reconcile_def openRootedFor_def empty_result_def split: option.splits sum.splits)
    with M(3) show thesis using early by simp
  next
    case True
    then obtain root where o: "openRooted env w1 (abs_path b) = Inr root" "e1 = None" by blast
    have "in_run env root b w1"
      using openRooted_good [OF M(1) assms(4,5) o(1)] M assms(1,3) by (simp add: in_run_def)
    moreover have "reconcile_body env (abs_path b) artifacts m root w1 = (e, res, w')"
      using assms(1,6) Inr mk M(2) o by (simp add: Reconcile_def openRootedFor_def)
    ultimately show thesis using body Inr M(3) by blast
  qed
qed

text \<open>The stages of the body: the loops, then the ledger.\<close>

lemma reconcile_body_cases:
  assumes "reconcile_body env c artifacts m root w = (e, res, w')"
  obtains (unsafe) r where "build_desired artifacts [] empty_result = (res, Inl r)" "w' = w"
  | (written) res0 desired e1 res1 m1 where
      "build_desired artifacts [] empty_result = (res0, Inr desired)"
      "write_loop env root c (set (mf_files m)) desired (range_order env (map fst desired)) res0 [] w = (e1, res1, m1, w')"
      "res = res1" "e = e1"
  | (removed) res0 desired res1 m1 w1 e2 m2 where
      "build_desired artifacts [] empty_result = (res0, Inr desired)"
      "write_loop env root c (set (mf_files m)) desired (range_order env (map fst desired)) res0 [] w = (None, res1, m1, w1)"
      "remove_loop env root c (set (map fst desired)) (mf_files m)
         (res1\<lparr>rr_applied := sort_key ap_id (rr_applied res1)\<rparr>) m1 w1 = (e2, res, m2, w')" "e = e2"
  | (saved) res0 desired res1 m1 w1 res2 m2 w2 s where
      "build_desired artifacts [] empty_result = (res0, Inr desired)"
      "write_loop env root c (set (mf_files m)) desired (range_order env (map fst desired)) res0 [] w = (None, res1, m1, w1)"
      "remove_loop env root c (set (map fst desired)) (mf_files m)
         (res1\<lparr>rr_applied := sort_key ap_id (rr_applied res1)\<rparr>) m1 w1 = (None, res2, m2, w2)"
      "saveManifest env c (m\<lparr>mf_files := m2\<rparr>) w2 = (s, w')" "rr_applied res = rr_applied res2" "e = None"
proof -
  obtain res0 d where bd: "build_desired artifacts [] empty_result = (res0, d)" by fastforce
  show thesis
  proof (cases d)
    case (Inl r)
    with bd assms show thesis using unsafe by (simp add: reconcile_body_def)
  next
    case (Inr desired)
    obtain e1 res1 m1 w1 where wl: "write_loop env root c (set (mf_files m)) desired
      (range_order env (map fst desired)) res0 [] w = (e1, res1, m1, w1)" by (metis prod_cases4)
    show thesis
    proof (cases e1)
      case (Some x)
      with bd Inr wl assms show thesis using written by (simp add: reconcile_body_def)
    next
      case None
      obtain e2 res2 m2 w2 where rl: "remove_loop env root c (set (map fst desired)) (mf_files m)
        (res1\<lparr>rr_applied := sort_key ap_id (rr_applied res1)\<rparr>) m1 w1 = (e2, res2, m2, w2)" by (metis prod_cases4)
      show thesis
      proof (cases e2)
        case (Some x)
        with bd Inr wl None rl assms show thesis using removed by (simp add: reconcile_body_def Let_def)
      next
        case n2: None
        obtain s w3 where sv: "saveManifest env c (m\<lparr>mf_files := m2\<rparr>) w2 = (s, w3)" by fastforce
        have "e = None" "w' = w3" "rr_applied res = rr_applied res2"
          using bd Inr wl None rl n2 sv assms by (auto simp: reconcile_body_def Let_def split: option.splits)
        with bd Inr wl None rl n2 sv show thesis using saved by simp
      qed
    qed
  qed
qed

text \<open>
  The files a run may change: ledgered managed paths, the ledger, and temporaries left over beside
  the ledger or beside the path of an artifact that is served.
\<close>

definition served_path :: "artifact list \<Rightarrow> string \<Rightarrow> bool" where
  "served_path artifacts rel \<longleftrightarrow>
     (\<exists>a \<in> set artifacts. \<exists>f. map_of fileBackedTypes (art_type a) = Some f \<and> rel = f (art_name a))"

definition may_change :: "path \<Rightarrow> manifest \<Rightarrow> artifact list \<Rightarrow> path \<Rightarrow> bool" where
  "may_change b m artifacts q \<longleftrightarrow>
     (\<exists>rel \<in> set (mf_files m). validManagedFilePath rel \<and> q = b @ split_on slash rel) \<or>
     q = b @ [manifestName] \<or> temp_of (b @ [manifestName]) q \<or>
     (\<exists>rel. served_path artifacts rel \<and> temp_of (b @ split_on slash rel) q)"

lemma desired_valid:
  "build_desired artifacts [] empty_result = (res0, Inr desired) \<Longrightarrow>
   (\<forall>rel \<in> fst ` set desired. validManagedFilePath rel) \<and> distinct (map fst desired) \<and> rr_applied res0 = []"
  using build_desired_valid [of artifacts "[]" empty_result res0 desired] by (simp add: empty_result_def)

lemma build_desired_from:
  assumes "build_desired as desired res = (res', Inr desired')"
    "map_of desired' rel = Some want"
  shows "map_of desired rel = Some want \<or>
    (\<exists>a \<in> set as. \<exists>f. map_of fileBackedTypes (art_type a) = Some f \<and> rel = f (art_name a) \<and>
       want = \<lparr>df_content = art_content a, df_id = art_id a, df_revision = art_revision a\<rparr>)"
  using assms
proof (induction as desired res rule: build_desired.induct)
  case (2 a as desired res)
  show ?case
  proof (cases "map_of fileBackedTypes (art_type a)")
    case None
    with 2 show ?thesis by (auto split: if_splits)
  next
    case (Some f)
    show ?thesis
    proof (cases "artifactNameRe (art_name a)")
      case False
      with Some 2 show ?thesis by (simp add: Let_def)
    next
      case True
      then have "map_of (AList.update (f (art_name a)) \<lparr>df_content = art_content a, df_id = art_id a,
          df_revision = art_revision a\<rparr> desired) rel = Some want \<or>
        (\<exists>x \<in> set as. \<exists>g. map_of fileBackedTypes (art_type x) = Some g \<and> rel = g (art_name x) \<and>
          want = \<lparr>df_content = art_content x, df_id = art_id x, df_revision = art_revision x\<rparr>)"
        using 2(2) [OF Some refl] Some 2(3,4) by (simp add: Let_def)
      then show ?thesis
      proof
        assume m: "map_of (AList.update (f (art_name a)) \<lparr>df_content = art_content a, df_id = art_id a,
          df_revision = art_revision a\<rparr> desired) rel = Some want"
        show ?thesis
        proof (cases "rel = f (art_name a)")
          case True
          with m Some show ?thesis by (auto simp: update_conv)
        next
          case False
          with m show ?thesis by (simp add: update_conv')
        qed
      qed auto
    qed
  qed
qed auto

lemma desired_served:
  assumes "build_desired artifacts [] empty_result = (res0, Inr desired)" "rel \<in> fst ` set desired"
  shows "served_path artifacts rel"
proof -
  from assms(2) obtain want where "map_of desired rel = Some want" by (metis map_of_eq_None_iff not_None_eq)
  from build_desired_from [OF assms(1) this] show ?thesis by (auto simp: served_path_def)
qed

text \<open>
  C11. A hand-authored file wins, in a file system without symbolic links in which no question after
  the existence of a file is refused (the code takes a refused one for absence): whatever the server
  serves, whatever the ledger claims and however the run ends, a regular file whose content changes
  or that disappears is a managed path the ledger named at the start, the ledger itself, or a
  \<^verbatim>\<open>.tmp-\<close> file left over beside the ledger or beside the path of a served artifact. In particular
  an unledgered file at a desired path keeps its content. (With links both halves of the premise
  matter: \<open>Reconcile_replaces_unmanaged_link\<close> and \<open>Reconcile_follows_inner_link\<close> below.)
\<close>

theorem Reconcile_keeps_unmanaged:
  assumes "\<not> active w" "good_tree w" "plain_env env" "\<And>q. \<not> refuses env OpStat q"
    and "list_all plain_comp b" "b \<noteq> []"
    and "loadManifest env w (abs_path b) = Inr m"
    and "Reconcile env (abs_path b) artifacts w = (e, res, w')"
    and "look w q = Some (File c p)" "look w' q \<noteq> look w q"
  shows "may_change b m artifacts q"
proof -
  note keep = files_kept_def
  have "files_kept w w' (may_change b m artifacts)"
  proof (cases rule: Reconcile_cases [OF assms(1-3,5,6,8)])
    case 1
    show ?thesis using 1(1) by (rule files_kept_mono) simp
  next
    case (2 m' root w1)
    with assms(7) have m: "m' = m" by simp
    have "files_kept w1 w' (may_change b m artifacts)"
    proof (cases rule: reconcile_body_cases [OF 2(4) [unfolded m]])
      case (1 r)
      then show ?thesis by simp
    next
      case (2 res0 desired e1 res1 m1)
      show ?thesis
        by (rule files_kept_mono [OF write_loop_good(2) [OF \<open>in_run env root b w1\<close> _ 2(2) assms(4)]])
          (use desired_valid [OF 2(1)] desired_served [OF 2(1)] in \<open>auto simp: may_change_def\<close>)
    next
      case (3 res0 desired res1 m1 w2 e2 m2)
      have vd: "\<And>rel. rel \<in> fst ` set desired \<Longrightarrow> validManagedFilePath rel" using desired_valid [OF 3(1)] by blast
      note W = write_loop_good [OF \<open>in_run env root b w1\<close> vd 3(2)]
      note R = remove_loop_good [OF W(1) 3(3)]
      show ?thesis by (rule files_kept_trans [OF W(2) [OF _ assms(4)] R(3)]) (use vd desired_served [OF 3(1)] in \<open>auto simp: may_change_def\<close>)
    next
      case (4 res0 desired res1 m1 w2 res2 m2 w3 s)
      have vd: "\<And>rel. rel \<in> fst ` set desired \<Longrightarrow> validManagedFilePath rel" using desired_valid [OF 4(1)] by blast
      note W = write_loop_good [OF \<open>in_run env root b w1\<close> vd 4(2)]
      note R = remove_loop_good [OF W(1) 4(3)]
      have r: "good_tree w3" "\<not> active w3" using R(1) by (auto simp: in_run_def)
      note S = saveManifest_good [OF r assms(3,5,6) 4(4)]
      have "files_kept w1 w3 (may_change b m artifacts)"
        by (rule files_kept_trans [OF W(2) [OF _ assms(4)] R(3)]) (use vd desired_served [OF 4(1)] in \<open>auto simp: may_change_def\<close>)
      then show ?thesis by (rule files_kept_trans [OF _ S(2)]) (auto simp: may_change_def)
    qed
    with 2(3) show ?thesis by (rule files_kept_trans) auto
  qed
  with assms(9,10) show ?thesis unfolding keep by blast
qed

subsection \<open>What is reported as applied\<close>

lemma removed_apart:
  assumes "rel \<in> fst ` set desired"
  shows "\<not> (\<exists>r \<in> set fs. r \<notin> set (map fst desired) \<and> validManagedFilePath r \<and> b @ rel_comps rel = b @ rel_comps r)"
proof
  assume "\<exists>r \<in> set fs. r \<notin> set (map fst desired) \<and> validManagedFilePath r \<and> b @ rel_comps rel = b @ rel_comps r"
  then obtain r where "r \<notin> set (map fst desired)" "rel_comps rel = rel_comps r" by auto
  with assms rel_comps_inj [of rel r] show False by auto
qed

lemma build_desired_applied:
  "build_desired as desired res = (res', x) \<Longrightarrow> rr_applied res' = rr_applied res"
  by (induction as desired res rule: build_desired.induct)
    (auto simp: Let_def split: option.splits if_splits)

definition holds_applied :: "path \<Rightarrow> (string \<times> desired_file) list \<Rightarrow> world \<Rightarrow> applied_artifact \<Rightarrow> bool" where
  "holds_applied b desired w ap \<longleftrightarrow>
     (\<exists>rel want p. map_of desired rel = Some want \<and>
        ap = \<lparr>ap_id = df_id want, ap_revision = df_revision want\<rparr> \<and>
        look w (b @ rel_comps rel) = Some (File (df_content want) p))"

lemma holds_applied_kept:
  assumes "holds_applied b desired w ap" "files_kept w w' Q"
    "\<And>rel. rel \<in> fst ` set desired \<Longrightarrow> \<not> Q (b @ rel_comps rel)"
  shows "holds_applied b desired w' ap"
proof -
  from assms(1) obtain rel want p where h: "map_of desired rel = Some want"
    "ap = \<lparr>ap_id = df_id want, ap_revision = df_revision want\<rparr>"
    "look w (b @ rel_comps rel) = Some (File (df_content want) p)"
    unfolding holds_applied_def by blast
  have "\<not> Q (b @ rel_comps rel)" using assms(3) [of rel] map_of_SomeD [OF h(1)] by force
  with assms(2) h(3) have "look w' (b @ rel_comps rel) = look w (b @ rel_comps rel)"
    unfolding files_kept_def by blast
  with h show ?thesis unfolding holds_applied_def by auto
qed

lemma write_one_applied:
  assumes run: "in_run env root b w"
    and v: "\<And>rel. rel \<in> fst ` set desired \<Longrightarrow> validManagedFilePath rel"
    and d: "map_of desired rel = Some want"
    and o: "write_one env root (abs_path (b @ rel_comps rel)) S rel want res managed w = (res', managed', w')"
    and h: "\<And>ap. ap \<in> set (rr_applied res) \<Longrightarrow> holds_applied b desired w ap"
    and ap: "ap \<in> set (rr_applied res')"
  shows "holds_applied b desired w' ap"
proof -
  have vr: "validManagedFilePath rel" using v [of rel] map_of_SomeD [OF d] by force
  note W = write_one_good [OF run vr o]
  have old: "holds_applied b desired w' x" if "x \<in> set (rr_applied res)" for x
  proof -
    from h [OF that] obtain r2 want2 p where r2: "map_of desired r2 = Some want2"
      "x = \<lparr>ap_id = df_id want2, ap_revision = df_revision want2\<rparr>"
      "look w (b @ rel_comps r2) = Some (File (df_content want2) p)"
      unfolding holds_applied_def by blast
    have "\<exists>p. look w' (b @ rel_comps r2) = Some (File (df_content want2) p)"
    proof (cases "r2 = rel")
      case True
      with d r2 W show ?thesis by auto
    next
      case False
      have v2: "validManagedFilePath r2" using v [of r2] map_of_SomeD [OF r2(1)] by force
      have "look w' (b @ rel_comps r2) = look w (b @ rel_comps r2)"
        using W r2(3) managed_no_temp [OF vr v2] False rel_comps_inj unfolding files_kept_def
        by (metis same_append_eq)
      with r2(3) show ?thesis by auto
    qed
    with r2 show ?thesis unfolding holds_applied_def by blast
  qed
  show ?thesis
  proof (cases "ap \<in> set (rr_applied res)")
    case False
    with W ap have "ap = \<lparr>ap_id = df_id want, ap_revision = df_revision want\<rparr>"
      "\<exists>p. look w' (b @ rel_comps rel) = Some (File (df_content want) p)"
      by (auto simp: appendApplied_def split: if_splits)
    with d show ?thesis unfolding holds_applied_def by blast
  qed (rule old)
qed

lemma write_loop_applied:
  assumes run: "in_run env root b w"
    and v: "\<And>rel. rel \<in> fst ` set desired \<Longrightarrow> validManagedFilePath rel"
    and l: "write_loop env root (abs_path b) S desired rels res managed w = (e, res', managed', w')"
    and n: "rr_applied res = []" and ap: "ap \<in> set (rr_applied res')"
  shows "holds_applied b desired w' ap"
proof -
  have b: "list_all plain_comp b" "b \<noteq> []" using run by (auto simp: in_run_def root_on_def)
  let ?P = "\<lambda>(r :: reconcile_result) (_ :: string list) v. in_run env root b v \<and> (\<forall>ap \<in> set (rr_applied r). holds_applied b desired v ap)"
  have "?P res' managed' w'"
  proof (rule write_loop_inv [OF l, where P = ?P])
    fix rel want full r managed v'
    assume a: "map_of desired rel = Some want" "resolveContained (abs_path b) rel = Inr full" "?P r managed v'"
    have vr: "validManagedFilePath rel" using v [of rel] map_of_SomeD [OF a(1)] by force
    obtain r1 m u where o: "write_one env root full S rel want r managed v' = (r1, m, u)" by (metis prod_cases3)
    have "full = abs_path (b @ rel_comps rel)" using a(2) resolve_managed [OF b vr] by simp
    with o have o': "write_one env root (abs_path (b @ rel_comps rel)) S rel want r managed v' = (r1, m, u)" by simp
    from a(3) have "in_run env root b v'" by simp
    from write_one_good [OF this vr o'] write_one_applied [OF this v a(1) o'] a(3) o
    show "case write_one env root full S rel want r managed v' of (r, m, v) \<Rightarrow> ?P r m v" by auto
  qed (use run n in simp)
  with ap show ?thesis by blast
qed

text \<open>
  C12. The applied record is true, in a file system without symbolic links: every artifact a run
  reports as applied is one of those the server served, of a type rendered to disk, at the served
  revision, and when the run is over the file of that artifact holds exactly the served content,
  even if operations were refused, other files failed to write, the removal loop ran or the ledger
  was rewritten. (A link from one managed directory to another makes the record false:
  \<open>Reconcile_follows_inner_link\<close> below.)
\<close>

theorem Reconcile_applied_on_disk:
  assumes "\<not> active w" "good_tree w" "plain_env env"
    and "list_all plain_comp b" "b \<noteq> []"
    and "Reconcile env (abs_path b) artifacts w = (e, res, w')"
    and "ap \<in> set (rr_applied res)"
  shows "\<exists>a \<in> set artifacts. \<exists>f p. map_of fileBackedTypes (art_type a) = Some f \<and>
    ap = \<lparr>ap_id = art_id a, ap_revision = art_revision a\<rparr> \<and>
    look w' (b @ split_on slash (f (art_name a))) = Some (File (art_content a) p)"
proof (cases rule: Reconcile_cases [OF assms(1-3,4,5,6)])
  case 1
  with assms(7) show ?thesis by simp
next
  case (2 m root w1)
  have goal: ?thesis if "build_desired artifacts [] empty_result = (res0, Inr desired)" "holds_applied b desired w' ap"
    for res0 desired
  proof -
    from that(2) obtain rel want p where h: "map_of desired rel = Some want"
      "ap = \<lparr>ap_id = df_id want, ap_revision = df_revision want\<rparr>"
      "look w' (b @ rel_comps rel) = Some (File (df_content want) p)"
      unfolding holds_applied_def by blast
    from build_desired_from [OF that(1) h(1)] h(2,3) show ?thesis by force
  qed
  show ?thesis
  proof (cases rule: reconcile_body_cases [OF 2(4)])
    case (1 r)
    then have "rr_applied res = []"
      using build_desired_applied [OF 1(1)] by (simp add: empty_result_def)
    with assms(7) show ?thesis by simp
  next
    case (2 res0 desired e1 res1 m1)
    then show ?thesis
      using goal [OF 2(1)] write_loop_applied [OF \<open>in_run env root b w1\<close> _ 2(2)] desired_valid [OF 2(1)] assms(7)
      by blast
  next
    case (3 res0 desired res1 m1 w2 e2 m2)
    have vd: "\<And>rel. rel \<in> fst ` set desired \<Longrightarrow> validManagedFilePath rel" using desired_valid [OF 3(1)] by blast
    note W = write_loop_good [OF \<open>in_run env root b w1\<close> vd 3(2)]
    note R = remove_loop_good [OF W(1) 3(3)]
    have "ap \<in> set (rr_applied res1)" using assms(7) R(2) by simp
    then have "holds_applied b desired w2 ap"
      using write_loop_applied [OF \<open>in_run env root b w1\<close> vd 3(2)] desired_valid [OF 3(1)] by blast
    then have "holds_applied b desired w' ap"
      by (rule holds_applied_kept [OF _ R(3) removed_apart])
    then show ?thesis by (rule goal [OF 3(1)])
  next
    case (4 res0 desired res1 m1 w2 res2 m2 w3 s)
    have vd: "\<And>rel. rel \<in> fst ` set desired \<Longrightarrow> validManagedFilePath rel" using desired_valid [OF 4(1)] by blast
    note W = write_loop_good [OF \<open>in_run env root b w1\<close> vd 4(2)]
    note R = remove_loop_good [OF W(1) 4(3)]
    have r: "good_tree w3" "\<not> active w3" using R(1) by (auto simp: in_run_def)
    note S = saveManifest_good [OF r assms(3,4,5) 4(4)]
    have "ap \<in> set (rr_applied res1)" using assms(7) R(2) 4(5) by simp
    then have "holds_applied b desired w2 ap"
      using write_loop_applied [OF \<open>in_run env root b w1\<close> vd 4(2)] desired_valid [OF 4(1)] by blast
    then have "holds_applied b desired w3 ap"
      by (rule holds_applied_kept [OF _ R(3) removed_apart])
    then have "holds_applied b desired w' ap"
      by (rule holds_applied_kept [OF _ S(2)]) (use vd manifest_no_temp in blast)
    then show ?thesis by (rule goal [OF 4(1)])
  qed
qed

subsection \<open>Witnesses\<close>

definition sample_skill :: artifact where
  "sample_skill = \<lparr>art_id = ''1'', art_revision = 3, art_type = ''skill'', art_name = ''x'',
     art_content = ''new'', art_memory_scope = [], art_memory_seed = [], art_target_tags = [],
     art_rule_scope = [], art_oldest_servable = 0, art_latest = 3, art_pin_override = []\<rparr>"

lemma sample_root: "abs_path [''h''] = ''/h''" "list_all plain_comp [''h'']"
  by (simp_all add: abs_path_def plain_comp_def)

lemma sample_loads: "loadManifest sample_env (sample_tree (File ''mine'' 420)) ''/h'' = Inr empty_manifest"
  by code_simp

theorem Reconcile_dry_run_witness:
  "\<exists>e res w'. Reconcile sample_env ''/h'' [sample_skill] ((sample_tree (File ''mine'' 420))\<lparr>plan := Some []\<rparr>) = (e, res, w') \<and>
     nodes w' = nodes (sample_tree (File ''mine'' 420))"
proof -
  let ?w = "(sample_tree (File ''mine'' 420))\<lparr>plan := Some []\<rparr>"
  obtain e res w' where r: "Reconcile sample_env ''/h'' [sample_skill] ?w = (e, res, w')"
    by (metis prod_cases3)
  have "active ?w" by (simp add: active_def)
  from Reconcile_dry_run [OF this r] r show ?thesis by simp
qed

theorem Reconcile_keeps_unmanaged_witness:
  "\<exists>e res w'. Reconcile sample_env ''/h'' [sample_skill] (sample_tree (File ''mine'' 420)) = (e, res, w') \<and>
     look w' [''h'', ''skills'', ''x'', ''SKILL.md''] = Some (File ''mine'' 420)"
proof -
  let ?w = "sample_tree (File ''mine'' 420)" and ?q = "[''h'', ''skills'', ''x'', ''SKILL.md'']"
  obtain e res w' where r: "Reconcile sample_env ''/h'' [sample_skill] ?w = (e, res, w')"
    by (metis prod_cases3)
  have f: "look ?w ?q = Some (File ''mine'' 420)" by (simp add: look_def sample_tree_def)
  have "\<not> may_change [''h''] empty_manifest [sample_skill] ?q"
  proof
    assume "may_change [''h''] empty_manifest [sample_skill] ?q"
    then obtain k where "temp_of k ?q" by (auto simp: may_change_def empty_manifest_def)
    then have "has_prefix (last k @ ''.tmp-'') ''SKILL.md''" by (auto simp: temp_of_def)
    then obtain r where r: "''SKILL.md'' = last k @ ''.tmp-'' @ r" by (auto simp: has_prefix_iff prefix_def)
    have "CHR ''-'' \<in> set (last k @ ''.tmp-'' @ r)" by simp
    then show False unfolding r [symmetric] by simp
  qed
  then have "look w' ?q = look ?w ?q"
    using Reconcile_keeps_unmanaged [OF sample_inactive sample_good sample_env_ok(1) sample_env_ok(2)
        sample_root(2) _ _ _ f, of empty_manifest "[sample_skill]" e res w'] r sample_loads
    unfolding sample_root(1) by blast
  with r f show ?thesis by simp
qed

theorem Reconcile_applied_on_disk_witness:
  "\<exists>e res w'. Reconcile sample_env ''/h'' [sample_skill] (sample_tree (File ''old'' 420)\<lparr>nodes := []\<rparr>) = (e, res, w') \<and>
     rr_applied res = [\<lparr>ap_id = ''1'', ap_revision = 3\<rparr>] \<and>
     (\<exists>p. look w' [''h'', ''skills'', ''x'', ''SKILL.md''] = Some (File ''new'' p))"
proof -
  let ?w = "sample_tree (File ''old'' 420)\<lparr>nodes := []\<rparr>"
  have ev: "rr_applied (fst (snd (Reconcile sample_env ''/h'' [sample_skill] ?w))) = [\<lparr>ap_id = ''1'', ap_revision = 3\<rparr>]"
    unfolding sample_skill_def by code_simp
  obtain e res w' where r: "Reconcile sample_env ''/h'' [sample_skill] ?w = (e, res, w')" by (metis prod_cases3)
  have g: "good_tree ?w" by (rule good_treeI) simp
  have na: "\<not> active ?w" by (simp add: active_def sample_tree_def)
  have ap: "\<lparr>ap_id = ''1'', ap_revision = 3\<rparr> \<in> set (rr_applied res)" using ev r by simp
  from Reconcile_applied_on_disk [OF na g sample_env_ok(1) sample_root(2) _ _ ap, of "[sample_skill]" e w'] r
  obtain f p where fp: "map_of fileBackedTypes (art_type sample_skill) = Some f"
    "look w' ([''h''] @ split_on slash (f (art_name sample_skill))) = Some (File (art_content sample_skill) p)"
    unfolding sample_root(1) by auto
  then have "f = (\<lambda>n. ''skills/'' @ n @ ''/SKILL.md'')"
    by (simp add: sample_skill_def fileBackedTypes_def)
  with fp(2) have "look w' [''h'', ''skills'', ''x'', ''SKILL.md''] = Some (File ''new'' p)"
    by (simp add: sample_skill_def)
  with r ap ev show ?thesis by auto
qed

text \<open>
  The promise that a path the client does not manage is never modified does not cover a
  symbolic link: an unledgered link at a desired path whose target cannot be followed inside
  the sync root counts as absent, and the run replaces it by the served file and takes it over.
\<close>

theorem Reconcile_replaces_unmanaged_link:
  "look (sample_tree (Link ''/home/u/mine.md'')) [''h'', ''skills'', ''x'', ''SKILL.md''] = Some (Link ''/home/u/mine.md'') \<and>
   loadManifest sample_env (sample_tree (Link ''/home/u/mine.md'')) ''/h'' = Inr empty_manifest \<and>
   (case Reconcile sample_env ''/h'' [sample_skill] (sample_tree (Link ''/home/u/mine.md'')) of
      (e, res, w') \<Rightarrow> e = None \<and> rr_skipped res = [] \<and> rr_added res = 1 \<and>
        look w' [''h'', ''skills'', ''x'', ''SKILL.md''] = Some (File ''new'' 420))"
  unfolding sample_skill_def by code_simp

text \<open>
  Nor does it cover a link from one managed directory to another: a write through \<^verbatim>\<open>skills/b\<close>, which
  has become a link to \<^verbatim>\<open>skills/a\<close>, lands in the file of the other artifact. Both are reported as
  applied, and the file of the first holds the content of the second.
\<close>

definition linked_tree :: world where
  "linked_tree = \<lparr>nodes = [([''h''], Dir), ([''h'', manifestName], File [] 420), ([''h'', ''skills''], Dir),
     ([''h'', ''skills'', ''a''], Dir), ([''h'', ''skills'', ''a'', ''SKILL.md''], File ''old'' 420),
     ([''h'', ''skills'', ''b''], Link ''a'')], plan = None\<rparr>"

definition two_skills :: "artifact list" where
  "two_skills = [sample_skill\<lparr>art_id := ''1'', art_name := ''a'', art_content := ''for a''\<rparr>,
     sample_skill\<lparr>art_id := ''2'', art_name := ''b'', art_content := ''for b''\<rparr>]"

definition ledgered_env :: env where
  "ledgered_env = sample_env\<lparr>json_unmarshal := (\<lambda>_. Some (empty_manifest\<lparr>mf_files := [''skills/a/SKILL.md'', ''skills/b/SKILL.md'']\<rparr>))\<rparr>"

theorem Reconcile_follows_inner_link:
  "case Reconcile ledgered_env ''/h'' two_skills linked_tree of
     (e, res, w') \<Rightarrow> e = None \<and> map ap_id (rr_applied res) = [''1'', ''2''] \<and> rr_failures res = [] \<and>
       look w' [''h'', ''skills'', ''a'', ''SKILL.md''] = Some (File ''for b'' 420)"
  unfolding sample_skill_def two_skills_def by code_simp

end
