(* ===== verification/RulesSyncProofs.thy ===== *)
theory RulesSyncProofs
  imports RulesSync ReconcileProofs
begin

text \<open>
  The correctness of the rules pass: a dry run writes nothing, and no governed block is ever
  orphaned: a project leaves the ledger only when neither of its managed files holds a block.
\<close>

subsection \<open>Stripping leaves no block\<close>

lemma trim_nl_append: "trim_nl (u @ v) = (if trim_nl v = [] then trim_nl u else u @ trim_nl v)"
proof -
  have *: "dropWhile P (x @ y) = (if dropWhile P x = [] then dropWhile P y else dropWhile P x @ y)" for P and x y :: bytes
    by (simp add: dropWhile_append)
  show ?thesis unfolding trim_nl_def trim_right_def rev_append * by simp
qed

lemma normal_end_join:
  assumes "rules_free u" "rules_free v"
  shows "rulesBlockRe (normal_end (u @ v)) = None"
proof (cases "trim_nl v = []")
  case True
  have "rules_free (normal_end u)"
    using rules_free_trim [OF assms(1)] by (simp add: normal_end_def Let_def)
  with True show ?thesis
    by (simp add: normal_end_def Let_def trim_nl_append rulesBlockRe_none split: if_splits)
next
  case False
  have "rules_free (trim_nl v @ [nl])" using rules_free_trim [OF assms(2)] by simp
  then have "rulesBlockRe (u @ (trim_nl v @ [nl])) = None"
    using assms(1) by (auto simp: rules_defs marker_free_def contains_iff intro: find_block_join)
  with False show ?thesis by (simp add: normal_end_def Let_def trim_nl_append)
qed

lemma stripRules_gone:
  assumes "rulesMarkersHealthy s" "stripRules s = (out, n)"
  shows "rulesBlockRe out = None" "n = 0 \<Longrightarrow> out = s"
proof -
  have "rulesBlockRe out = None \<and> (n = 0 \<longrightarrow> out = s)"
  proof (cases "rulesBlockRe s")
    case None
    with assms(2) stripRules_free [OF None] show ?thesis by simp
  next
    case (Some x)
    then obtain pre h b post where f: "rulesBlockRe s = Some (pre, h, b, post)" by (cases x) auto
    from rules_healthy_block [OF assms(1) f] have free: "rules_free pre" "rules_free post" by auto
    with assms(2) stripRules_one [OF f] normal_end_join [OF free] show ?thesis by auto
  qed
  then show "rulesBlockRe out = None" "n = 0 \<Longrightarrow> out = s" by auto
qed

subsection \<open>Managed files\<close>

definition managed_name :: "string \<Rightarrow> bool" where
  "managed_name f \<longleftrightarrow> f = ''AGENTS.md'' \<or> f = ''CLAUDE.md''"

text \<open>No managed file gained a block.\<close>

definition no_new_blocks :: "world \<Rightarrow> world \<Rightarrow> bool" where
  "no_new_blocks w w' \<longleftrightarrow>
     (\<forall>q c p. look w' q = Some (File c p) \<and> managed_name (last q) \<and> rulesBlockRe c \<noteq> None \<longrightarrow>
        (\<exists>p0. look w q = Some (File c p0)))"

definition block_gone :: "path \<Rightarrow> world \<Rightarrow> bool" where
  "block_gone b w \<longleftrightarrow>
     (\<forall>f c p. managed_name f \<and> look w (b @ [f]) = Some (File c p) \<longrightarrow> rulesBlockRe c = None)"

lemma no_new_blocks_refl [simp]: "no_new_blocks w w"
  by (auto simp: no_new_blocks_def)

lemma no_new_blocks_trans: "no_new_blocks u v \<Longrightarrow> no_new_blocks v w \<Longrightarrow> no_new_blocks u w"
  unfolding no_new_blocks_def by metis

lemma block_gone_kept: "block_gone b w \<Longrightarrow> no_new_blocks w w' \<Longrightarrow> block_gone b w'"
  unfolding block_gone_def no_new_blocks_def by (metis last_snoc)

lemma managed_plain: "managed_name f \<Longrightarrow> plain_comp f"
  by (auto simp: managed_name_def plain_comp_def)

lemma managed_not_temp: "temp_of k q \<Longrightarrow> \<not> managed_name (last q)"
proof
  assume "temp_of k q" "managed_name (last q)"
  then obtain r where r: "last q = last k @ ''.tmp-'' @ r"
    by (auto simp: temp_of_def has_prefix_iff prefix_def)
  have "CHR ''-'' \<in> set (last q)" unfolding r by simp
  with \<open>managed_name (last q)\<close> show False by (auto simp: managed_name_def)
qed

definition run_ok :: "env \<Rightarrow> world \<Rightarrow> bool" where
  "run_ok env w \<longleftrightarrow> good_tree w \<and> \<not> active w \<and> plain_env env"

lemma write_no_new:
  assumes "run_ok env w" "root_on r b w" "plain_comp f"
    "r_writeAtomic env r (abs_path (b @ [f])) data perm w = (e, w')"
  shows "run_ok env w'" "root_on r b w'"
    "(e = None \<longrightarrow> managed_name f \<longrightarrow> rulesBlockRe data = None) \<Longrightarrow> no_new_blocks w w'"
    "look w' (b @ [f]) = (if e = None then Some (File data perm) else look w (b @ [f]))"
proof -
  have g: "good_tree w" "\<not> active w" "plain_env env" using assms(1) by (auto simp: run_ok_def)
  have c: "list_all plain_comp [f]" using assms(3) by simp
  note W = write_good [OF g(1,2) assms(2) c _ g(3) assms(4)]
  show "run_ok env w'" "root_on r b w'" using W(1-3) g(3) by (auto simp: run_ok_def)
  show l: "look w' (b @ [f]) = (if e = None then Some (File data perm) else look w (b @ [f]))" using W(5) by simp
  show "no_new_blocks w w'" if d: "e = None \<longrightarrow> managed_name f \<longrightarrow> rulesBlockRe data = None"
    unfolding no_new_blocks_def
  proof (intro allI impI)
    fix q c p assume a: "look w' q = Some (File c p) \<and> managed_name (last q) \<and> rulesBlockRe c \<noteq> None"
    show "\<exists>p0. look w q = Some (File c p0)"
    proof (cases "look w' q = look w q")
      case True
      with a show ?thesis by auto
    next
      case False
      with W(6) [of q] a managed_not_temp have q: "q = b @ [f]" by auto
      with l d a show ?thesis by (auto split: if_splits)
    qed
  qed
qed

lemma stripRulesFile_good:
  assumes "run_ok env w" "root_on r b w" "managed_name f"
    "stripRulesFile env r (abs_path (b @ [f])) w = (x, w')"
  shows "run_ok env w'" "root_on r b w'" "no_new_blocks w w'"
    "x = Inr (n, None) \<Longrightarrow> look w' (b @ [f]) = Some (File c p) \<Longrightarrow> rulesBlockRe c = None"
proof -
  let ?p = "abs_path (b @ [f])"
  have g: "good_tree w" using assms(1) by (simp add: run_ok_def)
  have c: "list_all plain_comp [f]" using managed_plain [OF assms(3)] by simp
  have "run_ok env w' \<and> root_on r b w' \<and> no_new_blocks w w' \<and>
    (\<forall>n c p. x = Inr (n, None) \<longrightarrow> look w' (b @ [f]) = Some (File c p) \<longrightarrow> rulesBlockRe c = None)"
  proof (cases "r_readFile env w r ?p")
    case (Inl e)
    have "e \<noteq> NotExist" if "look w (b @ [f]) = Some (File c p)" for c p
      using that Inl root_on_rel [OF assms(2) c] r_walk_found [OF g c] assms(2)
      by (auto simp: r_readFile_def root_on_def split: if_splits)
    with Inl assms show ?thesis by (cases e) (auto simp: stripRulesFile_def)
  next
    case (Inr data)
    from r_readFile_Inr [OF g assms(2) c _ Inr] obtain p0 where f: "look w (b @ [f]) = Some (File data p0)" by auto
    show ?thesis
    proof (cases "rulesMarkersHealthy data")
      case False
      with Inr assms show ?thesis by (auto simp: stripRulesFile_def)
    next
      case True
      obtain out n where st: "stripRules data = (out, n)" by fastforce
      note gone = stripRules_gone [OF True st]
      show ?thesis
      proof (cases "n = 0")
        case True
        with gone st Inr f \<open>rulesMarkersHealthy data\<close> assms show ?thesis by (auto simp: stripRulesFile_def)
      next
        case False
        obtain e v where wr: "r_writeAtomic env r ?p out (r_existingPerm env w r ?p 0x1A4) w = (e, v)" by fastforce
        have "w' = v" "x = (case e of None \<Rightarrow> Inr (n, None) | Some a \<Rightarrow> Inl a)"
          using assms(4) Inr True st False wr by (auto simp: stripRulesFile_def split: option.splits)
        with write_no_new [OF assms(1,2) managed_plain [OF assms(3)] wr] gone(1) show ?thesis
          by (cases e) auto
      qed
    qed
  qed
  then show "run_ok env w'" "root_on r b w'" "no_new_blocks w w'"
    "x = Inr (n, None) \<Longrightarrow> look w' (b @ [f]) = Some (File c p) \<Longrightarrow> rulesBlockRe c = None" by auto
qed

lemma resolve_file:
  assumes "list_all plain_comp b" "plain_comp f"
  shows "resolveContained (abs_path b) f =
    (if b = [] then Inl (Fatal ''reconcile: path escapes the sync root'') else Inr (abs_path (b @ [f])))"
proof (cases "b = []")
  case True
  have "Join [abs_path [], join_with slash [f]] = abs_path (pcomps (abs_path []) @ [f])"
    using assms(2) by (intro Join_plain) auto
  then have "Join [''/'', f] = slash # f"
    by (simp add: abs_path_def pcomps_def clean_comps_def)
  moreover have "f \<noteq> []" "hd f \<noteq> slash" using assms(2) by (cases f; auto simp: plain_comp_def)+
  ultimately show ?thesis
    using True by (cases f) (simp_all add: resolveContained_def Let_def abs_path_def Clean_def clean_comps_def has_prefix_def)
next
  case False
  then show ?thesis
    using resolveContained_plain [of "abs_path b" "[f]"] assms by (simp add: pcomps_abs_path)
qed

subsection \<open>Projects\<close>

lemma openRootedOptional_good:
  assumes "run_ok env w" "list_all plain_comp b" "b \<noteq> []" "openRootedOptional env w (abs_path b) = Inr (Some r)"
  shows "root_on r b w"
  using assms openRooted_good [of w b env r]
  by (auto simp: openRootedOptional_def run_ok_def split: sum.splits ioerr.splits)

lemma openRootedOptional_none:
  assumes "run_ok env w" "list_all plain_comp b" "b \<noteq> []" "openRootedOptional env w (abs_path b) = Inr None"
  shows "look w b = None"
proof (rule ccontr)
  assume n: "look w b \<noteq> None"
  have g: "good_tree w" using assms(1) by (simp add: run_ok_def)
  have "os_walk env w (abs_path b) = Inr b"
    using split_abs [OF assms(2,3)] walk_found [OF g assms(2,3), of "[]"] n
    by (simp add: os_walk_def walk.simps(2))
  with n assms(4) show False
    by (auto simp: openRootedOptional_def openRooted_def split: sum.splits ioerr.splits if_splits node.splits option.splits)
qed

lemma strip_files_good:
  assumes "run_ok env w" "root_on r b w" "\<And>f. f \<in> set files \<Longrightarrow> managed_name f"
    "strip_files env r (abs_path b) files n0 ws0 es0 w = ((n, ws, j), w')"
  shows "run_ok env w' \<and> no_new_blocks w w' \<and> (\<forall>es. j = Inr es \<longrightarrow> (\<exists>e1. es = es0 @ e1) \<and> (\<exists>w1. ws = ws0 @ w1)) \<and>
    (j = Inr [] \<and> ws = [] \<longrightarrow>
       (\<forall>f c p. f \<in> set files \<and> look w' (b @ [f]) = Some (File c p) \<longrightarrow> rulesBlockRe c = None))"
  using assms
proof (induction files arbitrary: n0 ws0 es0 w)
  case (Cons f files)
  have b: "list_all plain_comp b" "b \<noteq> []" using Cons.prems(2) by (auto simp: root_on_def)
  have mf: "managed_name f" using Cons.prems(3) by simp
  note rs = resolve_file [OF b(1) managed_plain [OF mf]]
  obtain x w1 where s: "stripRulesFile env r (abs_path (b @ [f])) w = (x, w1)" by fastforce
  note S = stripRulesFile_good [OF Cons.prems(1,2) mf s]
  define n1 where "n1 = (case x of Inl _ \<Rightarrow> n0 | Inr (m, _) \<Rightarrow> n0 + m)"
  define ws1 where "ws1 = (case x of Inl _ \<Rightarrow> ws0 | Inr (_, None) \<Rightarrow> ws0 | Inr (_, Some a) \<Rightarrow> ws0 @ [a])"
  define es1 where "es1 = (case x of Inl e \<Rightarrow> es0 @ [e] | Inr _ \<Rightarrow> es0)"
  have rest: "strip_files env r (abs_path b) files n1 ws1 es1 w1 = ((n, ws, j), w')"
    using Cons.prems(4) rs s b(2)
    by (auto simp: n1_def ws1_def es1_def split: sum.splits option.splits)
  have mfs: "\<And>f. f \<in> set files \<Longrightarrow> managed_name f" using Cons.prems(3) by simp
  note IH = Cons.IH [OF S(1,2) mfs rest]
  have ext: "\<exists>a. ws1 = ws0 @ a" "\<exists>a. es1 = es0 @ a"
    by (auto simp: ws1_def es1_def split: sum.splits option.splits)
  have fresh: "rulesBlockRe c = None"
    if j: "j = Inr [] \<and> ws = []" and l: "look w' (b @ [f]) = Some (File c p)" for c p
  proof -
    from IH j have "es1 = []" "ws1 = []" by auto
    then have "\<exists>m. x = Inr (m, None)" by (auto simp: ws1_def es1_def split: sum.splits option.splits)
    with S(4) have f1: "\<And>c p. look w1 (b @ [f]) = Some (File c p) \<Longrightarrow> rulesBlockRe c = None" by blast
    show ?thesis
    proof (rule ccontr)
      assume n: "rulesBlockRe c \<noteq> None"
      from IH have "no_new_blocks w1 w'" by blast
      moreover have "managed_name (last (b @ [f]))" using mf by simp
      ultimately obtain p0 where "look w1 (b @ [f]) = Some (File c p0)"
        using l n unfolding no_new_blocks_def by blast
      with f1 [of c p0] n show False by simp
    qed
  qed
  note i = IH [THEN conjunct1] IH [THEN conjunct2, THEN conjunct1]
    IH [THEN conjunct2, THEN conjunct2, THEN conjunct1] IH [THEN conjunct2, THEN conjunct2, THEN conjunct2]
  note nn = no_new_blocks_trans [OF S(3) i(2)]
  have exts: "(\<exists>e1. es = es0 @ e1) \<and> (\<exists>a. ws = ws0 @ a)" if "j = Inr es" for es
  proof -
    obtain a1 a2 where "ws1 = ws0 @ a1" "es1 = es0 @ a2" using ext by blast
    moreover obtain a3 a4 where "es = es1 @ a3" "ws = ws1 @ a4" using i(3) \<open>j = Inr es\<close> by blast
    ultimately show ?thesis by simp
  qed
  have fin: "\<forall>g c p. g \<in> set (f # files) \<and> look w' (b @ [g]) = Some (File c p) \<longrightarrow> rulesBlockRe c = None"
    if z: "j = Inr [] \<and> ws = []"
  proof (intro allI impI)
    fix g c p assume a: "g \<in> set (f # files) \<and> look w' (b @ [g]) = Some (File c p)"
    show "rulesBlockRe c = None"
    proof (cases "g = f")
      case True
      with a show ?thesis using fresh [OF z] by simp
    next
      case False
      with a show ?thesis using i(4) z by auto
    qed
  qed
  show ?case using i(1) nn exts fin by blast
qed auto

lemma stripRulesFromProject_good:
  assumes "run_ok env w" "list_all plain_comp b" "stripRulesFromProject env (abs_path b) w = ((n, ws, j), w')"
  shows "run_ok env w'" "no_new_blocks w w'" "j = Inr [] \<Longrightarrow> ws = [] \<Longrightarrow> block_gone b w'"
proof -
  have "run_ok env w' \<and> no_new_blocks w w' \<and> (j = Inr [] \<and> ws = [] \<longrightarrow> block_gone b w')"
  proof (cases "openRootedOptional env w (abs_path b)")
    case (Inl e)
    with assms show ?thesis by (auto simp: stripRulesFromProject_def)
  next
    case (Inr o')
    show ?thesis
    proof (cases "b = []")
      case True
      have "resolveContained (abs_path b) ''AGENTS.md'' = Inl (Fatal ''reconcile: path escapes the sync root'')"
        using resolve_file [OF assms(2), of "''AGENTS.md''"] True managed_plain [of "''AGENTS.md''"]
        by (simp add: managed_name_def)
      moreover have "o' \<noteq> None"
        using True Inr by (auto simp: openRootedOptional_def openRooted_def os_walk_def abs_path_def walk.simps look_def
            split: sum.splits ioerr.splits if_splits)
      ultimately show ?thesis
        using assms Inr by (auto simp: stripRulesFromProject_def rulesManagedFiles_def)
    next
      case False
      show ?thesis
      proof (cases o')
        case None
        with Inr have "look w b = None" using openRootedOptional_none [OF assms(1,2) False] by simp
        then have "look w (b @ [f]) = None" for f
          using assms(1) unfolding run_ok_def good_tree_def shaped_def by fastforce
        with None Inr assms show ?thesis by (auto simp: stripRulesFromProject_def block_gone_def)
      next
        case (Some r)
        with Inr have ro: "root_on r b w" using openRootedOptional_good [OF assms(1,2) False] by simp
        have "strip_files env r (abs_path b) rulesManagedFiles 0 [] [] w = ((n, ws, j), w')"
          using assms(3) Inr Some by (simp add: stripRulesFromProject_def)
        from strip_files_good [OF assms(1) ro _ this]
        show ?thesis by (auto simp: rulesManagedFiles_def managed_name_def block_gone_def)
      qed
    qed
  qed
  then show "run_ok env w'" "no_new_blocks w w'" "j = Inr [] \<Longrightarrow> ws = [] \<Longrightarrow> block_gone b w'" by auto
qed

text \<open>The strip pass: an entry stays in the ledger, is malformed, or its blocks are gone.\<close>

lemma projects_strip_good:
  assumes "run_ok env w" "projects_strip env trusted ps st w = (None, st', w')"
    "rs_desired st \<union> rs_failed st \<subseteq> set (rs_ledger st)"
  shows "run_ok env w' \<and> no_new_blocks w w' \<and> set (rs_ledger st) \<subseteq> set (rs_ledger st') \<and>
    (\<forall>p \<in> set ps. Clean p \<in> set (rs_ledger st') \<or> \<not> validRulesPath p \<or> block_gone (pcomps p) w')"
  using assms
proof (induction ps arbitrary: st w)
  case (Cons p ps)
  let ?c = "Clean p"
  have dup: "rs_desired s \<union> rs_failed s \<subseteq> set (rs_ledger s)"
    if "rs_desired s = rs_desired st" "rs_failed s = rs_failed st" "set (rs_ledger st) \<subseteq> set (rs_ledger s)" for s
    using that Cons.prems(3) by auto
  have easy: ?case if nx: "projects_strip env trusted ps s v = (None, st', w')" and
    s: "rs_desired s = rs_desired st" "rs_failed s = rs_failed st" "set (rs_ledger st) \<subseteq> set (rs_ledger s)" and
    v: "run_ok env v" "no_new_blocks w v" and
    ok: "?c \<in> set (rs_ledger s) \<or> \<not> validRulesPath p \<or> block_gone (pcomps p) v" for s v
  proof -
    note IH = Cons.IH [OF v(1) nx dup [OF s]]
    with ok have "?c \<in> set (rs_ledger st') \<or> \<not> validRulesPath p \<or> block_gone (pcomps p) w'"
      using block_gone_kept by blast
    with IH s(3) v(2) show ?thesis by (auto intro: no_new_blocks_trans)
  qed
  consider (kept) "?c \<in> rs_desired st \<or> ?c \<in> rs_failed st"
    | (bad) "\<not> (?c \<in> rs_desired st \<or> ?c \<in> rs_failed st)" "\<not> validRulesPath p"
    | (other) "\<not> (?c \<in> rs_desired st \<or> ?c \<in> rs_failed st)" "validRulesPath p" "?c \<notin> trusted \<or> \<not> is_dir (os_Stat env w p)"
    | (strip) "\<not> (?c \<in> rs_desired st \<or> ?c \<in> rs_failed st)" "validRulesPath p" "?c \<in> trusted" "is_dir (os_Stat env w p)"
    by blast
  then show ?case
  proof cases
    case kept
    with Cons.prems(2,3) show ?thesis by (intro easy [of st w]) (use Cons.prems(1) in auto)
  next
    case bad
    have nx: "projects_strip env trusted ps
        (st\<lparr>rs_res := (rs_res st)\<lparr>ru_warnings := ru_warnings (rs_res st) @ [Malformed_entry p]\<rparr>\<rparr>) w = (None, st', w')"
      using bad Cons.prems(2) by (simp add: Let_def)
    show ?thesis by (rule easy [OF nx]) (use bad Cons.prems(1) in auto)
  next
    case other
    then obtain n where nx: "projects_strip env trusted ps
        (st\<lparr>rs_res := (rs_res st)\<lparr>ru_warnings := ru_warnings (rs_res st) @ n\<rparr>, rs_ledger := rs_ledger st @ [?c]\<rparr>) w
        = (None, st', w')"
      using Cons.prems(2) by (auto simp: Let_def split: if_splits)
    show ?thesis by (rule easy [OF nx]) (use Cons.prems(1) in auto)
  next
    case strip
    then have p: "p = abs_path (pcomps p)" by (metis Clean_abs validRulesPath_def)
    obtain n ws j w1 where s: "stripRulesFromProject env p w = ((n, ws, j), w1)" by (metis prod.collapse)
    note S = stripRulesFromProject_good [OF Cons.prems(1) pcomps_plain, of p n ws j w1]
    have S': "run_ok env w1" "no_new_blocks w w1" "j = Inr [] \<Longrightarrow> ws = [] \<Longrightarrow> block_gone (pcomps p) w1"
      using S s p by auto
    show ?thesis
    proof (cases j)
      case (Inl err)
      with strip s Cons.prems(2) show ?thesis by (simp add: Let_def)
    next
      case (Inr es)
      show ?thesis
      proof (cases "es = [] \<and> ws = []")
        case True
        then obtain r where nx: "projects_strip env trusted ps (st\<lparr>rs_res := r\<rparr>) w1 = (None, st', w')"
          using strip s Inr Cons.prems(2) by (auto simp: Let_def)
        show ?thesis by (rule easy [OF nx]) (use S' Inr True in auto)
      next
        case False
        then obtain r where nx: "projects_strip env trusted ps (st\<lparr>rs_res := r, rs_ledger := rs_ledger st @ [?c]\<rparr>) w1
          = (None, st', w')"
          using strip s Inr Cons.prems(2) by (cases es) (auto simp: Let_def)
        show ?thesis by (rule easy [OF nx]) (use S' in auto)
      qed
    qed
  qed
qed simp

subsection \<open>The write passes keep the tree well formed\<close>

lemma mergeRulesFile_good:
  assumes "run_ok env w" "root_on r b w" "plain_comp f" "mergeRulesFile env r (abs_path (b @ [f])) body w = (x, w')"
  shows "run_ok env w'" "root_on r b w'"
proof -
  let ?p = "abs_path (b @ [f])"
  have "run_ok env w' \<and> root_on r b w'"
  proof (cases "w' = w")
    case True
    with assms(1,2) show ?thesis by simp
  next
    case False
    then obtain merged e where wr: "r_writeAtomic env r ?p merged (r_existingPerm env w r ?p 0x1A4) w = (e, w')"
      using assms(4) by (auto simp: mergeRulesFile_def split: sum.splits ioerr.splits if_splits prod.splits option.splits)
    from write_no_new(1,2) [OF assms(1-3) wr] show ?thesis by simp
  qed
  then show "run_ok env w'" "root_on r b w'" by auto
qed

lemma write_files_good:
  "run_ok env w \<Longrightarrow> root_on r b w \<Longrightarrow> (\<And>f body. (f, body) \<in> set specs \<Longrightarrow> plain_comp f) \<Longrightarrow>
   write_files env r (abs_path b) specs c ns es w = (out, w') \<Longrightarrow> run_ok env w'"
proof (induction specs arbitrary: c ns es w)
  case (Cons s specs)
  obtain f body where s: "s = (f, body)" by fastforce
  have b: "list_all plain_comp b" "b \<noteq> []" using Cons.prems(2) by (auto simp: root_on_def)
  have pf: "plain_comp f" using Cons.prems(3) s by auto
  obtain x w1 where m: "mergeRulesFile env r (abs_path (b @ [f])) body w = (x, w1)" by fastforce
  note M = mergeRulesFile_good [OF Cons.prems(1,2) pf m]
  have "\<exists>c1 n1 e1. write_files env r (abs_path b) specs c1 n1 e1 w1 = (out, w')"
    using Cons.prems(4) s resolve_file [OF b(1) pf] b(2) m by (auto split: sum.splits)
  then obtain c1 n1 e1 where "write_files env r (abs_path b) specs c1 n1 e1 w1 = (out, w')" by blast
  from Cons.IH [OF M _ this] Cons.prems(3) show ?case by auto
qed auto

lemma writeRulesToProject_good:
  assumes "run_ok env w" "list_all plain_comp b" "writeRulesToProject env (abs_path b) body w = (out, w')"
  shows "run_ok env w'"
proof (cases "openRootedOptional env w (abs_path b)")
  case (Inl e)
  with assms show ?thesis by (auto simp: writeRulesToProject_def)
next
  case (Inr o')
  have mp: "plain_comp ''AGENTS.md''" "plain_comp ''CLAUDE.md''" by (simp_all add: plain_comp_def)
  show ?thesis
  proof (cases "o' = None \<or> b = []")
    case True
    with Inr assms resolve_file [OF assms(2) mp(1)] show ?thesis
      by (auto simp: writeRulesToProject_def split: option.splits)
  next
    case False
    then obtain r where r: "o' = Some r" "b \<noteq> []" by auto
    with Inr have ro: "root_on r b w" using openRootedOptional_good [OF assms(1,2)] by simp
    have "write_files env r (abs_path b) [(''AGENTS.md'', body), (''CLAUDE.md'', rulesClaudeImport)] False no_notes [] w = (out, w')"
      using assms(3) Inr r by (simp add: writeRulesToProject_def)
    then show ?thesis by (rule write_files_good [OF assms(1) ro, rotated]) (use mp in auto)
  qed
qed

lemma projects_write_good:
  assumes "run_ok env w" "\<And>pj. pj \<in> set pjs \<Longrightarrow> \<exists>b. list_all plain_comp b \<and> pj_path pj = abs_path b"
    "projects_write env rules pjs st w = (None, st', w')" "rs_desired st \<union> rs_failed st \<subseteq> set (rs_ledger st)"
  shows "run_ok env w' \<and> rs_desired st' \<union> rs_failed st' \<subseteq> set (rs_ledger st')"
  using assms
proof (induction pjs arbitrary: st w)
  case (Cons pj pjs)
  show ?case
  proof (cases "rulesFor rules (pj_tags pj) = []")
    case True
    with Cons show ?thesis by (simp add: Let_def)
  next
    case False
    obtain b where b: "list_all plain_comp b" "pj_path pj = abs_path b" using Cons.prems(2) [of pj] by auto
    obtain c n j w1 where wr: "writeRulesToProject env (pj_path pj) (renderRulesBody (rulesFor rules (pj_tags pj))) w = ((c, n, j), w1)"
      by (metis prod.collapse)
    have r1: "run_ok env w1" using writeRulesToProject_good [OF Cons.prems(1) b(1)] wr b(2) by simp
    have sub: "\<exists>b. list_all plain_comp b \<and> pj_path q = abs_path b" if "q \<in> set pjs" for q
      using Cons.prems(2) that by simp
    have "\<exists>st1. projects_write env rules pjs st1 w1 = (None, st', w') \<and> rs_desired st1 \<union> rs_failed st1 \<subseteq> set (rs_ledger st1)"
    proof (cases j)
      case (Inl err)
      with Cons.prems(3) False wr show ?thesis by (simp add: Let_def)
    next
      case (Inr es)
      with Cons.prems(3,4) False wr show ?thesis
        by (cases es) (simp_all add: Let_def, (intro exI conjI, assumption, auto)+)
    qed
    then obtain st1 where s1: "projects_write env rules pjs st1 w1 = (None, st', w')"
      "rs_desired st1 \<union> rs_failed st1 \<subseteq> set (rs_ledger st1)" by blast
    show ?thesis by (rule Cons.IH [OF r1 sub s1]) auto
  qed
qed simp

definition global_ok :: "globalTarget \<Rightarrow> bool" where
  "global_ok g \<longleftrightarrow> (\<exists>b. list_all plain_comp b \<and> b \<noteq> [] \<and> gt_dir g = abs_path b \<and> managed_name (gt_file g))"

lemma gt_path_ok:
  assumes "list_all plain_comp b" "gt_dir g = abs_path b" "managed_name (gt_file g)"
  shows "gt_path g = abs_path (b @ [gt_file g])"
  using Join_plain [of "abs_path b" "[gt_file g]"] managed_plain [OF assms(3)] assms
  by (simp add: gt_path_def pcomps_abs_path)

lemma writeGlobalRules_good:
  assumes "run_ok env w" "global_ok g" "writeGlobalRules env g body w = (out, w')"
  shows "run_ok env w'"
proof -
  from assms(2) obtain b where b: "list_all plain_comp b" "b \<noteq> []" "gt_dir g = abs_path b" "managed_name (gt_file g)"
    by (auto simp: global_ok_def)
  show ?thesis
  proof (cases "openRootedOptional env w (abs_path b)")
    case (Inl e)
    with assms b show ?thesis by (auto simp: writeGlobalRules_def)
  next
    case (Inr o')
    show ?thesis
    proof (cases o')
      case None
      with Inr assms b show ?thesis by (auto simp: writeGlobalRules_def)
    next
      case (Some r)
      with Inr have ro: "root_on r b w" using openRootedOptional_good [OF assms(1) b(1,2)] by simp
      obtain x w1 where m: "mergeRulesFile env r (abs_path (b @ [gt_file g])) body w = (x, w1)" by fastforce
      have "w' = w1"
        using assms(3) Inr Some b m resolve_file [OF b(1) managed_plain [OF b(4)]]
        by (auto simp: writeGlobalRules_def split: sum.splits)
      with mergeRulesFile_good(1) [OF assms(1) ro managed_plain [OF b(4)] m] show ?thesis by simp
    qed
  qed
qed

lemma globals_write_good:
  "run_ok env w \<Longrightarrow> (\<And>g. g \<in> set gs \<Longrightarrow> global_ok g) \<Longrightarrow>
   globals_write env body gs res desired ledger landed w = (e, res', d', l', la', w') \<Longrightarrow> run_ok env w'"
proof (induction gs arbitrary: res desired ledger landed w)
  case (Cons g gs)
  obtain c n j w1 where wr: "writeGlobalRules env g body w = ((c, n, j), w1)" by (metis prod.collapse)
  have r1: "run_ok env w1" using writeGlobalRules_good [OF Cons.prems(1) _ wr] Cons.prems(2) by simp
  show ?case
  proof (cases j)
    case (Inl err)
    with Cons.prems(3) wr r1 show ?thesis by (simp add: Let_def)
  next
    case (Inr es)
    then obtain r2 d2 l2 la2 where "globals_write env body gs r2 d2 l2 la2 w1 = (e, res', d', l', la', w')"
      using Cons.prems(3) wr by (cases es) (auto simp: Let_def)
    then show ?thesis by (rule Cons.IH [OF r1, rotated]) (use Cons.prems(2) in auto)
  qed
qed simp

lemma stripGlobalRules_good:
  assumes "run_ok env w" "global_ok g" "stripGlobalRules env (gt_path g) w = (x, w')"
  shows "run_ok env w'"
proof -
  from assms(2) obtain b where b: "list_all plain_comp b" "b \<noteq> []" "gt_dir g = abs_path b" "managed_name (gt_file g)"
    by (auto simp: global_ok_def)
  have p: "gt_path g = abs_path (b @ [gt_file g])" using b by (intro gt_path_ok)
  have d: "Dirname (gt_path g) = abs_path b"
    using Dirname_abs [of "b @ [gt_file g]"] managed_plain [OF b(4)] b(1) p by simp
  show ?thesis
  proof (cases "openRootedOptional env w (abs_path b)")
    case (Inl e)
    with assms d show ?thesis by (auto simp: stripGlobalRules_def)
  next
    case (Inr o')
    show ?thesis
    proof (cases o')
      case None
      with Inr assms d show ?thesis by (auto simp: stripGlobalRules_def)
    next
      case (Some r)
      with Inr have ro: "root_on r b w" using openRootedOptional_good [OF assms(1) b(1,2)] by simp
      have "stripRulesFile env r (abs_path (b @ [gt_file g])) w = (x, w')"
        using assms(3) Inr Some d p by (simp add: stripGlobalRules_def)
      from stripRulesFile_good(1) [OF assms(1) ro b(4) this] show ?thesis .
    qed
  qed
qed

lemma globals_strip_good:
  "run_ok env w \<Longrightarrow> (\<And>g. g \<in> set (allGlobalRuleTargets env claudeDir) \<Longrightarrow> global_ok g) \<Longrightarrow>
   globals_strip env claudeDir desired ps res ledger w = (res', l', w') \<Longrightarrow> run_ok env w'"
proof (induction ps arbitrary: res ledger w)
  case (Cons p ps)
  consider (skip) r2 l2 where "globals_strip env claudeDir desired ps r2 l2 w = (res', l', w')"
    | (act) "isTrustedGlobalRulesPath env claudeDir p" "\<exists>x w1 r2 l2. stripGlobalRules env p w = (x, w1) \<and>
        globals_strip env claudeDir desired ps r2 l2 w1 = (res', l', w')"
    using Cons.prems(3) by (fastforce split: if_splits prod.splits sum.splits option.splits)
  then show ?case
  proof cases
    case skip
    show ?thesis by (rule Cons.IH [OF Cons.prems(1) _ skip]) (rule Cons.prems(2))
  next
    case act
    then obtain x w1 r2 l2 where a: "stripGlobalRules env p w = (x, w1)"
      "globals_strip env claudeDir desired ps r2 l2 w1 = (res', l', w')" by blast
    obtain g where g: "g \<in> set (allGlobalRuleTargets env claudeDir)" "p = gt_path g"
      using act(1) by (auto simp: isTrustedGlobalRulesPath_def list_ex_iff)
    have "run_ok env w1" using stripGlobalRules_good [OF Cons.prems(1) Cons.prems(2) [OF g(1)]] a(1) g(2) by simp
    then show ?thesis by (rule Cons.IH [OF _ _ a(2)]) (rule Cons.prems(2))
  qed
qed simp

subsection \<open>Properties\<close>

lemma keep_not_live_ok:
  "rs_desired st \<union> rs_failed st \<subseteq> set (rs_ledger st) \<Longrightarrow>
   rs_desired (keep_not_live dead ps st) \<union> rs_failed (keep_not_live dead ps st) \<subseteq> set (rs_ledger (keep_not_live dead ps st))"
proof (induction ps arbitrary: st)
  case (Cons p ps)
  show ?case unfolding keep_not_live.simps(2) Let_def by (rule Cons.IH) (use Cons.prems in auto)
qed simp

lemma dedupe_set: "set (dedupe seen ps) = set ps - seen"
  by (induction seen ps rule: dedupe.induct) auto

definition valid_home :: "env \<Rightarrow> bool" where
  "valid_home env \<longleftrightarrow> (\<forall>h. home_dir env = Some h \<longrightarrow> IsAbs h)"

lemma all_targets_ok:
  assumes "valid_home env" "list_all plain_comp cb" "cb \<noteq> []"
  shows "g \<in> set (allGlobalRuleTargets env (abs_path cb)) \<Longrightarrow> global_ok g"
    "g \<in> set (globalRuleTargets env w (abs_path cb)) \<Longrightarrow> global_ok g"
proof -
  have c: "global_ok \<lparr>gt_dir = abs_path cb, gt_file = ''CLAUDE.md''\<rparr>"
    using assms by (auto simp: global_ok_def managed_name_def)
  have h: "global_ok \<lparr>gt_dir = Join [home, ''.codex''], gt_file = ''AGENTS.md''\<rparr>" if "home_dir env = Some home" for home
  proof -
    have "IsAbs home" using assms(1) that by (simp add: valid_home_def)
    then have "Join [home, ''.codex''] = abs_path (pcomps home @ [''.codex''])"
      using Join_plain [of home "[''.codex'']"] by (simp add: plain_comp_def)
    moreover have "list_all plain_comp (pcomps home @ [''.codex''])"
      using pcomps_plain [of home] by (simp add: plain_comp_def)
    ultimately show ?thesis unfolding global_ok_def managed_name_def
      by (intro exI [of _ "pcomps home @ [''.codex'']"]) simp
  qed
  show "g \<in> set (allGlobalRuleTargets env (abs_path cb)) \<Longrightarrow> global_ok g"
    using c h assms(2) by (auto simp: allGlobalRuleTargets_def Clean_abs_path split: option.splits)
  show "g \<in> set (globalRuleTargets env w (abs_path cb)) \<Longrightarrow> global_ok g"
    using c h by (auto simp: globalRuleTargets_def Let_def split: option.splits if_splits)
qed

lemma reconcileGlobalRules_good:
  assumes "run_ok env w" "valid_home env" "list_all plain_comp cb" "cb \<noteq> []"
    "reconcileGlobalRules env (abs_path cb) globals m res w = (e, m', res', w')"
  shows "run_ok env w'" "mf_rules m' = mf_rules m"
proof -
  note T = all_targets_ok [OF assms(2-4)]
  obtain e1 r1 d1 l1 la1 w1 where gw: "(if globals \<noteq> [] then
       globals_write env (renderRulesBody globals) (globalRuleTargets env w (abs_path cb)) res {} [] False w
     else (None, res, {}, [], False, w)) = (e1, r1, d1, l1, la1, w1)" by (metis prod_cases6)
  have w1: "run_ok env w1"
    using gw assms(1) globals_write_good [OF assms(1), of "globalRuleTargets env w (abs_path cb)"] T(2)
    by (fastforce split: if_splits)
  have "run_ok env w' \<and> mf_rules m' = mf_rules m"
  proof (cases e1)
    case (Some x)
    with gw assms(5) w1 show ?thesis by (auto simp: reconcileGlobalRules_def)
  next
    case None
    define r2 where "r2 = (if la1 then r1\<lparr>ru_applied := append_all_applied (ru_applied r1) globals\<rparr> else r1)"
    obtain r3 l3 w3 where gs: "globals_strip env (abs_path cb) d1 (mf_globals m) r2 l1 w1 = (r3, l3, w3)" by (metis prod_cases3)
    have "run_ok env w3" by (rule globals_strip_good [OF w1 _ gs]) (rule T(1))
    moreover have "w' = w3" "m' = m\<lparr>mf_globals := l3\<rparr>"
      using assms(5) gw None gs by (auto simp: reconcileGlobalRules_def Let_def r2_def split: if_splits)
    ultimately show ?thesis by simp
  qed
  then show "run_ok env w'" "mf_rules m' = mf_rules m" by auto
qed

text \<open>
  C13. No governed block is orphaned: when the rules pass of a run ends without a fatal error,
  every project root the old ledger named is still in the new ledger, is an entry of a shape
  this client never writes, or holds no ORBEAT-RULES block any more in either of its two managed
  files. This holds whatever the operating system refused, whatever the markers looked like, and
  for projects that were unreachable or no longer registered.
\<close>

theorem rules_never_orphaned:
  assumes "good_tree w" "\<not> active w" "plain_env env" "valid_home env"
    and "list_all plain_comp cb" "cb \<noteq> []"
    and "\<And>pj. pj \<in> set projects \<Longrightarrow> IsAbs (pj_path pj) \<and> pj_path pj = Clean (pj_path pj)"
    and "rules_pass env (abs_path cb) projects artifacts m w = (None, res, m', w')"
    and "p \<in> set (mf_rules m)"
  shows "Clean p \<in> set (mf_rules m') \<or> \<not> validRulesPath p \<or> block_gone (pcomps p) w'"
proof -
  have run: "run_ok env w" using assms(1-3) by (simp add: run_ok_def)
  obtain collected where c: "collect_rules artifacts = Inr collected"
    using assms(8) by (cases "collect_rules artifacts") (auto simp: rules_pass_def)
  define rules where "rules = filter (\<lambda>r. art_rule_scope r \<noteq> ''global'') (sort_key art_name collected)"
  define globals where "globals = filter (\<lambda>r. art_rule_scope r = ''global'') (sort_key art_name collected)"
  define dead where "dead = filter (\<lambda>pj. \<not> is_live env w pj) projects"
  define st0 where "st0 = keep_not_live (set (map (\<lambda>pj. Clean (pj_path pj)) dead)) (mf_rules m)
    \<lparr>rs_res = empty_rules_result\<lparr>ru_warnings := map (\<lambda>pj. Project_missing (pj_path pj)) dead\<rparr>,
     rs_desired = {}, rs_failed = {}, rs_ledger = [], rs_landed = {}\<rparr>"
  have st0: "rs_desired st0 \<union> rs_failed st0 \<subseteq> set (rs_ledger st0)"
    unfolding st0_def by (rule keep_not_live_ok) simp
  obtain e1 st1 w1 where pw: "(if rules \<noteq> [] then projects_write env rules (filter (is_live env w) projects) st0 w
      else (None, st0, w)) = (e1, st1, w1)" by (metis prod_cases3)
  define res1 where "res1 = (rs_res st1)\<lparr>ru_applied := landed_applied (rs_landed st1) rules (ru_applied (rs_res st1))\<rparr>"
  obtain e2 m1 res2 w2 where gr: "reconcileGlobalRules env (abs_path cb) globals m res1 w1 = (e2, m1, res2, w2)"
    by (metis prod_cases4)
  obtain e3 st2 w3 where ps: "projects_strip env (set (map (\<lambda>pj. Clean (pj_path pj)) projects)) (mf_rules m1)
      (st1\<lparr>rs_res := res2\<rparr>) w2 = (e3, st2, w3)" by (metis prod_cases3)
  have all: "e1 = None" "e2 = None" "e3 = None" "m' = m1\<lparr>mf_rules := sort (dedupe {} (rs_ledger st2))\<rparr>" "w' = w3"
    using assms(8) c pw gr ps
    unfolding rules_pass_def rules_def globals_def dead_def st0_def res1_def
    by (auto simp: Let_def split: option.splits if_splits)
  have pa: "\<exists>b. list_all plain_comp b \<and> pj_path pj = abs_path b" if "pj \<in> set (filter (is_live env w) projects)" for pj
    using that assms(7) [of pj] pcomps_plain [of "pj_path pj"] Clean_abs [of "pj_path pj"] by auto
  have w1: "run_ok env w1 \<and> rs_desired st1 \<union> rs_failed st1 \<subseteq> set (rs_ledger st1)"
  proof (cases "rules = []")
    case True
    with pw run st0 show ?thesis by simp
  next
    case False
    with pw all(1) have "projects_write env rules (filter (is_live env w) projects) st0 w = (None, st1, w1)" by simp
    from projects_write_good [OF run pa this st0] show ?thesis by blast
  qed
  have w2: "run_ok env w2" "mf_rules m1 = mf_rules m"
    using reconcileGlobalRules_good [OF _ assms(4-6) gr] w1 by auto
  have l: "rs_desired (st1\<lparr>rs_res := res2\<rparr>) \<union> rs_failed (st1\<lparr>rs_res := res2\<rparr>) \<subseteq> set (rs_ledger (st1\<lparr>rs_res := res2\<rparr>))"
    using w1 by simp
  have "\<forall>p\<in>set (mf_rules m1). Clean p \<in> set (rs_ledger st2) \<or> \<not> validRulesPath p \<or> block_gone (pcomps p) w3"
    using projects_strip_good [OF w2(1) ps [unfolded all(3)] l] by blast
  then have "Clean p \<in> set (rs_ledger st2) \<or> \<not> validRulesPath p \<or> block_gone (pcomps p) w3"
    using w2(2) assms(9) by auto
  then show ?thesis using all(4,5) by (simp add: dedupe_set)
qed

definition sample_block_tree :: world where
  "sample_block_tree = \<lparr>nodes = [([''h''], Dir), ([''h'', ''AGENTS.md''],
     File (''mine'' @ [nl, nl] @ ''<!-- ORBEAT-RULES:BEGIN sha=00112233aabb managed -->'' @ [nl] @ ''body'' @ [nl] @
       ''<!-- ORBEAT-RULES:END -->'' @ [nl]) 420)], plan = None\<rparr>"

definition sample_rules_manifest :: manifest where
  "sample_rules_manifest = empty_manifest\<lparr>mf_rules := [''/h'']\<rparr>"

theorem rules_never_orphaned_witness:
  "\<exists>res m' w'. rules_pass sample_env ''/c'' [\<lparr>pj_path = ''/h'', pj_tags = []\<rparr>] [] sample_rules_manifest sample_block_tree
       = (None, res, m', w') \<and>
     ru_stripped res = 1 \<and> mf_rules m' = [] \<and> block_gone [''h''] w'"
proof -
  let ?pj = "\<lparr>pj_path = ''/h'', pj_tags = []\<rparr>"
  let ?run = "rules_pass sample_env ''/c'' [?pj] [] sample_rules_manifest sample_block_tree"
  have ev: "fst ?run = None \<and> ru_stripped (fst (snd ?run)) = 1 \<and> mf_rules (fst (snd (snd ?run))) = []"
    by code_simp
  then obtain res m' w' where r: "?run = (None, res, m', w')" by (metis prod.collapse)
  have g: "good_tree sample_block_tree"
    by (rule good_treeI) (auto simp: sample_block_tree_def plain_comp_def look_def)
  have c: "''/c'' = abs_path [''c'']" "Clean ''/h'' = ''/h''" "pcomps ''/h'' = [''h'']" "IsAbs ''/h''"
    "validRulesPath ''/h''" "valid_home sample_env" "list_all plain_comp [''c'']" "\<not> active sample_block_tree"
    by (simp_all add: valid_home_def sample_env_def) code_simp+
  have "Clean ''/h'' \<in> set (mf_rules m') \<or> \<not> validRulesPath ''/h'' \<or> block_gone (pcomps ''/h'') w'"
    by (rule rules_never_orphaned [OF g c(8) sample_env_ok(1) c(6) c(7) _ _ r [unfolded c(1)]])
      (auto simp: c(2,4) sample_rules_manifest_def empty_manifest_def)
  with ev r c show ?thesis by simp
qed

end
