(* ===== verification/SeedSyncProofs.thy ===== *)
theory SeedSyncProofs
  imports SeedSync RulesSyncProofs
begin

text \<open>
  The safety of the seed pass: a dry run writes nothing, and a run changes only memory files
  beneath the roots it was handed, the ledger, and their temporaries, whatever the ledger says.
\<close>

subsection \<open>The shape of seed paths\<close>

lemma last_sep: "IsAbs p \<Longrightarrow> \<exists>u l. p = u @ slash # l \<and> slash \<notin> set l"
  using split_list_last [of slash p] by (cases p) auto

lemma pcomps_sep: "slash \<notin> set l \<Longrightarrow> pcomps (u @ slash # l) = rev (clean_step True l (rev (pcomps u)))"
  by (simp add: pcomps_append split_on_none)

lemma Dirname_sep: "IsAbs (u @ [slash]) \<Longrightarrow> slash \<notin> set l \<Longrightarrow> Dirname (u @ slash # l) = abs_path (pcomps u)"
proof -
  assume a: "IsAbs (u @ [slash])" "slash \<notin> set l"
  then have "dropWhile (\<lambda>c. c \<noteq> slash) (rev l @ (slash # rev u)) = dropWhile (\<lambda>c. c \<noteq> slash) (slash # rev u)"
    by (intro dropWhile_append2) auto
  then have "Dirname (u @ slash # l) = Clean (u @ [slash])" by (simp add: Dirname_def)
  then show ?thesis using Clean_abs [OF a(1)] pcomps_sep [of "[]" u] by simp
qed

lemma Base_sep: "l \<noteq> [] \<Longrightarrow> slash \<notin> set l \<Longrightarrow> Base (u @ slash # l) = l"
proof -
  assume a: "l \<noteq> []" "slash \<notin> set l"
  then have "last l \<noteq> slash" "l = butlast l @ [last l]" by (metis last_in_set, simp)
  then have "trim_right {slash} (u @ slash # l) = u @ slash # l"
    using trim_right_snoc [of "{slash}" "u @ slash # butlast l" "last l"] by simp
  then show ?thesis using a by (simp add: Base_def Let_def split_on_append split_on_none)
qed

lemma Base_abs: "list_all plain_comp cs \<Longrightarrow> cs \<noteq> [] \<Longrightarrow> Base (abs_path cs) = last cs"
  using Base_sep [of "last cs" "if butlast cs = [] then [] else abs_path (butlast cs)"]
    abs_path_snoc [of "butlast cs" "last cs"] plain_last [of cs]
  by (auto simp: plain_comp_def)

lemma pcomps_slashes: "pcomps (t @ replicate n slash) = pcomps t"
proof (induction n arbitrary: t)
  case (Suc n)
  have "pcomps ((t @ [slash]) @ replicate n slash) = pcomps t"
    using Suc [of "t @ [slash]"] pcomps_sep [of "[]" t] by simp
  then show ?case by simp
qed simp

lemma Base_split:
  assumes "IsAbs p" "Base p = f" "plain_comp f"
  shows "pcomps p \<noteq> []" "last (pcomps p) = f" "Dirname p \<in> {abs_path (pcomps p), abs_path (butlast (pcomps p))}"
proof -
  obtain w where w: "p = trim_right {slash} p @ w" "set w \<subseteq> {slash}" using trim_right_eq [of p "{slash}"] by blast
  define t where "t = trim_right {slash} p"
  have wn: "w = replicate (length w) slash" using w(2) by (metis replicate_eqI singletonD subset_iff)
  have f: "f \<noteq> []" "slash \<notin> set f" "f \<noteq> [slash]" using assms(3) by (auto simp: plain_comp_def)
  have pn: "p \<noteq> []" using assms(1) by auto
  have tn: "t \<noteq> []" using assms(2) pn f by (auto simp: Base_def Let_def t_def split: if_splits)
  have b: "last (split_on slash t) = f" using assms(2) pn tn by (simp add: Base_def Let_def t_def)
  have "p = t @ w" using w(1) by (simp add: t_def)
  with assms(1) tn have "IsAbs t" by (cases t) auto
  then obtain u l where ul: "t = u @ slash # l" "slash \<notin> set l" using last_sep by blast
  with b have l: "l = f" by (simp add: split_on_append split_on_none)
  have ua: "IsAbs (u @ [slash])" using \<open>IsAbs t\<close> ul by (cases u) auto
  have pc: "pcomps p = pcomps u @ [f]"
    using pcomps_slashes [of t "length w"] wn w(1) pcomps_sep [OF ul(2), of u] ul(1) l assms(3)
    by (simp add: t_def plain_comp_def)
  then show "pcomps p \<noteq> []" "last (pcomps p) = f" by simp_all
  show "Dirname p \<in> {abs_path (pcomps p), abs_path (butlast (pcomps p))}"
  proof (cases "w = []")
    case True
    with w(1) ul l pc Dirname_sep [OF ua f(2)] show ?thesis by (simp add: t_def)
  next
    case False
    then obtain n where n: "length w = Suc n" by (cases w) auto
    then have p: "p = (t @ replicate n slash) @ slash # []"
      using w(1) wn by (metis append_assoc replicate_Suc replicate_append_same t_def)
    moreover have "IsAbs ((t @ replicate n slash) @ [slash])" using p assms(1) by simp
    ultimately have "Dirname p = abs_path (pcomps (t @ replicate n slash))"
      using Dirname_sep [of "t @ replicate n slash" "[]"] by simp
    also have "\<dots> = abs_path (pcomps p)"
      using pcomps_slashes [of t n] pcomps_sep [of "[]" "t @ replicate n slash"] p by simp
    finally show ?thesis by simp
  qed
qed

definition memory_comps :: "path \<Rightarrow> bool" where
  "memory_comps q \<longleftrightarrow> (\<exists>d n. artifactNameRe n \<and> q = d @ [''agent-memory'', n, ''MEMORY.md''])"

lemma validSeedPath_comps:
  assumes "validSeedPath p"
  shows "IsAbs p" "memory_comps (pcomps p)"
proof -
  show a: "IsAbs p" using assms by (simp add: validSeedPath_def split: if_splits)
  define d where "d = Dirname p"
  have v: "Base p = ''MEMORY.md''" "artifactNameRe (Base d)" "Base (Dirname d) = ''agent-memory''"
    using assms by (auto simp: validSeedPath_def Let_def d_def split: if_splits)
  have mp: "plain_comp ''MEMORY.md''" "plain_comp ''agent-memory''" by (simp_all add: plain_comp_def)
  note B = Base_split [OF a v(1) mp(1)]
  have nm: "\<not> artifactNameRe ''MEMORY.md''" by (simp add: is_slug_char_def is_lower_alnum_def)
  define c where "c = butlast (pcomps p)"
  have pc: "pcomps p = c @ [''MEMORY.md'']" "list_all plain_comp c"
    using B(1,2) pcomps_plain [of p] plain_butlast by (auto simp: c_def) (metis append_butlast_last_id)
  have d: "d = abs_path c"
    using B(3) v(2) nm Base_abs [OF pcomps_plain B(1)] B(2) by (auto simp: c_def d_def)
  have cn: "c \<noteq> []"
    using v(2) d by (auto simp: abs_path_def Base_def trim_right_def is_lower_alnum_def)
  have s: "artifactNameRe (last c)" using v(2) Base_abs [OF pc(2) cn] d by simp
  have dd: "Dirname d = abs_path (butlast c)" using Dirname_abs [OF pc(2) cn] d by simp
  have bn: "butlast c \<noteq> []"
    using v(3) dd by (auto simp: abs_path_def Base_def trim_right_def)
  have "last (butlast c) = ''agent-memory''"
    using v(3) dd Base_abs [OF plain_butlast [OF pc(2)] bn] by simp
  with s cn bn pc(1) show "memory_comps (pcomps p)"
    unfolding memory_comps_def
    by (intro exI [of _ "butlast (butlast c)"] exI [of _ "last c"])
      (metis append.assoc append_Cons append_Nil append_butlast_last_id)
qed

subsection \<open>Reads and writes of memory files\<close>

lemma rooted_rel_clean: "IsAbs d \<Longrightarrow> IsAbs p \<Longrightarrow> rooted_rel d p = rooted_rel d (abs_path (pcomps p))"
  by (simp add: rooted_rel_def Rel_abs pcomps_abs_path pcomps_plain)

definition roots_ok :: "path set \<Rightarrow> bool" where
  "roots_ok roots \<longleftrightarrow>
     (\<forall>b \<in> roots. list_all plain_comp b \<and> b \<noteq> [] \<and> \<not> has_prefix ''MEMORY.md.tmp-'' (last b))"

definition memory_under :: "path set \<Rightarrow> path \<Rightarrow> bool" where
  "memory_under roots q \<longleftrightarrow> memory_comps q \<and> (\<exists>b \<in> roots. strict_prefix b q)"

definition seed_change :: "path set \<Rightarrow> path \<Rightarrow> bool" where
  "seed_change roots q \<longleftrightarrow> memory_under roots q \<or> (\<exists>k. memory_under roots k \<and> temp_of k q)"

definition cache_run :: "path set \<Rightarrow> env \<Rightarrow> world \<Rightarrow> rootCache \<Rightarrow> bool" where
  "cache_run roots env w rc \<longleftrightarrow> run_ok env w \<and>
     (\<forall>(k, r) \<in> set (rc_roots rc). \<exists>b \<in> roots. k = abs_path b \<and> root_on r b w)"

lemma rc_get_good:
  assumes "cache_run roots env w rc" "roots_ok roots" "b \<in> roots" "rc_get env w rc (abs_path b) = (x, rc')"
  shows "cache_run roots env w rc'" "x = Inr (Some r) \<Longrightarrow> root_on r b w"
proof -
  have b: "list_all plain_comp b" "b \<noteq> []" "Clean (abs_path b) = abs_path b"
    using assms(2,3) by (auto simp: roots_ok_def Clean_abs_path)
  have run: "run_ok env w" using assms(1) by (simp add: cache_run_def)
  have hit: "root_on r b w" if "map_of (rc_roots rc) (abs_path b) = Some r" for r
  proof -
    from that have "(abs_path b, r) \<in> set (rc_roots rc)" by (rule map_of_SomeD)
    with assms(1) obtain b' where "b' \<in> roots" "abs_path b = abs_path b'" "root_on r b' w"
      unfolding cache_run_def by blast
    with assms(2) b(1) show ?thesis using abs_path_inj unfolding roots_ok_def by metis
  qed
  have opened: "root_on r b w" if "openRootedOptional env w (abs_path b) = Inr (Some r)" for r
    by (rule openRootedOptional_good [OF run b(1,2) that])
  have "cache_run roots env w rc' \<and> (\<forall>r. x = Inr (Some r) \<longrightarrow> root_on r b w)"
    using assms(1,3,4) hit opened
    by (auto simp: rc_get_def Let_def b(3) cache_run_def split: option.splits if_splits sum.splits)
  then show "cache_run roots env w rc'" "x = Inr (Some r) \<Longrightarrow> root_on r b w" by auto
qed

lemma memory_no_dir:
  assumes "run_ok env w" "root_on r b w" "IsAbs p" "r_readFile env w r p = Inr data \<or> r_readFile env w r p = Inl NotExist"
  shows "look w (pcomps p) \<noteq> Some Dir"
proof
  assume d: "look w (pcomps p) = Some Dir"
  have g: "good_tree w" using assms(1) by (simp add: run_ok_def)
  have r: "rt_root r = Some b" "rt_dir r = abs_path b" "list_all plain_comp b" "b \<noteq> []" using assms(2) by (auto simp: root_on_def)
  then have e: "pcomps (rt_dir r) = b" "IsAbs (rt_dir r)" by (simp_all add: pcomps_abs_path)
  from assms(4) have "rooted_rel (rt_dir r) p \<noteq> None" by (auto simp: r_readFile_def split: option.splits)
  then have "prefix b (pcomps p)" using rooted_rel_iff [OF e(2) assms(3)] e(1) by simp
  then obtain cs where cs: "pcomps p = b @ cs" by (auto simp: prefix_def)
  show False
  proof (cases "cs = []")
    case True
    then have "Rel (rt_dir r) p = Some ''.''" using Rel_abs [OF e(2) assms(3)] cs e(1) by simp
    then have "rooted_rel (rt_dir r) p = Some ''.''" by (simp add: rooted_rel_def has_prefix_def)
    moreover have "r_walk env w b ''.'' = Inr b" by (simp add: r_walk_def walk_dot)
    ultimately show False using assms(4) r d cs True by (auto simp: r_readFile_def)
  next
    case False
    have pc: "list_all plain_comp cs" using pcomps_plain [of p] cs by simp
    have "rooted_rel (rt_dir r) p = Some (join_with slash cs)"
      using root_on_rel [OF assms(2) pc False] rooted_rel_clean [OF e(2) assms(3)] cs by simp
    moreover have "r_walk env w b (join_with slash cs) = Inr (b @ cs)"
      using r_walk_found [OF g pc False] d cs by simp
    ultimately show False using assms(4) r d cs by (auto simp: r_readFile_def)
  qed
qed

lemma memory_write:
  assumes "cache_run roots env w rc" "roots_ok roots" "b \<in> roots" "root_on r b w"
    and "IsAbs p" "memory_comps (pcomps p)" "look w (pcomps p) \<noteq> Some Dir"
    and "r_writeAtomic env r p data perm w = (e, w')"
  shows "cache_run roots env w' rc" "files_kept w w' (seed_change roots)"
proof -
  have run: "good_tree w" "\<not> active w" "plain_env env" using assms(1) by (auto simp: cache_run_def run_ok_def)
  have r: "rt_dir r = abs_path b" "list_all plain_comp b" "look w b = Some Dir" using assms(4) by (auto simp: root_on_def)
  then have d: "pcomps (rt_dir r) = b" "IsAbs (rt_dir r)" by (simp_all add: pcomps_abs_path)
  have "cache_run roots env w' rc \<and> files_kept w w' (seed_change roots)"
  proof (cases "rooted_rel (rt_dir r) p")
    case None
    with assms(1,8) show ?thesis by (auto simp: r_writeAtomic_def)
  next
    case (Some rel)
    with rooted_rel_iff [OF d(2) assms(5)] d(1) obtain cs where cs: "pcomps p = b @ cs" by (auto simp: prefix_def)
    have ne: "cs \<noteq> []" using assms(7) cs r(3) by auto
    have pc: "list_all plain_comp cs" using pcomps_plain [of p] cs by simp
    have "rooted_rel (rt_dir r) (abs_path (b @ cs)) = Some rel"
      using rooted_rel_clean [OF d(2) assms(5)] cs Some by simp
    then have "r_writeAtomic env r (abs_path (b @ cs)) data perm w = (e, w')"
      using assms(8) Some run(2) by (simp add: r_writeAtomic_def)
    note W = write_good [OF run(1,2) assms(4) pc ne run(3) this]
    have mem: "memory_under roots (b @ cs)"
      using assms(3,6) cs ne unfolding memory_under_def by (auto simp: strict_prefix_def intro!: bexI [of _ b])
    have last: "last (b @ cs) = ''MEMORY.md''" using assms(6) cs unfolding memory_comps_def by (metis last_append last.simps list.distinct(1))
    have keep: "root_on r2 b2 w'" if "b2 \<in> roots" "root_on r2 b2 w" for r2 b2
    proof -
      have l: "look w b2 = Some Dir" using that(2) by (simp add: root_on_def)
      have "b2 \<noteq> b @ cs" using l assms(7) cs by auto
      moreover have "\<not> temp_of (b @ cs) b2"
        using that(1) assms(2) last unfolding temp_of_def roots_ok_def by auto
      ultimately have "look w' b2 = Some Dir" using W(6) [of b2] l by (cases "look w' b2 = look w b2") auto
      with that(2) show ?thesis by (simp add: root_on_def)
    qed
    have "\<forall>(k, r) \<in> set (rc_roots rc). \<exists>b \<in> roots. k = abs_path b \<and> root_on r b w'"
      using assms(1) keep unfolding cache_run_def by fast
    then have "cache_run roots env w' rc"
      using W(1,2) run(3) by (simp add: cache_run_def run_ok_def)
    moreover have "files_kept w w' (seed_change roots)"
      by (rule files_kept_mono [OF W(4)]) (use mem in \<open>auto simp: seed_change_def\<close>)
    ultimately show ?thesis by simp
  qed
  then show "cache_run roots env w' rc" "files_kept w w' (seed_change roots)" by auto
qed

subsection \<open>The passes\<close>

definition target_ok :: "path set \<Rightarrow> seedTarget \<Rightarrow> bool" where
  "target_ok roots tg \<longleftrightarrow>
     (\<exists>b \<in> roots. st_boundary tg = abs_path b) \<and> IsAbs (st_path tg) \<and> memory_comps (pcomps (st_path tg))"

lemma seed_marks [simp]:
  "ss_cache (seed_fail p n st) = ss_cache st" "ss_cache (seed_warn ns st) = ss_cache st"
  by (simp_all add: seed_fail_def seed_warn_def)

lemma write_seed_good:
  assumes "cache_run roots env w (ss_cache st)" "roots_ok roots" "target_ok roots tg"
    "write_seed env tg st w = (st', w')"
  shows "cache_run roots env w' (ss_cache st') \<and> files_kept w w' (seed_change roots)"
proof -
  obtain b where b: "b \<in> roots" "st_boundary tg = abs_path b" and p: "IsAbs (st_path tg)" "memory_comps (pcomps (st_path tg))"
    using assms(3) by (auto simp: target_ok_def)
  obtain x rc where g: "rc_get env w (ss_cache st) (abs_path b) = (x, rc)" by fastforce
  note G = rc_get_good [OF assms(1,2) b(1) g]
  show ?thesis
  proof (cases "\<exists>r. x = Inr (Some r)")
    case False
    with assms(4) g G(1) b(2) show ?thesis
      by (cases x) (auto simp: write_seed_def split: option.splits)
  next
    case True
    then obtain r where x: "x = Inr (Some r)" by blast
    obtain q where q_def: "read_existing env w r (st_path tg) = q" by blast
    show ?thesis
    proof (cases "\<exists>existing. q = Inr existing \<and> seedMarkersHealthy existing (st_name tg)")
      case False
      with assms(4) g G(1) b(2) x q_def show ?thesis
        by (cases q) (auto simp: write_seed_def Let_def)
    next
      case True
      then obtain existing where e: "q = Inr existing" "seedMarkersHealthy existing (st_name tg)" by blast
      then have nd: "look w (pcomps (st_path tg)) \<noteq> Some Dir"
        using memory_no_dir [OF _ G(2) [OF x] p(1)] assms(1) q_def
        by (auto simp: read_existing_def cache_run_def split: sum.splits ioerr.splits)
      obtain merged ch restored where m: "mergeSeed existing (st_name tg) (st_body tg) = (merged, ch, restored)"
        by (metis prod_cases3)
      obtain y v where wr: "r_writeAtomic env r (st_path tg) merged (r_existingPerm env w r (st_path tg) 0x1A4) w = (y, v)"
        by fastforce
      note W = memory_write [OF G(1) assms(2) b(1) G(2) [OF x] p nd wr]
      show ?thesis
      proof (cases ch)
        case False
        with assms(4) g G(1) b(2) x e m q_def show ?thesis by (auto simp: write_seed_def Let_def)
      next
        case True
        with assms(4) g W b(2) x e m wr q_def show ?thesis
          by (cases y) (auto simp: write_seed_def Let_def)
      qed
    qed
  qed
qed

lemma write_seeds_good:
  assumes "cache_run roots env w (ss_cache st)" "roots_ok roots" "\<And>tg. tg \<in> set tgs \<Longrightarrow> target_ok roots tg"
    "write_seeds env tgs st w = (st', w')"
  shows "cache_run roots env w' (ss_cache st') \<and> files_kept w w' (seed_change roots)"
  using assms
proof (induction tgs arbitrary: st w)
  case (Cons tg tgs)
  obtain st1 w1 where s: "write_seed env tg st w = (st1, w1)" by fastforce
  have A: "cache_run roots env w1 (ss_cache st1)" "files_kept w w1 (seed_change roots)"
    using write_seed_good [OF Cons.prems(1,2) _ s] Cons.prems(3) by auto
  have rest: "write_seeds env tgs st1 w1 = (st', w')" using Cons.prems(4) s by simp
  have "cache_run roots env w' (ss_cache st') \<and> files_kept w1 w' (seed_change roots)"
    by (rule Cons.IH [OF A(1) assms(2) _ rest]) (rule Cons.prems(3), simp)
  with files_kept_trans [OF A(2)] show ?case by blast
qed simp

lemma stripUndesired_good:
  assumes "cache_run roots env w rc" "roots_ok roots" "b \<in> roots" "root_on r b w"
    "IsAbs p" "memory_comps (pcomps p)" "stripUndesired env r p desired w = (x, w')"
  shows "cache_run roots env w' rc \<and> files_kept w w' (seed_change roots)"
proof (cases "r_readFile env w r p")
  case (Inl e)
  with assms(1,7) show ?thesis by (cases e) (auto simp: stripUndesired_def)
next
  case (Inr data)
  have nd: "look w (pcomps p) \<noteq> Some Dir"
    using assms(1) by (intro memory_no_dir [OF _ assms(4,5) disjI1 [OF Inr]]) (simp add: cache_run_def)
  obtain content n ws where s: "strip_names p desired {} (seedNamesIn data) data 0 [] = (content, n, ws)" by (metis prod_cases3)
  obtain y v where wr: "r_writeAtomic env r p content (r_existingPerm env w r p 0x1A4) w = (y, v)" by fastforce
  note W = memory_write [OF assms(1-6) nd wr]
  show ?thesis
  proof (cases "n > 0")
    case True
    with assms(7) Inr s wr W show ?thesis by (cases y) (auto simp: stripUndesired_def)
  next
    case False
    with assms(1,7) Inr s show ?thesis by (auto simp: stripUndesired_def)
  qed
qed

definition cand_ok :: "path set \<Rightarrow> string \<Rightarrow> string \<Rightarrow> bool" where
  "cand_ok roots p boundary \<longleftrightarrow> (\<exists>b \<in> roots. boundary = abs_path b) \<and> IsAbs p \<and> memory_comps (pcomps p)"

lemma strip_candidate_good:
  assumes "cache_run roots env w (ss_cache st)" "roots_ok roots" "cand_ok roots p boundary"
    "strip_candidate env ccd desired p boundary warned st w = (warned', st', w')"
  shows "cache_run roots env w' (ss_cache st') \<and> files_kept w w' (seed_change roots)"
proof (cases "p \<in> ss_failed st")
  case True
  with assms(1,4) show ?thesis by (auto simp: strip_candidate_def)
next
  case False
  obtain b where b: "b \<in> roots" "boundary = abs_path b" and p: "IsAbs p" "memory_comps (pcomps p)"
    using assms(3) by (auto simp: cand_ok_def)
  obtain x rc where g: "rc_get env w (ss_cache st) (abs_path b) = (x, rc)" by fastforce
  note G = rc_get_good [OF assms(1,2) b(1) g]
  show ?thesis
  proof (cases "\<exists>r. x = Inr (Some r)")
    case no: False
    with assms(4) g G(1) b(2) False show ?thesis
      by (cases x) (auto simp: strip_candidate_def Let_def split: option.splits if_splits)
  next
    case True
    then obtain r where x: "x = Inr (Some r)" by blast
    obtain y v where s: "stripUndesired env r p desired w = (y, v)" by fastforce
    note S = stripUndesired_good [OF G(1) assms(2) b(1) G(2) [OF x] p s]
    from assms(4) g b(2) False x s S show ?thesis
      by (cases y) (auto simp: strip_candidate_def Let_def)
  qed
qed

lemma strip_candidates_good:
  assumes "cache_run roots env w (ss_cache st)" "roots_ok roots" "\<And>p d. map_of cands p = Some d \<Longrightarrow> cand_ok roots p d"
    "strip_candidates env ccd desired cands ps warned st w = (st', w')"
  shows "cache_run roots env w' (ss_cache st') \<and> files_kept w w' (seed_change roots)"
  using assms
proof (induction ps arbitrary: warned st w)
  case (Cons p ps)
  show ?case
  proof (cases "map_of cands p")
    case None
    with Cons.prems(4) have "strip_candidates env ccd desired cands ps warned st w = (st', w')" by simp
    from Cons.IH [OF Cons.prems(1,2) Cons.prems(3) this] show ?thesis by blast
  next
    case (Some d)
    obtain u st1 w1 where s: "strip_candidate env ccd desired p d warned st w = (u, st1, w1)" by (metis prod_cases3)
    have A: "cache_run roots env w1 (ss_cache st1)" "files_kept w w1 (seed_change roots)"
      using strip_candidate_good [OF Cons.prems(1,2) Cons.prems(3) [OF Some] s] by auto
    have rest: "strip_candidates env ccd desired cands ps u st1 w1 = (st', w')" using Cons.prems(4) Some s by simp
    from Cons.IH [OF A(1) Cons.prems(2,3) rest] files_kept_trans [OF A(2)] show ?thesis by blast
  qed
qed simp

subsection \<open>Where the targets and candidates come from\<close>

lemma memory_target:
  assumes "IsAbs d" "pcomps d \<noteq> []" "artifactNameRe n" "list_all plain_comp cs"
    and "resolveContained d (join_with slash (cs @ [''agent-memory'', n, ''MEMORY.md''])) = Inr full"
  shows "IsAbs full" "memory_comps (pcomps full)"
proof -
  let ?cs = "cs @ [''agent-memory'', n, ''MEMORY.md'']"
  have pc: "list_all plain_comp ?cs" using assms(3,4) slug_plain by (auto simp: plain_comp_def)
  have "full = abs_path (pcomps d @ ?cs)"
    using resolveContained_plain [of d ?cs] assms pc by simp
  moreover have "list_all plain_comp (pcomps d @ ?cs)" using pc pcomps_plain by simp
  ultimately show "IsAbs full" "memory_comps (pcomps full)"
    using assms(3) by (auto simp: pcomps_abs_path memory_comps_def intro!: exI [of _ "pcomps d @ cs"])
qed

lemma user_rel: "''agent-memory/'' @ n @ ''/MEMORY.md'' = join_with slash ([] @ [''agent-memory'', n, ''MEMORY.md''])"
  by simp

lemma project_rel: "''.claude/agent-memory/'' @ n @ ''/MEMORY.md'' = join_with slash ([''.claude''] @ [''agent-memory'', n, ''MEMORY.md''])"
  by simp

definition dir_ok :: "path set \<Rightarrow> string \<Rightarrow> bool" where
  "dir_ok roots d \<longleftrightarrow> IsAbs d \<and> pcomps d \<in> roots"

lemma dir_okD:
  assumes "dir_ok roots d" "roots_ok roots"
  shows "IsAbs d" "pcomps d \<noteq> []" "\<exists>b \<in> roots. Clean d = abs_path b"
  using assms by (auto simp: dir_ok_def roots_ok_def Clean_abs)

lemma project_targets_ok:
  assumes "roots_ok roots" "artifactNameRe (art_name a)"
  shows "project_targets a projs ts = Inr ts' \<Longrightarrow> (\<And>d. d \<in> set projs \<Longrightarrow> dir_ok roots d) \<Longrightarrow>
    (\<And>tg. tg \<in> set ts \<Longrightarrow> target_ok roots tg) \<Longrightarrow> tg \<in> set ts' \<Longrightarrow> target_ok roots tg"
proof (induction projs arbitrary: ts)
  case (Cons d projs)
  from Cons.prems(1) obtain full where
    f: "resolveContained d (''.claude/agent-memory/'' @ art_name a @ ''/MEMORY.md'') = Inr full" and
    rest: "project_targets a projs (ts @ [\<lparr>st_name = art_name a, st_boundary = Clean d, st_path = full,
       st_body = art_memory_seed a\<rparr>]) = Inr ts'"
    by (auto split: sum.splits)
  have d: "dir_ok roots d" using Cons.prems(2) by simp
  have "target_ok roots \<lparr>st_name = art_name a, st_boundary = Clean d, st_path = full, st_body = art_memory_seed a\<rparr>"
    using memory_target [OF dir_okD(1,2) [OF d assms(1)] assms(2) _ f [unfolded project_rel]] dir_okD(3) [OF d assms(1)]
    by (simp add: target_ok_def plain_comp_def)
  then show ?case
    by (intro Cons.IH [OF rest _ _ Cons.prems(4)]) (use Cons.prems(2,3) in auto)
qed simp

lemma seed_targets_ok:
  assumes "roots_ok roots" "dir_ok roots cd" "\<And>d. d \<in> set live \<Longrightarrow> dir_ok roots d"
  shows "seed_targets cd live as ws ts = (ws', Inr ts') \<Longrightarrow>
    (\<And>tg. tg \<in> set ts \<Longrightarrow> target_ok roots tg) \<Longrightarrow> tg \<in> set ts' \<Longrightarrow> target_ok roots tg"
proof (induction as arbitrary: ws ts)
  case (Cons a as)
  show ?case
  proof (cases "art_type a \<noteq> ''subagent'' \<or> art_memory_seed a = []")
    case True
    with Cons show ?thesis by simp
  next
    case seed: False
    with Cons.prems(1) have n: "artifactNameRe (art_name a)" by (auto split: if_splits)
    consider (user) "art_memory_scope a = ''user''" | (project) "art_memory_scope a = ''project''"
      | (other) "art_memory_scope a \<noteq> ''user''" "art_memory_scope a \<noteq> ''project''" by blast
    then show ?thesis
    proof cases
      case user
      with Cons.prems(1) seed n obtain full where
        f: "resolveContained cd (''agent-memory/'' @ art_name a @ ''/MEMORY.md'') = Inr full" and
        rest: "seed_targets cd live as ws (ts @ [\<lparr>st_name = art_name a, st_boundary = Clean cd, st_path = full,
           st_body = art_memory_seed a\<rparr>]) = (ws', Inr ts')"
        by (auto split: sum.splits)
      have "target_ok roots \<lparr>st_name = art_name a, st_boundary = Clean cd, st_path = full, st_body = art_memory_seed a\<rparr>"
        using memory_target [OF dir_okD(1,2) [OF assms(2,1)] n _ f [unfolded user_rel]] dir_okD(3) [OF assms(2,1)]
        by (simp add: target_ok_def)
      then show ?thesis by (intro Cons.IH [OF rest _ Cons.prems(3)]) (use Cons.prems(2) in auto)
    next
      case project
      with Cons.prems(1) seed n obtain ts1 where
        p: "project_targets a live ts = Inr ts1" and rest: "seed_targets cd live as ws ts1 = (ws', Inr ts')"
        by (auto split: sum.splits)
      have "\<And>tg. tg \<in> set ts1 \<Longrightarrow> target_ok roots tg"
        by (rule project_targets_ok [OF assms(1) n p assms(3) Cons.prems(2)])
      then show ?thesis by (intro Cons.IH [OF rest _ Cons.prems(3)]) auto
    next
      case other
      with Cons.prems(1) seed n obtain ws1 where "seed_targets cd live as ws1 ts = (ws', Inr ts')"
        by (auto split: if_splits)
      then show ?thesis by (rule Cons.IH [OF _ Cons.prems(2,3)])
    qed
  qed
qed simp

lemma trusted_boundary_in: "trustedSeedBoundary roots p = (b, True) \<Longrightarrow> b \<in> set roots"
proof -
  have "trusted_loop rs p best \<in> set rs \<union> {best}" for rs best
    by (induction rs p best rule: trusted_loop.induct) auto
  from this [of roots "[]"] show "trustedSeedBoundary roots p = (b, True) \<Longrightarrow> b \<in> set roots"
    by (auto simp: trustedSeedBoundary_def Let_def)
qed

definition cands_ok :: "path set \<Rightarrow> (string \<times> string) list \<Rightarrow> bool" where
  "cands_ok roots cands \<longleftrightarrow> (\<forall>p d. map_of cands p = Some d \<longrightarrow> cand_ok roots p d)"

lemma cands_ok_update: "cands_ok roots cands \<Longrightarrow> cand_ok roots p d \<Longrightarrow> cands_ok roots (AList.update p d cands)"
  by (simp add: cands_ok_def update_conv')

lemma ledger_candidates_ok:
  assumes "\<And>d. d \<in> set trusted \<Longrightarrow> \<exists>b \<in> roots. d = abs_path b"
  shows "cands_ok roots cands \<Longrightarrow> ledger_candidates trusted ps cands warned st = (cands', warned', st') \<Longrightarrow>
    cands_ok roots cands' \<and> ss_cache st' = ss_cache st"
proof (induction ps arbitrary: cands warned st)
  case (Cons p ps)
  obtain d ok where t: "trustedSeedBoundary trusted p = (d, ok)" by fastforce
  consider (bad) "\<not> validSeedPath p" | (in_root) "validSeedPath p" ok | (outside) "validSeedPath p" "\<not> ok" by blast
  then show ?case
  proof cases
    case bad
    with Cons.prems(2) have "ledger_candidates trusted ps cands warned st = (cands', warned', st')" by simp
    with Cons.IH [OF Cons.prems(1)] show ?thesis .
  next
    case in_root
    with t trusted_boundary_in [of trusted p d] assms have "cand_ok roots p d"
      using validSeedPath_comps by (simp add: cand_ok_def)
    with Cons.prems(1) have "cands_ok roots (AList.update p d cands)" by (rule cands_ok_update)
    moreover have "ledger_candidates trusted ps (AList.update p d cands) warned st = (cands', warned', st')"
      using Cons.prems(2) in_root t by simp
    ultimately show ?thesis using Cons.IH by blast
  next
    case outside
    define st1 where "st1 = (if p \<in> warned then st else seed_warn [Untrusted_entry p] st)\<lparr>ss_failed := insert p (ss_failed st)\<rparr>"
    have "ledger_candidates trusted ps cands (insert p warned) st1 = (cands', warned', st')"
      using Cons.prems(2) outside t by (simp add: st1_def)
    with Cons.IH [OF Cons.prems(1)] have "cands_ok roots cands' \<and> ss_cache st' = ss_cache st1" by blast
    then show ?thesis by (simp add: st1_def)
  qed
qed simp

lemma Join_three: "a \<noteq> [] \<Longrightarrow> b \<noteq> [] \<Longrightarrow> c \<noteq> [] \<Longrightarrow> Join [a, b, c] = Join [a, join_with slash [b, c]]"
  by (simp add: Join_def)

lemma scanned_shape:
  assumes "IsAbs root" "list_all plain_comp d" "root = abs_path (d @ [''agent-memory''])" "p \<in> set (scanSeedFiles env w root)"
  shows "IsAbs p" "memory_comps (pcomps p)"
proof -
  from assms(4) obtain n where n: "artifactNameRe n" "p = Join [root, n, ''MEMORY.md'']"
    by (auto simp: scanSeedFiles_def split: sum.splits)
  have pl: "list_all plain_comp [n, ''MEMORY.md'']" using slug_plain [OF n(1)] by (simp add: plain_comp_def)
  have pr: "list_all plain_comp (d @ [''agent-memory''])" using assms(2) by (simp add: plain_comp_def)
  have "root \<noteq> []" "n \<noteq> []" using assms(1) n(1) by auto
  then have "p = abs_path (pcomps root @ [n, ''MEMORY.md''])"
    using n(2) Join_three [of root n "''MEMORY.md''"] Join_plain [OF assms(1) _ pl] by simp
  then have p: "p = abs_path (d @ [''agent-memory'', n, ''MEMORY.md''])"
    using assms(3) pcomps_abs_path [OF pr] by simp
  have "list_all plain_comp (d @ [''agent-memory'', n, ''MEMORY.md''])" using pr pl by simp
  with p n(1) show "IsAbs p" "memory_comps (pcomps p)"
    by (auto simp: pcomps_abs_path memory_comps_def)
qed

lemma add_scanned_ok:
  "cands_ok roots cands \<Longrightarrow> (\<And>p. p \<in> set ps \<Longrightarrow> cand_ok roots p d) \<Longrightarrow> cands_ok roots (add_scanned d ps cands)"
  by (induction d ps cands rule: add_scanned.induct) (auto intro: cands_ok_update)

lemma user_scan_ok:
  assumes "dir_ok roots cd" "roots_ok roots" "p \<in> set (scanSeedFiles env w (Join [cd, ''agent-memory'']))"
  shows "cand_ok roots p (Clean cd)"
proof -
  note D = dir_okD [OF assms(1,2)]
  have j: "Join [cd, ''agent-memory''] = abs_path (pcomps cd @ [''agent-memory''])"
    using Join_plain [OF D(1), of "[''agent-memory'']"] by (simp add: plain_comp_def)
  from scanned_shape [OF _ pcomps_plain j assms(3)] D(3) j show ?thesis by (simp add: cand_ok_def)
qed

lemma project_scan_ok:
  assumes "dir_ok roots d" "roots_ok roots" "p \<in> set (scanSeedFiles env w (Join [d, ''.claude'', ''agent-memory'']))"
  shows "cand_ok roots p (Clean d)"
proof -
  note D = dir_okD [OF assms(1,2)]
  have "d \<noteq> []" using D(1) by auto
  then have j: "Join [d, ''.claude'', ''agent-memory''] = abs_path ((pcomps d @ [''.claude'']) @ [''agent-memory''])"
    using Join_three [of d "''.claude''" "''agent-memory''"] Join_plain [OF D(1), of "[''.claude'', ''agent-memory'']"]
    by (simp add: plain_comp_def)
  have "list_all plain_comp (pcomps d @ [''.claude''])" using pcomps_plain by (simp add: plain_comp_def)
  from scanned_shape [OF _ this j assms(3)] D(3) j show ?thesis by (simp add: cand_ok_def)
qed

lemma scan_projects_ok:
  assumes "roots_ok roots"
  shows "cands_ok roots cands \<Longrightarrow> (\<And>d. d \<in> set projs \<Longrightarrow> dir_ok roots d) \<Longrightarrow>
    cands_ok roots (scan_projects env w projs cands)"
proof (induction projs arbitrary: cands)
  case (Cons d projs)
  have "cands_ok roots (add_scanned (Clean d) (scanSeedFiles env w (Join [d, ''.claude'', ''agent-memory''])) cands)"
    by (rule add_scanned_ok [OF Cons.prems(1)]) (rule project_scan_ok [OF _ assms], use Cons.prems(2) in auto)
  then show ?case using Cons.IH Cons.prems(2) by simp
qed simp

lemma strip_pass_good:
  assumes "cache_run roots env w (ss_cache st)" "roots_ok roots" "dir_ok roots cd"
    "\<And>d. d \<in> set projects \<Longrightarrow> dir_ok roots d" "strip_pass env cd projects m desired st w = (st', w')"
  shows "cache_run roots env w' (ss_cache st') \<and> files_kept w w' (seed_change roots)"
proof -
  obtain c0 wn st1 where l: "ledger_candidates (Clean cd # map Clean projects)
      (concat (map (paths_of (mf_seeds m)) (seed_keys env m))) [] {} st = (c0, wn, st1)" by (metis prod_cases3)
  have tr: "\<exists>b \<in> roots. d = abs_path b" if "d \<in> set (Clean cd # map Clean projects)" for d
    using that dir_okD(3) [OF _ assms(2)] assms(3,4) by auto
  have z: "cands_ok roots []" by (simp add: cands_ok_def)
  from ledger_candidates_ok [OF tr z l] have L: "cands_ok roots c0" "ss_cache st1 = ss_cache st" by auto
  define cands where "cands = scan_projects env w projects
    (add_scanned (Clean cd) (scanSeedFiles env w (Join [cd, ''agent-memory''])) c0)"
  have "cands_ok roots cands"
    unfolding cands_def
    by (intro scan_projects_ok [OF assms(2)] add_scanned_ok [OF L(1)] user_scan_ok [OF assms(3,2)]) (use assms(4) in auto)
  then have c: "\<And>p d. map_of cands p = Some d \<Longrightarrow> cand_ok roots p d" by (simp add: cands_ok_def)
  have "strip_candidates env (Clean cd) desired cands (range_order env (map fst cands)) {} st1 w = (st', w')"
    using assms(5) l by (simp add: strip_pass_def Let_def cands_def)
  with strip_candidates_good [OF _ assms(2) c] L(2) assms(1) show ?thesis by metis
qed

subsection \<open>Properties\<close>

definition seed_may_change :: "path \<Rightarrow> path set \<Rightarrow> path \<Rightarrow> bool" where
  "seed_may_change b roots q \<longleftrightarrow>
     seed_change roots q \<or> q = b @ [manifestName] \<or> temp_of (b @ [manifestName]) q"

text \<open>
  C14. The seed pass stays in its lane. On a file system without symbolic links, whatever the ledger
  holds (a tampered one included) and whatever the operating system refuses, every file a run changes
  is a memory file \<^verbatim>\<open>agent-memory/<slug>/MEMORY.md\<close> strictly beneath the sync root or a
  registered project, the ledger itself, or a left-over temporary of one of these. Absence of links is
  needed: \<open>os.Root\<close> follows a link that stays inside the root, so with one in the place of a subagent's
  memory directory a run changes a file of the directory the link leads to.
\<close>

theorem ReconcileSeeds_stays_in_lane:
  assumes "good_tree w" "\<not> active w" "plain_env env"
    and "list_all plain_comp b" "b \<noteq> []"
    and "\<And>d. d \<in> set projects \<Longrightarrow> IsAbs d"
    and "roots_ok (insert b (pcomps ` set projects))"
    and "ReconcileSeeds env (abs_path b) projects artifacts w = (e, res, w')"
    and "look w q = Some (File c p)" "look w' q \<noteq> look w q"
  shows "seed_may_change b (insert b (pcomps ` set projects)) q"
proof -
  let ?roots = "insert b (pcomps ` set projects)"
  have cd: "dir_ok ?roots (abs_path b)" using assms(4) by (simp add: dir_ok_def pcomps_abs_path)
  have pj: "dir_ok ?roots d" if "d \<in> set projects" for d using that assms(6) by (simp add: dir_ok_def)
  have "files_kept w w' (seed_may_change b ?roots)"
  proof (cases "loadManifest env w (abs_path b)")
    case (Inl err)
    with assms(8) show ?thesis by (simp add: ReconcileSeeds_def)
  next
    case (Inr m)
    obtain x w1 where mk: "os_MkdirAll env (abs_path b) w = (x, w1)" by fastforce
    note M = MkdirAll_good [OF assms(1,4,5) mk]
    show ?thesis
    proof (cases x)
      case (Some y)
      with Inr assms(2,8) mk M(3) show ?thesis
        by (auto simp: ReconcileSeeds_def open_seed_roots_def intro: files_kept_mono)
    next
      case None
      have run: "cache_run ?roots env w1 newRootCache"
        using M assms(2,3) by (simp add: cache_run_def run_ok_def newRootCache_def)
      define live where "live = filter (\<lambda>p. is_dir (os_Stat env w1 p)) projects"
      obtain ws t where t: "seed_targets (abs_path b) live artifacts
          (map Project_missing (filter (\<lambda>p. \<not> is_dir (os_Stat env w1 p)) projects)) [] = (ws, t)" by fastforce
      show ?thesis
      proof (cases t)
        case (Inl err)
        with Inr assms(2,8) mk None t M(3) show ?thesis
          by (auto simp: ReconcileSeeds_def open_seed_roots_def seed_pass_def Let_def live_def intro: files_kept_mono)
      next
        case t': (Inr targets)
        have T: "target_ok ?roots tg" if "tg \<in> set targets" for tg
          using seed_targets_ok [OF assms(7) cd pj t [unfolded t'] _ that] by (auto simp: live_def)
        obtain st1 w2 where ws: "write_seeds env targets (seed_state0 ws newRootCache) w1 = (st1, w2)" by fastforce
        have W: "cache_run ?roots env w2 (ss_cache st1)" "files_kept w1 w2 (seed_change ?roots)"
          using write_seeds_good [OF _ assms(7) T ws] run by (auto simp: seed_state0_def)
        obtain st2 w3 where sp: "strip_pass env (abs_path b) projects m
            (set (map (\<lambda>tg. (st_name tg, st_path tg)) targets)) st1 w2 = (st2, w3)" by fastforce
        have S: "cache_run ?roots env w3 (ss_cache st2)" "files_kept w2 w3 (seed_change ?roots)"
          using strip_pass_good [OF W(1) assms(7) cd pj sp] by auto
        obtain z w4 where sv: "saveManifest env (abs_path b) (seed_ledger env m st2) w3 = (z, w4)" by fastforce
        have "w' = w4"
          using Inr assms(2,8) mk None t t' ws sp sv
          by (auto simp: ReconcileSeeds_def open_seed_roots_def seed_pass_def Let_def live_def split: option.splits)
        moreover have "files_kept w3 w4 (seed_may_change b ?roots)"
          by (rule files_kept_mono [OF saveManifest_good(2) [OF _ _ assms(3-5) sv]])
            (use S(1) in \<open>auto simp: cache_run_def run_ok_def seed_may_change_def\<close>)
        moreover have "files_kept w1 w3 (seed_change ?roots)" by (rule files_kept_trans [OF W(2) S(2)])
        ultimately have "files_kept w1 w' (seed_may_change b ?roots)"
          by (auto intro: files_kept_trans simp: seed_may_change_def)
        with M(3) show ?thesis by (auto intro: files_kept_trans)
      qed
    qed
  qed
  with assms(9,10) show ?thesis unfolding files_kept_def by blast
qed

definition sample_seed_tree :: world where
  "sample_seed_tree = \<lparr>nodes = [([''h''], Dir), ([''h'', ''agent-memory''], Dir), ([''h'', ''agent-memory'', ''x''], Dir),
     ([''h'', ''agent-memory'', ''x'', ''MEMORY.md''],
        File (''<!-- ORBEAT-SEED:BEGIN old sha=00112233aabb '' @ seedNote @ [nl] @ ''body'' @ [nl] @
          ''<!-- ORBEAT-SEED:END old -->'' @ [nl] @ ''mine'' @ [nl]) 420)], plan = None\<rparr>"

theorem ReconcileSeeds_stays_in_lane_witness:
  "\<exists>e res w'. ReconcileSeeds sample_env ''/h'' [] [] sample_seed_tree = (e, res, w') \<and> sr_stripped res = 1 \<and>
     seed_may_change [''h''] {[''h'']} [''h'', ''agent-memory'', ''x'', ''MEMORY.md'']"
proof -
  let ?run = "ReconcileSeeds sample_env ''/h'' [] [] sample_seed_tree" and ?q = "[''h'', ''agent-memory'', ''x'', ''MEMORY.md'']"
  have ev: "sr_stripped (fst (snd ?run)) = 1 \<and> look (snd (snd ?run)) ?q \<noteq> look sample_seed_tree ?q"
    by code_simp
  obtain e res w' where r: "?run = (e, res, w')" by (metis prod_cases3)
  have g: "good_tree sample_seed_tree"
    by (rule good_treeI) (auto simp: sample_seed_tree_def plain_comp_def look_def)
  have c: "''/h'' = abs_path [''h'']" "\<not> active sample_seed_tree" "list_all plain_comp [''h'']" "roots_ok {[''h'']}"
    by (simp_all add: roots_ok_def) code_simp+
  have f: "\<exists>c. look sample_seed_tree ?q = Some (File c 420)" by (simp add: sample_seed_tree_def look_def)
  then obtain c0 where f: "look sample_seed_tree ?q = Some (File c0 420)" by blast
  have "seed_may_change [''h''] (insert [''h''] (pcomps ` set [])) ?q"
    by (rule ReconcileSeeds_stays_in_lane [OF g c(2) sample_env_ok(1) c(3) _ _ _ r [unfolded c(1)] f])
      (use ev r c(4) in auto)
  with ev r show ?thesis by auto
qed

end
