(* ===== verification/DryRun.thy ===== *)
theory DryRun
  imports SeedSyncProofs
begin

text \<open>
  A dry run of the rules and seed passes: with a plan attached no file, directory or link
  changes, on every path of the code, errors included.
\<close>

lemma op_untouched [simp]:
  "untouched w v \<Longrightarrow> r_writeAtomic env r p data perm v = (e, v') \<Longrightarrow> untouched w v'"
  using r_ops_untouched(1) by (metis snd_conv)

lemma mergeRulesFile_untouched:
  "mergeRulesFile env r p body v = (x, v') \<Longrightarrow> untouched w v \<Longrightarrow> untouched w v'"
  unfolding mergeRulesFile_def
  by (cases "case r_readFile env v r p of Inr data \<Rightarrow> Inr data | Inl NotExist \<Rightarrow> Inr [] | Inl e \<Rightarrow> Inl e")
    (auto split: if_splits prod.splits option.splits)

lemma stripRulesFile_untouched:
  "stripRulesFile env r p v = (x, v') \<Longrightarrow> untouched w v \<Longrightarrow> untouched w v'"
  by (cases "r_readFile env v r p")
    (auto simp: stripRulesFile_def split: if_splits prod.splits option.splits ioerr.splits)

lemma write_files_untouched:
  "write_files env r proj specs c n errs v = (x, v') \<Longrightarrow> untouched w v \<Longrightarrow> untouched w v'"
proof (induction specs arbitrary: c n errs v)
  case (Cons fb specs)
  then show ?case
    by (cases fb) (auto split: sum.splits prod.splits, (blast intro: mergeRulesFile_untouched)+)
qed simp

lemma writeRulesToProject_untouched:
  "writeRulesToProject env proj body v = (x, v') \<Longrightarrow> untouched w v \<Longrightarrow> untouched w v'"
  by (auto simp: writeRulesToProject_def simp del: write_files.simps split: sum.splits option.splits
      intro: write_files_untouched)

lemma strip_files_untouched:
  "strip_files env r proj files n ws errs v = (x, v') \<Longrightarrow> untouched w v \<Longrightarrow> untouched w v'"
proof (induction files arbitrary: n ws errs v)
  case (Cons f files)
  then show ?case by (auto split: sum.splits prod.splits) (blast intro: stripRulesFile_untouched)+
qed simp

lemma stripRulesFromProject_untouched:
  "stripRulesFromProject env proj v = (x, v') \<Longrightarrow> untouched w v \<Longrightarrow> untouched w v'"
  by (auto simp: stripRulesFromProject_def simp del: strip_files.simps split: sum.splits option.splits
      intro: strip_files_untouched)

lemma writeGlobalRules_untouched:
  "writeGlobalRules env g body v = (x, v') \<Longrightarrow> untouched w v \<Longrightarrow> untouched w v'"
  by (auto simp: writeGlobalRules_def split: sum.splits option.splits prod.splits intro: mergeRulesFile_untouched)

lemma stripGlobalRules_untouched:
  "stripGlobalRules env p v = (x, v') \<Longrightarrow> untouched w v \<Longrightarrow> untouched w v'"
  by (auto simp: stripGlobalRules_def split: sum.splits option.splits intro: stripRulesFile_untouched)

lemma globals_write_untouched:
  "globals_write env body gs res d l la v = (e, res', d', l', la', v') \<Longrightarrow> untouched w v \<Longrightarrow> untouched w v'"
proof (induction gs arbitrary: res d l la v)
  case (Cons g gs)
  obtain c n j v1 where wr: "writeGlobalRules env g body v = ((c, n, j), v1)" by (metis prod.collapse)
  have u: "untouched w v1" by (rule writeGlobalRules_untouched [OF wr Cons.prems(2)])
  show ?case
  proof (cases j)
    case (Inl err)
    with Cons.prems(1) wr u show ?thesis by (simp add: Let_def)
  next
    case (Inr es)
    then obtain r2 d2 l2 la2 where "globals_write env body gs r2 d2 l2 la2 v1 = (e, res', d', l', la', v')"
      using Cons.prems(1) wr by (cases es) (auto simp: Let_def)
    from Cons.IH [OF this u] show ?thesis .
  qed
qed simp

lemma globals_strip_untouched:
  "globals_strip env cd d ps res l v = (res', l', v') \<Longrightarrow> untouched w v \<Longrightarrow> untouched w v'"
proof (induction ps arbitrary: res l v)
  case (Cons p ps)
  obtain x v1 where sr: "stripGlobalRules env p v = (x, v1)" by fastforce
  have u: "untouched w v1" by (rule stripGlobalRules_untouched [OF sr Cons.prems(2)])
  consider (skip) r2 l2 where "globals_strip env cd d ps r2 l2 v = (res', l', v')"
    | (go) r2 l2 where "globals_strip env cd d ps r2 l2 v1 = (res', l', v')"
    using Cons.prems(1) sr by (cases x) (auto split: if_splits option.splits)
  then show ?case
  proof cases
    case skip
    from Cons.IH [OF this Cons.prems(2)] show ?thesis .
  next
    case go
    from Cons.IH [OF this u] show ?thesis .
  qed
qed simp

lemma reconcileGlobalRules_untouched:
  assumes "reconcileGlobalRules env cd globals m res v = (e, m', res', v')" "untouched w v"
  shows "untouched w v'"
proof -
  obtain e1 r1 d1 l1 la1 v1 where g: "(if globals \<noteq> [] then
       globals_write env (renderRulesBody globals) (globalRuleTargets env v cd) res {} [] False v
     else (None, res, {}, [], False, v)) = (e1, r1, d1, l1, la1, v1)" by (metis prod_cases6)
  have u: "untouched w v1"
  proof (cases "globals = []")
    case True
    with g assms(2) show ?thesis by simp
  next
    case False
    with g have "globals_write env (renderRulesBody globals) (globalRuleTargets env v cd) res {} [] False v
        = (e1, r1, d1, l1, la1, v1)" by simp
    then show ?thesis by (rule globals_write_untouched) (rule assms(2))
  qed
  show ?thesis
  proof (cases e1)
    case (Some x)
    with assms(1) g u show ?thesis by (auto simp: reconcileGlobalRules_def)
  next
    case None
    note run = assms(1) [unfolded reconcileGlobalRules_def g prod.case None option.case Let_def]
    obtain r3 l3 v3 where gs: "globals_strip env cd d1 (mf_globals m)
        (if la1 then r1\<lparr>ru_applied := append_all_applied (ru_applied r1) globals\<rparr> else r1) l1 v1 = (r3, l3, v3)"
      by (metis prod_cases3)
    have "v' = v3" using run [unfolded gs prod.case] by simp
    with globals_strip_untouched [OF gs u] show ?thesis by simp
  qed
qed

lemma projects_write_untouched:
  "projects_write env rules pjs st v = (e, st', v') \<Longrightarrow> untouched w v \<Longrightarrow> untouched w v'"
proof (induction pjs arbitrary: st v)
  case (Cons pj pjs)
  show ?case
  proof (cases "rulesFor rules (pj_tags pj) = []")
    case True
    with Cons show ?thesis by (auto simp: Let_def)
  next
    case False
    obtain c n j v1 where wr: "writeRulesToProject env (pj_path pj) (renderRulesBody (rulesFor rules (pj_tags pj))) v = ((c, n, j), v1)"
      by (metis prod.collapse)
    have u: "untouched w v1" by (rule writeRulesToProject_untouched [OF wr Cons.prems(2)])
    show ?thesis
    proof (cases j)
      case (Inl err)
      with Cons.prems(1) wr u False show ?thesis by (simp add: Let_def)
    next
      case (Inr es)
      then obtain s2 where "projects_write env rules pjs s2 v1 = (e, st', v')"
        using Cons.prems(1) wr False by (cases es) (auto simp: Let_def)
      from Cons.IH [OF this u] show ?thesis .
    qed
  qed
qed simp

lemma projects_strip_untouched:
  "projects_strip env trusted ps st v = (e, st', v') \<Longrightarrow> untouched w v \<Longrightarrow> untouched w v'"
proof (induction ps arbitrary: st v)
  case (Cons p ps)
  obtain n ws j v1 where sr: "stripRulesFromProject env p v = ((n, ws, j), v1)" by (metis prod.collapse)
  have u: "untouched w v1" by (rule stripRulesFromProject_untouched [OF sr Cons.prems(2)])
  consider (skip) s2 where "projects_strip env trusted ps s2 v = (e, st', v')"
    | (go) s2 where "projects_strip env trusted ps s2 v1 = (e, st', v')" | (stop) "v' = v1"
    using Cons.prems(1) sr by (cases j) (auto simp: Let_def split: if_splits list.splits)
  then show ?case
  proof cases
    case skip
    from Cons.IH [OF this Cons.prems(2)] show ?thesis .
  next
    case go
    from Cons.IH [OF this u] show ?thesis .
  next
    case stop
    with u show ?thesis by simp
  qed
qed simp

lemma rules_pass_untouched:
  assumes "rules_pass env cd projects artifacts m v = (e, res, m', v')" "untouched w v"
  shows "untouched w v'"
proof (cases "collect_rules artifacts")
  case (Inl err)
  with assms show ?thesis by (simp add: rules_pass_def)
next
  case (Inr collected)
  define rules where "rules = filter (\<lambda>r. art_rule_scope r \<noteq> ''global'') (sort_key art_name collected)"
  define globals where "globals = filter (\<lambda>r. art_rule_scope r = ''global'') (sort_key art_name collected)"
  define dead where "dead = filter (\<lambda>pj. \<not> is_live env v pj) projects"
  define st0 where "st0 = keep_not_live (set (map (\<lambda>pj. Clean (pj_path pj)) dead)) (mf_rules m)
    \<lparr>rs_res = empty_rules_result\<lparr>ru_warnings := map (\<lambda>pj. Project_missing (pj_path pj)) dead\<rparr>,
     rs_desired = {}, rs_failed = {}, rs_ledger = [], rs_landed = {}\<rparr>"
  obtain e1 st1 v1 where pw: "(if rules \<noteq> [] then projects_write env rules (filter (is_live env v) projects) st0 v
      else (None, st0, v)) = (e1, st1, v1)" by (metis prod_cases3)
  have u1: "untouched w v1"
  proof (cases "rules = []")
    case True
    with pw assms(2) show ?thesis by simp
  next
    case False
    with pw have "projects_write env rules (filter (is_live env v) projects) st0 v = (e1, st1, v1)" by simp
    then show ?thesis by (rule projects_write_untouched) (rule assms(2))
  qed
  define res1 where "res1 = (rs_res st1)\<lparr>ru_applied := landed_applied (rs_landed st1) rules (ru_applied (rs_res st1))\<rparr>"
  obtain e2 m1 res2 v2 where gr: "reconcileGlobalRules env cd globals m res1 v1 = (e2, m1, res2, v2)"
    by (metis prod_cases4)
  have u2: "untouched w v2" by (rule reconcileGlobalRules_untouched [OF gr u1])
  obtain e3 st2 v3 where ps: "projects_strip env (set (map (\<lambda>pj. Clean (pj_path pj)) projects)) (mf_rules m1)
      (st1\<lparr>rs_res := res2\<rparr>) v2 = (e3, st2, v3)" by (metis prod_cases3)
  have u3: "untouched w v3" by (rule projects_strip_untouched [OF ps u2])
  note run = assms(1) [unfolded rules_pass_def Inr sum.case Let_def, folded rules_def globals_def dead_def,
    folded st0_def, unfolded pw prod.case]
  have "v' \<in> {v1, v2, v3}"
  proof (cases e1)
    case (Some err)
    with run show ?thesis by simp
  next
    case None
    note run2 = run [unfolded None option.case, folded res1_def, unfolded gr prod.case]
    show ?thesis
    proof (cases e2)
      case (Some err)
      with run2 show ?thesis by simp
    next
      case None
      with run2 ps show ?thesis by (cases e3) simp_all
    qed
  qed
  with u1 u2 u3 show ?thesis by auto
qed

lemma write_seed_untouched:
  "write_seed env tg st v = (st', v') \<Longrightarrow> untouched w v \<Longrightarrow> untouched w v'"
  unfolding write_seed_def Let_def by (auto split: sum.splits option.splits prod.splits if_splits)

lemma write_seeds_untouched:
  "write_seeds env tgs st v = (st', v') \<Longrightarrow> untouched w v \<Longrightarrow> untouched w v'"
  by (induction tgs arbitrary: st v) (auto split: prod.splits intro: write_seed_untouched)

lemma stripUndesired_untouched:
  "stripUndesired env r p d v = (x, v') \<Longrightarrow> untouched w v \<Longrightarrow> untouched w v'"
  by (cases "r_readFile env v r p")
    (auto simp: stripUndesired_def split: if_splits prod.splits option.splits ioerr.splits)

lemma strip_candidate_untouched:
  "strip_candidate env ccd d p bd warned st v = (x, y, v') \<Longrightarrow> untouched w v \<Longrightarrow> untouched w v'"
  by (auto simp: strip_candidate_def Let_def split: if_splits prod.splits option.splits sum.splits
      intro: stripUndesired_untouched)

lemma strip_candidates_untouched:
  "strip_candidates env ccd d cands ps warned st v = (st', v') \<Longrightarrow> untouched w v \<Longrightarrow> untouched w v'"
proof (induction ps arbitrary: warned st v)
  case (Cons p ps)
  then show ?case by (auto split: option.splits prod.splits) (blast intro: strip_candidate_untouched)
qed simp

lemma saveManifest_untouched:
  "saveManifest env cd m v = (e, v') \<Longrightarrow> untouched w v \<Longrightarrow> untouched w v'"
  using saveManifest_planned [of v env cd m] by (auto simp: untouched_def)

text \<open>
  A dry run of the rules pass and of the seed pass changes nothing on disk, whatever the
  ledger, the tree and the operating system do; with \<open>Reconcile_dry_run\<close> this covers the
  whole sync run.
\<close>

theorem passes_dry_run:
  assumes "active w"
  shows "nodes (snd (snd (ReconcileRules env claudeDir projects artifacts w))) = nodes w \<and>
    nodes (snd (snd (ReconcileSeeds env claudeDir dirs artifacts w))) = nodes w"
proof
  have u: "untouched w w" using assms by (simp add: untouched_def)
  show "nodes (snd (snd (ReconcileRules env claudeDir projects artifacts w))) = nodes w"
  proof (cases "loadManifest env w claudeDir")
    case (Inl err)
    then show ?thesis by (simp add: ReconcileRules_def)
  next
    case (Inr m)
    obtain e res m' v where p: "rules_pass env claudeDir projects artifacts m w = (e, res, m', v)" by (metis prod_cases4)
    obtain z v2 where s: "saveManifest env claudeDir m' v = (z, v2)" by fastforce
    have "untouched w v" by (rule rules_pass_untouched [OF p u])
    with saveManifest_untouched [OF s] Inr p s show ?thesis
      by (auto simp: ReconcileRules_def untouched_def split: option.splits)
  qed
  show "nodes (snd (snd (ReconcileSeeds env claudeDir dirs artifacts w))) = nodes w"
  proof (cases "loadManifest env w claudeDir")
    case (Inl err)
    then show ?thesis by (simp add: ReconcileSeeds_def)
  next
    case (Inr m)
    obtain x u where xu: "open_seed_roots env claudeDir w = (x, u)" by fastforce
    with assms have x: "open_seed_roots env claudeDir w = (x, w)"
      by (auto simp: open_seed_roots_def split: sum.splits ioerr.splits)
    show ?thesis
    proof (cases x)
      case (Inl err)
      with Inr x show ?thesis by (simp add: ReconcileSeeds_def)
    next
      case rc: (Inr rc)
      obtain e res m' v where p: "seed_pass env claudeDir dirs artifacts m rc w = (e, res, m', v)" by (metis prod_cases4)
      obtain z v2 where s: "saveManifest env claudeDir m' v = (z, v2)" by fastforce
      have "untouched w v"
        using p u by (auto simp: seed_pass_def strip_pass_def Let_def split: prod.splits sum.splits
            intro: write_seeds_untouched strip_candidates_untouched)
      with saveManifest_untouched [OF s] Inr x rc p s show ?thesis
        by (auto simp: ReconcileSeeds_def untouched_def split: option.splits)
    qed
  qed
qed

theorem passes_dry_run_witness:
  "nodes (snd (snd (ReconcileRules sample_env ''/c'' [\<lparr>pj_path = ''/h'', pj_tags = []\<rparr>] []
     (sample_block_tree\<lparr>plan := Some []\<rparr>)))) = nodes sample_block_tree"
  using passes_dry_run [of "sample_block_tree\<lparr>plan := Some []\<rparr>" sample_env "''/c''" "[\<lparr>pj_path = ''/h'', pj_tags = []\<rparr>]" "[]"]
  by (simp add: active_def)

end
