(* ===== verification/GoText.thy ===== *)
theory GoText
  imports Prelude
begin

text \<open>
  More of Go's standard library on byte strings: \<open>strings.TrimSpace\<close>, \<open>strconv.ParseInt\<close> and
  \<open>FormatInt\<close> in base 10 at 64 bits, and the runes of a string (\<open>unicode/utf8\<close>).
\<close>

subsection \<open>White space\<close>

text \<open>The encodings of the runes \<open>unicode.IsSpace\<close> accepts.\<close>

definition space_runes :: "bytes list" where
  "space_runes =
     [[CHR 0x09], [nl], [CHR 0x0B], [CHR 0x0C], [CHR 0x0D], '' '', [CHR 0xC2, CHR 0x85], [CHR 0xC2, CHR 0xA0],
      [CHR 0xE1, CHR 0x9A, CHR 0x80]] @
     map (\<lambda>n. [CHR 0xE2, CHR 0x80, char_of (n + 128 :: nat)]) [0..<11] @
     [[CHR 0xE2, CHR 0x80, CHR 0xA8], [CHR 0xE2, CHR 0x80, CHR 0xA9], [CHR 0xE2, CHR 0x80, CHR 0xAF],
      [CHR 0xE2, CHR 0x81, CHR 0x9F], [CHR 0xE3, CHR 0x80, CHR 0x80]]"

function trim_front :: "bytes list \<Rightarrow> bytes \<Rightarrow> bytes" where
  "trim_front rs s =
     (case List.find (\<lambda>r. r \<noteq> [] \<and> has_prefix r s) rs of
        None \<Rightarrow> s
      | Some r \<Rightarrow> trim_front rs (drop (length r) s))"
  by pat_completeness auto
termination
proof (relation "measure (\<lambda>(rs, s). length s)", goal_cases)
  case (2 rs s r)
  then have "r \<noteq> []" "has_prefix r s" by (auto simp: find_Some_iff)
  then have "r \<noteq> []" "s \<noteq> []" by (auto simp: has_prefix_iff)
  then show ?case by simp
qed simp

declare trim_front.simps [simp del]

definition TrimSpace :: "bytes \<Rightarrow> bytes" where
  "TrimSpace s = rev (trim_front (map rev space_runes) (rev (trim_front space_runes s)))"

subsection \<open>Decimal numbers\<close>

definition digit_char :: "nat \<Rightarrow> char" where "digit_char d = char_of (d + 48)"

fun format_nat :: "nat \<Rightarrow> string" where
  "format_nat n = (if n < 10 then [digit_char n] else format_nat (n div 10) @ [digit_char (n mod 10)])"

declare format_nat.simps [simp del]

definition FormatInt :: "int \<Rightarrow> string" where
  "FormatInt i = (if i < 0 then CHR ''-'' # format_nat (nat (- i)) else format_nat (nat i))"

definition digit_value :: "char \<Rightarrow> nat option" where
  "digit_value c = (let n = of_char c in if 48 \<le> n \<and> n \<le> 57 then Some (n - 48) else None)"

fun parse_nat :: "nat \<Rightarrow> string \<Rightarrow> nat option" where
  "parse_nat acc [] = Some acc"
| "parse_nat acc (c # s) = (case digit_value c of None \<Rightarrow> None | Some d \<Rightarrow> parse_nat (10 * acc + d) s)"

text \<open>A sign is optional, at least one digit is not; a value beyond 64 bits is an error.\<close>

definition ParseInt :: "string \<Rightarrow> int option" where
  "ParseInt s =
     (let (neg, ds) = (case s of
           c # r \<Rightarrow> if c = CHR ''-'' then (True, r) else if c = CHR ''+'' then (False, r) else (False, s)
         | [] \<Rightarrow> (False, s)) in
      if ds = [] then None
      else case parse_nat 0 ds of
          None \<Rightarrow> None
        | Some n \<Rightarrow>
            let i = (if neg then - int n else int n) in
            if - (2 ^ 63) \<le> i \<and> i < 2 ^ 63 then Some i else None)"

definition Atoi :: "string \<Rightarrow> int option" where "Atoi s = ParseInt s"

lemma digit_value_char: "d < 10 \<Longrightarrow> digit_value (digit_char d) = Some d"
  by (simp add: digit_value_def digit_char_def Let_def)

lemma parse_nat_snoc: "parse_nat acc (s @ [c]) =
    (case parse_nat acc s of None \<Rightarrow> None | Some n \<Rightarrow> (case digit_value c of None \<Rightarrow> None | Some d \<Rightarrow> Some (10 * n + d)))"
  by (induction s arbitrary: acc) (auto split: option.splits)

lemma parse_format_nat: "parse_nat 0 (format_nat n) = Some n"
proof (induction n rule: format_nat.induct)
  case (1 n)
  show ?case
  proof (cases "n < 10")
    case True
    then show ?thesis by (simp add: format_nat.simps digit_value_char)
  next
    case False
    with 1 show ?thesis
      by (subst format_nat.simps) (simp add: parse_nat_snoc digit_value_char)
  qed
qed

lemma format_nat_digits: "c \<in> set (format_nat n) \<Longrightarrow> \<exists>d < 10. c = digit_char d"
proof (induction n rule: format_nat.induct)
  case (1 n)
  have "n mod 10 < 10" by simp
  with 1 show ?case by (cases "n < 10") (auto simp: format_nat.simps [of n] simp del: mod_less_divisor)
qed

lemma format_nat_nonempty [simp]: "format_nat n \<noteq> []"
  by (subst format_nat.simps) simp

lemma digit_char_plain:
  assumes "d < 10"
  shows "digit_char d \<notin> {CHR ''-'', CHR ''+'', CHR 0x22, CHR '','', CHR ''*'', CHR '' ''}"
proof
  assume "digit_char d \<in> {CHR ''-'', CHR ''+'', CHR 0x22, CHR '','', CHR ''*'', CHR '' ''}"
  then have "(of_char (digit_char d) :: nat) < 48" by auto
  moreover have "(of_char (digit_char d) :: nat) = d + 48" using assms by (simp add: digit_char_def)
  ultimately show False by simp
qed

lemma ParseInt_FormatInt:
  assumes "0 \<le> i" "i < 2 ^ 63"
  shows "ParseInt (FormatInt i) = Some i"
proof -
  let ?s = "format_nat (nat i)"
  obtain c r where cr: "?s = c # r" by (cases ?s) auto
  then have "c \<in> set ?s" by simp
  then obtain d where "d < 10" "c = digit_char d" using format_nat_digits by blast
  then have "c \<noteq> CHR ''-''" "c \<noteq> CHR ''+''" using digit_char_plain by auto
  then have "(case ?s of c # r \<Rightarrow> if c = CHR ''-'' then (True, r) else if c = CHR ''+'' then (False, r) else (False, ?s)
      | [] \<Rightarrow> (False, ?s)) = (False, ?s)" by (simp add: cr)
  then show ?thesis using assms parse_format_nat [of "nat i"] by (simp add: ParseInt_def FormatInt_def Let_def)
qed

subsection \<open>Runes\<close>

definition cont_byte :: "nat \<Rightarrow> nat \<Rightarrow> char \<Rightarrow> bool" where
  "cont_byte lo hi c \<longleftrightarrow> (let n = of_char c in lo \<le> n \<and> n \<le> hi)"

text \<open>The width of the first rune; an invalid byte is a rune of one byte, decoded as U+FFFD.\<close>

definition rune_width :: "bytes \<Rightarrow> nat \<times> bool" where
  "rune_width s =
     (case s of
        [] \<Rightarrow> (0, False)
      | a # r \<Rightarrow>
          let n = (of_char a :: nat);
              cont = (\<lambda>k lo hi. k < length r \<and> cont_byte lo hi (r ! k));
              rest = cont 1 128 191 in
          if n < 128 then (1, True)
          else if 194 \<le> n \<and> n \<le> 223 \<and> cont 0 128 191 then (2, True)
          else if n = 224 \<and> cont 0 160 191 \<and> rest then (3, True)
          else if (225 \<le> n \<and> n \<le> 236 \<or> n = 238 \<or> n = 239) \<and> cont 0 128 191 \<and> rest then (3, True)
          else if n = 237 \<and> cont 0 128 159 \<and> rest then (3, True)
          else if n = 240 \<and> cont 0 144 191 \<and> rest \<and> cont 2 128 191 then (4, True)
          else if 241 \<le> n \<and> n \<le> 243 \<and> cont 0 128 191 \<and> rest \<and> cont 2 128 191 then (4, True)
          else if n = 244 \<and> cont 0 128 143 \<and> rest \<and> cont 2 128 191 then (4, True)
          else (1, False))"

definition replacement :: bytes where "replacement = [CHR 0xEF, CHR 0xBF, CHR 0xBD]"

lemma rune_width_bounds: "s \<noteq> [] \<Longrightarrow> 1 \<le> fst (rune_width s) \<and> fst (rune_width s) \<le> 4"
  by (auto simp: rune_width_def Let_def split: list.splits)

text \<open>The runes of a string as a \<open>range\<close> loop meets them, with whether the encoding was valid.\<close>

function decode_runes :: "bytes \<Rightarrow> (bytes \<times> bool) list" where
  "decode_runes s =
     (if s = [] then []
      else (take (fst (rune_width s)) s, snd (rune_width s)) # decode_runes (drop (fst (rune_width s)) s))"
  by pat_completeness auto
termination
proof (relation "measure length", goal_cases)
  case (2 s)
  then show ?case using rune_width_bounds [of s] by (cases s) auto
qed simp

declare decode_runes.simps [simp del]

text \<open>\<open>[]rune(s)\<close>, each rune as its encoding.\<close>

definition runes :: "bytes \<Rightarrow> bytes list" where
  "runes s = map (\<lambda>(r, valid). if valid then r else replacement) (decode_runes s)"

lemma decode_runes_length: "(r, v) \<in> set (decode_runes s) \<Longrightarrow> length r \<le> 4"
proof (induction s rule: decode_runes.induct)
  case (1 s)
  show ?case
  proof (cases "s = []")
    case True
    then have "decode_runes s = []" by (subst decode_runes.simps) simp
    with "1.prems" show ?thesis by simp
  next
    case False
    then have "r = take (fst (rune_width s)) s \<or> (r, v) \<in> set (decode_runes (drop (fst (rune_width s)) s))"
      using "1.prems" by (subst (asm) decode_runes.simps) auto
    then show ?thesis using False 1 rune_width_bounds [of s] by auto
  qed
qed

lemma runes_length: "r \<in> set (runes s) \<Longrightarrow> length r \<le> 4"
  using decode_runes_length by (fastforce simp: runes_def replacement_def)

subsection \<open>Quoting\<close>

text \<open>The verb \<open>%q\<close> on a string of printable runes and ASCII control characters.\<close>

definition quote_char :: "char \<Rightarrow> string" where
  "quote_char c =
     (let n = of_char c :: nat in
      if c = CHR 0x22 \<or> c = CHR 0x5C then [CHR 0x5C, c]
      else case map_of [(7, CHR ''a''), (8, CHR ''b''), (9, CHR ''t''), (10, CHR ''n''), (11, CHR ''v''), (12, CHR ''f''), (13, CHR ''r'')] n of
          Some e \<Rightarrow> [CHR 0x5C, e]
        | None \<Rightarrow>
            if n < 32 \<or> n = 127
            then [CHR 0x5C, CHR ''x'', ''0123456789abcdef'' ! (n div 16), ''0123456789abcdef'' ! (n mod 16)]
            else [c])"

definition Quote :: "string \<Rightarrow> string" where
  "Quote s = [CHR 0x22] @ concat (map quote_char s) @ [CHR 0x22]"

end
