(* ===== verification/SyncApi.thy ===== *)
theory SyncApi
  imports DryRun GoText
begin

text \<open>
  What \<open>orbeat-sync\<close> says to the server (\<open>internal/syncclient/api.go\<close>, \<open>httpcap.go\<close>) and to the
  identity provider when a session has to be renewed, and what it keeps in \<open>~/.config/orbeat\<close>
  (\<open>projects.go\<close>, \<open>pins.go\<close>, \<open>install.go\<close>, \<open>token.go\<close>, \<open>lock.go\<close>). A request is recorded when it is
  sent; the transport, the JSON codec, the clock and the operating system's answers for the small
  files are parameters. A state file is what decoding it gives.
\<close>

subsection \<open>Requests\<close>

record sync_config =
  scf_gateway :: string
  scf_registry :: bool
  scf_pinning :: bool

record pin =
  pin_artifact :: string
  pin_type :: string
  pin_name :: string
  pin_revision :: int

record report_item =
  ri_artifact :: string
  ri_revision :: int
  ri_pinned :: bool

record report_body =
  rb_install :: string
  rb_items :: "report_item list"

record deployment_report =
  dp_recorded :: int
  dp_dropped :: int

text \<open>\<open>hq_body\<close> is the body before its JSON encoding.\<close>

record http_request =
  hq_method :: string
  hq_url :: string
  hq_bearer :: string
  hq_body :: "report_body option"

text \<open>No answer at all, or a status and a body whose reading may fail.\<close>

datatype http_outcome = NoAnswer string | Answer int "string + bytes"

record api_env =
  ae_base :: string
  ae_do :: "http_request \<Rightarrow> http_outcome"
  ae_artifacts :: "bytes \<Rightarrow> string + artifact list"
  ae_config :: "bytes \<Rightarrow> string + sync_config"
  ae_report :: "bytes \<Rightarrow> string + deployment_report"

definition maxJSONBodyBytes :: int where "maxJSONBodyBytes = 1048576"

definition maxArtifactsBodyBytes :: int where "maxArtifactsBodyBytes = 16777216"

definition decodeJSONCapped :: "string + bytes \<Rightarrow> int \<Rightarrow> (bytes \<Rightarrow> string + 'a) \<Rightarrow> string + 'a" where
  "decodeJSONCapped body mx decode =
     (case body of
        Inl e \<Rightarrow> Inl (''read: '' @ e)
      | Inr data \<Rightarrow>
          if int (length data) > mx then Inl (''response body exceeds '' @ FormatInt mx @ '' bytes'')
          else (case decode data of Inl e \<Rightarrow> Inl (''decode: '' @ e) | Inr v \<Rightarrow> Inr v))"

definition dash :: bytes where "dash = [CHR 0xE2, CHR 0x80, CHR 0x94]"

definition authHint :: "int \<Rightarrow> bytes" where
  "authHint status =
     (if status = 401 \<or> status = 403 then '' (token rejected '' @ dash @ '' run 'orbeat-sync login')'' else [])"

text \<open>\<open>url.QueryEscape\<close> and \<open>url.Values.Encode\<close> for the one key \<open>pin\<close>.\<close>

definition query_escape :: "string \<Rightarrow> string" where
  "query_escape s = concat (map (\<lambda>c. let n = of_char c :: nat in
     if 48 \<le> n \<and> n \<le> 57 \<or> 65 \<le> n \<and> n \<le> 90 \<or> 97 \<le> n \<and> n \<le> 122 \<or> c \<in> set ''-_.~'' then [c]
     else if c = CHR '' '' then ''+''
     else [CHR ''%'', ''0123456789ABCDEF'' ! (n div 16), ''0123456789ABCDEF'' ! (n mod 16)]) s)"

definition pin_query :: "pin list \<Rightarrow> string" where
  "pin_query pins =
     (if pins = [] then []
      else CHR ''?'' # join_with (CHR ''&'')
        (map (\<lambda>p. ''pin='' @ query_escape (pin_artifact p @ '':'' @ FormatInt (pin_revision p))) pins))"

definition api_get :: "api_env \<Rightarrow> string \<Rightarrow> string \<Rightarrow> http_request" where
  "api_get ae path tok =
     \<lparr>hq_method = ''GET'', hq_url = trim_right {slash} (ae_base ae) @ path, hq_bearer = ''Bearer '' @ tok, hq_body = None\<rparr>"

definition artifacts_request :: "api_env \<Rightarrow> string \<Rightarrow> pin list \<Rightarrow> http_request" where
  "artifacts_request ae tok pins = api_get ae (''/v1/sync/artifacts'' @ pin_query pins) tok"

definition config_request :: "api_env \<Rightarrow> string \<Rightarrow> http_request" where
  "config_request ae tok = api_get ae ''/v1/sync/config'' tok"

definition answered :: "string \<Rightarrow> http_outcome \<Rightarrow> int \<Rightarrow> (bytes \<Rightarrow> string + 'a) \<Rightarrow> string + 'a" where
  "answered what out mx decode =
     (case out of
        NoAnswer e \<Rightarrow> Inl (what @ e)
      | Answer status body \<Rightarrow>
          if status \<noteq> 200 then Inl (what @ ''status '' @ FormatInt status @ authHint status)
          else (case decodeJSONCapped body mx decode of Inl e \<Rightarrow> Inl (what @ e) | Inr v \<Rightarrow> Inr v))"

definition FetchArtifacts :: "api_env \<Rightarrow> string \<Rightarrow> pin list \<Rightarrow> string + artifact list" where
  "FetchArtifacts ae tok pins =
     answered ''fetch artifacts: '' (ae_do ae (artifacts_request ae tok pins)) maxArtifactsBodyBytes (ae_artifacts ae)"

definition getSyncConfig :: "api_env \<Rightarrow> string \<Rightarrow> string + sync_config" where
  "getSyncConfig ae tok = answered [] (ae_do ae (config_request ae tok)) maxJSONBodyBytes (ae_config ae)"

definition FetchSyncConfig :: "api_env \<Rightarrow> string \<Rightarrow> string + sync_config" where
  "FetchSyncConfig ae tok =
     (case getSyncConfig ae tok of Inl e \<Rightarrow> Inl (''fetch sync config: '' @ e) | Inr c \<Rightarrow> Inr c)"

definition FetchGatewayURL :: "api_env \<Rightarrow> string \<Rightarrow> string + string" where
  "FetchGatewayURL ae tok =
     (case getSyncConfig ae tok of
        Inl e \<Rightarrow> Inl (''fetch gateway url: '' @ e)
      | Inr c \<Rightarrow>
          if scf_gateway c = [] then Inl ''fetch gateway url: server returned an empty gateway_url''
          else Inr (scf_gateway c))"

text \<open>\<open>pinned\<close> is a Go map from ids to bools: an id that is absent reads as false.\<close>

definition report_request :: "api_env \<Rightarrow> string \<Rightarrow> string \<Rightarrow> applied_artifact list \<Rightarrow> (string \<Rightarrow> bool) \<Rightarrow> http_request" where
  "report_request ae tok install applied pinned =
     \<lparr>hq_method = ''POST'', hq_url = trim_right {slash} (ae_base ae) @ ''/v1/sync/deployments'',
      hq_bearer = ''Bearer '' @ tok,
      hq_body = Some \<lparr>rb_install = install,
        rb_items = map (\<lambda>a. \<lparr>ri_artifact = ap_id a, ri_revision = ap_revision a, ri_pinned = pinned (ap_id a)\<rparr>) applied\<rparr>\<rparr>"

definition ReportDeployments ::
  "api_env \<Rightarrow> string \<Rightarrow> string \<Rightarrow> applied_artifact list \<Rightarrow> (string \<Rightarrow> bool) \<Rightarrow> string + deployment_report" where
  "ReportDeployments ae tok install applied pinned =
     answered ''report deployments: '' (ae_do ae (report_request ae tok install applied pinned)) maxJSONBodyBytes (ae_report ae)"

subsection \<open>The session\<close>

text \<open>
  The token set (\<open>token.go\<close>) and its refresh (\<open>auth.go\<close>, \<open>oidc.go\<close>). Requests to the identity
  provider carry a form; instants are nanoseconds.
\<close>

record token =
  tk_access :: string
  tk_refresh :: string
  tk_expiry :: int

record oauth_request =
  oq_method :: string
  oq_url :: string
  oq_form :: "(string \<times> string) list"

record metadata =
  md_device :: string
  md_token :: string
  md_authorization :: string

record token_resp =
  tq_access :: string
  tq_refresh :: string
  tq_expires :: int
  tq_error :: string
  tq_description :: string

datatype 'a state_file = NoFile | BadFile string | Holds 'a

text \<open>
  \<open>oi_save\<close>: why the token file cannot be written, and what it holds then if the attempt damaged it.
\<close>

record oidc_env =
  oi_discovery :: string
  oi_client :: string
  oi_now :: int
  oi_do :: "oauth_request \<Rightarrow> http_outcome"
  oi_metadata :: "bytes \<Rightarrow> string + metadata"
  oi_tokens :: "bytes \<Rightarrow> string + token_resp"
  oi_save :: "(string \<times> token state_file option) option"

definition expirySkew :: int where "expirySkew = 60 * 10 ^ 9"

definition token_Valid :: "oidc_env \<Rightarrow> token \<Rightarrow> bool" where
  "token_Valid oi t \<longleftrightarrow> tk_access t \<noteq> [] \<and> oi_now oi + expirySkew < tk_expiry t"

definition discovery_request :: "oidc_env \<Rightarrow> oauth_request" where
  "discovery_request oi = \<lparr>oq_method = ''GET'',
     oq_url = trim_right {slash} (oi_discovery oi) @ ''/.well-known/openid-configuration'', oq_form = []\<rparr>"

definition Discover :: "oidc_env \<Rightarrow> string + metadata" where
  "Discover oi =
     (case oi_do oi (discovery_request oi) of
        NoAnswer e \<Rightarrow> Inl (''oidc discovery: '' @ e)
      | Answer status body \<Rightarrow>
          if status \<noteq> 200 then Inl (''oidc discovery: status '' @ FormatInt status)
          else (case decodeJSONCapped body maxJSONBodyBytes (oi_metadata oi) of
              Inl e \<Rightarrow> Inl (''oidc discovery: '' @ e)
            | Inr m \<Rightarrow>
                if md_device m = [] \<or> md_token m = []
                then Inl ''oidc discovery: missing device_authorization_endpoint or token_endpoint''
                else Inr m))"

definition refresh_request :: "oidc_env \<Rightarrow> string \<Rightarrow> string \<Rightarrow> oauth_request" where
  "refresh_request oi endpoint refresh = \<lparr>oq_method = ''POST'', oq_url = endpoint,
     oq_form = [(''grant_type'', ''refresh_token''), (''refresh_token'', refresh), (''client_id'', oi_client oi)]\<rparr>"

definition poll :: "oidc_env \<Rightarrow> oauth_request \<Rightarrow> string + token_resp \<times> int" where
  "poll oi r =
     (case oi_do oi r of
        NoAnswer e \<Rightarrow> Inl (''token endpoint: '' @ e)
      | Answer status body \<Rightarrow>
          (case decodeJSONCapped body maxJSONBodyBytes (oi_tokens oi) of
             Inl e \<Rightarrow> Inl (''token endpoint: '' @ e)
           | Inr x \<Rightarrow> Inr (x, status)))"

definition tokenErrMsg :: "token_resp \<Rightarrow> int \<Rightarrow> string" where
  "tokenErrMsg x status =
     (if tq_error x \<noteq> [] \<and> tq_description x \<noteq> [] then tq_error x @ '': '' @ tq_description x
      else if tq_error x \<noteq> [] then tq_error x
      else if tq_description x \<noteq> [] then tq_description x
      else ''unexpected status '' @ FormatInt status)"

definition tokenFrom :: "oidc_env \<Rightarrow> token_resp \<Rightarrow> token" where
  "tokenFrom oi x = \<lparr>tk_access = tq_access x, tk_refresh = tq_refresh x, tk_expiry = oi_now oi + tq_expires x * 10 ^ 9\<rparr>"

definition Refresh :: "oidc_env \<Rightarrow> string \<Rightarrow> string \<Rightarrow> string + token" where
  "Refresh oi endpoint refresh =
     (case poll oi (refresh_request oi endpoint refresh) of
        Inl e \<Rightarrow> Inl e
      | Inr (x, status) \<Rightarrow>
          if status \<noteq> 200 \<or> tq_error x \<noteq> [] then Inl (''token refresh failed: '' @ tokenErrMsg x status)
          else Inr (tokenFrom oi x))"

subsection \<open>The machine\<close>

text \<open>
  \<open>mc_sent\<close> is what went to the API, \<open>mc_oauth\<close> what went to the identity provider; \<open>mc_dir\<close> and
  \<open>mc_lock_file\<close> say whether \<open>~/.config/orbeat\<close> and the lock file in it exist.
\<close>

record machine =
  mc_fs :: world
  mc_projects :: "project list state_file"
  mc_pins :: "pin list state_file"
  mc_install :: "string state_file"
  mc_token :: "token state_file"
  mc_dir :: bool
  mc_lock_file :: bool
  mc_sent :: "http_request list"
  mc_oauth :: "oauth_request list"

text \<open>
  \<open>me_lock\<close>: what the operating system answers to the attempt to take the run lock; \<open>me_save\<close>: why a
  state file cannot be written; \<open>me_cwd\<close>: the working directory; \<open>me_random\<close>: the sixteen bytes
  \<open>crypto/rand\<close> gives.
\<close>

datatype lock_answer = NoLockDir string | NoLockFile string | HeldByAnother | FlockFails string | LockTaken

record machine_env =
  me_env :: env
  me_api :: api_env
  me_oidc :: oidc_env
  me_lock :: lock_answer
  me_save :: "string \<Rightarrow> string option"
  me_cwd :: "string + string"
  me_random :: "string + nat list"

definition AcquireLock :: "machine_env \<Rightarrow> machine \<Rightarrow> string option \<times> machine" where
  "AcquireLock me mc =
     (let there = mc\<lparr>mc_dir := True, mc_lock_file := True\<rparr> in
      case me_lock me of
        NoLockDir e \<Rightarrow> (Some (''lock: mkdir: '' @ e), mc)
      | NoLockFile e \<Rightarrow> (Some (''lock: open: '' @ e), mc\<lparr>mc_dir := True\<rparr>)
      | HeldByAnother \<Rightarrow> (Some ''another orbeat-sync is running'', there)
      | FlockFails e \<Rightarrow> (Some (''lock: flock: '' @ e), there)
      | LockTaken \<Rightarrow> (None, there))"

definition acquireRunLock :: "machine_env \<Rightarrow> machine \<Rightarrow> string option \<times> machine" where
  "acquireRunLock me mc =
     (if home_dir (me_env me) = None then (Some ''token path: $HOME is not defined'', mc) else AcquireLock me mc)"

definition LoadToken :: "machine \<Rightarrow> string + token" where
  "LoadToken mc =
     (case mc_token mc of
        NoFile \<Rightarrow> Inl ''load token: no such file or directory''
      | BadFile e \<Rightarrow> Inl (''load token: '' @ e)
      | Holds t \<Rightarrow> Inr t)"

definition SaveToken :: "machine_env \<Rightarrow> token \<Rightarrow> machine \<Rightarrow> string option \<times> machine" where
  "SaveToken me t mc =
     (case oi_save (me_oidc me) of
        None \<Rightarrow> (None, mc\<lparr>mc_token := Holds t\<rparr>)
      | Some (e, left) \<Rightarrow>
          (Some (''save token: '' @ e), case left of None \<Rightarrow> mc | Some f \<Rightarrow> mc\<lparr>mc_token := f\<rparr>))"

text \<open>A refreshed token that cannot be saved is used for this run; the warning is only printed.\<close>

definition loadValidToken :: "machine_env \<Rightarrow> machine \<Rightarrow> (string + token) \<times> machine" where
  "loadValidToken me mc =
     (let oi = me_oidc me in
      case LoadToken mc of Inl e \<Rightarrow> (Inl (''not logged in (run 'orbeat-sync login'): '' @ e), mc) | Inr t \<Rightarrow>
      if token_Valid oi t then (Inr t, mc)
      else if tk_refresh t = [] then (Inl (''session expired; run 'orbeat-sync login'' @ [CHR 0x27]), mc)
      else
        let mc1 = mc\<lparr>mc_oauth := mc_oauth mc @ [discovery_request oi]\<rparr> in
        case Discover oi of Inl e \<Rightarrow> (Inl e, mc1) | Inr m \<Rightarrow>
        let mc2 = mc1\<lparr>mc_oauth := mc_oauth mc1 @ [refresh_request oi (md_token m) (tk_refresh t)]\<rparr> in
        case Refresh oi (md_token m) (tk_refresh t) of
          Inl e \<Rightarrow> (Inl (''session expired or the identity provider is unreachable; if this persists after checking connectivity, run 'orbeat-sync login': '' @ e), mc2)
        | Inr fresh \<Rightarrow> (Inr fresh, snd (SaveToken me fresh mc2)))"

definition Abs :: "machine_env \<Rightarrow> string \<Rightarrow> string + string" where
  "Abs me p = (if IsAbs p then Inr (Clean p) else case me_cwd me of Inl e \<Rightarrow> Inl e | Inr d \<Rightarrow> Inr (Join [d, p]))"

subsection \<open>Registered projects\<close>

definition validProjectPath :: "string \<Rightarrow> bool" where
  "validProjectPath p \<longleftrightarrow> p \<noteq> [] \<and> IsAbs p \<and> p = Clean p"

definition loadProjectsWithInvalid :: "machine \<Rightarrow> string + project list \<times> string list" where
  "loadProjectsWithInvalid mc =
     (case mc_projects mc of
        NoFile \<Rightarrow> Inr ([], [])
      | BadFile e \<Rightarrow> Inl (''load projects: '' @ e)
      | Holds es \<Rightarrow> Inr (filter (\<lambda>e. validProjectPath (pj_path e)) es,
          map pj_path (filter (\<lambda>e. \<not> validProjectPath (pj_path e)) es)))"

definition LoadProjects :: "machine \<Rightarrow> string + project list" where
  "LoadProjects mc = (case loadProjectsWithInvalid mc of Inl e \<Rightarrow> Inl e | Inr (valid, _) \<Rightarrow> Inr valid)"

definition ProjectPaths :: "project list \<Rightarrow> string list" where
  "ProjectPaths ps = map pj_path ps"

definition saveProjects :: "machine_env \<Rightarrow> project list \<Rightarrow> machine \<Rightarrow> string option \<times> machine" where
  "saveProjects me ps mc =
     (case me_save me ''projects.json'' of
        Some e \<Rightarrow> (Some (''save projects: '' @ e), mc)
      | None \<Rightarrow> (None, mc\<lparr>mc_projects := Holds (sort_key pj_path ps)\<rparr>))"

definition maxProjectTags :: nat where "maxProjectTags = 16"

fun distinct_tags :: "string list \<Rightarrow> string list \<Rightarrow> string + string list" where
  "distinct_tags [] out = Inr out"
| "distinct_tags (t # ts) out =
     (if \<not> artifactNameRe t then Inl (''tag '' @ Quote t @ '' must be a slug (lowercase, digits, dashes)'')
      else if t \<in> set out then distinct_tags ts out
      else distinct_tags ts (out @ [t]))"

definition normalizeTags :: "string list \<Rightarrow> string + string list" where
  "normalizeTags tags =
     (if tags = [] then Inr []
      else case distinct_tags tags [] of
          Inl e \<Rightarrow> Inl e
        | Inr out \<Rightarrow>
            if length out > maxProjectTags
            then Inl (''at most '' @ format_nat maxProjectTags @ '' tags per project, got '' @ format_nat (length out))
            else Inr (sort out))"

text \<open>The first entry of a path gets the tags; a path not listed is appended.\<close>

fun retag :: "string \<Rightarrow> string list \<Rightarrow> project list \<Rightarrow> project list" where
  "retag p tags [] = [\<lparr>pj_path = p, pj_tags = tags\<rparr>]"
| "retag p tags (x # xs) = (if pj_path x = p then x\<lparr>pj_tags := tags\<rparr> # xs else x # retag p tags xs)"

definition AddProject :: "machine_env \<Rightarrow> string \<Rightarrow> string list \<Rightarrow> machine \<Rightarrow> (string + string) \<times> machine" where
  "AddProject me proj tags mc =
     (case Abs me proj of Inl e \<Rightarrow> (Inl (''add project: '' @ e), mc) | Inr abs0 \<Rightarrow>
      let p = Clean abs0 in
      case os_Stat (me_env me) (mc_fs mc) p of
        Inl _ \<Rightarrow> (Inl (''add project: '' @ p), mc)
      | Inr nd \<Rightarrow>
          if nd \<noteq> Dir then (Inl (''add project: '' @ p @ '' is not a directory''), mc)
          else (case normalizeTags tags of Inl e \<Rightarrow> (Inl (''add project: '' @ e), mc) | Inr ts \<Rightarrow>
            case LoadProjects mc of Inl e \<Rightarrow> (Inl e, mc) | Inr ps \<Rightarrow>
            case saveProjects me (retag p ts ps) mc of
              (Some e, mc1) \<Rightarrow> (Inl e, mc1)
            | (None, mc1) \<Rightarrow> (Inr p, mc1)))"

definition ResolveRegisteredProject :: "machine_env \<Rightarrow> string \<Rightarrow> machine \<Rightarrow> string + string \<times> bool" where
  "ResolveRegisteredProject me proj mc =
     (case Abs me proj of Inl e \<Rightarrow> Inl (''remove project: '' @ e) | Inr abs0 \<Rightarrow>
      case LoadProjects mc of Inl e \<Rightarrow> Inl e
      | Inr ps \<Rightarrow> Inr (Clean abs0, Clean abs0 \<in> set (ProjectPaths ps)))"

definition RemoveProject :: "machine_env \<Rightarrow> string \<Rightarrow> machine \<Rightarrow> (string + string \<times> bool) \<times> machine" where
  "RemoveProject me proj mc =
     (case ResolveRegisteredProject me proj mc of
        Inl e \<Rightarrow> (Inl e, mc)
      | Inr (p, False) \<Rightarrow> (Inr (p, False), mc)
      | Inr (p, True) \<Rightarrow>
          (case LoadProjects mc of Inl e \<Rightarrow> (Inl e, mc) | Inr ps \<Rightarrow>
           case saveProjects me (filter (\<lambda>x. pj_path x \<noteq> p) ps) mc of
             (Some e, mc1) \<Rightarrow> (Inl e, mc1)
           | (None, mc1) \<Rightarrow> (Inr (p, True), mc1)))"

subsection \<open>Pins\<close>

definition LoadPins :: "machine \<Rightarrow> string + pin list" where
  "LoadPins mc =
     (case mc_pins mc of NoFile \<Rightarrow> Inr [] | BadFile e \<Rightarrow> Inl (''load pins: '' @ e) | Holds ps \<Rightarrow> Inr ps)"

definition savePins :: "machine_env \<Rightarrow> pin list \<Rightarrow> machine \<Rightarrow> string option \<times> machine" where
  "savePins me ps mc =
     (case me_save me ''pins.json'' of
        Some e \<Rightarrow> (Some (''save pins: '' @ e), mc)
      | None \<Rightarrow> (None, mc\<lparr>mc_pins := Holds (sort_key pin_artifact ps)\<rparr>))"

definition set_pin :: "pin \<Rightarrow> pin list \<Rightarrow> pin list" where
  "set_pin p ps =
     map (\<lambda>x. if pin_artifact x = pin_artifact p then p else x) ps @
     (if pin_artifact p \<in> pin_artifact ` set ps then [] else [p])"

definition SetPin :: "machine_env \<Rightarrow> pin \<Rightarrow> machine \<Rightarrow> string option \<times> machine" where
  "SetPin me p mc =
     (case LoadPins mc of Inl e \<Rightarrow> (Some e, mc) | Inr ps \<Rightarrow> savePins me (set_pin p ps) mc)"

definition RemovePin :: "machine_env \<Rightarrow> string \<Rightarrow> string \<Rightarrow> machine \<Rightarrow> (string + bool) \<times> machine" where
  "RemovePin me typ name mc =
     (case LoadPins mc of
        Inl e \<Rightarrow> (Inl e, mc)
      | Inr ps \<Rightarrow>
          let kept = filter (\<lambda>p. \<not> (pin_type p = typ \<and> pin_name p = name)) ps in
          if length kept = length ps then (Inr False, mc)
          else (case savePins me kept mc of
              (Some e, mc1) \<Rightarrow> (Inl e, mc1)
            | (None, mc1) \<Rightarrow> (Inr True, mc1)))"

subsection \<open>The install identity\<close>

definition is_hex :: "char \<Rightarrow> bool" where
  "is_hex c \<longleftrightarrow> c \<in> set ''0123456789abcdefABCDEF''"

text \<open>\<open>installIDRe\<close>: groups of 8, 4, 4, 4 and 12 hexadecimal digits.\<close>

definition installIDRe :: "string \<Rightarrow> bool" where
  "installIDRe s \<longleftrightarrow> (let gs = split_on (CHR ''-'') s in
     map length gs = [8, 4, 4, 4, 12] \<and> list_all (list_all is_hex) gs)"

definition LoadInstallID :: "machine \<Rightarrow> string + string" where
  "LoadInstallID mc =
     (case mc_install mc of
        NoFile \<Rightarrow> Inr []
      | BadFile e \<Rightarrow> Inl (''load install id: '' @ e)
      | Holds i \<Rightarrow>
          if \<not> installIDRe i then Inl (''load install id: install.json carries '' @ Quote i @ '', which is not a uuid'')
          else Inr i)"

definition newInstallID :: "nat list \<Rightarrow> string" where
  "newInstallID b =
     (let b1 = b[6 := b ! 6 mod 16 + 64, 8 := b ! 8 mod 64 + 128]; h = hex_encode b1 in
      take 8 h @ ''-'' @ take 4 (drop 8 h) @ ''-'' @ take 4 (drop 12 h) @ ''-'' @ take 4 (drop 16 h) @ ''-'' @ take 12 (drop 20 h))"

definition EnsureInstallID :: "machine_env \<Rightarrow> machine \<Rightarrow> (string + string) \<times> machine" where
  "EnsureInstallID me mc =
     (case LoadInstallID mc of Inl e \<Rightarrow> (Inl e, mc) | Inr i \<Rightarrow>
      if i \<noteq> [] then (Inr i, mc)
      else (case me_random me of Inl e \<Rightarrow> (Inl (''new install id: '' @ e), mc) | Inr b \<Rightarrow>
        case me_save me ''install.json'' of
          Some e \<Rightarrow> (Inl (''save install id: '' @ e), mc)
        | None \<Rightarrow> (Inr (newInstallID b), mc\<lparr>mc_install := Holds (newInstallID b)\<rparr>)))"

end
