(* ===== verification/SyncRun.thy ===== *)
theory SyncRun
  imports SyncApi
begin

text \<open>
  One run of \<open>orbeat-sync sync\<close> (\<open>cmd/orbeat-sync/main.go\<close>, \<open>outcome.go\<close>): the artifact fetch with
  its pins, the three reconcilers in a row, the exit contract, the deployment report, and the
  watch loop around it. Printing is left out; the outcome it prints is the value returned.
\<close>

subsection \<open>Errors and exit codes\<close>

datatype cmd_error =
    ExitError nat string
  | SyncFailed sync_error
  | General string

definition exitCode :: "cmd_error option \<Rightarrow> nat" where
  "exitCode err =
     (case err of
        None \<Rightarrow> 0
      | Some (ExitError code _) \<Rightarrow> code
      | Some (SyncFailed e) \<Rightarrow> if isFatal e then 2 else 1
      | Some (General _) \<Rightarrow> 1)"

fun sync_message :: "sync_error \<Rightarrow> string" where
  "sync_message (Fatal m) = m"
| "sync_message (Plain m) = m"

fun cmd_message :: "cmd_error \<Rightarrow> string" where
  "cmd_message (ExitError _ m) = m"
| "cmd_message (SyncFailed e) = sync_message e"
| "cmd_message (General m) = m"

subsection \<open>The outcome\<close>

record pin_outcome =
  po_name :: string
  po_requested :: int
  po_served :: int
  po_reason :: string

text \<open>A warning is a notice of a reconciler or a line about a pin.\<close>

datatype sync_warning = FromReconciler notice | AboutPin string

record artifacts_section =
  as_handled :: nat
  as_added :: nat
  as_updated :: nat
  as_unchanged :: nat
  as_removed :: nat
  as_skipped :: "string list"
  as_warnings :: "sync_warning list"
  as_failures :: "notice list"
  as_changes :: "change list"
  as_pins :: "pin_outcome list"

record blocks_section =
  bs_written :: nat
  bs_unchanged :: nat
  bs_stripped :: nat
  bs_warnings :: "notice list"
  bs_failures :: "notice list"
  bs_changes :: "change list"

record report_section =
  rs_recorded :: int
  rs_dropped :: int
  rs_warnings :: "string list"

record sync_outcome =
  so_exit :: nat
  so_fatal :: "string option"
  so_dry :: bool
  so_artifacts :: "artifacts_section option"
  so_seeds :: "blocks_section option"
  so_rules :: "blocks_section option"
  so_report :: "report_section option"
  so_restart :: bool

definition no_outcome :: "bool \<Rightarrow> sync_outcome" where
  "no_outcome dry = \<lparr>so_exit = 0, so_fatal = None, so_dry = dry, so_artifacts = None, so_seeds = None,
     so_rules = None, so_report = None, so_restart = False\<rparr>"

subsection \<open>The three reconcilers\<close>

text \<open>Each reconciler of a dry run has a plan of its own; a real run has none.\<close>

definition planned :: "bool \<Rightarrow> world \<Rightarrow> world" where
  "planned dry w = w\<lparr>plan := if dry then Some [] else None\<rparr>"

definition sectionChanges :: "world \<Rightarrow> change list" where
  "sectionChanges w =
     filter (\<lambda>c. Base (ch_path c) \<noteq> manifestName) (case plan w of None \<Rightarrow> [] | Some cs \<Rightarrow> cs)"

definition artifacts_of :: "reconcile_result \<Rightarrow> world \<Rightarrow> artifacts_section" where
  "artifacts_of res w = \<lparr>as_handled = rr_handled res, as_added = rr_added res, as_updated = rr_updated res,
     as_unchanged = rr_unchanged res, as_removed = rr_removed res, as_skipped = rr_skipped res,
     as_warnings = map FromReconciler (rr_warnings res), as_failures = rr_failures res,
     as_changes = sectionChanges w, as_pins = []\<rparr>"

definition seeds_of :: "seed_result \<Rightarrow> world \<Rightarrow> blocks_section" where
  "seeds_of res w = \<lparr>bs_written = sr_written res, bs_unchanged = sr_unchanged res, bs_stripped = sr_stripped res,
     bs_warnings = sr_warnings res, bs_failures = sr_failures res, bs_changes = sectionChanges w\<rparr>"

definition rules_of :: "rules_result \<Rightarrow> world \<Rightarrow> blocks_section" where
  "rules_of res w = \<lparr>bs_written = ru_written res, bs_unchanged = ru_unchanged res, bs_stripped = ru_stripped res,
     bs_warnings = ru_warnings res, bs_failures = ru_failures res, bs_changes = sectionChanges w\<rparr>"

definition restartHintNeeded :: "reconcile_result \<Rightarrow> bool" where
  "restartHintNeeded res \<longleftrightarrow> rr_added res > 0 \<or> rr_updated res > 0 \<or> rr_removed res > 0"

definition partial_failure :: cmd_error where
  "partial_failure =
     ExitError 1 ''some artifacts failed to sync (see the failures above); re-run when the condition clears''"

definition reconcileAll ::
  "env \<Rightarrow> string \<Rightarrow> project list \<Rightarrow> artifact list \<Rightarrow> bool \<Rightarrow> world \<Rightarrow>
   (sync_outcome \<times> applied_artifact list \<times> cmd_error option) \<times> world" where
  "reconcileAll env claudeDir projects arts dry w =
     (case Reconcile env claudeDir arts (planned dry w) of (err, res, w1) \<Rightarrow>
      let o1 = (no_outcome dry)\<lparr>so_artifacts := Some (artifacts_of res w1)\<rparr> in
      case err of Some e \<Rightarrow> ((o1, [], Some (ExitError 2 (sync_message e))), w1)
      | None \<Rightarrow>
     (case ReconcileSeeds env claudeDir (ProjectPaths projects) arts (planned dry w1) of (err2, sres, w2) \<Rightarrow>
      let o2 = o1\<lparr>so_seeds := Some (seeds_of sres w2)\<rparr> in
      case err2 of Some e \<Rightarrow> ((o2, rr_applied res, Some (ExitError 2 (sync_message e))), w2)
      | None \<Rightarrow>
     (case ReconcileRules env claudeDir projects arts (planned dry w2) of (err3, rres, w3) \<Rightarrow>
      let o3 = o2\<lparr>so_rules := Some (rules_of rres w3)\<rparr> in
      case err3 of Some e \<Rightarrow> ((o3, rr_applied res, Some (ExitError 2 (sync_message e))), w3)
      | None \<Rightarrow>
          let hadFailure = (rr_failures res \<noteq> [] \<or> sr_failures sres \<noteq> [] \<or> ru_failures rres \<noteq> []) in
          ((o3\<lparr>so_restart := restartHintNeeded res\<rparr>, rr_applied res @ ru_applied rres,
            if hadFailure \<and> \<not> dry then Some partial_failure else None), w3))))"

subsection \<open>Pins\<close>

text \<open>The maps are built in the order of the list: of two artifacts with one id the last one stays.\<close>

definition served_by_id :: "artifact list \<Rightarrow> string \<Rightarrow> artifact option" where
  "served_by_id arts i = List.find (\<lambda>a. art_id a = i) (rev arts)"

fun pinOutcomes :: "pin list \<Rightarrow> artifact list \<Rightarrow> string \<Rightarrow> pin_outcome list" where
  "pinOutcomes [] arts forced = []"
| "pinOutcomes (p # ps) arts forced =
     (case served_by_id arts (pin_artifact p) of
        None \<Rightarrow> pinOutcomes ps arts forced
      | Some a \<Rightarrow>
          let reason = (if forced = [] then art_pin_override a else forced) in
          if reason = [] then pinOutcomes ps arts forced
          else \<lparr>po_name = pin_type p @ ''/'' @ pin_name p, po_requested = pin_revision p,
                po_served = art_revision a, po_reason = reason\<rparr> # pinOutcomes ps arts forced)"

definition reportedPinned :: "pin list \<Rightarrow> artifact list \<Rightarrow> bool \<Rightarrow> string \<Rightarrow> bool" where
  "reportedPinned pins served supported i \<longleftrightarrow> supported \<and>
     (\<exists>p \<in> set pins. pin_artifact p = i \<and>
        (case served_by_id served i of None \<Rightarrow> False | Some a \<Rightarrow> art_pin_override a = []))"

definition pinOutcomeUnsupported :: string where "pinOutcomeUnsupported = ''unsupported''"

definition pinOutcomeUnknown :: string where "pinOutcomeUnknown = ''unknown''"

definition pinOutcomeWarning :: "pin_outcome \<Rightarrow> string" where
  "pinOutcomeWarning x =
     (let held = po_name x @ '': held at revision '' @ FormatInt (po_requested x); served = FormatInt (po_served x) in
      if po_reason x = pinOutcomeUnsupported
      then held @ '', but the server does not support pinning; this sync served revision '' @ served @ '' instead''
      else if po_reason x = pinOutcomeUnknown
      then held @ '', but could not determine whether the server supports pinning; this sync served revision '' @ served @ '' instead''
      else held @ '', this sync served revision '' @ served @ '' instead ('' @ po_reason x @ '')'')"

subsection \<open>The deployment report\<close>

definition reportWarning :: "string \<Rightarrow> report_section" where
  "reportWarning m = \<lparr>rs_recorded = 0, rs_dropped = 0, rs_warnings = [m]\<rparr>"

definition unidentifiedServed :: "artifact list \<Rightarrow> nat" where
  "unidentifiedServed arts = length (filter (\<lambda>a. art_id a = []) arts)"

record report_input =
  in_token :: string
  in_served :: "artifact list"
  in_applied :: "applied_artifact list"
  in_exit :: nat
  in_dry :: bool
  in_pins :: "pin list"
  in_scfg :: "string + sync_config"

definition post_report ::
  "machine_env \<Rightarrow> report_input \<Rightarrow> sync_config \<Rightarrow> string \<Rightarrow> machine \<Rightarrow> report_section option \<times> machine" where
  "post_report me i scfg install mc =
     (let pinned = reportedPinned (in_pins i) (in_served i) (scf_pinning scfg);
          mc1 = mc\<lparr>mc_sent := mc_sent mc @ [report_request (me_api me) (in_token i) install (in_applied i) pinned]\<rparr> in
      case ReportDeployments (me_api me) (in_token i) install (in_applied i) pinned of
        Inl e \<Rightarrow> (Some (reportWarning (''the deployment report did not reach '' @ ae_base (me_api me) @
          '', so what it holds about this machine is stale until a later sync succeeds: '' @ e)), mc1)
      | Inr r \<Rightarrow> (Some \<lparr>rs_recorded = dp_recorded r, rs_dropped = dp_dropped r, rs_warnings = []\<rparr>, mc1))"

definition reportDeployments :: "machine_env \<Rightarrow> report_input \<Rightarrow> machine \<Rightarrow> report_section option \<times> machine" where
  "reportDeployments me i mc =
     (if in_dry i \<or> in_exit i = 2 then (None, mc)
      else case in_scfg i of
          Inl e \<Rightarrow> (Some (reportWarning (''could not ask '' @ ae_base (me_api me) @
            '' whether it records deployments, so nothing was reported: '' @ e)), mc)
        | Inr scfg \<Rightarrow>
            if \<not> scf_registry scfg then (None, mc)
            else if unidentifiedServed (in_served i) > 0
            then (Some (reportWarning (''nothing was reported: this server records deployments but did not identify '' @
              format_nat (unidentifiedServed (in_served i)) @
              '' of the artifact(s) it served, and a report built from them would read as a de-entitlement'')), mc)
            else if home_dir (me_env me) = None
            then (Some (reportWarning ''nothing was reported: install path: $HOME is not defined''), mc)
            else (case EnsureInstallID me mc of
                (Inl e, mc1) \<Rightarrow> (Some (reportWarning (''nothing was reported: '' @ e)), mc1)
              | (Inr install, mc1) \<Rightarrow> post_report me i scfg install mc1))"

subsection \<open>A whole run\<close>

text \<open>What a server that cannot be asked, or that does not keep pins, means for the fetch.\<close>

definition withheld :: "pin list \<Rightarrow> string + sync_config \<Rightarrow> pin list \<times> string" where
  "withheld pins scfg =
     (case scfg of
        Inl _ \<Rightarrow> ([], pinOutcomeUnknown)
      | Inr c \<Rightarrow> if \<not> scf_pinning c then ([], pinOutcomeUnsupported) else (pins, []))"

definition sent :: "http_request \<Rightarrow> machine \<Rightarrow> machine" where
  "sent r mc = mc\<lparr>mc_sent := mc_sent mc @ [r]\<rparr>"

text \<open>From the reply on: the reconcilers, the pin lines, the report.\<close>

definition sync_apply ::
  "machine_env \<Rightarrow> bool \<Rightarrow> string \<Rightarrow> string \<Rightarrow> project list \<Rightarrow> artifact list \<Rightarrow> pin list \<Rightarrow> string + sync_config \<Rightarrow>
   machine \<Rightarrow> (sync_outcome \<times> cmd_error option) \<times> machine" where
  "sync_apply me dry tok claudeDir projects arts pins scfg mc =
     (case reconcileAll (me_env me) claudeDir projects arts dry (mc_fs mc) of ((out, applied, err), w1) \<Rightarrow>
      let mc1 = mc\<lparr>mc_fs := planned False w1\<rparr>;
          code = exitCode err;
          lines = pinOutcomes pins arts (snd (withheld pins scfg));
          out1 = out\<lparr>so_exit := code,
            so_fatal := (if err \<noteq> None \<and> code = 2 then map_option cmd_message err else None),
            so_artifacts := map_option (\<lambda>a. a\<lparr>as_pins := lines,
              as_warnings := as_warnings a @ map (AboutPin \<circ> pinOutcomeWarning) lines\<rparr>) (so_artifacts out)\<rparr> in
      case reportDeployments me \<lparr>in_token = tok, in_served = arts, in_applied = applied, in_exit = code,
             in_dry = dry, in_pins = pins, in_scfg = scfg\<rparr> mc1 of
        (rep, mc2) \<Rightarrow> ((out1\<lparr>so_report := rep\<rparr>, err), mc2))"

definition no_home :: "string \<Rightarrow> cmd_error" where
  "no_home what = General (what @ ''$HOME is not defined'')"

definition syncOnce :: "machine_env \<Rightarrow> bool \<Rightarrow> machine \<Rightarrow> (sync_outcome option \<times> cmd_error option) \<times> machine" where
  "syncOnce me dry mc =
     (case acquireRunLock me mc of (Some e, mc0) \<Rightarrow> ((None, Some (General e)), mc0) | (None, mc0) \<Rightarrow>
      case home_dir (me_env me) of None \<Rightarrow> ((None, Some (no_home ''token path: '')), mc0) | Some home \<Rightarrow>
      case loadValidToken me mc0 of (Inl e, mc1) \<Rightarrow> ((None, Some (General e)), mc1) | (Inr t, mc1) \<Rightarrow>
      let tok = tk_access t; scfg = FetchSyncConfig (me_api me) tok; mc2 = sent (config_request (me_api me) tok) mc1 in
      case LoadPins mc2 of Inl e \<Rightarrow> ((None, Some (General e)), mc2) | Inr pins \<Rightarrow>
      let sendPins = fst (withheld pins scfg); mc3 = sent (artifacts_request (me_api me) tok sendPins) mc2 in
      case FetchArtifacts (me_api me) tok sendPins of Inl e \<Rightarrow> ((None, Some (General e)), mc3) | Inr arts \<Rightarrow>
      case LoadProjects mc3 of Inl e \<Rightarrow> ((None, Some (General e)), mc3) | Inr projects \<Rightarrow>
      case sync_apply me dry tok (Join [home, ''.claude'']) projects arts pins scfg mc3 of
        ((out, err), mc4) \<Rightarrow> ((Some out, err), mc4))"

subsection \<open>The watch loop\<close>

text \<open>
  What the waits of the loop end with: \<open>True\<close> the ticker, \<open>False\<close> the cancelled context. \<open>None\<close> is
  a loop that is still waiting when the list ends.
\<close>

fun watchLoop :: "('s \<Rightarrow> cmd_error option \<times> 's) \<Rightarrow> bool list \<Rightarrow> 's \<Rightarrow> cmd_error option option \<times> 's" where
  "watchLoop run waits s =
     (case run s of (err, s1) \<Rightarrow>
        if exitCode err = 2 then (Some err, s1)
        else (case waits of
            [] \<Rightarrow> (None, s1)
          | True # ws \<Rightarrow> watchLoop run ws s1
          | False # ws \<Rightarrow> (Some None, s1)))"

end
