(* ===== verification/SyncRunProofs.thy ===== *)
theory SyncRunProofs
  imports SyncRun
begin

text \<open>
  What one run of the sync client promises: a dry run leaves the machine and the server as they
  were, a report tells the server only what this run applied, and the watch loop follows the exit
  contract.
\<close>

subsection \<open>Dry runs\<close>

lemma nodes_planned [simp]: "nodes (planned dry w) = nodes w"
  by (simp add: planned_def)

lemma active_planned [simp]: "active (planned dry w) = dry"
  by (simp add: planned_def active_def)

lemma reconcileAll_dry:
  assumes "reconcileAll env claudeDir projects arts True w = (x, w')"
  shows "nodes w' = nodes w"
proof -
  obtain err res w1 where a: "Reconcile env claudeDir arts (planned True w) = (err, res, w1)" by (metis prod_cases3)
  obtain err2 sres w2 where b: "ReconcileSeeds env claudeDir (ProjectPaths projects) arts (planned True w1) = (err2, sres, w2)"
    by (metis prod_cases3)
  obtain err3 rres w3 where c: "ReconcileRules env claudeDir projects arts (planned True w2) = (err3, rres, w3)"
    by (metis prod_cases3)
  have w1: "nodes w1 = nodes w" using Reconcile_dry_run [OF _ a] by simp
  have w2: "nodes w2 = nodes w1"
    using passes_dry_run [of "planned True w1" env claudeDir projects arts "ProjectPaths projects"] b by simp
  have w3: "nodes w3 = nodes w2"
    using passes_dry_run [of "planned True w2" env claudeDir projects arts "ProjectPaths projects"] c by simp
  show ?thesis
    using assms w1 w2 w3 by (auto simp: reconcileAll_def a b c Let_def split: option.splits)
qed

lemma reconcileAll_outcome:
  assumes "reconcileAll env claudeDir projects arts dry w = ((out, applied, err), w')"
  shows "so_dry out = dry" "exitCode err \<in> {0, 1, 2}" "so_artifacts out \<noteq> None"
    "exitCode err \<noteq> 2 \<Longrightarrow> \<exists>e1 res w1 e2 sres w2 rres.
       Reconcile env claudeDir arts (planned dry w) = (None, res, w1) \<and>
       ReconcileSeeds env claudeDir (ProjectPaths projects) arts (planned dry w1) = (None, sres, w2) \<and>
       ReconcileRules env claudeDir projects arts (planned dry w2) = (None, rres, w') \<and>
       applied = rr_applied res @ ru_applied rres"
  using assms
  by (auto simp: reconcileAll_def no_outcome_def exitCode_def partial_failure_def Let_def split: prod.splits option.splits if_splits)

subsection \<open>The stages of a run\<close>

text \<open>What a run has when it starts to talk to the server: the session, and the machine by then.\<close>

definition run_session :: "machine_env \<Rightarrow> machine \<Rightarrow> (string + token) \<times> machine" where
  "run_session me mc = loadValidToken me (snd (acquireRunLock me mc))"

text \<open>Neither the lock nor the session touches anything but the files they are for.\<close>

definition settled :: "machine \<Rightarrow> machine \<Rightarrow> bool" where
  "settled mc mc1 \<longleftrightarrow> mc_fs mc1 = mc_fs mc \<and> mc_projects mc1 = mc_projects mc \<and> mc_pins mc1 = mc_pins mc \<and>
     mc_install mc1 = mc_install mc \<and> mc_sent mc1 = mc_sent mc"

text \<open>
  What happened to the session: nothing, or the stored token was no longer valid and it was asked to
  be renewed, with a discovery and at most one request that presents its refresh token; then the
  token file is as it was, holds what the identity provider answered, or is what a failed write left.
\<close>

definition session_renewed :: "machine_env \<Rightarrow> machine \<Rightarrow> machine \<Rightarrow> bool" where
  "session_renewed me mc mc1 \<longleftrightarrow>
     (\<exists>t. mc_token mc = Holds t \<and> \<not> token_Valid (me_oidc me) t \<and>
        (mc_oauth mc1 = mc_oauth mc @ [discovery_request (me_oidc me)] \<and> mc_token mc1 = mc_token mc \<or>
         (\<exists>m. Discover (me_oidc me) = Inr m \<and>
            mc_oauth mc1 = mc_oauth mc @ [discovery_request (me_oidc me), refresh_request (me_oidc me) (md_token m) (tk_refresh t)] \<and>
            (mc_token mc1 = mc_token mc \<or>
             (\<exists>t'. Refresh (me_oidc me) (md_token m) (tk_refresh t) = Inr t' \<and> mc_token mc1 = Holds t') \<or>
             (\<exists>e f. oi_save (me_oidc me) = Some (e, Some f) \<and> mc_token mc1 = f)))))"

definition session_kept :: "machine_env \<Rightarrow> machine \<Rightarrow> machine \<Rightarrow> bool" where
  "session_kept me mc mc1 \<longleftrightarrow>
     mc_token mc1 = mc_token mc \<and> mc_oauth mc1 = mc_oauth mc \<or> session_renewed me mc mc1"

lemma acquire_settled: "settled mc (snd (acquireRunLock me mc))" "mc_token (snd (acquireRunLock me mc)) = mc_token mc"
  "mc_oauth (snd (acquireRunLock me mc)) = mc_oauth mc"
  by (simp_all add: acquireRunLock_def AcquireLock_def settled_def Let_def split: lock_answer.split)

lemma load_settled: "loadValidToken me mc = (x, mc1) \<Longrightarrow> settled mc mc1"
  by (auto simp: loadValidToken_def SaveToken_def settled_def Let_def split: sum.splits option.splits if_splits)

lemma load_session:
  assumes "loadValidToken me mc = (x, mc1)"
  shows "session_kept me mc mc1"
proof (cases "LoadToken mc")
  case (Inl e)
  with assms show ?thesis by (simp add: loadValidToken_def session_kept_def)
next
  case (Inr t)
  then have h: "mc_token mc = Holds t" by (simp add: LoadToken_def split: state_file.splits)
  show ?thesis
  proof (cases "token_Valid (me_oidc me) t \<or> tk_refresh t = []")
    case True
    with assms Inr show ?thesis by (auto simp: loadValidToken_def session_kept_def Let_def split: if_splits)
  next
    case False
    let ?oi = "me_oidc me"
    have n: "\<not> token_Valid ?oi t" "tk_refresh t \<noteq> []" using False by simp_all
    have "session_renewed me mc mc1"
    proof (cases "Discover ?oi")
      case (Inl e)
      with assms Inr n have "mc1 = mc\<lparr>mc_oauth := mc_oauth mc @ [discovery_request ?oi]\<rparr>"
        by (simp add: loadValidToken_def Let_def)
      with h n show ?thesis by (simp add: session_renewed_def)
    next
      case d: (Inr m)
      define mc2 where "mc2 = mc\<lparr>mc_oauth := mc_oauth mc @ [discovery_request ?oi, refresh_request ?oi (md_token m) (tk_refresh t)]\<rparr>"
      have "snd (loadValidToken me mc) = (case Refresh ?oi (md_token m) (tk_refresh t) of Inl e \<Rightarrow> mc2 | Inr fresh \<Rightarrow> snd (SaveToken me fresh mc2))"
        using Inr n d by (simp add: loadValidToken_def Let_def mc2_def split: sum.split)
      with assms have run: "mc1 = (case Refresh ?oi (md_token m) (tk_refresh t) of Inl e \<Rightarrow> mc2 | Inr fresh \<Rightarrow> snd (SaveToken me fresh mc2))"
        by simp
      show ?thesis
      proof (cases "Refresh ?oi (md_token m) (tk_refresh t)")
        case (Inl e)
        with run d h n show ?thesis by (simp add: session_renewed_def mc2_def)
      next
        case (Inr t')
        with run d h n show ?thesis
          by (cases "oi_save ?oi") (auto simp: session_renewed_def SaveToken_def mc2_def split: option.splits)
      qed
    qed
    then show ?thesis by (simp add: session_kept_def)
  qed
qed

lemma run_session_facts:
  assumes "run_session me mc = (x, mc1)"
  shows "settled mc mc1" "session_kept me mc mc1"
proof -
  from assms have l: "loadValidToken me (snd (acquireRunLock me mc)) = (x, mc1)" by (simp add: run_session_def)
  from load_settled [OF l] acquire_settled(1) [where mc = mc and me = me] show "settled mc mc1" by (simp add: settled_def)
  from load_session [OF l] show "session_kept me mc mc1"
    by (simp add: session_kept_def session_renewed_def acquire_settled(2,3))
qed

lemma settled_loads: "settled mc mc1 \<Longrightarrow> LoadPins mc1 = LoadPins mc \<and> LoadProjects mc1 = LoadProjects mc"
  by (simp add: settled_def LoadPins_def LoadProjects_def loadProjectsWithInvalid_def)

text \<open>The machine when the artifacts have been asked for.\<close>

abbreviation asked :: "machine_env \<Rightarrow> string \<Rightarrow> pin list \<Rightarrow> machine \<Rightarrow> machine" where
  "asked me tok pins mc1 \<equiv>
     sent (artifacts_request (me_api me) tok (fst (withheld pins (FetchSyncConfig (me_api me) tok))))
       (sent (config_request (me_api me) tok) mc1)"

lemma syncOnce_cases:
  assumes "syncOnce me dry mc = ((out, err), mc')"
  obtains "out = None" "settled mc mc'" "session_kept me mc mc'"
  | t mc1 where "run_session me mc = (Inr t, mc1)" "out = None" "mc' = sent (config_request (me_api me) (tk_access t)) mc1"
  | t mc1 pins where "run_session me mc = (Inr t, mc1)" "LoadPins mc = Inr pins" "out = None"
      "mc' = asked me (tk_access t) pins mc1"
  | home t mc1 pins arts projects out' where
      "home_dir (me_env me) = Some home" "run_session me mc = (Inr t, mc1)" "LoadPins mc = Inr pins" "out = Some out'"
      "FetchArtifacts (me_api me) (tk_access t) (fst (withheld pins (FetchSyncConfig (me_api me) (tk_access t)))) = Inr arts"
      "LoadProjects mc = Inr projects"
      "sync_apply me dry (tk_access t) (Join [home, ''.claude'']) projects arts pins (FetchSyncConfig (me_api me) (tk_access t))
         (asked me (tk_access t) pins mc1) = ((out', err), mc')"
proof -
  have l: "LoadPins (sent r m) = LoadPins m" "LoadProjects (sent r m) = LoadProjects m" for r m
    by (simp_all add: LoadPins_def LoadProjects_def loadProjectsWithInvalid_def sent_def)
  obtain le mc0 where lk: "acquireRunLock me mc = (le, mc0)" by fastforce
  obtain x mc1 where tk: "loadValidToken me mc0 = (x, mc1)" by fastforce
  have rs: "run_session me mc = (x, mc1)" using lk tk by (simp add: run_session_def)
  note S = run_session_facts [OF rs]
  from settled_loads [OF S(1)] have ld: "LoadPins mc1 = LoadPins mc" "LoadProjects mc1 = LoadProjects mc" by simp_all
  show thesis
  proof (cases "le = None \<and> home_dir (me_env me) \<noteq> None")
    case False
    then have "out = None" "mc' = mc0" using assms lk by (auto simp: syncOnce_def split: option.splits)
    with that(1) acquire_settled [where mc = mc and me = me] lk show thesis by (simp add: session_kept_def)
  next
    case True
    then obtain home where hm: "home_dir (me_env me) = Some home" "le = None" by blast
    show thesis
    proof (cases x)
      case (Inl e)
      with lk hm tk assms S that(1) show thesis by (simp add: syncOnce_def)
    next
      case x: (Inr t)
      note b = lk hm tk x l ld
      note rs = rs [unfolded x]
      show thesis
      proof (cases "LoadPins mc")
        case (Inl e)
        with b assms that(2) [OF rs] show thesis by (simp add: syncOnce_def Let_def)
      next
        case pn: (Inr pins)
        show thesis
        proof (cases "FetchArtifacts (me_api me) (tk_access t) (fst (withheld pins (FetchSyncConfig (me_api me) (tk_access t))))")
          case (Inl e)
          with b pn assms that(3) [OF rs] show thesis by (simp add: syncOnce_def Let_def)
        next
          case ar: (Inr arts)
          show thesis
          proof (cases "LoadProjects mc")
            case (Inl e)
            with b pn ar assms that(3) [OF rs] show thesis by (simp add: syncOnce_def Let_def)
          next
            case pj: (Inr projects)
            with b pn ar assms that(4) [OF hm(1) rs pn _ ar pj] show thesis
              by (auto simp: syncOnce_def Let_def split: prod.splits)
          qed
        qed
      qed
    qed
  qed
qed

lemma report_dry: "in_dry i \<Longrightarrow> reportDeployments me i mc = (None, mc)"
  by (simp add: reportDeployments_def)

lemma sync_apply_dry:
  assumes "sync_apply me True tok claudeDir projects arts pins scfg mc = ((out, err), mc')"
  obtains w1 where "nodes w1 = nodes (mc_fs mc)" "mc' = mc\<lparr>mc_fs := w1\<rparr>" "so_report out = None" "so_dry out"
proof -
  obtain out0 applied err0 w1 where r: "reconcileAll (me_env me) claudeDir projects arts True (mc_fs mc) = ((out0, applied, err0), w1)"
    by (metis surj_pair)
  define i where "i = \<lparr>in_token = tok, in_served = arts, in_applied = applied, in_exit = exitCode err0, in_dry = True,
    in_pins = pins, in_scfg = scfg\<rparr>"
  have i: "reportDeployments me i m = (None, m)" for m by (simp add: i_def report_dry)
  from assms have "((out, err), mc') = sync_apply me True tok claudeDir projects arts pins scfg mc" by simp
  also have "\<dots> = ((out0\<lparr>so_exit := exitCode err0,
      so_fatal := (if err0 \<noteq> None \<and> exitCode err0 = 2 then map_option cmd_message err0 else None),
      so_artifacts := map_option (\<lambda>a. a\<lparr>as_pins := pinOutcomes pins arts (snd (withheld pins scfg)),
        as_warnings := as_warnings a @ map (AboutPin \<circ> pinOutcomeWarning) (pinOutcomes pins arts (snd (withheld pins scfg)))\<rparr>)
        (so_artifacts out0),
      so_report := None\<rparr>, err0), mc\<lparr>mc_fs := planned False w1\<rparr>)"
    unfolding sync_apply_def r Let_def prod.case i_def [symmetric] i ..
  finally have e: "out = out0\<lparr>so_exit := exitCode err0,
      so_fatal := (if err0 \<noteq> None \<and> exitCode err0 = 2 then map_option cmd_message err0 else None),
      so_artifacts := map_option (\<lambda>a. a\<lparr>as_pins := pinOutcomes pins arts (snd (withheld pins scfg)),
        as_warnings := as_warnings a @ map (AboutPin \<circ> pinOutcomeWarning) (pinOutcomes pins arts (snd (withheld pins scfg)))\<rparr>)
        (so_artifacts out0),
      so_report := None\<rparr>" "mc' = mc\<lparr>mc_fs := planned False w1\<rparr>"
    by (blast dest: prod.inject [THEN iffD1])+
  show thesis
  proof (rule that)
    show "mc' = mc\<lparr>mc_fs := planned False w1\<rparr>" by (rule e(2))
    show "so_report out = None" "so_dry out" using reconcileAll_outcome(1) [OF r] by (simp_all add: e(1))
    show "nodes (planned False w1) = nodes (mc_fs mc)" using reconcileAll_dry [OF r] by simp
  qed
qed


subsection \<open>What the server is told\<close>

lemma EnsureInstallID_sent: "EnsureInstallID me mc = (x, mc1) \<Longrightarrow> mc_sent mc1 = mc_sent mc"
  by (auto simp: EnsureInstallID_def split: sum.splits option.splits if_splits)

lemma post_report_sent:
  "post_report me i scfg install mc = (rep, mc') \<Longrightarrow>
   mc_sent mc' = mc_sent mc @ [report_request (me_api me) (in_token i) install (in_applied i)
     (reportedPinned (in_pins i) (in_served i) (scf_pinning scfg))]"
  by (auto simp: post_report_def Let_def split: sum.splits)

lemma report_sent:
  assumes "reportDeployments me i mc = (rep, mc')"
  obtains "mc_sent mc' = mc_sent mc"
  | scfg install where "\<not> in_dry i" "in_exit i \<noteq> 2" "in_scfg i = Inr scfg" "scf_registry scfg"
      "\<forall>a \<in> set (in_served i). art_id a \<noteq> []"
      "mc_sent mc' = mc_sent mc @ [report_request (me_api me) (in_token i) install (in_applied i)
         (reportedPinned (in_pins i) (in_served i) (scf_pinning scfg))]"
proof (cases "in_dry i \<or> in_exit i = 2")
  case True
  with assms that(1) show thesis by (simp add: reportDeployments_def)
next
  case nd: False
  show thesis
  proof (cases "in_scfg i")
    case (Inl e)
    with assms nd that(1) show thesis by (simp add: reportDeployments_def)
  next
    case (Inr scfg)
    show thesis
    proof (cases "scf_registry scfg \<and> unidentifiedServed (in_served i) = 0 \<and> home_dir (me_env me) \<noteq> None")
      case False
      with assms nd Inr that(1) show thesis by (auto simp: reportDeployments_def split: if_splits)
    next
      case True
      obtain x mc1 where e: "EnsureInstallID me mc = (x, mc1)" by fastforce
      from True have ids: "\<forall>a \<in> set (in_served i). art_id a \<noteq> []"
        by (simp add: unidentifiedServed_def filter_empty_conv)
      show thesis
      proof (cases x)
        case (Inl m)
        with assms nd Inr True e EnsureInstallID_sent [OF e] that(1) show thesis by (simp add: reportDeployments_def)
      next
        case x: (Inr install)
        from assms nd Inr True e x have "post_report me i scfg install mc1 = (rep, mc')" by (simp add: reportDeployments_def)
        from post_report_sent [OF this] EnsureInstallID_sent [OF e] True ids nd Inr that(2) show thesis by simp
      qed
    qed
  qed
qed

lemma sync_apply_sent:
  assumes "sync_apply me dry tok claudeDir projects arts pins scfg mc = ((out, err), mc')"
  obtains "mc_sent mc' = mc_sent mc"
  | c install applied w1 out0 where "\<not> dry" "exitCode err \<noteq> 2" "scfg = Inr c" "scf_registry c"
      "\<forall>a \<in> set arts. art_id a \<noteq> []"
      "reconcileAll (me_env me) claudeDir projects arts dry (mc_fs mc) = ((out0, applied, err), w1)"
      "mc_sent mc' = mc_sent mc @ [report_request (me_api me) tok install applied (reportedPinned pins arts (scf_pinning c))]"
proof -
  obtain out0 applied err0 w1 where r: "reconcileAll (me_env me) claudeDir projects arts dry (mc_fs mc) = ((out0, applied, err0), w1)"
    by (metis surj_pair)
  define i where "i = \<lparr>in_token = tok, in_served = arts, in_applied = applied, in_exit = exitCode err0, in_dry = dry,
    in_pins = pins, in_scfg = scfg\<rparr>"
  obtain rep mc2 where d: "reportDeployments me i (mc\<lparr>mc_fs := planned False w1\<rparr>) = (rep, mc2)" by fastforce
  have "snd (fst (sync_apply me dry tok claudeDir projects arts pins scfg mc)) = err0 \<and>
      snd (sync_apply me dry tok claudeDir projects arts pins scfg mc) = mc2"
    unfolding sync_apply_def r Let_def prod.case i_def [symmetric] d by simp
  with assms have e: "err = err0" "mc' = mc2" by simp_all
  from d show thesis
  proof (cases rule: report_sent)
    case 1
    with e that(1) show thesis by simp
  next
    case (2 c install)
    have i: "in_dry i = dry" "in_exit i = exitCode err0" "in_scfg i = scfg" "in_served i = arts" "in_token i = tok"
      "in_applied i = applied" "in_pins i = pins" by (simp_all add: i_def)
    show thesis
      by (rule that(2) [of c out0 applied w1 install]) (use 2 r in \<open>simp_all add: i e\<close>)
  qed
qed

text \<open>The pins a run may put on the wire: all of them, or none when the server did not offer it.\<close>

definition pins_offered :: "pin list \<Rightarrow> string + sync_config \<Rightarrow> pin list" where
  "pins_offered pins scfg = (case scfg of Inl _ \<Rightarrow> [] | Inr c \<Rightarrow> if scf_pinning c then pins else [])"

lemma withheld_offered: "fst (withheld pins scfg) = pins_offered pins scfg"
  by (simp add: withheld_def pins_offered_def split: sum.splits)

text \<open>
  What a report has to be true of: this run was real and no reconciler aborted, the server records
  deployments and identified all it served, and the items are what the file and the rules reconciler
  applied in this very run, marked pinned only where an advertised pin was served as asked.
\<close>

definition truthful_report :: "machine_env \<Rightarrow> bool \<Rightarrow> machine \<Rightarrow> report_body \<Rightarrow> bool" where
  "truthful_report me dry mc b \<longleftrightarrow> \<not> dry \<and>
     (\<exists>t tok c pins arts projects home res w1 sres w2 rres w3.
        fst (run_session me mc) = Inr t \<and> tok = tk_access t \<and> home_dir (me_env me) = Some home \<and> FetchSyncConfig (me_api me) tok = Inr c \<and>
        scf_registry c \<and> LoadPins mc = Inr pins \<and> LoadProjects mc = Inr projects \<and>
        FetchArtifacts (me_api me) tok (pins_offered pins (Inr c)) = Inr arts \<and> (\<forall>a \<in> set arts. art_id a \<noteq> []) \<and>
        Reconcile (me_env me) (Join [home, ''.claude'']) arts (planned False (mc_fs mc)) = (None, res, w1) \<and>
        ReconcileSeeds (me_env me) (Join [home, ''.claude'']) (ProjectPaths projects) arts (planned False w1) = (None, sres, w2) \<and>
        ReconcileRules (me_env me) (Join [home, ''.claude'']) projects arts (planned False w2) = (None, rres, w3) \<and>
        map (\<lambda>x. (ri_artifact x, ri_revision x)) (rb_items b) =
          map (\<lambda>a. (ap_id a, ap_revision a)) (rr_applied res @ ru_applied rres) \<and>
        (\<forall>x \<in> set (rb_items b). ri_pinned x = reportedPinned pins arts (scf_pinning c) (ri_artifact x)))"

text \<open>
  C9. The server is told facts: every request of a sync run is the configuration request, an artifact
  request that carries the pins only when this run learned that the server keeps pins, or a
  deployment report; and a report (a replace, which would read as a de-entitlement if it were short)
  is filed only by a real run that no reconciler aborted, to a server that records deployments and
  identified every artifact, and lists exactly what this run applied.
\<close>

theorem server_told_facts:
  assumes "syncOnce me dry mc = ((out, err), mc')"
  shows "\<exists>new. mc_sent mc' = mc_sent mc @ new \<and>
    list_all (\<lambda>r. case hq_body r of
        None \<Rightarrow> (\<exists>t tok. fst (run_session me mc) = Inr t \<and> tok = tk_access t \<and> (r = config_request (me_api me) tok \<or>
          (\<exists>pins. LoadPins mc = Inr pins \<and>
             r = artifacts_request (me_api me) tok (pins_offered pins (FetchSyncConfig (me_api me) tok)))))
      | Some b \<Rightarrow> exitCode err \<noteq> 2 \<and> truthful_report me dry mc b) new"
proof -
  have s: "sent r m = m\<lparr>mc_sent := mc_sent m @ [r]\<rparr>" for r m by (simp add: sent_def)
  have g: "hq_body (config_request ae tok) = None" "hq_body (artifacts_request ae tok ps) = None" for ae tok ps
    by (simp_all add: artifacts_request_def config_request_def api_get_def)
  from assms show ?thesis
  proof (cases rule: syncOnce_cases)
    case 1
    then show ?thesis by (simp add: settled_def)
  next
    case (2 t mc1)
    note F = run_session_facts(1) [OF 2(1)]
    then show ?thesis unfolding 2(3) using 2(1) by (auto simp: s g settled_def)
  next
    case (3 t mc1 pins)
    note F = run_session_facts(1) [OF 3(1)]
    then show ?thesis unfolding 3(4) using 3(1,2) by (auto simp: s g settled_def withheld_offered)
  next
    case (4 home t mc1 pins arts projects out')
    let ?tok = "tk_access t"
    let ?c = "config_request (me_api me) ?tok"
    let ?a = "artifacts_request (me_api me) ?tok (pins_offered pins (FetchSyncConfig (me_api me) ?tok))"
    have fs: "fst (run_session me mc) = Inr t" using 4(2) by simp
    from run_session_facts(1) [OF 4(2)] have F: "mc_sent mc1 = mc_sent mc" "mc_fs mc1 = mc_fs mc" by (simp_all add: settled_def)
    from 4(7) show ?thesis
    proof (cases rule: sync_apply_sent)
      case 1
      then have "mc_sent mc' = mc_sent mc @ [?c, ?a]" by (simp add: s withheld_offered F)
      then show ?thesis using 4(3) fs by (simp add: g)
    next
      case (2 c install applied w1 out0)
      let ?r = "report_request (me_api me) ?tok install applied (reportedPinned pins arts (scf_pinning c))"
      have new: "mc_sent mc' = mc_sent mc @ [?c, ?a, ?r]" using 2(7) by (simp add: s withheld_offered F)
      have fs2: "mc_fs (asked me ?tok pins mc1) = mc_fs mc" by (simp add: s F)
      from reconcileAll_outcome(4) [OF 2(6) 2(2)] 2(1) obtain res v1 sres v2 rres where
        rc: "Reconcile (me_env me) (Join [home, ''.claude'']) arts (planned False (mc_fs mc)) = (None, res, v1)"
          "ReconcileSeeds (me_env me) (Join [home, ''.claude'']) (ProjectPaths projects) arts (planned False v1) = (None, sres, v2)"
          "ReconcileRules (me_env me) (Join [home, ''.claude'']) projects arts (planned False v2) = (None, rres, w1)"
          "applied = rr_applied res @ ru_applied rres"
        by (auto simp: fs2)
      obtain b where b: "hq_body ?r = Some b"
        "map (\<lambda>x. (ri_artifact x, ri_revision x)) (rb_items b) = map (\<lambda>a. (ap_id a, ap_revision a)) applied"
        "\<forall>x \<in> set (rb_items b). ri_pinned x = reportedPinned pins arts (scf_pinning c) (ri_artifact x)"
        by (auto simp: report_request_def)
      have "truthful_report me dry mc b"
        unfolding truthful_report_def
        using 2(1,3,4,5) 4(1,3,5,6) fs rc b
        by (intro conjI exI [of _ t] exI [of _ ?tok] exI) (assumption | simp add: withheld_offered)+
      then show ?thesis using new 4(3) fs 2(2) b(1) by (simp add: g)
    qed
  qed
qed

subsection \<open>Watching\<close>

definition watch_run :: "machine_env \<Rightarrow> bool \<Rightarrow> machine \<Rightarrow> cmd_error option \<times> machine" where
  "watch_run me dry mc = (case syncOnce me dry mc of ((out, err), mc') \<Rightarrow> (err, mc'))"

text \<open>The machine after so many runs.\<close>

primrec after_runs :: "machine_env \<Rightarrow> bool \<Rightarrow> nat \<Rightarrow> machine \<Rightarrow> machine" where
  "after_runs me dry 0 mc = mc"
| "after_runs me dry (Suc n) mc = after_runs me dry n (snd (watch_run me dry mc))"

lemma watchLoop_skip:
  assumes "\<And>k. k < n \<Longrightarrow> exitCode (fst (watch_run me dry (after_runs me dry k mc))) \<noteq> 2"
  shows "watchLoop (watch_run me dry) (replicate n True @ ws) mc = watchLoop (watch_run me dry) ws (after_runs me dry n mc)"
  using assms
proof (induction n arbitrary: mc)
  case (Suc n)
  obtain err mc1 where r: "watch_run me dry mc = (err, mc1)" by fastforce
  have "exitCode err \<noteq> 2" using Suc.prems [of 0] r by simp
  moreover have "watchLoop (watch_run me dry) (replicate n True @ ws) mc1 =
      watchLoop (watch_run me dry) ws (after_runs me dry n mc1)"
    by (rule Suc.IH) (use Suc.prems [of "Suc k" for k] r in simp)
  ultimately show ?case by (simp add: r)
qed simp

lemma watch_next:
  "exitCode (fst (watch_run me dry mc)) = 2 \<Longrightarrow>
   watchLoop (watch_run me dry) ws mc = (Some (fst (watch_run me dry mc)), snd (watch_run me dry mc))"
  "exitCode (fst (watch_run me dry mc)) \<noteq> 2 \<Longrightarrow>
   watchLoop (watch_run me dry) (False # ws) mc = (Some None, snd (watch_run me dry mc))"
  "exitCode (fst (watch_run me dry mc)) \<noteq> 2 \<Longrightarrow>
   watchLoop (watch_run me dry) [] mc = (None, snd (watch_run me dry mc))"
  by (cases "watch_run me dry mc"; simp)+

text \<open>
  C30. A watch keeps syncing until it must not: while no run is fatal it runs again after every tick,
  whatever runs fail with exit code 1, and is still waiting after any number of them; a fatal run
  ends it at once with its own error, whatever the ticker does; and a cancelled wait ends it without
  an error.
\<close>

theorem watch_until_fatal:
  assumes "\<And>k. k < n \<Longrightarrow> exitCode (fst (watch_run me dry (after_runs me dry k mc))) \<noteq> 2"
  shows "let (err, mc') = watch_run me dry (after_runs me dry n mc) in
    if exitCode err = 2
    then watchLoop (watch_run me dry) (replicate n True @ ws) mc = (Some err, mc')
    else watchLoop (watch_run me dry) (replicate n True @ False # ws) mc = (Some None, mc') \<and>
      watchLoop (watch_run me dry) (replicate n True) mc = (None, mc')"
proof -
  note s = watchLoop_skip [OF assms]
  have "watchLoop (watch_run me dry) (replicate n True) mc =
      watchLoop (watch_run me dry) [] (after_runs me dry n mc)" using s [where ws = "[]"] by simp
  then show ?thesis
    by (simp add: s watch_next split_beta Let_def del: watchLoop.simps)
qed

subsection \<open>A machine\<close>

text \<open>A server that keeps pins and records deployments, serving one skill.\<close>

definition demo_config :: sync_config where
  "demo_config = \<lparr>scf_gateway = ''https://gw'', scf_registry = True, scf_pinning = True\<rparr>"

definition demo_api :: api_env where
  "demo_api = \<lparr>ae_base = ''https://api/'', ae_do = (\<lambda>r. Answer 200 (Inr [])), ae_artifacts = (\<lambda>_. Inr [sample_skill]),
     ae_config = (\<lambda>_. Inr demo_config), ae_report = (\<lambda>_. Inr \<lparr>dp_recorded = 1, dp_dropped = 0\<rparr>)\<rparr>"

text \<open>An identity provider that renews every session it is asked to.\<close>

definition demo_oidc :: oidc_env where
  "demo_oidc = \<lparr>oi_discovery = ''https://id/'', oi_client = ''cli'', oi_now = 100, oi_do = (\<lambda>_. Answer 200 (Inr [])),
     oi_metadata = (\<lambda>_. Inr \<lparr>md_device = ''d'', md_token = ''https://id/token'', md_authorization = []\<rparr>),
     oi_tokens = (\<lambda>_. Inr \<lparr>tq_access = ''t'', tq_refresh = ''r2'', tq_expires = 300, tq_error = [], tq_description = []\<rparr>),
     oi_save = None\<rparr>"

definition demo_env :: machine_env where
  "demo_env = \<lparr>me_env = sample_env\<lparr>home_dir := Some ''/h''\<rparr>, me_api = demo_api, me_oidc = demo_oidc, me_lock = LockTaken,
     me_save = (\<lambda>_. None), me_cwd = Inr ''/'', me_random = Inr (replicate 16 0)\<rparr>"

definition demo_machine :: machine where
  "demo_machine = \<lparr>mc_fs = \<lparr>nodes = [([''h''], Dir)], plan = None\<rparr>, mc_projects = NoFile, mc_pins = NoFile,
     mc_install = NoFile, mc_token = Holds \<lparr>tk_access = ''old'', tk_refresh = ''r1'', tk_expiry = 50\<rparr>, mc_dir = True,
     mc_lock_file = False, mc_sent = [], mc_oauth = []\<rparr>"

lemma demo_dry:
  "map_option (\<lambda>r. map ch_path (as_changes (the (so_artifacts r)))) (fst (fst (syncOnce demo_env True demo_machine))) =
   Some [''/h/.claude/skills/x/SKILL.md'']"
  by code_simp

lemma demo_real:
  "exitCode (snd (fst (syncOnce demo_env False demo_machine))) = 0"
  "map (\<lambda>r. map_option (\<lambda>b. map ri_artifact (rb_items b)) (hq_body r)) (mc_sent (snd (syncOnce demo_env False demo_machine))) =
   [None, None, Some [''1'']]"
  by code_simp+


theorem server_told_facts_witness:
  "\<exists>out err mc' b r. syncOnce demo_env False demo_machine = ((out, err), mc') \<and> r \<in> set (mc_sent mc') \<and>
     hq_body r = Some b \<and> map ri_artifact (rb_items b) = [''1''] \<and> truthful_report demo_env False demo_machine b"
proof -
  obtain out err mc' where r: "syncOnce demo_env False demo_machine = ((out, err), mc')" by (metis surj_pair)
  with demo_real(2) have m: "map (\<lambda>r. map_option (\<lambda>b. map ri_artifact (rb_items b)) (hq_body r)) (mc_sent mc') = [None, None, Some [''1'']]"
    by simp
  then obtain x where x: "x \<in> set (mc_sent mc')" "map_option (\<lambda>b. map ri_artifact (rb_items b)) (hq_body x) = Some [''1'']"
    by (metis (no_types, lifting) image_iff list.set_intros list.set_map)
  then obtain b where b: "hq_body x = Some b" "map ri_artifact (rb_items b) = [''1'']" by auto
  from server_told_facts [OF r] x(1) b(1) have "truthful_report demo_env False demo_machine b"
    by (auto simp: demo_machine_def list_all_iff split: option.splits)
  with r x(1) b show ?thesis by (intro exI conjI)
qed

text \<open>A server that cannot be reached: every run fails with exit code 1, and the watch goes on.\<close>

definition offline_env :: machine_env where
  "offline_env = demo_env\<lparr>me_api := demo_api\<lparr>ae_do := (\<lambda>_. NoAnswer ''connection refused'')\<rparr>\<rparr>"

lemma offline_run: "exitCode (fst (watch_run offline_env dry mc)) = 1"
proof -
  have "FetchArtifacts (me_api offline_env) tok pins = Inl ''fetch artifacts: connection refused''" for tok pins
    by (simp add: FetchArtifacts_def answered_def offline_env_def)
  then show ?thesis
    by (auto simp: watch_run_def syncOnce_def exitCode_def no_home_def Let_def split: prod.split option.split sum.split)
qed

theorem watch_until_fatal_witness:
  "\<exists>mc'. after_runs offline_env False 4 demo_machine = mc' \<and>
     watchLoop (watch_run offline_env False) (replicate 3 True @ [False]) demo_machine = (Some None, mc') \<and>
     watchLoop (watch_run offline_env False) (replicate 3 True) demo_machine = (None, mc')"
proof -
  have h: "exitCode (fst (watch_run offline_env False (after_runs offline_env False k demo_machine))) \<noteq> 2" for k
    by (simp add: offline_run)
  have a: "after_runs offline_env False 4 demo_machine = snd (watch_run offline_env False (after_runs offline_env False 3 demo_machine))"
    by (simp add: numeral_eq_Suc)
  from watch_until_fatal [of 3 offline_env False demo_machine "[]", OF h] show ?thesis unfolding a
    by (simp add: split_beta Let_def offline_run del: watchLoop.simps after_runs.simps replicate.simps)
qed

end
