(* ===== verification/Regex.thy ===== *)
theory Regex
  imports Prelude
begin

text \<open>
  Go's \<open>regexp\<close> (RE2) as far as the sources use it, on bytes: classes, literals, word
  boundaries, sequence, alternation and repetition, and \<open>MatchString\<close>. A negated class on
  bytes agrees with one on runes here because every expression that has one continues with an
  ASCII byte, which starts a rune.
\<close>

datatype re =
    Eps
  | Cls "char \<Rightarrow> bool"
  | Bnd
  | Cat re re
  | Alt re re
  | Star re

text \<open>A position: the byte before it and the text after it.\<close>

type_synonym pos = "char option \<times> string"

definition in_range :: "char \<Rightarrow> char \<Rightarrow> char \<Rightarrow> bool" where
  "in_range a b c \<longleftrightarrow> (of_char a :: nat) \<le> of_char c \<and> (of_char c :: nat) \<le> of_char b"

definition word_char :: "char \<Rightarrow> bool" where
  "word_char c \<longleftrightarrow> in_range CHR ''a'' CHR ''z'' c \<or> in_range CHR ''A'' CHR ''Z'' c \<or>
     in_range CHR ''0'' CHR ''9'' c \<or> c = CHR ''_''"

definition space_char :: "char \<Rightarrow> bool" where
  "space_char c \<longleftrightarrow> c = CHR '' '' \<or> c = CHR 0x09 \<or> c = nl \<or> c = CHR 0x0C \<or> c = CHR 0x0D"

fun word_opt :: "char option \<Rightarrow> bool" where
  "word_opt None = False"
| "word_opt (Some c) = word_char c"

definition head_opt :: "string \<Rightarrow> char option" where
  "head_opt s = (case s of [] \<Rightarrow> None | c # _ \<Rightarrow> Some c)"

text \<open>Where at most \<open>n\<close> repetitions of a step can lead.\<close>

primrec repeats :: "('a \<Rightarrow> 'a list) \<Rightarrow> nat \<Rightarrow> 'a \<Rightarrow> 'a list" where
  "repeats f 0 x = [x]"
| "repeats f (Suc n) x = x # concat (map (repeats f n) (f x))"

text \<open>The positions a match can end at. A repetition that consumes nothing adds nothing.\<close>

primrec ends :: "re \<Rightarrow> pos \<Rightarrow> pos list" where
  "ends Eps = (\<lambda>x. [x])"
| "ends (Cls p) = (\<lambda>x. case snd x of [] \<Rightarrow> [] | c # r \<Rightarrow> if p c then [(Some c, r)] else [])"
| "ends Bnd = (\<lambda>x. if word_opt (fst x) \<noteq> word_opt (head_opt (snd x)) then [x] else [])"
| "ends (Cat a b) = (\<lambda>x. concat (map (ends b) (ends a x)))"
| "ends (Alt a b) = (\<lambda>x. ends a x @ ends b x)"
| "ends (Star a) = (\<lambda>x. repeats (ends a) (length (snd x)) x)"

fun match_from :: "re \<Rightarrow> char option \<Rightarrow> string \<Rightarrow> bool" where
  "match_from r p [] = (ends r (p, []) \<noteq> [])"
| "match_from r p (c # s) = (ends r (p, c # s) \<noteq> [] \<or> match_from r (Some c) s)"

definition MatchString :: "re \<Rightarrow> string \<Rightarrow> bool" where
  "MatchString r s = match_from r None s"

subsection \<open>Derived forms\<close>

definition Chr :: "char \<Rightarrow> re" where "Chr c = Cls (\<lambda>d. d = c)"

fun Lit :: "string \<Rightarrow> re" where
  "Lit [] = Eps"
| "Lit (c # w) = Cat (Chr c) (Lit w)"

definition Opt :: "re \<Rightarrow> re" where "Opt r = Alt r Eps"

definition Plus :: "re \<Rightarrow> re" where "Plus r = Cat r (Star r)"

primrec Exactly :: "nat \<Rightarrow> re \<Rightarrow> re" where
  "Exactly 0 r = Eps"
| "Exactly (Suc n) r = Cat r (Exactly n r)"

definition AtLeast :: "nat \<Rightarrow> re \<Rightarrow> re" where "AtLeast n r = Cat (Exactly n r) (Star r)"

fun OneOf :: "re list \<Rightarrow> re" where
  "OneOf [] = Cls (\<lambda>_. False)"
| "OneOf [r] = r"
| "OneOf (r # rs) = Alt r (OneOf rs)"

text \<open>
  A lower-case literal under \<open>(?i)\<close>. The letter s folds with U+017F too, the letter k with
  U+212A.
\<close>

fun upper :: "char \<Rightarrow> char" where
  "upper c = (if in_range CHR ''a'' CHR ''z'' c then char_of ((of_char c :: nat) - 32) else c)"

definition FoldChr :: "char \<Rightarrow> re" where
  "FoldChr c = Alt (Cls (\<lambda>d. d = c \<or> d = upper c))
     (if c = CHR ''s'' then Lit [CHR 0xC5, CHR 0xBF]
      else if c = CHR ''k'' then Lit [CHR 0xE2, CHR 0x84, CHR 0xAA] else Cls (\<lambda>_. False))"

fun FoldLit :: "string \<Rightarrow> re" where
  "FoldLit [] = Eps"
| "FoldLit (c # w) = Cat (FoldChr c) (FoldLit w)"

subsection \<open>Lemmas\<close>

lemma match_from_skip: "match_from r (if u = [] then p else Some (last u)) s \<Longrightarrow> match_from r p (u @ s)"
proof (induction u arbitrary: p)
  case (Cons a u)
  then have "match_from r (Some a) (u @ s)" by (intro Cons.IH) (cases u; simp)
  then show ?case by simp
qed simp

lemma match_from_here: "ends r (p, s) \<noteq> [] \<Longrightarrow> match_from r p s"
  by (cases s) auto

text \<open>An occurrence: a match of the expression at the end of some prefix.\<close>

lemma MatchString_occurrence:
  assumes "\<And>p. ends r (p, s) \<noteq> []"
  shows "MatchString r (u @ s)"
  unfolding MatchString_def by (rule match_from_skip) (intro match_from_here assms)

lemma ends_Lit: "ends (Lit w) (p, w @ s) = [(if w = [] then p else Some (last w), s)]"
  by (induction w arbitrary: p) (auto simp: Chr_def)

lemma repeats_self: "x \<in> set (repeats f n x)"
  by (cases n) auto

lemma repeats_step: "y \<in> set (f x) \<Longrightarrow> z \<in> set (repeats f n y) \<Longrightarrow> z \<in> set (repeats f (Suc n) x)"
  by auto

lemma ends_Cat: "y \<in> set (ends a x) \<Longrightarrow> z \<in> set (ends b y) \<Longrightarrow> z \<in> set (ends (Cat a b) x)"
  by auto

lemma ends_Alt1: "z \<in> set (ends a x) \<Longrightarrow> z \<in> set (ends (Alt a b) x)"
  by simp

lemma ends_Alt2: "z \<in> set (ends b x) \<Longrightarrow> z \<in> set (ends (Alt a b) x)"
  by simp

lemma ends_Lit_in: "(if w = [] then p else Some (last w), s) \<in> set (ends (Lit w) (p, w @ s))"
  by (simp add: ends_Lit)

lemma ends_Star_one: "P c \<Longrightarrow> (Some c, r) \<in> set (ends (Star (Cls P)) (q, c # r))"
  by (simp add: repeats_self)

lemma OneOf_two: "OneOf [a, b] = Alt a b"
  by simp

end
