(* ===== verification/Scanner.thy ===== *)
theory Scanner
  imports Regex
begin

text \<open>
  The governance scanner (\<open>internal/govern\<close>): the rule-based scanner over artifact payloads,
  its composition with others, and its use on a side of a tool call. A \<open>Scanner\<close> is a
  function that may fail; the advisory model-backed one is not in this repository and stays a
  parameter wherever a scanner is one.
\<close>

record finding =
  fd_rule :: string
  fd_message :: string
  fd_severity :: string

record artifactPayload =
  pl_type :: string
  pl_name :: string
  pl_content :: bytes
  pl_scope :: string
  pl_seed :: bytes

type_synonym scanner = "artifactPayload \<Rightarrow> string + finding list"

definition HasBlocking :: "finding list \<Rightarrow> bool" where
  "HasBlocking fs \<longleftrightarrow> list_ex (\<lambda>f. fd_severity f = ''block'') fs"

definition MaxContentBytes :: nat where "MaxContentBytes = 64 * 1024"
definition MaxSeedBytes :: nat where "MaxSeedBytes = 16 * 1024"
definition WarnContentBytes :: nat where "WarnContentBytes = MaxContentBytes * 3 div 4"
definition WarnSeedBytes :: nat where "WarnSeedBytes = MaxSeedBytes * 3 div 4"

subsection \<open>The rules\<close>

definition digit_upper :: "char \<Rightarrow> bool" where
  "digit_upper c \<longleftrightarrow> in_range CHR ''0'' CHR ''9'' c \<or> in_range CHR ''A'' CHR ''Z'' c"

definition alnum :: "char \<Rightarrow> bool" where
  "alnum c \<longleftrightarrow> digit_upper c \<or> in_range CHR ''a'' CHR ''z'' c"

definition awsKeyRe :: re where
  "awsKeyRe = Cat Bnd (Cat (OneOf [Lit ''AKIA'', Lit ''ASIA'']) (Cat (Exactly 16 (Cls digit_upper)) Bnd))"

definition gcpKeyRe :: re where
  "gcpKeyRe = Cat Bnd (Cat (Lit ''AIza'')
     (Cat (Exactly 35 (Cls (\<lambda>c. alnum c \<or> c = CHR ''-'' \<or> c = CHR ''_''))) Bnd))"

definition ghTokenRe :: re where
  "ghTokenRe = Cat Bnd (Cat (Lit ''gh'') (Cat (Cls (\<lambda>c. c \<in> set ''pousr'')) (Cat (Lit ''_'')
     (Cat (AtLeast 36 (Cls alnum)) Bnd))))"

definition slackRe :: re where
  "slackRe = Cat Bnd (Cat (Lit ''xox'') (Cat (Cls (\<lambda>c. c \<in> set ''baprs'')) (Cat (Lit ''-'')
     (Cat (AtLeast 10 (Cls (\<lambda>c. alnum c \<or> c = CHR ''-''))) Bnd))))"

definition privKeyRe :: re where
  "privKeyRe = Cat (Lit ''-----BEGIN '')
     (Cat (Star (Cls (\<lambda>c. digit_upper c \<or> c = CHR '' ''))) (Lit ''PRIVATE KEY-----''))"

definition reservedMarkerRe :: re where
  "reservedMarkerRe = Cat (Lit ''<!--'') (Cat (Star (Cls space_char)) (Cat (Lit ''ORBEAT-'')
     (Cat (OneOf [Lit ''SEED'', Lit ''RULES'']) (Cat (Lit '':'') (Cat (OneOf [Lit ''BEGIN'', Lit ''END'']) Bnd)))))"

definition shell_re :: re where "shell_re = OneOf [FoldLit ''sh'', FoldLit ''bash'', FoldLit ''zsh'']"
definition fetch_re :: re where "fetch_re = OneOf [FoldLit ''curl'', FoldLit ''wget'']"

definition remoteExecRe :: re where
  "remoteExecRe =
     Alt (Cat Bnd (Cat fetch_re (Cat Bnd (Cat (Star (Cls (\<lambda>c. c \<noteq> CHR ''|'' \<and> c \<noteq> nl)))
            (Cat (Lit ''|'') (Cat (Star (Cls space_char))
              (Cat (Opt (Cat (FoldLit ''sudo'') (Plus (Cls space_char))))
                (Cat (Opt (Cat (Lit ''/'') (Cat (Opt (FoldLit ''usr/'')) (FoldLit ''bin/''))))
                  (Cat shell_re Bnd)))))))))
         (Cat Bnd (Cat shell_re (Cat (Plus (Cls space_char)) (Cat (Lit ''<('')
            (Cat (Star (Cls space_char)) (Cat fetch_re Bnd))))))"

definition finding_if :: "bool \<Rightarrow> string \<Rightarrow> string \<Rightarrow> string \<Rightarrow> finding list" where
  "finding_if b rule sev msg =
     (if b then [\<lparr>fd_rule = rule, fd_message = msg, fd_severity = sev\<rparr>] else [])"

definition scanSecrets :: "string \<Rightarrow> bytes \<Rightarrow> finding list" where
  "scanSecrets place text =
     finding_if (MatchString awsKeyRe text) ''secret'' ''block'' (''possible AWS access key ID in '' @ place) @
     finding_if (MatchString gcpKeyRe text) ''secret'' ''block'' (''possible Google API key in '' @ place) @
     finding_if (MatchString ghTokenRe text) ''secret'' ''block'' (''possible GitHub token in '' @ place) @
     finding_if (MatchString slackRe text) ''secret'' ''block'' (''possible Slack token in '' @ place) @
     finding_if (MatchString privKeyRe text) ''secret'' ''block'' (''private key block in '' @ place)"

definition HasReservedMarker :: "bytes \<Rightarrow> bool" where
  "HasReservedMarker text = MatchString reservedMarkerRe text"

definition scanReserved :: "string \<Rightarrow> bytes \<Rightarrow> finding list" where
  "scanReserved place text =
     finding_if (HasReservedMarker text) ''reserved-marker'' ''block''
       (''reserved orbeat managed-block sentinel marker in '' @ place)"

definition scanRemoteExec :: "string \<Rightarrow> bytes \<Rightarrow> finding list" where
  "scanRemoteExec place text =
     finding_if (MatchString remoteExecRe text) ''remote-exec'' ''warn''
       (''a remote script is piped into a shell in '' @ place)"

definition default_scan :: scanner where
  "default_scan p = Inr
     (scanSecrets ''content'' (pl_content p) @ scanSecrets ''seed'' (pl_seed p) @
      scanReserved ''content'' (pl_content p) @ scanReserved ''seed'' (pl_seed p) @
      scanRemoteExec ''content'' (pl_content p) @ scanRemoteExec ''seed'' (pl_seed p) @
      finding_if (length (pl_content p) > WarnContentBytes) ''size'' ''warn'' ''content is approaching the 64KiB limit'' @
      finding_if (length (pl_seed p) > WarnSeedBytes) ''size'' ''warn'' ''seed is approaching the 16KiB limit'')"

subsection \<open>Composition, and the scan of a call\<close>

fun composite_scan :: "scanner option list \<Rightarrow> scanner" where
  "composite_scan [] p = Inr []"
| "composite_scan (None # scs) p = composite_scan scs p"
| "composite_scan (Some sc # scs) p =
     (case sc p of
        Inl e \<Rightarrow> Inl e
      | Inr f \<Rightarrow> (case composite_scan scs p of Inl e \<Rightarrow> Inl e | Inr g \<Rightarrow> Inr (f @ g)))"

record callPayload =
  cp_tool :: string
  cp_direction :: string
  cp_content :: bytes

definition ScanCall :: "scanner \<Rightarrow> callPayload \<Rightarrow> string + finding list" where
  "ScanCall s p =
     (case s \<lparr>pl_type = [], pl_name = [], pl_content = cp_content p, pl_scope = [], pl_seed = []\<rparr> of
        Inl e \<Rightarrow> Inl e
      | Inr fs \<Rightarrow> Inr (map (\<lambda>f. f\<lparr>fd_message :=
            fd_message f @ '' (tool '' @ cp_tool p @ '', '' @ cp_direction p @ '')''\<rparr>) fs))"

subsection \<open>Lemmas\<close>

lemma HasBlocking_append [simp]: "HasBlocking (a @ b) \<longleftrightarrow> HasBlocking a \<or> HasBlocking b"
  by (simp add: HasBlocking_def)

lemma HasBlocking_finding_if [simp]: "HasBlocking (finding_if b r s m) \<longleftrightarrow> b \<and> s = ''block''"
  by (simp add: HasBlocking_def finding_if_def)

definition has_secret :: "bytes \<Rightarrow> bool" where
  "has_secret t \<longleftrightarrow> MatchString awsKeyRe t \<or> MatchString gcpKeyRe t \<or> MatchString ghTokenRe t \<or>
     MatchString slackRe t \<or> MatchString privKeyRe t"

lemma default_scan_blocks:
  assumes "default_scan p = Inr fs"
  shows "HasBlocking fs \<longleftrightarrow> has_secret (pl_content p) \<or> has_secret (pl_seed p) \<or>
    HasReservedMarker (pl_content p) \<or> HasReservedMarker (pl_seed p)"
  using assms by (auto simp: default_scan_def scanSecrets_def scanReserved_def scanRemoteExec_def has_secret_def)

lemma HasBlocking_map: "(\<And>f. fd_severity (g f) = fd_severity f) \<Longrightarrow> HasBlocking (map g fs) = HasBlocking fs"
  by (induction fs) (simp_all add: HasBlocking_def)

lemma ScanCall_blocking: "ScanCall s p = Inr fs \<Longrightarrow>
  \<exists>gs. s \<lparr>pl_type = [], pl_name = [], pl_content = cp_content p, pl_scope = [], pl_seed = []\<rparr> = Inr gs \<and>
    (HasBlocking fs \<longleftrightarrow> HasBlocking gs)"
  by (auto simp: ScanCall_def HasBlocking_map split: sum.splits)

text \<open>Every marker the sync client looks for is a reserved marker.\<close>

lemma reserved_here:
  assumes "k \<in> {''SEED'', ''RULES''}" "b \<in> {''BEGIN'', ''END''}"
  shows "ends reservedMarkerRe (p, ''<!--'' @ CHR '' '' # ''ORBEAT-'' @ k @ '':'' @ b @ CHR '' '' # r) \<noteq> []"
proof -
  have sp: "space_char CHR '' ''" by (simp add: space_char_def)
  have k: "(if k = [] then q else Some (last k), t) \<in> set (ends (OneOf [Lit ''SEED'', Lit ''RULES'']) (q, k @ t))" for q t
    using assms(1) ends_Lit_in [where w = k and s = t and p = q] unfolding OneOf_two by (auto intro: ends_Alt1 ends_Alt2 simp del: Lit.simps ends.simps)
  have b: "(if b = [] then q else Some (last b), t) \<in> set (ends (OneOf [Lit ''BEGIN'', Lit ''END'']) (q, b @ t))" for q t
    using assms(2) ends_Lit_in [where w = b and s = t and p = q] unfolding OneOf_two by (auto intro: ends_Alt1 ends_Alt2 simp del: Lit.simps ends.simps)
  have "word_char (last b)" "b \<noteq> []" using assms(2) by (auto simp: word_char_def in_range_def)
  then have w: "(q, CHR '' '' # r) \<in> set (ends Bnd (q, CHR '' '' # r))" if "q = Some (last b)" for q
    using that by (simp add: head_opt_def word_char_def in_range_def)
  have "\<exists>z. z \<in> set (ends reservedMarkerRe (p, ''<!--'' @ CHR '' '' # ''ORBEAT-'' @ k @ '':'' @ b @ CHR '' '' # r))"
    unfolding reservedMarkerRe_def
    by (rule exI, rule ends_Cat [OF ends_Lit_in], rule ends_Cat [OF ends_Star_one [of space_char, OF sp]],
        rule ends_Cat [OF ends_Lit_in], rule ends_Cat [OF k], rule ends_Cat [OF ends_Lit_in],
        rule ends_Cat [OF b], rule w) (simp add: \<open>b \<noteq> []\<close>)
  then show ?thesis by (metis empty_iff empty_set)
qed

end
