(* ===== verification/Rbac.thy ===== *)
theory Rbac
  imports Prelude
begin

text \<open>
  The authorization decision of a tool call: \<open>internal/rbac\<close>, \<open>internal/naming\<close>,
  \<open>internal/gateway/naming.go\<close> and the decision half of
  \<open>internal/gateway/rbac_middleware.go\<close>. A Go slice that may be \<open>nil\<close> is an option.
\<close>

subsection \<open>Slugs and namespaced tool names\<close>

text \<open>
  \<open>strings.ToLower\<close> as far as \<open>[a-z0-9]\<close> can tell: two non-ASCII runes lower to an ASCII
  letter (U+0130 to i, U+212A to k), every other non-ASCII byte stays outside the class.
\<close>

definition lower_byte :: "char \<Rightarrow> char" where
  "lower_byte c =
     (let n = (of_char c :: nat) in if 65 \<le> n \<and> n \<le> 90 then char_of (n + 32) else c)"

fun to_lower :: "bytes \<Rightarrow> bytes" where
  "to_lower [] = []"
| "to_lower (a # r) =
     (case r of
        b # r' \<Rightarrow>
          if a = CHR 0xC4 \<and> b = CHR 0xB0 then CHR ''i'' # to_lower r'
          else if a = CHR 0xE2 \<and> b = CHR 0x84 \<and> strip_prefix [CHR 0xAA] r' \<noteq> None
          then CHR ''k'' # to_lower (drop 1 r')
          else lower_byte a # to_lower r
      | [] \<Rightarrow> [lower_byte a])"

text \<open>\<open>nonSlug.ReplaceAllString(s, "-")\<close>; the flag says that the run is already replaced.\<close>

fun replace_runs :: "bool \<Rightarrow> bytes \<Rightarrow> bytes" where
  "replace_runs run [] = []"
| "replace_runs run (c # s) =
     (if is_lower_alnum c then c # replace_runs False s
      else if run then replace_runs True s
      else CHR ''-'' # replace_runs True s)"

definition Slugify :: "bytes \<Rightarrow> bytes" where
  "Slugify s = trim_right {CHR ''-''} (trim_left {CHR ''-''} (replace_runs False (to_lower s)))"

definition sep :: string where "sep = ''__''"

definition Namespace :: "string \<Rightarrow> string \<Rightarrow> string" where
  "Namespace slug tool = slug @ sep @ tool"

definition Split :: "string \<Rightarrow> (string \<times> string) option" where
  "Split name = cut_sub sep name"

lemma Namespace_Split: "Split n = Some (slug, tool) \<Longrightarrow> Namespace slug tool = n"
  unfolding Split_def Namespace_def by (drule cut_sub_Some) simp

lemma Split_Namespace:
  assumes "CHR ''_'' \<notin> set slug"
  shows "Split (Namespace slug tool) = Some (slug, tool)"
  unfolding Split_def Namespace_def
proof (rule cut_sub_exact)
  fix a b
  assume eq: "slug @ sep @ tool = a @ sep @ b"
  show "length slug \<le> length a"
  proof (rule ccontr)
    assume "\<not> length slug \<le> length a"
    then have l: "length a < length slug" by simp
    then have "slug ! length a = (slug @ sep @ tool) ! length a" by (simp add: nth_append)
    also have "\<dots> = CHR ''_''" using eq by (simp add: nth_append sep_def)
    finally show False using assms l by (metis nth_mem)
  qed
qed

lemma replace_runs_slug: "c \<in> set (replace_runs run s) \<Longrightarrow> is_slug_char c"
  by (induction run s rule: replace_runs.induct) (auto simp: is_slug_char_def split: if_splits)

lemma Slugify_slug: "c \<in> set (Slugify s) \<Longrightarrow> is_slug_char c"
proof -
  assume "c \<in> set (Slugify s)"
  then have "c \<in> set (replace_runs False (to_lower s))"
    unfolding Slugify_def by (meson set_mono_prefix set_mono_suffix subsetD trim_left_suffix trim_right_prefix)
  then show ?thesis by (rule replace_runs_slug)
qed

lemma underscore_no_slug: "\<not> is_slug_char (CHR ''_'')"
  by (simp add: is_slug_char_def is_lower_alnum_def)

lemma Split_slug: "Split (Namespace (Slugify name) tool) = Some (Slugify name, tool)"
  using Slugify_slug underscore_no_slug by (blast intro: Split_Namespace)

subsection \<open>Entitlements\<close>

record entitlement =
  en_id :: string
  en_tenant :: string
  en_role :: string
  en_server :: string
  en_tools :: "string list option"
  en_permissions :: "string list"
  en_row_version :: int

definition VisibleServerIDs :: "entitlement list \<Rightarrow> string set" where
  "VisibleServerIDs ents = set (map en_server ents)"

fun AuthorizingEntitlement :: "entitlement list \<Rightarrow> string \<Rightarrow> string \<Rightarrow> entitlement option" where
  "AuthorizingEntitlement [] server tool = None"
| "AuthorizingEntitlement (e # ents) server tool =
     (if en_server e \<noteq> server then AuthorizingEntitlement ents server tool
      else case en_tools e of
          None \<Rightarrow> Some e
        | Some ts \<Rightarrow> if tool \<in> set ts then Some e else AuthorizingEntitlement ents server tool)"

definition ToolAllowed :: "entitlement list \<Rightarrow> string \<Rightarrow> string \<Rightarrow> bool" where
  "ToolAllowed ents server tool \<longleftrightarrow> AuthorizingEntitlement ents server tool \<noteq> None"

definition KeyToolAllowed :: "entitlement list \<Rightarrow> string list option \<Rightarrow> string \<Rightarrow> string \<Rightarrow> bool" where
  "KeyToolAllowed ents narrow server tool \<longleftrightarrow>
     ToolAllowed ents server tool \<and> (case narrow of None \<Rightarrow> True | Some ts \<Rightarrow> tool \<in> set ts)"

definition en_admits :: "entitlement \<Rightarrow> string \<Rightarrow> string \<Rightarrow> bool" where
  "en_admits e server tool \<longleftrightarrow> en_server e = server \<and> (case en_tools e of None \<Rightarrow> True | Some ts \<Rightarrow> tool \<in> set ts)"

lemma AuthorizingEntitlement_find: "AuthorizingEntitlement ents server tool = List.find (\<lambda>e. en_admits e server tool) ents"
  by (induction ents) (auto simp: en_admits_def split: option.splits)

lemma ToolAllowed_iff: "ToolAllowed ents server tool \<longleftrightarrow> (\<exists>e \<in> set ents. en_admits e server tool)"
  by (auto simp: ToolAllowed_def AuthorizingEntitlement_find find_None_iff)

lemma ToolAllowed_visible: "ToolAllowed ents server tool \<Longrightarrow> server \<in> VisibleServerIDs ents"
  by (auto simp: ToolAllowed_iff VisibleServerIDs_def en_admits_def)

subsection \<open>The decision on a namespaced name\<close>

fun keep_entries :: "string \<Rightarrow> string list \<Rightarrow> string list" where
  "keep_entries slug [] = []"
| "keep_entries slug (n # ns) =
     (case Split n of
        None \<Rightarrow> keep_entries slug ns
      | Some (s, tool) \<Rightarrow> if s = slug then tool # keep_entries slug ns else keep_entries slug ns)"

definition filterKeyNarrowForServer :: "string list option \<Rightarrow> string \<Rightarrow> string list option" where
  "filterKeyNarrowForServer narrow slug =
     (case narrow of None \<Rightarrow> None | Some ns \<Rightarrow> Some (keep_entries slug ns))"

definition toolCallAuthorization ::
  "string \<Rightarrow> (string \<times> string) list \<Rightarrow> entitlement list \<Rightarrow> string \<Rightarrow> string list option \<Rightarrow>
   (string \<times> string \<times> string) option" where
  "toolCallAuthorization namespaced slugToServer ents keyID keyNarrow =
     (case Split namespaced of
        None \<Rightarrow> None
      | Some (slug, toolName) \<Rightarrow>
          (case map_of slugToServer slug of
             None \<Rightarrow> None
           | Some srvID \<Rightarrow>
               let allowed = (if keyID = [] then ToolAllowed ents srvID toolName
                  else KeyToolAllowed ents (filterKeyNarrowForServer keyNarrow slug) srvID toolName) in
               if \<not> allowed then None
               else case AuthorizingEntitlement ents srvID toolName of
                   None \<Rightarrow> None
                 | Some ent \<Rightarrow> Some (srvID, toolName, en_role ent)))"

definition toolCallAllowed ::
  "string \<Rightarrow> (string \<times> string) list \<Rightarrow> entitlement list \<Rightarrow> string \<Rightarrow> string list option \<Rightarrow> bool" where
  "toolCallAllowed namespaced slugToServer ents keyID keyNarrow \<longleftrightarrow>
     toolCallAuthorization namespaced slugToServer ents keyID keyNarrow \<noteq> None"

lemma keep_entries_iff: "tool \<in> set (keep_entries slug ns) \<longleftrightarrow> (\<exists>n \<in> set ns. Split n = Some (slug, tool))"
  by (induction ns) (auto split: option.splits if_splits)

lemma authorization_Some:
  "toolCallAuthorization n m ents keyID narrow = Some (srv, tool, role) \<longleftrightarrow>
     (\<exists>slug e. Split n = Some (slug, tool) \<and> map_of m slug = Some srv \<and>
        AuthorizingEntitlement ents srv tool = Some e \<and> en_role e = role \<and>
        (keyID = [] \<or> KeyToolAllowed ents (filterKeyNarrowForServer narrow slug) srv tool))"
  by (auto simp: toolCallAuthorization_def ToolAllowed_def Let_def split: option.splits if_splits)

lemma toolCallAllowed_iff:
  "toolCallAllowed n m ents keyID narrow \<longleftrightarrow>
     (\<exists>slug tool srv. Split n = Some (slug, tool) \<and> map_of m slug = Some srv \<and> ToolAllowed ents srv tool \<and>
        (keyID = [] \<or> KeyToolAllowed ents (filterKeyNarrowForServer narrow slug) srv tool))"
  by (auto simp: toolCallAllowed_def authorization_Some ToolAllowed_def KeyToolAllowed_def)

subsection \<open>The revocation cache\<close>

type_synonym revocationCache = "string set"

definition isKnownRevoked :: "string \<Rightarrow> revocationCache \<Rightarrow> bool" where
  "isKnownRevoked clientID c \<longleftrightarrow> clientID \<in> c"

definition markRevoked :: "string \<Rightarrow> revocationCache \<Rightarrow> revocationCache" where
  "markRevoked clientID c = insert clientID c"

subsection \<open>Properties\<close>

text \<open>
  C21. A virtual key only narrows, and only by whole names: a call over a key is allowed exactly
  when the role may make it and the key's list, when it has one, holds that very namespaced name.
  An entry for one server never admits the same tool on another.
\<close>

theorem virtual_key_exact:
  assumes "keyID \<noteq> []"
  shows "toolCallAllowed n slugToServer ents keyID narrow \<longleftrightarrow>
    toolCallAllowed n slugToServer ents [] None \<and> (case narrow of None \<Rightarrow> True | Some ns \<Rightarrow> n \<in> set ns)"
proof (cases narrow)
  case None
  with assms show ?thesis by (auto simp: toolCallAllowed_iff KeyToolAllowed_def filterKeyNarrowForServer_def)
next
  case (Some ns)
  have "tool \<in> set (keep_entries slug ns) \<longleftrightarrow> n \<in> set ns" if "Split n = Some (slug, tool)" for slug tool
    using that by (metis Namespace_Split keep_entries_iff)
  with assms Some show ?thesis
    by (auto simp: toolCallAllowed_iff KeyToolAllowed_def filterKeyNarrowForServer_def)
qed

definition reads_two :: "entitlement list" where
  "reads_two = [\<lparr>en_id = ''e1'', en_tenant = ''t'', en_role = ''r'', en_server = ''1'', en_tools = Some [''read''],
       en_permissions = [], en_row_version = 1\<rparr>,
     \<lparr>en_id = ''e2'', en_tenant = ''t'', en_role = ''r'', en_server = ''2'', en_tools = None,
       en_permissions = [], en_row_version = 1\<rparr>]"

theorem virtual_key_exact_witness:
  "toolCallAllowed ''a__read'' [(''a'', ''1''), (''b'', ''2'')] reads_two ''k'' (Some [''a__read'']) \<and>
   \<not> toolCallAllowed ''b__read'' [(''a'', ''1''), (''b'', ''2'')] reads_two ''k'' (Some [''a__read'']) \<and>
   toolCallAllowed ''b__read'' [(''a'', ''1''), (''b'', ''2'')] reads_two [] None"
proof -
  have h: "toolCallAllowed ''a__read'' [(''a'', ''1''), (''b'', ''2'')] reads_two [] None"
    "toolCallAllowed ''b__read'' [(''a'', ''1''), (''b'', ''2'')] reads_two [] None" by code_simp+
  then show ?thesis using virtual_key_exact [of "''k''" _ "[(''a'', ''1''), (''b'', ''2'')]" reads_two "Some [''a__read'']"]
    by simp
qed

end
