(* ===== verification/ServerStore.thy ===== *)
theory ServerStore
  imports Rbac
begin

text \<open>
  The rows of the catalogue of upstream servers and of the tables that hang off a role
  (\<open>internal/store/mcpserver.go\<close>, \<open>internal/migrate/migrations\<close> 00020 and 00022).
\<close>

record mcp_server =
  ms_id :: string
  ms_tenant :: string
  ms_name :: string
  ms_description :: string
  ms_transport :: string
  ms_endpoint :: string
  ms_version :: string
  ms_protocol :: string
  ms_secret_ref :: string
  ms_tls_ca_ref :: string
  ms_status :: string
  ms_row_version :: int

text \<open>Virtual keys, metered calls and quotas: this edition reads them when a role is deleted.\<close>

record vkey_row =
  vk_id :: string
  vk_tenant :: string
  vk_role :: string
  vk_client :: string
  vk_token :: string
  vk_created_by :: "string option"
  vk_revoked :: "int option"

record usage_row =
  us_tenant :: string
  us_role :: string
  us_server :: string
  us_calls :: int

record quota_row =
  qu_tenant :: string
  qu_role :: string
  qu_calls :: int

text \<open>Tenants and the users the identity provider vouches for; instants are nanoseconds.\<close>

record tenant_row =
  tn_id :: string
  tn_name :: string

record user_row =
  ur_id :: string
  ur_tenant :: string
  ur_subject :: string
  ur_email :: string
  ur_display :: string
  ur_last_seen :: "int option"
  ur_deactivated :: "int option"

end
