(* ===== verification/ArtifactStore.thy ===== *)
theory ArtifactStore
  imports ServerStore
begin

text \<open>
  The artifact tables and the statements on them: \<open>internal/store/artifact.go\<close>,
  \<open>artifact_revision.go\<close> and the entitled read of \<open>artifact_entitlement.go\<close>. A table is
  the list of its rows, NULL is \<open>None\<close>, a statement is a function on the tables; the
  constraints, the unique indexes and the \<open>row_version\<close> trigger are those of
  \<open>internal/migrate/migrations\<close>. The order a query asks for is the collation of the
  database, a parameter.
\<close>

subsection \<open>Rows\<close>

record arow =
  ar_id :: string
  ar_tenant :: string
  ar_type :: string
  ar_name :: string
  ar_description :: string
  ar_content :: bytes
  ar_scope :: "string option"
  ar_seed :: "bytes option"
  ar_version :: string
  ar_visibility :: string
  ar_state :: string
  ar_app_content :: "bytes option"
  ar_app_seed :: "bytes option"
  ar_app_scope :: "string option"
  ar_app_type :: "string option"
  ar_app_name :: "string option"
  ar_app_visibility :: "string option"
  ar_submitted_by :: "string option"
  ar_approved_by :: "string option"
  ar_reject_reason :: "string option"
  ar_findings :: bytes
  ar_digest :: "string option"
  ar_ack_digest :: "string option"
  ar_ack_by :: "string option"
  ar_row_version :: int
  ar_min_revision :: int
  ar_tags :: "string list option"
  ar_app_tags :: "string list option"
  ar_rule_scope :: "string option"
  ar_app_rule_scope :: "string option"

record rrow =
  rv_tenant :: string
  rv_artifact :: string
  rv_num :: int
  rv_content :: bytes
  rv_seed :: "bytes option"
  rv_scope :: "string option"
  rv_type :: "string option"
  rv_name :: "string option"
  rv_visibility :: "string option"
  rv_tags :: "string list option"
  rv_rule_scope :: "string option"
  rv_source :: string
  rv_by :: string

record agrant =
  ag_id :: string
  ag_tenant :: string
  ag_role :: string
  ag_artifact :: string

record role_row =
  ro_id :: string
  ro_tenant :: string
  ro_name :: string
  ro_row_version :: int

record db =
  db_artifacts :: "arow list"
  db_revisions :: "rrow list"
  db_grants :: "agrant list"
  db_roles :: "role_row list"
  db_servers :: "mcp_server list"
  db_entitlements :: "entitlement list"
  db_vkeys :: "vkey_row list"
  db_usage :: "usage_row list"
  db_quotas :: "quota_row list"
  db_tenants :: "tenant_row list"
  db_users :: "user_row list"

datatype dberr = ErrNotFound | ErrVersionMismatch | ErrNameTaken | UniqueViolation string | FKViolation | CheckViolation

definition nullif :: "'a list \<Rightarrow> 'a list option" where
  "nullif x = (if x = [] then None else Some x)"

definition str :: "'a list option \<Rightarrow> 'a list" where
  "str x = (case x of None \<Rightarrow> [] | Some v \<Rightarrow> v)"

subsection \<open>Constraints\<close>

definition tags_ok :: "string list option \<Rightarrow> bool \<Rightarrow> bool" where
  "tags_ok ts rule \<longleftrightarrow> (case ts of None \<Rightarrow> True | Some l \<Rightarrow> 1 \<le> length l \<and> length l \<le> 16 \<and> rule)"

text \<open>
  The CHECK constraints of \<open>artifact\<close> as the migrations leave them: 00003 and 00008 (type, scope), 00004
  (visibility), 00005 (seed), 00006 (state), 00016 (the frozen identity), 00018 (pin window), 00024 (tags),
  00025 (scope of a rule), 00028 (acknowledgement).
\<close>

definition row_checks :: "arow \<Rightarrow> bool" where
  "row_checks r \<longleftrightarrow>
     ar_type r \<in> {''skill'', ''subagent'', ''rule''} \<and>
     ar_scope r \<in> {None, Some ''user'', Some ''project'', Some ''local''} \<and>
     (ar_scope r = None \<or> ar_type r = ''subagent'') \<and>
     (ar_seed r = None \<or> ar_type r = ''subagent'') \<and>
     ar_visibility r \<in> {''org'', ''role''} \<and>
     ar_state r \<in> {''draft'', ''pending'', ''approved'', ''rejected''} \<and>
     (ar_app_content r = None \<longleftrightarrow> ar_app_name r = None) \<and>
     (ar_app_content r = None \<longleftrightarrow> ar_app_type r = None) \<and>
     (ar_app_content r = None \<longleftrightarrow> ar_app_visibility r = None) \<and>
     0 \<le> ar_min_revision r \<and>
     tags_ok (ar_tags r) (ar_type r = ''rule'') \<and>
     tags_ok (ar_app_tags r) (ar_app_type r = Some ''rule'') \<and>
     (case ar_rule_scope r of None \<Rightarrow> True | Some s \<Rightarrow> s \<in> {''project'', ''global''} \<and> ar_type r = ''rule'') \<and>
     (case ar_app_rule_scope r of None \<Rightarrow> True | Some s \<Rightarrow> s \<in> {''project'', ''global''} \<and> ar_app_type r = Some ''rule'') \<and>
     (ar_ack_digest r = None \<longleftrightarrow> ar_ack_by r = None)"

definition live_key :: "arow \<Rightarrow> string \<times> string \<times> string" where
  "live_key r = (ar_tenant r, ar_type r, ar_name r)"

definition approved_keys :: "arow list \<Rightarrow> (string \<times> string option \<times> string option) list" where
  "approved_keys rows = map (\<lambda>r. (ar_tenant r, ar_app_type r, ar_app_name r)) (filter (\<lambda>r. ar_app_content r \<noteq> None) rows)"

definition write_rows :: "arow list \<Rightarrow> db \<Rightarrow> dberr option \<times> db" where
  "write_rows rows d =
     (if \<not> list_all row_checks rows then (Some CheckViolation, d)
      else if \<not> distinct (map live_key rows) then (Some (UniqueViolation ''artifact_tenant_id_type_name_key''), d)
      else if \<not> distinct (approved_keys rows) then (Some (UniqueViolation ''artifact_tenant_approved_identity_uniq''), d)
      else (None, d\<lparr>db_artifacts := rows\<rparr>))"

subsection \<open>Statements on artifacts\<close>

definition addressed :: "string \<Rightarrow> string \<Rightarrow> arow \<Rightarrow> bool" where
  "addressed tenant i r \<longleftrightarrow> ar_tenant r = tenant \<and> ar_id r = i"

definition GetArtifact :: "string \<Rightarrow> string \<Rightarrow> db \<Rightarrow> dberr + arow" where
  "GetArtifact tenant i d =
     (case List.find (addressed tenant i) (db_artifacts d) of None \<Rightarrow> Inl ErrNotFound | Some r \<Rightarrow> Inr r)"

text \<open>The trigger of migration 13 on top of the assignments of an UPDATE.\<close>

definition bump :: "(arow \<Rightarrow> arow) \<Rightarrow> arow \<Rightarrow> arow" where
  "bump f r = (f r)\<lparr>ar_row_version := ar_row_version r + 1\<rparr>"

definition update_rows :: "(arow \<Rightarrow> bool) \<Rightarrow> (arow \<Rightarrow> arow) \<Rightarrow> arow list \<Rightarrow> arow list" where
  "update_rows p f rows = map (\<lambda>r. if p r then bump f r else r) rows"

definition transition :: "(arow \<Rightarrow> arow) \<Rightarrow> string \<Rightarrow> string \<Rightarrow> db \<Rightarrow> (dberr + arow) \<times> db" where
  "transition f tenant i d =
     (case List.find (addressed tenant i) (db_artifacts d) of
        None \<Rightarrow> (Inl ErrNotFound, d)
      | Some r \<Rightarrow>
          (case write_rows (update_rows (addressed tenant i) f (db_artifacts d)) d of
             (Some e, d1) \<Rightarrow> (Inl e, d1)
           | (None, d1) \<Rightarrow> (Inr (bump f r), d1)))"

text \<open>An update guarded by \<open>row_version\<close>: the two counts tell a missing row from a stale one.\<close>

definition guarded_update :: "(arow \<Rightarrow> arow) \<Rightarrow> string \<Rightarrow> string \<Rightarrow> int \<Rightarrow> db \<Rightarrow> (dberr + arow) \<times> db" where
  "guarded_update f tenant i expected d =
     (let p = (\<lambda>r. addressed tenant i r \<and> ar_row_version r = expected);
          existsCnt = length (filter (addressed tenant i) (db_artifacts d));
          updCnt = length (filter p (db_artifacts d)) in
      case write_rows (update_rows p f (db_artifacts d)) d of
        (Some e, d1) \<Rightarrow> (Inl e, d1)
      | (None, d1) \<Rightarrow>
          if existsCnt = 0 then (Inl ErrNotFound, d1)
          else if updCnt = 0 then (Inl ErrVersionMismatch, d1)
          else (GetArtifact tenant i d1, d1))"

record artifact_write =
  aw_type :: string
  aw_name :: string
  aw_description :: string
  aw_content :: bytes
  aw_scope :: string
  aw_seed :: bytes
  aw_version :: string
  aw_visibility :: string
  aw_tags :: "string list"
  aw_rule_scope :: string

definition set_working :: "artifact_write \<Rightarrow> arow \<Rightarrow> arow" where
  "set_working a r = r\<lparr>ar_type := aw_type a, ar_name := aw_name a, ar_description := aw_description a,
     ar_content := aw_content a, ar_scope := nullif (aw_scope a), ar_seed := nullif (aw_seed a),
     ar_version := aw_version a, ar_visibility := (if aw_visibility a = [] then ''org'' else aw_visibility a),
     ar_tags := nullif (aw_tags a), ar_rule_scope := nullif (aw_rule_scope a), ar_state := ''draft''\<rparr>"

definition blank_row :: "string \<Rightarrow> string \<Rightarrow> arow" where
  "blank_row tenant i = \<lparr>ar_id = i, ar_tenant = tenant, ar_type = [], ar_name = [], ar_description = [],
     ar_content = [], ar_scope = None, ar_seed = None, ar_version = [], ar_visibility = ''org'', ar_state = ''draft'',
     ar_app_content = None, ar_app_seed = None, ar_app_scope = None, ar_app_type = None, ar_app_name = None,
     ar_app_visibility = None, ar_submitted_by = None, ar_approved_by = None, ar_reject_reason = None,
     ar_findings = ''[]'', ar_digest = None, ar_ack_digest = None, ar_ack_by = None, ar_row_version = 1,
     ar_min_revision = 0, ar_tags = None, ar_app_tags = None, ar_rule_scope = None, ar_app_rule_scope = None\<rparr>"

text \<open>The id is what \<open>gen_random_uuid()\<close> returned.\<close>

definition CreateArtifact :: "string \<Rightarrow> string \<Rightarrow> artifact_write \<Rightarrow> db \<Rightarrow> (dberr + arow) \<times> db" where
  "CreateArtifact i tenant a d =
     (let r = set_working a (blank_row tenant i) in
      case write_rows (db_artifacts d @ [r]) d of
        (Some e, d1) \<Rightarrow> (Inl e, d1)
      | (None, d1) \<Rightarrow> (Inr r, d1))"

definition UpdateArtifact :: "string \<Rightarrow> string \<Rightarrow> artifact_write \<Rightarrow> int \<Rightarrow> db \<Rightarrow> (dberr + arow) \<times> db" where
  "UpdateArtifact tenant i a expected d = guarded_update (set_working a) tenant i expected d"

definition SetArtifactMinRevision :: "string \<Rightarrow> string \<Rightarrow> int \<Rightarrow> int \<Rightarrow> db \<Rightarrow> (dberr + arow) \<times> db" where
  "SetArtifactMinRevision tenant i n expected d =
     guarded_update (\<lambda>r. r\<lparr>ar_min_revision := n\<rparr>) tenant i expected d"

definition SetArtifactSubmitted :: "string \<Rightarrow> string \<Rightarrow> string \<Rightarrow> bytes \<Rightarrow> string \<Rightarrow> db \<Rightarrow> (dberr + arow) \<times> db" where
  "SetArtifactSubmitted tenant i submitter findings digest d =
     transition (\<lambda>r. r\<lparr>ar_state := ''pending'', ar_submitted_by := Some submitter, ar_reject_reason := None,
        ar_findings := findings, ar_digest := nullif digest, ar_ack_digest := None, ar_ack_by := None\<rparr>) tenant i d"

definition SetArtifactRejected :: "string \<Rightarrow> string \<Rightarrow> string \<Rightarrow> db \<Rightarrow> (dberr + arow) \<times> db" where
  "SetArtifactRejected tenant i reason d =
     transition (\<lambda>r. r\<lparr>ar_state := ''rejected'', ar_reject_reason := Some reason\<rparr>) tenant i d"

definition WithdrawArtifact :: "string \<Rightarrow> string \<Rightarrow> db \<Rightarrow> (dberr + arow) \<times> db" where
  "WithdrawArtifact tenant i d =
     transition (\<lambda>r. r\<lparr>ar_state := ''draft'', ar_app_content := None, ar_app_seed := None, ar_app_scope := None,
        ar_app_type := None, ar_app_name := None, ar_app_visibility := None, ar_app_tags := None,
        ar_app_rule_scope := None, ar_approved_by := None, ar_reject_reason := None, ar_submitted_by := None,
        ar_findings := ''[]'', ar_digest := None, ar_ack_digest := None, ar_ack_by := None\<rparr>) tenant i d"

definition SetArtifactFindingsAcknowledged :: "string \<Rightarrow> string \<Rightarrow> string \<Rightarrow> string \<Rightarrow> db \<Rightarrow> (dberr + arow) \<times> db" where
  "SetArtifactFindingsAcknowledged tenant i actor digest d =
     transition (\<lambda>r. r\<lparr>ar_ack_digest := Some digest, ar_ack_by := Some actor\<rparr>) tenant i d"

text \<open>Revisions and entitlements of a deleted artifact go with it (ON DELETE CASCADE).\<close>

definition DeleteArtifact :: "string \<Rightarrow> string \<Rightarrow> db \<Rightarrow> dberr option \<times> db" where
  "DeleteArtifact tenant i d =
     (if list_ex (addressed tenant i) (db_artifacts d) then
        (None, d\<lparr>db_artifacts := filter (\<lambda>r. \<not> addressed tenant i r) (db_artifacts d),
                 db_revisions := filter (\<lambda>v. rv_artifact v \<noteq> i) (db_revisions d),
                 db_grants := filter (\<lambda>g. ag_artifact g \<noteq> i) (db_grants d)\<rparr>)
      else (Some ErrNotFound, d))"

subsection \<open>Revisions\<close>

definition rev_nums :: "string \<Rightarrow> db \<Rightarrow> int list" where
  "rev_nums i d = map rv_num (filter (\<lambda>v. rv_artifact v = i) (db_revisions d))"

definition max0 :: "int list \<Rightarrow> int" where "max0 ns = (if ns = [] then 0 else foldr max ns (hd ns))"
definition min0 :: "int list \<Rightarrow> int" where "min0 ns = (if ns = [] then 0 else foldr min ns (hd ns))"

definition MaxArtifactRevisionNum :: "string \<Rightarrow> string \<Rightarrow> db \<Rightarrow> dberr + int" where
  "MaxArtifactRevisionNum tenant i d =
     (case GetArtifact tenant i d of Inl e \<Rightarrow> Inl e | Inr _ \<Rightarrow> Inr (max0 (rev_nums i d)))"

text \<open>The newest \<open>keep\<close> numbers, newest first.\<close>

definition newest :: "nat \<Rightarrow> int list \<Rightarrow> int list" where
  "newest keep ns = take keep (rev (sort ns))"

definition insertRevision :: "rrow \<Rightarrow> int \<Rightarrow> db \<Rightarrow> nat \<times> db" where
  "insertRevision v keep d =
     (let v1 = v\<lparr>rv_num := max0 (rev_nums (rv_artifact v) d) + 1\<rparr>;
          revs = db_revisions d @ [v1] in
      if keep \<le> 0 then (0, d\<lparr>db_revisions := revs\<rparr>)
      else
        let d1 = d\<lparr>db_revisions := revs\<rparr>;
            gone = (\<lambda>x. rv_tenant x = rv_tenant v \<and> rv_artifact x = rv_artifact v \<and>
                       rv_num x \<notin> set (newest (nat keep) (rev_nums (rv_artifact v) d1))) in
        (length (filter gone revs), d\<lparr>db_revisions := filter (\<lambda>x. \<not> gone x) revs\<rparr>))"

definition freeze :: "string \<Rightarrow> arow \<Rightarrow> arow" where
  "freeze approver r = r\<lparr>ar_state := ''approved'', ar_app_content := Some (ar_content r), ar_app_seed := ar_seed r,
     ar_app_scope := ar_scope r, ar_app_type := Some (ar_type r), ar_app_name := Some (ar_name r),
     ar_app_visibility := Some (ar_visibility r), ar_app_tags := ar_tags r, ar_app_rule_scope := ar_rule_scope r,
     ar_approved_by := Some approver\<rparr>"

definition approval_revision :: "string \<Rightarrow> arow \<Rightarrow> rrow" where
  "approval_revision approver a = \<lparr>rv_tenant = ar_tenant a, rv_artifact = ar_id a, rv_num = 0,
     rv_content = ar_content a, rv_seed = nullif (str (ar_seed a)), rv_scope = nullif (str (ar_scope a)),
     rv_type = nullif (str (ar_app_type a)), rv_name = nullif (str (ar_app_name a)),
     rv_visibility = nullif (str (ar_app_visibility a)), rv_tags = nullif (str (ar_app_tags a)),
     rv_rule_scope = nullif (str (ar_app_rule_scope a)), rv_source = ''approval'', rv_by = approver\<rparr>"

definition SetArtifactApproved :: "string \<Rightarrow> string \<Rightarrow> string \<Rightarrow> int \<Rightarrow> db \<Rightarrow> (dberr + arow \<times> nat) \<times> db" where
  "SetArtifactApproved tenant i approver keep d =
     (case transition (freeze approver) tenant i d of
        (Inl e, d1) \<Rightarrow> (Inl e, d1)
      | (Inr a, d1) \<Rightarrow>
          (case insertRevision (approval_revision approver a) keep d1 of
             (pruned, d2) \<Rightarrow> (Inr (a, pruned), d2)))"

subsection \<open>The distribution reads\<close>

record dist_artifact =
  da_id :: string
  da_type :: string
  da_name :: string
  da_content :: bytes
  da_scope :: string
  da_seed :: bytes
  da_revision :: int
  da_min_revision :: int
  da_oldest :: int
  da_tags :: "string list"
  da_rule_scope :: string

definition scanDistArtifact :: "db \<Rightarrow> arow \<Rightarrow> dist_artifact" where
  "scanDistArtifact d r = \<lparr>da_id = ar_id r, da_type = str (ar_app_type r), da_name = str (ar_app_name r),
     da_content = str (ar_app_content r), da_scope = str (ar_app_scope r), da_seed = str (ar_app_seed r),
     da_revision = max0 (rev_nums (ar_id r) d), da_min_revision = ar_min_revision r,
     da_oldest = min0 (rev_nums (ar_id r) d), da_tags = str (ar_app_tags r), da_rule_scope = str (ar_app_rule_scope r)\<rparr>"

type_synonym collation = "string \<times> string \<Rightarrow> string \<times> string \<Rightarrow> bool"

fun insert_by :: "('a \<Rightarrow> 'a \<Rightarrow> bool) \<Rightarrow> 'a \<Rightarrow> 'a list \<Rightarrow> 'a list" where
  "insert_by le x [] = [x]"
| "insert_by le x (y # ys) = (if le x y then x # y # ys else y # insert_by le x ys)"

definition order_by :: "collation \<Rightarrow> dist_artifact list \<Rightarrow> dist_artifact list" where
  "order_by le xs = foldr (insert_by (\<lambda>a b. le (da_type a, da_name a) (da_type b, da_name b))) xs []"

definition ListActiveOrgArtifacts :: "collation \<Rightarrow> string \<Rightarrow> db \<Rightarrow> dist_artifact list" where
  "ListActiveOrgArtifacts le tenant d = order_by le (map (scanDistArtifact d)
     (filter (\<lambda>r. ar_tenant r = tenant \<and> ar_app_visibility r = Some ''org'' \<and> ar_app_content r \<noteq> None) (db_artifacts d)))"

definition ListActiveOrgRules :: "collation \<Rightarrow> string \<Rightarrow> db \<Rightarrow> dist_artifact list" where
  "ListActiveOrgRules le tenant d = order_by le (map (scanDistArtifact d)
     (filter (\<lambda>r. ar_tenant r = tenant \<and> ar_app_visibility r = Some ''org'' \<and> ar_app_type r = Some ''rule'' \<and>
        ar_app_content r \<noteq> None) (db_artifacts d)))"

definition ListEntitledArtifacts :: "collation \<Rightarrow> string \<Rightarrow> string list \<Rightarrow> db \<Rightarrow> dist_artifact list" where
  "ListEntitledArtifacts le tenant roles d =
     (if roles = [] then []
      else order_by le (remdups (map (scanDistArtifact d)
        (filter (\<lambda>r. ar_tenant r = tenant \<and> ar_app_visibility r = Some ''role'' \<and> ar_app_content r \<noteq> None \<and>
           list_ex (\<lambda>g. ag_artifact g = ar_id r \<and> ag_role g \<in> set roles) (db_grants d)) (db_artifacts d)))))"

record revision_payload =
  rp_content :: bytes
  rp_seed :: bytes
  rp_scope :: string
  rp_type :: string
  rp_name :: string

definition coalesce :: "'a option \<Rightarrow> 'a \<Rightarrow> 'a" where
  "coalesce x y = (case x of None \<Rightarrow> y | Some v \<Rightarrow> v)"

definition payload_at :: "arow \<Rightarrow> rrow \<Rightarrow> revision_payload" where
  "payload_at a v =
     (let ty = (case (rv_type v, rv_name v) of
            (Some t, Some n) \<Rightarrow> (t, n)
          | _ \<Rightarrow> (coalesce (ar_app_type a) (ar_type a), coalesce (ar_app_name a) (ar_name a))) in
      \<lparr>rp_content = rv_content v, rp_seed = str (rv_seed v), rp_scope = str (rv_scope v),
       rp_type = fst ty, rp_name = snd ty\<rparr>)"

text \<open>The join of the revisions with their artifacts, restricted to the keys asked for.\<close>

definition ListArtifactRevisionPayloads ::
  "string \<Rightarrow> (string \<times> int) list \<Rightarrow> db \<Rightarrow> ((string \<times> int) \<times> revision_payload) list" where
  "ListArtifactRevisionPayloads tenant keys d =
     concat (map (\<lambda>v.
       (case List.find (\<lambda>a. ar_id a = rv_artifact v) (db_artifacts d) of
          None \<Rightarrow> []
        | Some a \<Rightarrow>
            if ar_tenant a = tenant \<and> (rv_artifact v, rv_num v) \<in> set keys
            then [((rv_artifact v, rv_num v), payload_at a v)] else []))
       (db_revisions d))"

subsection \<open>Grants\<close>

definition ArtifactExistsInTenant :: "string \<Rightarrow> string \<Rightarrow> db \<Rightarrow> bool" where
  "ArtifactExistsInTenant tenant i d \<longleftrightarrow> list_ex (addressed tenant i) (db_artifacts d)"

definition RoleExistsInTenant :: "string \<Rightarrow> string \<Rightarrow> db \<Rightarrow> bool" where
  "RoleExistsInTenant tenant i d \<longleftrightarrow> list_ex (\<lambda>r. ro_tenant r = tenant \<and> ro_id r = i) (db_roles d)"

definition CreateArtifactEntitlement :: "agrant \<Rightarrow> db \<Rightarrow> (dberr + agrant) \<times> db" where
  "CreateArtifactEntitlement e d =
     (if list_ex (\<lambda>g. ag_tenant g = ag_tenant e \<and> ag_role g = ag_role e \<and> ag_artifact g = ag_artifact e) (db_grants d)
      then (Inl (UniqueViolation ''artifact_entitlement_tenant_id_role_id_artifact_id_key''), d)
      else if \<not> RoleExistsInTenant (ag_tenant e) (ag_role e) d \<or> \<not> ArtifactExistsInTenant (ag_tenant e) (ag_artifact e) d
      then (Inl FKViolation, d)
      else (Inr e, d\<lparr>db_grants := db_grants d @ [e]\<rparr>))"

definition DeleteArtifactEntitlement :: "string \<Rightarrow> string \<Rightarrow> db \<Rightarrow> dberr option \<times> db" where
  "DeleteArtifactEntitlement tenant i d =
     (if list_ex (\<lambda>g. ag_tenant g = tenant \<and> ag_id g = i) (db_grants d)
      then (None, d\<lparr>db_grants := filter (\<lambda>g. \<not> (ag_tenant g = tenant \<and> ag_id g = i)) (db_grants d)\<rparr>)
      else (Some ErrNotFound, d))"

definition MaxGrantNames :: int where "MaxGrantNames = 50"

fun read_names :: "int \<Rightarrow> string list \<times> nat \<times> bool \<Rightarrow> string list \<Rightarrow> string list \<times> nat \<times> bool" where
  "read_names maxNames acc [] = acc"
| "read_names maxNames (names, n, trunc) (x # rows) =
     read_names maxNames
       (if maxNames \<le> 0 \<or> int (length names) < maxNames then (names @ [x], n + 1, trunc) else (names, n + 1, True)) rows"

definition readGrantNames :: "int \<Rightarrow> string list \<Rightarrow> string list \<times> nat \<times> bool" where
  "readGrantNames maxNames rows = read_names maxNames ([], 0, False) rows"

record role_grants =
  rg_count :: nat
  rg_names :: "string list"
  rg_truncated :: bool

text \<open>The join with the roles, ordered by role name in the collation of the database.\<close>

definition grant_role_names :: "(string \<Rightarrow> string \<Rightarrow> bool) \<Rightarrow> string \<Rightarrow> string \<Rightarrow> db \<Rightarrow> string list" where
  "grant_role_names le tenant i d =
     foldr (insert_by le) (concat (map (\<lambda>g. map ro_name (filter (\<lambda>r. ro_id r = ag_role g) (db_roles d)))
       (filter (\<lambda>g. ag_tenant g = tenant \<and> ag_artifact g = i) (db_grants d)))) []"

definition ArtifactRoleGrants :: "(string \<Rightarrow> string \<Rightarrow> bool) \<Rightarrow> string \<Rightarrow> string \<Rightarrow> db \<Rightarrow> role_grants" where
  "ArtifactRoleGrants le tenant i d =
     (case readGrantNames MaxGrantNames (grant_role_names le tenant i d) of
        (names, n, trunc) \<Rightarrow> \<lparr>rg_count = n, rg_names = names, rg_truncated = trunc\<rparr>)"

end
