(* ===== verification/ApiErrors.thy ===== *)
theory ApiErrors
  imports GoText Scanner ArtifactStore
begin

text \<open>
  The error values of the API and what each becomes on the wire (\<open>internal/api/respond.go\<close>), the
  \<open>If-Match\<close> precondition (\<open>precondition.go\<close>), and the transaction that writes an audit row with
  the mutation it records (\<open>admin_audit_helper.go\<close>).
\<close>

subsection \<open>Errors and responses\<close>

record limitError =
  le_resource :: string
  le_max :: int
  le_current :: int
  le_contact :: string

text \<open>
  The error values \<open>fail\<close> tells apart; \<open>StoreErr\<close> holds the errors of the tables, the unique
  violations with the name of their constraint; \<open>OtherErr\<close> is any error of another type.
\<close>

datatype api_error =
  ValidationError string
| ForbiddenError string
| LimitError limitError
| PreconditionRequired string
| VersionMismatch string
| FindingsDigestMismatch string
| FindingsAckRequired string string
| IdpAssertionRequired string
| IdpUnavailable string
| ConflictError string
| StoreErr dberr
| CursorSortMismatch
| OtherErr string

datatype 'b reply =
  ErrorReply nat string
| CodedReply nat string string
| LimitReply nat string limitError
| BlockedReply nat string "finding list"
| Reply nat 'b

fun status_of :: "'b reply \<Rightarrow> nat" where
  "status_of (ErrorReply n m) = n"
| "status_of (CodedReply n m c) = n"
| "status_of (LimitReply n m l) = n"
| "status_of (BlockedReply n m fs) = n"
| "status_of (Reply n b) = n"

definition limit_message :: "limitError \<Rightarrow> string" where
  "limit_message e = ''community edition limit reached: '' @ le_resource e @ '' ('' @ FormatInt (le_current e) @
     '' of '' @ FormatInt (le_max e) @ '' used)''"

definition writeLimitReached :: "limitError \<Rightarrow> 'b reply" where
  "writeLimitReached e = LimitReply 402 (limit_message e) e"

definition idpAssertionRequiredCode :: string where
  "idpAssertionRequiredCode = ''idp_rename_assertion_required''"

definition writeIdpAssertionRequired :: "string \<Rightarrow> 'b reply" where
  "writeIdpAssertionRequired m = CodedReply 400 m idpAssertionRequiredCode"

definition writeFindingsAckRequired :: "string \<Rightarrow> string \<Rightarrow> 'b reply" where
  "writeFindingsAckRequired c m = CodedReply 409 m c"

definition writeBlocked :: "string \<Rightarrow> finding list \<Rightarrow> 'b reply" where
  "writeBlocked m findings = BlockedReply 422 m findings"

definition ApprovedIdentityUniqueIndex :: string where
  "ApprovedIdentityUniqueIndex = ''artifact_tenant_approved_identity_uniq''"

definition approvedIdentityTaken :: string where
  "approvedIdentityTaken = ''another artifact already distributes under that approved type and name''"

fun api_fail :: "api_error \<Rightarrow> 'b reply" where
  "api_fail (ValidationError m) = ErrorReply 400 m"
| "api_fail (ForbiddenError m) = ErrorReply 403 m"
| "api_fail (LimitError e) = writeLimitReached e"
| "api_fail (PreconditionRequired m) = ErrorReply 428 m"
| "api_fail (VersionMismatch m) = ErrorReply 412 m"
| "api_fail (FindingsDigestMismatch m) = ErrorReply 412 m"
| "api_fail (FindingsAckRequired c m) = writeFindingsAckRequired c m"
| "api_fail (IdpAssertionRequired m) = writeIdpAssertionRequired m"
| "api_fail (IdpUnavailable m) = ErrorReply 502 m"
| "api_fail (ConflictError m) = ErrorReply 409 m"
| "api_fail (StoreErr ErrNotFound) = ErrorReply 404 ''not found''"
| "api_fail (StoreErr ErrVersionMismatch) =
     ErrorReply 412 ''the resource changed since you loaded it; reload and reapply your change''"
| "api_fail (StoreErr ErrNameTaken) = ErrorReply 409 ''a role in this tenant already has this name''"
| "api_fail CursorSortMismatch = ErrorReply 400 ''cursor does not match the requested sort''"
| "api_fail (StoreErr (UniqueViolation c)) =
     (if c = ApprovedIdentityUniqueIndex then ErrorReply 409 approvedIdentityTaken else ErrorReply 409 ''already exists'')"
| "api_fail (StoreErr FKViolation) = ErrorReply 400 ''references a nonexistent resource''"
| "api_fail (StoreErr CheckViolation) = ErrorReply 500 ''internal error''"
| "api_fail (OtherErr m) = ErrorReply 500 ''internal error''"

subsection \<open>The precondition\<close>

definition ifMatch :: "string \<Rightarrow> api_error + int" where
  "ifMatch header =
     (let raw = TrimSpace header in
      if raw = [] then Inl (PreconditionRequired
        ''If-Match is required on this request; GET the resource and resubmit with its ETag'')
      else if raw = ''*'' then Inl (PreconditionRequired
        ''If-Match: * is not accepted; supply the resource's specific ETag'')
      else if length raw < 3 \<or> hd raw \<noteq> CHR 0x22 \<or> last raw \<noteq> CHR 0x22 \<or>
        list_ex (\<lambda>c. c = CHR 0x22 \<or> c = CHR '','') (tl (butlast raw))
      then Inl (ValidationError ''If-Match must be a single strong entity-tag'')
      else (case ParseInt (tl (butlast raw)) of
          None \<Rightarrow> Inl (ValidationError ''If-Match is not a valid entity-tag for this resource'')
        | Some n \<Rightarrow> if n < 1 then Inl (ValidationError ''If-Match is not a valid entity-tag for this resource'') else Inr n))"

definition etag :: "int \<Rightarrow> string" where
  "etag rowVersion = [CHR 0x22] @ FormatInt rowVersion @ [CHR 0x22]"

subsection \<open>The audited transaction\<close>

datatype meta = MNull | MStr string | MInt int | MBool bool | MStrs "string list" | MFindings "finding list"

record audit_event =
  ae_tenant :: string
  ae_actor :: string
  ae_action :: string
  ae_target :: string
  ae_decision :: string
  ae_metadata :: "(string \<times> meta) list"

text \<open>
  The state the handlers share: the tables, the durable audit rows, the lines of the audit log
  with whether the row behind them was written, the nudges sent and the publish requests.
\<close>

record api_state =
  as_db :: db
  as_audit :: "audit_event list"
  as_log :: "(audit_event \<times> bool) list"
  as_nudges :: "string list"
  as_published :: nat

text \<open>What can fail around a statement: the start and the end of the transaction, an audit row, a nudge.\<close>

record tx_env =
  te_begin :: "string option"
  te_commit :: "string option"
  te_audit :: "audit_event \<Rightarrow> string option"
  te_notify :: "string option"

definition nudgesGatewaySessions :: "string \<Rightarrow> bool" where
  "nudgesGatewaySessions action \<longleftrightarrow>
     list_ex (\<lambda>p. has_prefix p action) [''entitlement.'', ''role.'', ''server.'']"

definition auditedTx ::
  "tx_env \<Rightarrow> (db \<Rightarrow> (api_error + audit_event \<times> 'a) \<times> db) \<Rightarrow> api_state \<Rightarrow> (api_error + 'a) \<times> api_state" where
  "auditedTx env mutate st =
     (case te_begin env of
        Some m \<Rightarrow> (Inl (OtherErr (''begin tx: '' @ m)), st)
      | None \<Rightarrow>
          (case mutate (as_db st) of
             (Inl e, _) \<Rightarrow> (Inl e, st)
           | (Inr (ev, x), d1) \<Rightarrow>
               (case te_audit env ev of
                  Some m \<Rightarrow> (Inl (OtherErr (''append audit event: '' @ m)), st)
                | None \<Rightarrow>
                    (case te_commit env of
                       Some m \<Rightarrow> (Inl (OtherErr (''commit tx: '' @ m)), st)
                     | None \<Rightarrow>
                         (Inr x, st\<lparr>as_db := d1, as_audit := as_audit st @ [ev], as_log := as_log st @ [(ev, True)],
                            as_nudges := as_nudges st @
                              (if nudgesGatewaySessions (ae_action ev) \<and> te_notify env = None then [ae_tenant ev] else [])\<rparr>)))))"

definition appendDenyAudit :: "tx_env \<Rightarrow> audit_event \<Rightarrow> api_state \<Rightarrow> api_error option \<times> api_state" where
  "appendDenyAudit env ev st =
     (let ev1 = ev\<lparr>ae_decision := ''deny''\<rparr> in
      case te_audit env ev1 of
        Some m \<Rightarrow> (Some (OtherErr (''append audit event: '' @ m)), st\<lparr>as_log := as_log st @ [(ev1, False)]\<rparr>)
      | None \<Rightarrow> (None, st\<lparr>as_audit := as_audit st @ [ev1], as_log := as_log st @ [(ev1, True)]\<rparr>))"

definition logBestEffortAudit :: "tx_env \<Rightarrow> audit_event \<Rightarrow> api_state \<Rightarrow> api_state" where
  "logBestEffortAudit env ev st =
     (case te_audit env ev of
        Some m \<Rightarrow> st\<lparr>as_log := as_log st @ [(ev, False)]\<rparr>
      | None \<Rightarrow> st\<lparr>as_audit := as_audit st @ [ev]\<rparr>)"

text \<open>A transaction that does not return a value leaves no trace; one that does left its audit row.\<close>

lemma auditedTx_Inl: "auditedTx env mutate st = (Inl e, st1) \<Longrightarrow> st1 = st"
  by (auto simp: auditedTx_def split: option.splits sum.splits prod.splits)

lemma auditedTx_Inr:
  "auditedTx env mutate st = (Inr x, st1) \<Longrightarrow>
     \<exists>ev. mutate (as_db st) = (Inr (ev, x), as_db st1) \<and> as_audit st1 = as_audit st @ [ev] \<and>
       as_published st1 = as_published st"
  by (auto simp: auditedTx_def split: option.splits sum.splits prod.splits)

subsection \<open>The round trip of an entity tag\<close>

lemma trim_front_id: "(\<And>r. r \<in> set rs \<Longrightarrow> r \<noteq> [] \<Longrightarrow> \<not> prefix r s) \<Longrightarrow> trim_front rs s = s"
  by (subst trim_front.simps) (auto simp: find_Some_iff find_None_iff has_prefix_iff split: option.splits)

lemma TrimSpace_plain:
  assumes "s \<noteq> []" "hd s \<notin> set (map hd space_runes)" "last s \<notin> set (map last space_runes)"
  shows "TrimSpace s = s"
proof -
  have ne: "r \<noteq> []" if "r \<in> set space_runes" for r using that by (auto simp: space_runes_def)
  have "\<not> prefix r s" if "r \<in> set space_runes" for r
  proof -
    have "hd r \<noteq> hd s" using that assms(2) by (metis image_eqI list.set_map)
    with ne [OF that] assms(1) show ?thesis by (cases r; cases s) auto
  qed
  then have f: "trim_front space_runes s = s" by (intro trim_front_id)
  have "\<not> prefix r (rev s)" if "r \<in> set (map rev space_runes)" for r
  proof -
    obtain q where q: "r = rev q" "q \<in> set space_runes" using \<open>r \<in> _\<close> by auto
    have "hd (rev q) = last q" "hd (rev s) = last s" using ne [OF q(2)] assms(1) by (auto simp: hd_rev)
    moreover have "last q \<noteq> last s" using assms(3) q(2) by (metis image_eqI list.set_map)
    ultimately have "hd r \<noteq> hd (rev s)" using q(1) by simp
    moreover have "r \<noteq> []" using ne [OF q(2)] q(1) by simp
    ultimately show ?thesis by (metis hd_append2 prefixE)
  qed
  then have "trim_front (map rev space_runes) (rev s) = rev s" by (intro trim_front_id)
  with f show ?thesis by (simp add: TrimSpace_def)
qed

text \<open>
  An entity tag the server sends is a precondition it accepts: \<open>ifMatch\<close> reads back the very
  version \<open>etag\<close> rendered, and whatever it accepts is a version a row can have.
\<close>

theorem etag_ifMatch:
  assumes "1 \<le> v" "v < 2 ^ 63"
  shows "ifMatch (etag v) = Inr v \<and> (ifMatch h = Inr n \<longrightarrow> 1 \<le> n \<and> n < 2 ^ 63)"
proof -
  let ?d = "FormatInt v"
  have f: "?d = format_nat (nat v)" using assms by (simp add: FormatInt_def)
  have digits: "c \<notin> {CHR 0x22, CHR '',''}" if "c \<in> set ?d" for c
    using format_nat_digits [of c "nat v"] that digit_char_plain by (auto simp: f)
  have q: "CHR 0x22 \<notin> set (map hd space_runes)" "CHR 0x22 \<notin> set (map last space_runes)" by code_simp+
  have t: "TrimSpace (etag v) = CHR 0x22 # ?d @ [CHR 0x22]"
    using TrimSpace_plain [of "etag v"] q by (simp add: etag_def)
  have "?d \<noteq> []" by (simp add: f)
  then have "length (CHR 0x22 # ?d @ [CHR 0x22]) \<ge> 3" by (cases ?d) auto
  moreover have "\<not> list_ex (\<lambda>c. c = CHR 0x22 \<or> c = CHR '','') ?d" using digits by (auto simp: list_ex_iff)
  moreover have "CHR 0x22 # ?d @ [CHR 0x22] \<noteq> ''*''" using \<open>?d \<noteq> []\<close> by simp
  ultimately have "ifMatch (etag v) = Inr v"
    using t assms ParseInt_FormatInt [of v] \<open>?d \<noteq> []\<close> by (simp add: ifMatch_def Let_def)
  moreover have "1 \<le> n \<and> n < 2 ^ 63" if "ifMatch h = Inr n"
    using that by (auto simp: ifMatch_def Let_def ParseInt_def split: if_splits option.splits prod.splits list.splits)
  ultimately show ?thesis by blast
qed

theorem etag_ifMatch_witness: "ifMatch (etag 7) = Inr 7"
  using etag_ifMatch [of 7] by simp

end
