(* ===== verification/Marketplace.thy ===== *)
theory Marketplace
  imports GoText "HOL-Library.AList"
begin

text \<open>
  The plugin tree of the marketplace (\<open>internal/marketplace\<close>) and the content of one artifact
  as it lands on disk. \<open>encoding/json\<close> is modelled for the values the manifests hold; the YAML
  codec (\<open>gopkg.in/yaml.v3\<close>) is a parameter.
\<close>

subsection \<open>Indented JSON\<close>

datatype json = JStr bytes | JObj "(string \<times> json) list" | JArr "json list"

definition hex_digit :: "nat \<Rightarrow> char" where
  "hex_digit d = char_of (if d < 10 then d + 48 else d + 87)"

definition json_char :: "bytes \<times> bool \<Rightarrow> bytes" where
  "json_char rv =
     (if \<not> snd rv then CHR 0x5C # ''ufffd'' else
      let r = fst rv in
      case r of
        [c] \<Rightarrow>
          (let n = of_char c :: nat in
           if c = CHR 0x22 then [CHR 0x5C, CHR 0x22]
           else if c = CHR 0x5C then [CHR 0x5C, CHR 0x5C]
           else if n = 8 then [CHR 0x5C, CHR ''b'']
           else if n = 12 then [CHR 0x5C, CHR ''f'']
           else if n = 10 then [CHR 0x5C, CHR ''n'']
           else if n = 13 then [CHR 0x5C, CHR ''r'']
           else if n = 9 then [CHR 0x5C, CHR ''t'']
           else if n < 32 \<or> c \<in> {CHR ''<'', CHR ''>'', CHR ''&''}
           then [CHR 0x5C, CHR ''u'', CHR ''0'', CHR ''0'', hex_digit (n div 16), hex_digit (n mod 16)]
           else [c])
      | _ \<Rightarrow>
          if r = [CHR 0xE2, CHR 0x80, CHR 0xA8] then CHR 0x5C # ''u2028''
          else if r = [CHR 0xE2, CHR 0x80, CHR 0xA9] then CHR 0x5C # ''u2029''
          else r)"

definition json_quote :: "bytes \<Rightarrow> bytes" where
  "json_quote s = [CHR 0x22] @ concat (map json_char (decode_runes s)) @ [CHR 0x22]"

definition json_pad :: "nat \<Rightarrow> bytes" where "json_pad n = nl # replicate (2 * n) CHR '' ''"

fun join_comma :: "bytes list \<Rightarrow> bytes" where
  "join_comma [] = []"
| "join_comma [x] = x"
| "join_comma (x # xs) = x @ '','' @ join_comma xs"

fun json_indent :: "nat \<Rightarrow> json \<Rightarrow> bytes" where
  "json_indent n (JStr s) = json_quote s"
| "json_indent n (JObj fs) =
     (if fs = [] then ''{}''
      else ''{'' @ join_comma (map (\<lambda>(k, v). json_pad (n + 1) @ json_quote k @ '': '' @ json_indent (n + 1) v) fs) @
           json_pad n @ ''}'')"
| "json_indent n (JArr vs) =
     (if vs = [] then ''[]''
      else ''['' @ join_comma (map (\<lambda>v. json_pad (n + 1) @ json_indent (n + 1) v) vs) @ json_pad n @ '']'')"

definition mustJSON :: "json \<Rightarrow> bytes" where "mustJSON v = json_indent 0 v @ [nl]"

subsection \<open>Frontmatter\<close>

fun crlf_to_lf :: "bytes \<Rightarrow> bytes" where
  "crlf_to_lf (c # d # s) = (if c = CHR 0x0D \<and> d = nl then nl # crlf_to_lf s else c # crlf_to_lf (d # s))"
| "crlf_to_lf s = s"

definition fence :: bytes where "fence = ''---''"

text \<open>
  The scan for a line that is exactly \<open>---\<close>: a match of \<open>"\n---"\<close> that more text follows on the
  same line is stepped over. The result is what precedes the fence and what follows it.
\<close>

function find_fence :: "bytes \<Rightarrow> (bytes \<times> bytes) option" where
  "find_fence s =
     (case cut_sub (nl # fence) s of
        None \<Rightarrow> None
      | Some (pre, after) \<Rightarrow>
          if after = [] \<or> hd after = nl then Some (pre, after)
          else (case find_fence after of
                  None \<Rightarrow> None
                | Some (q, rest) \<Rightarrow> Some (pre @ nl # fence @ q, rest)))"
  by pat_completeness auto
termination
  by (relation "measure length") (auto dest: cut_sub_Some_length)

declare find_fence.simps [simp del]

definition splitFrontmatter :: "bytes \<Rightarrow> string + (bytes \<times> bytes)" where
  "splitFrontmatter content =
     (case strip_prefix (fence @ [nl]) (crlf_to_lf content) of
        None \<Rightarrow> Inl ''marketplace: content missing leading '---' frontmatter''
      | Some rest \<Rightarrow>
          (case find_fence rest of
             None \<Rightarrow> Inl ''marketplace: unterminated frontmatter block''
           | Some (fm, after) \<Rightarrow> Inr (fm, case after of [] \<Rightarrow> [] | c # r \<Rightarrow> if c = nl then r else after)))"

datatype yaml_value = YStr bytes | YOther bytes

type_synonym yaml_map = "string \<rightharpoonup> yaml_value"

record yaml_codec =
  yaml_unmarshal :: "bytes \<Rightarrow> string + yaml_map"
  yaml_marshal :: "yaml_map \<Rightarrow> string + bytes"

text \<open>\<open>s, _ := m[k].(string)\<close>\<close>

definition string_at :: "string \<Rightarrow> yaml_map \<Rightarrow> bytes" where
  "string_at k m = (case m k of Some (YStr s) \<Rightarrow> s | _ \<Rightarrow> [])"

definition ValidateArtifactContent :: "yaml_codec \<Rightarrow> bytes \<Rightarrow> string option" where
  "ValidateArtifactContent y content =
     (case splitFrontmatter content of
        Inl e \<Rightarrow> Some e
      | Inr (fm, _) \<Rightarrow>
          (case yaml_unmarshal y fm of
             Inl e \<Rightarrow> Some (''marketplace: frontmatter is not valid YAML: '' @ e)
           | Inr m \<Rightarrow>
               if TrimSpace (string_at ''name'' m) = [] then Some (''marketplace: frontmatter missing required '' @ [CHR 0x27] @ ''name'' @ [CHR 0x27])
               else if TrimSpace (string_at ''description'' m) = []
               then Some (''marketplace: frontmatter missing required '' @ [CHR 0x27] @ ''description'' @ [CHR 0x27])
               else None))"

definition withMemory :: "yaml_codec \<Rightarrow> bytes \<Rightarrow> string \<Rightarrow> string + bytes" where
  "withMemory y content scope =
     (case splitFrontmatter content of
        Inl e \<Rightarrow> Inl e
      | Inr (fm, body) \<Rightarrow>
          (case yaml_unmarshal y fm of
             Inl e \<Rightarrow> Inl (''marketplace: frontmatter is not valid YAML: '' @ e)
           | Inr m \<Rightarrow>
               (case yaml_marshal y (m(''memory'' \<mapsto> YStr scope)) of
                  Inl e \<Rightarrow> Inl (''marketplace: re-marshal frontmatter: '' @ e)
                | Inr out \<Rightarrow> Inr (fence @ nl # out @ fence @ nl # body))))"

subsection \<open>Rendering\<close>

record mkt_artifact =
  mk_type :: string
  mk_name :: string
  mk_content :: bytes
  mk_scope :: string

definition RenderArtifactContent :: "yaml_codec \<Rightarrow> mkt_artifact \<Rightarrow> bytes" where
  "RenderArtifactContent y a =
     (if mk_type a = ''subagent'' \<and> mk_scope a \<noteq> [] then
        (case withMemory y (mk_content a) (mk_scope a) of Inr c \<Rightarrow> c | Inl _ \<Rightarrow> mk_content a)
      else mk_content a)"

text \<open>\<^verbatim>\<open>^[a-z0-9][a-z0-9-]*$\<close>, the renderer's own copy.\<close>

definition pluginNameRe :: "string \<Rightarrow> bool" where
  "pluginNameRe s \<longleftrightarrow> s \<noteq> [] \<and> is_lower_alnum (hd s) \<and> list_all is_slug_char (tl s)"

definition ArtifactsPluginName :: string where "ArtifactsPluginName = ''orbeat-artifacts''"
definition MarketplaceName :: string where "MarketplaceName = ''orbeat''"
definition PluginName :: string where "PluginName = ''orbeat-gateway''"
definition PluginSource :: string where "PluginSource = ''./plugins/'' @ PluginName"
definition PluginVersion :: string where "PluginVersion = ''0.1.0''"
definition marketplaceDescription :: string where
  "marketplaceDescription = ''orbeat - governed AI-agent capabilities''"
definition pluginDescription :: string where
  "pluginDescription = ''Connect to your entitled orbeat MCP gateway (SSO/OAuth).''"
definition ownerName :: string where "ownerName = ''orbeat''"

definition artifacts_base :: string where "artifacts_base = ''plugins/'' @ ArtifactsPluginName"

type_synonym files = "(string \<times> bytes) list"

definition MCPURL :: "string \<Rightarrow> string" where
  "MCPURL url = (if url \<noteq> [] \<and> last url = CHR ''/'' then butlast url else url) @ ''/mcp''"

definition plugin_manifest :: "string \<Rightarrow> string \<Rightarrow> json" where
  "plugin_manifest name descr = JObj [(''name'', JStr name), (''version'', JStr PluginVersion),
     (''description'', JStr descr), (''author'', JObj [(''name'', JStr ownerName)])]"

definition renderConnectPlugin :: "string \<Rightarrow> files" where
  "renderConnectPlugin gatewayURL =
     (let base = ''plugins/'' @ PluginName in
      [(base @ ''/.claude-plugin/plugin.json'', mustJSON (plugin_manifest PluginName pluginDescription)),
       (base @ ''/.mcp.json'', mustJSON (JObj [(''mcpServers'',
          JObj [(PluginName, JObj [(''type'', JStr ''http''), (''url'', JStr (MCPURL gatewayURL))])])]))])"

definition plugin_entry :: "string \<Rightarrow> string \<Rightarrow> string \<Rightarrow> json" where
  "plugin_entry name source descr =
     JObj [(''name'', JStr name), (''source'', JStr source), (''description'', JStr descr)]"

definition renderMarketplaceManifest :: "bool \<Rightarrow> bytes" where
  "renderMarketplaceManifest withArtifacts =
     (let plugins = [plugin_entry PluginName PluginSource pluginDescription] @
            (if withArtifacts
             then [plugin_entry ArtifactsPluginName (''./plugins/'' @ ArtifactsPluginName) ''orbeat governed skills and subagents.'']
             else []) in
      mustJSON (JObj [(''name'', JStr MarketplaceName), (''owner'', JObj [(''name'', JStr ownerName)]),
        (''description'', JStr marketplaceDescription), (''plugins'', JArr plugins)]))"

text \<open>One artifact of the plugin tree: its path and body, nothing for a rule, an error for a bad name.\<close>

definition render_one :: "yaml_codec \<Rightarrow> mkt_artifact \<Rightarrow> string + (string \<times> bytes) option" where
  "render_one y a =
     (if mk_type a = ''skill'' then
        if \<not> pluginNameRe (mk_name a) then Inl (''marketplace: artifact name '' @ mk_name a @ '' is not a valid slug'')
        else Inr (Some (artifacts_base @ ''/skills/'' @ mk_name a @ ''/SKILL.md'', mk_content a))
      else if mk_type a = ''subagent'' then
        if \<not> pluginNameRe (mk_name a) then Inl (''marketplace: artifact name '' @ mk_name a @ '' is not a valid slug'')
        else Inr (Some (artifacts_base @ ''/agents/'' @ mk_name a @ ''.md'',
          if mk_scope a \<noteq> [] then
            (case withMemory y (mk_content a) (mk_scope a) of Inr c \<Rightarrow> c | Inl _ \<Rightarrow> mk_content a)
          else mk_content a))
      else Inr None)"

fun render_loop :: "yaml_codec \<Rightarrow> files \<Rightarrow> mkt_artifact list \<Rightarrow> string + files" where
  "render_loop y files [] = Inr files"
| "render_loop y files (a # as) =
     (case render_one y a of
        Inl e \<Rightarrow> Inl e
      | Inr None \<Rightarrow> render_loop y files as
      | Inr (Some (p, c)) \<Rightarrow> render_loop y (AList.update p c files) as)"

definition artifacts_manifest_path :: string where
  "artifacts_manifest_path = artifacts_base @ ''/.claude-plugin/plugin.json''"

definition RenderArtifactsPlugin :: "yaml_codec \<Rightarrow> mkt_artifact list \<Rightarrow> string + files" where
  "RenderArtifactsPlugin y artifacts =
     render_loop y [(artifacts_manifest_path,
       mustJSON (plugin_manifest ArtifactsPluginName ''orbeat governed skills and subagents.''))] artifacts"

fun put_all :: "files \<Rightarrow> files \<Rightarrow> files" where
  "put_all files [] = files"
| "put_all files ((p, c) # new) = put_all (AList.update p c files) new"

definition RenderMarketplace :: "yaml_codec \<Rightarrow> string \<Rightarrow> mkt_artifact list \<Rightarrow> string + files" where
  "RenderMarketplace y gatewayURL artifacts =
     (case RenderArtifactsPlugin y artifacts of
        Inl e \<Rightarrow> Inl e
      | Inr artFiles \<Rightarrow>
          let rendered = length (filter (\<lambda>(p, _). p \<noteq> artifacts_manifest_path) artFiles) in
          Inr (AList.update ''.claude-plugin/marketplace.json'' (renderMarketplaceManifest (rendered > 0))
            (put_all (put_all [] (renderConnectPlugin gatewayURL)) artFiles)))"

subsection \<open>The frontmatter fence\<close>

lemma find_fence_Some:
  "find_fence s = Some (pre, after) \<Longrightarrow> s = pre @ nl # fence @ after \<and> (after = [] \<or> hd after = nl)"
proof (induction s arbitrary: pre after rule: find_fence.induct)
  case (1 s)
  obtain a b where c: "cut_sub (nl # fence) s = Some (a, b)"
    using "1.prems" by (subst (asm) find_fence.simps) (auto split: option.splits)
  then have s: "s = a @ nl # fence @ b" using cut_sub_Some by fastforce
  show ?case
  proof (cases "b = [] \<or> hd b = nl")
    case True
    with "1.prems" c s show ?thesis by (subst (asm) find_fence.simps) auto
  next
    case False
    with "1.prems" c obtain q rest where q: "find_fence b = Some (q, rest)" "pre = a @ nl # fence @ q" "after = rest"
      by (subst (asm) find_fence.simps) (auto split: option.splits)
    then have "b = q @ nl # fence @ rest \<and> (rest = [] \<or> hd rest = nl)"
      using "1.IH" [OF c refl False] by blast
    with q s show ?thesis by simp
  qed
qed

text \<open>No line of \<open>w\<close> but perhaps its first is a fence.\<close>

definition no_fence_line :: "bytes \<Rightarrow> bool" where
  "no_fence_line w \<longleftrightarrow> (\<forall>a b. w @ [nl] \<noteq> a @ nl # fence @ nl # b)"

lemma find_fence_exact: "no_fence_line w \<Longrightarrow> find_fence (w @ nl # fence @ nl # body) = Some (w, nl # body)"
proof (induction "length w" arbitrary: w rule: less_induct)
  case less
  let ?p = "nl # fence"
  have pl: "nl \<notin> set fence" by (simp add: fence_def)
  show ?case
  proof (cases "cut_sub ?p w")
    case None
    then have "\<not> sublist ?p w" by (simp add: cut_sub_None)
    moreover have "False" if "?p = xs @ ys" "prefix ys (?p @ nl # body)" "xs \<noteq> []" "ys \<noteq> []" for xs ys
    proof -
      note h = that
      obtain y ys' where "ys = y # ys'" using h by (cases ys) auto
      moreover obtain x xs' where "xs = x # xs'" using h by (cases xs) auto
      moreover from calculation h(2) have "y = nl" by simp
      ultimately have "fence = xs' @ nl # ys'" using h by auto
      then have "nl \<in> set fence" by (metis in_set_conv_decomp)
      with pl show False by contradiction
    qed
    ultimately have "cut_sub ?p (w @ ?p @ nl # body) = map_option (\<lambda>(a, b). (w @ a, b)) (cut_sub ?p (?p @ nl # body))"
      by (intro cut_sub_skip) blast+
    then have "cut_sub ?p (w @ ?p @ nl # body) = Some (w, nl # body)"
      using cut_sub_exact [of "[]" ?p "nl # body"] by simp
    then show ?thesis by (subst find_fence.simps) simp
  next
    case (Some ab)
    then obtain a b where c: "cut_sub ?p w = Some (a, b)" by (cases ab) auto
    then have w: "w = a @ nl # fence @ b" using cut_sub_Some by fastforce
    have "b \<noteq> [] \<and> hd b \<noteq> nl"
    proof (rule ccontr)
      assume "\<not> ?thesis"
      then have "\<exists>r. w @ [nl] = a @ nl # fence @ nl # r" using w by (cases b) auto
      with less.prems show False by (auto simp: no_fence_line_def)
    qed
    moreover have "no_fence_line b"
      unfolding no_fence_line_def
    proof (intro allI notI)
      fix x y
      assume "b @ [nl] = x @ nl # fence @ nl # y"
      then have "w @ [nl] = (a @ nl # fence @ x) @ nl # fence @ nl # y" using w by simp
      with less.prems show False unfolding no_fence_line_def by blast
    qed
    then have "find_fence (b @ nl # fence @ nl # body) = Some (b, nl # body)" using less.hyps w by simp
    moreover have "cut_sub ?p (w @ nl # fence @ nl # body) = Some (a, b @ nl # fence @ nl # body)"
      using c by (rule cut_sub_sep_left)
    ultimately show ?thesis using w by (subst find_fence.simps) auto
  qed
qed

lemma crlf_id: "\<not> sublist [CHR 0x0D, nl] u \<Longrightarrow> crlf_to_lf u = u"
  by (induction u rule: crlf_to_lf.induct) (auto simp: sublist_Cons_right)

lemma crlf_append: "u = [] \<or> last u \<noteq> CHR 0x0D \<Longrightarrow> crlf_to_lf (u @ v) = crlf_to_lf u @ crlf_to_lf v"
proof (induction u rule: crlf_to_lf.induct)
  case "2_2"
  then show ?case by (cases v) auto
qed (auto split: if_splits)

text \<open>
  C35. Injecting the memory scope keeps the file in two parts. Whatever text the YAML codec renders for
  the front matter with its memory key set, as long as that text ends its last line, has no fence line
  and no carriage return before a newline, the content served splits again at exactly the fence that was
  written: the front matter is the rendered text (without its last newline, which the split drops) and
  the body is the original one, with its line ends made Unix ones. What the rendered text means as YAML
  is the codec's business.
\<close>

theorem withMemory_resplits:
  assumes "mk_type a = ''subagent''" "mk_scope a \<noteq> []"
    and "splitFrontmatter (mk_content a) = Inr (fm, body)" "yaml_unmarshal y fm = Inr m"
    and "yaml_marshal y (m(''memory'' \<mapsto> YStr (mk_scope a))) = Inr (w @ [nl])"
    and "no_fence_line w" "\<not> sublist [CHR 0x0D, nl] (w @ [nl])"
  shows "splitFrontmatter (RenderArtifactContent y a) = Inr (w, crlf_to_lf body)"
proof -
  let ?out = "w @ [nl]"
  have i: "RenderArtifactContent y a = fence @ nl # ?out @ fence @ nl # body"
    using assms(1-5) by (simp add: RenderArtifactContent_def withMemory_def)
  have "\<not> sublist [CHR 0x0D, nl] (fence @ nl # ?out @ fence @ [nl])"
    using assms(7) by (auto simp: fence_def sublist_Cons_right sublist_append Cons_eq_append_conv suffix_def)
  then have "crlf_to_lf (fence @ nl # ?out @ fence @ [nl]) = fence @ nl # ?out @ fence @ [nl]" by (rule crlf_id)
  then have "crlf_to_lf (RenderArtifactContent y a) = fence @ nl # ?out @ fence @ nl # crlf_to_lf body"
    using crlf_append [of "fence @ nl # ?out @ fence @ [nl]" body] i by simp
  moreover have "strip_prefix (fence @ [nl]) (fence @ nl # v) = Some v" for v by (simp add: strip_prefix_Some)
  ultimately show ?thesis
    using find_fence_exact [OF assms(6), of "crlf_to_lf body"] by (simp add: splitFrontmatter_def)
qed

lemma no_fence_line_iff: "no_fence_line w \<longleftrightarrow> \<not> contains (nl # fence @ [nl]) (w @ [nl])"
  by (auto simp: no_fence_line_def contains_iff sublist_def)

definition tiny_yaml :: yaml_codec where
  "tiny_yaml = \<lparr>yaml_unmarshal = (\<lambda>s. if s = ''name: a'' then Inr [''name'' \<mapsto> YStr ''a''] else Inl ''syntax''),
     yaml_marshal = (\<lambda>m. if m ''name'' = Some (YStr ''a'') \<and> m ''memory'' = Some (YStr ''user'')
       then Inr (''memory: user'' @ nl # ''name: a'' @ [nl]) else Inl ''unsupported'')\<rparr>"

definition tiny_agent :: mkt_artifact where
  "tiny_agent = \<lparr>mk_type = ''subagent'', mk_name = ''a'', mk_content = fence @ nl # ''name: a'' @ nl # fence @ nl # ''body'',
     mk_scope = ''user''\<rparr>"

theorem withMemory_resplits_witness:
  "splitFrontmatter (mk_content tiny_agent) = Inr (''name: a'', ''body'') \<and>
   splitFrontmatter (RenderArtifactContent tiny_yaml tiny_agent) = Inr (''memory: user'' @ nl # ''name: a'', ''body'')"
proof -
  let ?w = "''memory: user'' @ nl # ''name: a''"
  have s: "splitFrontmatter (mk_content tiny_agent) = Inr (''name: a'', ''body'')" by code_simp
  have u: "yaml_unmarshal tiny_yaml ''name: a'' = Inr [''name'' \<mapsto> YStr ''a'']" by (simp add: tiny_yaml_def)
  have t: "mk_type tiny_agent = ''subagent''" "mk_scope tiny_agent \<noteq> []" by (simp_all add: tiny_agent_def)
  have m: "yaml_marshal tiny_yaml ([''name'' \<mapsto> YStr ''a''](''memory'' \<mapsto> YStr (mk_scope tiny_agent))) = Inr (?w @ [nl])"
    by (simp add: tiny_yaml_def tiny_agent_def)
  have "\<not> contains (nl # fence @ [nl]) (?w @ [nl])" "\<not> contains [CHR 0x0D, nl] (?w @ [nl])" by code_simp+
  then have f: "no_fence_line ?w" "\<not> sublist [CHR 0x0D, nl] (?w @ [nl])" by (simp_all only: no_fence_line_iff contains_iff) simp_all
  from withMemory_resplits [OF t s u m f] s show ?thesis by (simp add: crlf_to_lf.simps)
qed

subsection \<open>The tree\<close>

definition rendered_path :: "mkt_artifact \<Rightarrow> string option" where
  "rendered_path a =
     (if mk_type a = ''skill'' then Some (artifacts_base @ ''/skills/'' @ mk_name a @ ''/SKILL.md'')
      else if mk_type a = ''subagent'' then Some (artifacts_base @ ''/agents/'' @ mk_name a @ ''.md'')
      else None)"

lemma render_one_cases:
  "render_one y a = Inr x \<Longrightarrow> map_option fst x = rendered_path a \<and> (x \<noteq> None \<longrightarrow> pluginNameRe (mk_name a))"
  by (auto simp: render_one_def rendered_path_def split: if_splits)

lemma render_loop_keys:
  "render_loop y files as = Inr files1 \<Longrightarrow>
     fst ` set files1 = fst ` set files \<union> {p. \<exists>a \<in> set as. rendered_path a = Some p} \<and>
     (\<forall>a \<in> set as. rendered_path a \<noteq> None \<longrightarrow> pluginNameRe (mk_name a))"
proof (induction as arbitrary: files)
  case (Cons a as)
  then obtain x where x: "render_one y a = Inr x" by (auto split: sum.splits)
  from Cons.prems x have "render_loop y (case x of None \<Rightarrow> files | Some (p, c) \<Rightarrow> AList.update p c files) as = Inr files1"
    by (auto split: option.splits prod.splits)
  from Cons.IH [OF this] render_one_cases [OF x] show ?case
    by (auto simp: dom_update split: option.splits prod.splits)
qed simp

lemma put_all_keys: "fst ` set (put_all files new) = fst ` set files \<union> fst ` set new"
  by (induction files new rule: put_all.induct) (auto simp: dom_update)

lemma rendered_not_manifest: "rendered_path a = Some p \<Longrightarrow> p \<noteq> artifacts_manifest_path"
  by (auto simp: rendered_path_def artifacts_manifest_path_def split: if_splits)

definition marketplace_fixed :: "string set" where
  "marketplace_fixed = {''.claude-plugin/marketplace.json'', ''plugins/orbeat-gateway/.claude-plugin/plugin.json'',
     ''plugins/orbeat-gateway/.mcp.json'', ''plugins/orbeat-artifacts/.claude-plugin/plugin.json''}"

text \<open>
  The published tree is exact: it holds the four manifests and one file per skill and
  subagent, at a path whose only variable part is a slug, so no name reaches outside its plugin;
  and the marketplace lists the artifacts plugin exactly when that plugin has something in it.
\<close>

theorem RenderMarketplace_tree:
  assumes "RenderMarketplace y gatewayURL artifacts = Inr files"
  shows "set (map fst files) = marketplace_fixed \<union> {p. \<exists>a \<in> set artifacts. rendered_path a = Some p} \<and>
    (\<forall>a \<in> set artifacts. rendered_path a \<noteq> None \<longrightarrow> pluginNameRe (mk_name a)) \<and>
    map_of files ''.claude-plugin/marketplace.json'' =
      Some (renderMarketplaceManifest (\<exists>a \<in> set artifacts. mk_type a \<in> {''skill'', ''subagent''}))"
proof -
  obtain art where art: "RenderArtifactsPlugin y artifacts = Inr art"
    and files: "files = AList.update ''.claude-plugin/marketplace.json''
      (renderMarketplaceManifest (length (filter (\<lambda>(p, _). p \<noteq> artifacts_manifest_path) art) > 0))
      (put_all (put_all [] (renderConnectPlugin gatewayURL)) art)"
    using assms by (auto simp: RenderMarketplace_def split: sum.splits)
  from render_loop_keys [OF art [unfolded RenderArtifactsPlugin_def]]
  have keys: "fst ` set art = {artifacts_manifest_path} \<union> {p. \<exists>a \<in> set artifacts. rendered_path a = Some p}"
    and names: "\<forall>a \<in> set artifacts. rendered_path a \<noteq> None \<longrightarrow> pluginNameRe (mk_name a)" by auto
  have "fst ` set (renderConnectPlugin gatewayURL) =
      {''plugins/orbeat-gateway/.claude-plugin/plugin.json'', ''plugins/orbeat-gateway/.mcp.json''}"
    by (simp add: renderConnectPlugin_def Let_def PluginName_def)
  then have "set (map fst files) = marketplace_fixed \<union> {p. \<exists>a \<in> set artifacts. rendered_path a = Some p}"
    using keys by (auto simp: files dom_update put_all_keys marketplace_fixed_def artifacts_manifest_path_def
        artifacts_base_def ArtifactsPluginName_def)
  moreover have "length (filter (\<lambda>(p, _). p \<noteq> artifacts_manifest_path) art) > 0 \<longleftrightarrow>
      (\<exists>a \<in> set artifacts. mk_type a \<in> {''skill'', ''subagent''})"
  proof -
  have "length (filter (\<lambda>(p, _). p \<noteq> artifacts_manifest_path) art) > 0 \<longleftrightarrow>
      (\<exists>x \<in> set art. fst x \<noteq> artifacts_manifest_path)"
    by (simp add: filter_empty_conv case_prod_unfold)
  also have "\<dots> \<longleftrightarrow> (\<exists>p \<in> fst ` set art. p \<noteq> artifacts_manifest_path)" by simp
  also have "\<dots> \<longleftrightarrow> (\<exists>a \<in> set artifacts. rendered_path a \<noteq> None)"
    unfolding keys using rendered_not_manifest by blast
  also have "\<dots> \<longleftrightarrow> (\<exists>a \<in> set artifacts. mk_type a \<in> {''skill'', ''subagent''})"
    by (auto simp: rendered_path_def)
  finally show ?thesis .
  qed
  ultimately show ?thesis using names by (simp add: files update_conv')
qed

theorem RenderMarketplace_tree_witness:
  "\<exists>files. RenderMarketplace tiny_yaml ''http://g'' [\<lparr>mk_type = ''rule'', mk_name = ''r'', mk_content = ''x'', mk_scope = []\<rparr>,
       \<lparr>mk_type = ''skill'', mk_name = ''s'', mk_content = ''x'', mk_scope = []\<rparr>] = Inr files \<and>
     set (map fst files) = marketplace_fixed \<union> {''plugins/orbeat-artifacts/skills/s/SKILL.md''} \<and>
     map_of files ''.claude-plugin/marketplace.json'' = Some (renderMarketplaceManifest True)"
proof -
  let ?as = "[\<lparr>mk_type = ''rule'', mk_name = ''r'', mk_content = ''x'', mk_scope = []\<rparr>,
       \<lparr>mk_type = ''skill'', mk_name = ''s'', mk_content = ''x'', mk_scope = []\<rparr>]"
  have "pluginNameRe ''s''" by code_simp
  then obtain files where f: "RenderMarketplace tiny_yaml ''http://g'' ?as = Inr files"
    by (auto simp: RenderMarketplace_def RenderArtifactsPlugin_def render_one_def Let_def)
  have "{p. \<exists>a \<in> set ?as. rendered_path a = Some p} = {''plugins/orbeat-artifacts/skills/s/SKILL.md''}"
    by (auto simp: rendered_path_def artifacts_base_def ArtifactsPluginName_def)
  with RenderMarketplace_tree [OF f] f show ?thesis by auto
qed

end
