(* ===== verification/ArtifactApi.thy ===== *)
theory ArtifactApi
  imports ApiErrors Marketplace
begin

text \<open>
  The admin routes on artifacts (\<open>internal/api/admin_artifacts.go\<close>): validation, the scan of a
  write that publishes, and the create, read, update and delete handlers, each a function from the
  shared state to its reply and the state it leaves.
\<close>

subsection \<open>Input and projection\<close>

record artifactInput =
  ai_type :: string
  ai_name :: string
  ai_description :: string
  ai_content :: bytes
  ai_scope :: string
  ai_seed :: bytes
  ai_version :: string
  ai_visibility :: string
  ai_tags :: "string list"
  ai_rule_scope :: string

record artifactDTO =
  ad_id :: string
  ad_type :: string
  ad_name :: string
  ad_description :: string
  ad_content :: bytes
  ad_scope :: string
  ad_seed :: bytes
  ad_version :: string
  ad_visibility :: string
  ad_tags :: "string list"
  ad_rule_scope :: string
  ad_state :: string
  ad_approved :: bool
  ad_app_content :: bytes
  ad_app_scope :: string
  ad_app_seed :: bytes
  ad_app_type :: string
  ad_app_name :: string
  ad_app_visibility :: string
  ad_app_tags :: "string list"
  ad_app_rule_scope :: string
  ad_submitted_by :: string
  ad_approved_by :: string
  ad_reject_reason :: string
  ad_findings :: bytes
  ad_digest :: string
  ad_acknowledged :: bool
  ad_ack_by :: string
  ad_row_version :: int
  ad_min_revision :: int
  ad_role_grants :: "role_grants option"

definition findings_acknowledged :: "arow \<Rightarrow> bool" where
  "findings_acknowledged a \<longleftrightarrow> str (ar_digest a) \<noteq> [] \<and> str (ar_ack_digest a) = str (ar_digest a)"

definition toArtifactDTO :: "arow \<Rightarrow> artifactDTO" where
  "toArtifactDTO a = \<lparr>ad_id = ar_id a, ad_type = ar_type a, ad_name = ar_name a, ad_description = ar_description a,
     ad_content = ar_content a, ad_scope = str (ar_scope a), ad_seed = str (ar_seed a), ad_version = ar_version a,
     ad_visibility = ar_visibility a, ad_tags = str (ar_tags a), ad_rule_scope = str (ar_rule_scope a),
     ad_state = ar_state a, ad_approved = (ar_app_content a \<noteq> None), ad_app_content = str (ar_app_content a),
     ad_app_scope = str (ar_app_scope a), ad_app_seed = str (ar_app_seed a), ad_app_type = str (ar_app_type a),
     ad_app_name = str (ar_app_name a), ad_app_visibility = str (ar_app_visibility a), ad_app_tags = str (ar_app_tags a),
     ad_app_rule_scope = str (ar_app_rule_scope a), ad_submitted_by = str (ar_submitted_by a),
     ad_approved_by = str (ar_approved_by a), ad_reject_reason = str (ar_reject_reason a), ad_findings = ar_findings a,
     ad_digest = str (ar_digest a), ad_acknowledged = findings_acknowledged a,
     ad_ack_by = (if findings_acknowledged a then str (ar_ack_by a) else []),
     ad_row_version = ar_row_version a, ad_min_revision = ar_min_revision a, ad_role_grants = None\<rparr>"

subsection \<open>Validation\<close>

text \<open>\<^verbatim>\<open>^[a-z0-9][a-z0-9-]*$\<close>\<close>

definition slugRe :: "string \<Rightarrow> bool" where
  "slugRe s \<longleftrightarrow> s \<noteq> [] \<and> is_lower_alnum (hd s) \<and> list_all is_slug_char (tl s)"

definition maxTargetTags :: nat where "maxTargetTags = 16"

fun check_tags :: "string set \<Rightarrow> string list \<Rightarrow> api_error option" where
  "check_tags seen [] = None"
| "check_tags seen (t # ts) =
     (if \<not> slugRe t then Some (ValidationError ''each targetTag must be a slug (lowercase, digits, dashes)'')
      else if t \<in> seen then Some (ValidationError (''targetTags contains '' @ [CHR 0x22] @ t @ [CHR 0x22] @ '' twice''))
      else check_tags (insert t seen) ts)"

definition validateTargetTags :: "artifactInput \<Rightarrow> api_error option" where
  "validateTargetTags i =
     (if ai_tags i = [] then None
      else if ai_type i \<noteq> ''rule'' then Some (ValidationError ''targetTags is only valid for rules'')
      else if length (ai_tags i) > maxTargetTags
      then Some (ValidationError (''targetTags accepts at most '' @ FormatInt (int maxTargetTags) @ '' tags''))
      else check_tags {} (ai_tags i))"

definition validateRuleScope :: "artifactInput \<Rightarrow> api_error option" where
  "validateRuleScope i =
     (if ai_rule_scope i = [] then None
      else if ai_type i \<noteq> ''rule'' then Some (ValidationError ''ruleScope is only valid for rules'')
      else if ai_rule_scope i \<noteq> ''project'' \<and> ai_rule_scope i \<noteq> ''global''
      then Some (ValidationError ''ruleScope must be project or global'')
      else if ai_rule_scope i = ''global'' \<and> length (ai_tags i) > 0
      then Some (ValidationError ''a global rule cannot carry targetTags: tags select projects, and a global rule is not written into any'')
      else None)"

definition validate_scope :: "artifactInput \<Rightarrow> api_error option" where
  "validate_scope i =
     (if ai_scope i = [] then None
      else if ai_type i \<noteq> ''subagent'' then Some (ValidationError ''memoryScope is only valid for subagents'')
      else if ai_scope i \<notin> {''user'', ''project'', ''local''}
      then Some (ValidationError ''memoryScope must be user, project, or local'')
      else None)"

definition validate_seed :: "artifactInput \<Rightarrow> api_error option" where
  "validate_seed i =
     (if ai_seed i = [] then None
      else if ai_type i \<noteq> ''subagent'' then Some (ValidationError ''memorySeed is only valid for subagents'')
      else if ai_scope i \<noteq> ''user'' \<and> ai_scope i \<noteq> ''project''
      then Some (ValidationError ''memorySeed requires memoryScope user or project'')
      else if length (ai_seed i) > MaxSeedBytes then Some (ValidationError ''memorySeed exceeds the 16KiB limit'')
      else if contains ''ORBEAT-SEED'' (ai_seed i)
      then Some (ValidationError ''memorySeed must not contain the ORBEAT-SEED sentinel'')
      else if HasReservedMarker (ai_seed i)
      then Some (ValidationError ''memorySeed must not contain an orbeat managed-block sentinel (ORBEAT-SEED or ORBEAT-RULES)'')
      else None)"

definition validate_body :: "yaml_codec \<Rightarrow> artifactInput \<Rightarrow> api_error option" where
  "validate_body y i =
     (if ai_type i = ''rule'' then
        if TrimSpace (ai_content i) = [] then Some (ValidationError ''rule content must not be empty'') else None
      else (case ValidateArtifactContent y (ai_content i) of None \<Rightarrow> None | Some m \<Rightarrow> Some (ValidationError m)))"

fun first_error :: "'e option list \<Rightarrow> 'e option" where
  "first_error [] = None"
| "first_error (None # es) = first_error es"
| "first_error (Some e # es) = Some e"

definition validateArtifact :: "yaml_codec \<Rightarrow> artifactInput \<Rightarrow> api_error option" where
  "validateArtifact y i = first_error
     [if ai_type i \<notin> {''skill'', ''subagent'', ''rule''}
        then Some (ValidationError ''type must be skill, subagent, or rule'') else None,
      if \<not> slugRe (ai_name i) then Some (ValidationError ''name must be a slug (lowercase, digits, dashes)'') else None,
      if ai_visibility i \<notin> {[], ''org'', ''role''} then Some (ValidationError ''visibility must be org or role'') else None,
      validateTargetTags i,
      validateRuleScope i,
      if length (ai_content i) > MaxContentBytes then Some (ValidationError ''content exceeds the 64KiB limit'') else None,
      if HasReservedMarker (ai_content i)
        then Some (ValidationError ''content must not contain an orbeat managed-block sentinel (ORBEAT-SEED or ORBEAT-RULES)'')
        else None,
      validate_scope i,
      validate_seed i,
      validate_body y i]"

subsection \<open>Handlers\<close>

record server =
  sv_autoApprove :: bool
  sv_revisionKeep :: int
  sv_scanner :: scanner
  sv_yaml :: yaml_codec
  sv_role_order :: "string \<Rightarrow> string \<Rightarrow> bool"
  sv_collation :: collation
  sv_pinning :: bool

record caller =
  cl_tenant :: string
  cl_roles :: "string list"
  cl_subject :: string

datatype 'a request_body = TooLarge | BadJSON | Body 'a

definition decodeJSONOrFail :: "'a request_body \<Rightarrow> 'b reply + 'a" where
  "decodeJSONOrFail b =
     (case b of
        TooLarge \<Rightarrow> Inl (ErrorReply 413 ''request body too large'')
      | BadJSON \<Rightarrow> Inl (ErrorReply 400 ''invalid JSON body'')
      | Body x \<Rightarrow> Inr x)"

definition resolved :: "caller option \<Rightarrow> 'b reply + caller" where
  "resolved c = (case c of None \<Rightarrow> Inl (ErrorReply 500 ''missing resolved context'') | Some x \<Rightarrow> Inr x)"

text \<open>The body of an artifact reply and its \<open>ETag\<close> header.\<close>

type_synonym artifact_reply = "(artifactDTO option \<times> string option) reply"

definition to_write :: "artifactInput \<Rightarrow> artifact_write" where
  "to_write i = \<lparr>aw_type = ai_type i, aw_name = ai_name i, aw_description = ai_description i, aw_content = ai_content i,
     aw_scope = ai_scope i, aw_seed = ai_seed i, aw_version = ai_version i, aw_visibility = ai_visibility i,
     aw_tags = ai_tags i, aw_rule_scope = ai_rule_scope i\<rparr>"

definition artifactScanPayload :: "artifact_write \<Rightarrow> artifactPayload" where
  "artifactScanPayload a = \<lparr>pl_type = aw_type a, pl_name = aw_name a, pl_content = aw_content a,
     pl_scope = aw_scope a, pl_seed = aw_seed a\<rparr>"

definition scanArtifactWrite :: "server \<Rightarrow> artifact_write \<Rightarrow> string + finding list" where
  "scanArtifactWrite s a = (if \<not> sv_autoApprove s then Inr [] else sv_scanner s (artifactScanPayload a))"

definition scanWriteOrReject ::
  "server \<Rightarrow> tx_env \<Rightarrow> caller \<Rightarrow> string \<Rightarrow> string \<Rightarrow> artifact_write \<Rightarrow> api_state \<Rightarrow> ('b reply + finding list) \<times> api_state" where
  "scanWriteOrReject s env c action target a st =
     (case scanArtifactWrite s a of
        Inl e \<Rightarrow> (Inl (api_fail (OtherErr e)), st)
      | Inr findings \<Rightarrow>
          if \<not> HasBlocking findings then (Inr findings, st)
          else
            (case appendDenyAudit env \<lparr>ae_tenant = cl_tenant c, ae_actor = cl_subject c, ae_action = action, ae_target = target,
                ae_decision = ''deny'', ae_metadata = [(''name'', MStr (aw_name a)), (''findings'', MFindings findings),
                  (''reason'', MStr ''scanner_blocked'')]\<rparr> st of
               (Some e, st1) \<Rightarrow> (Inl (api_fail e), st1)
             | (None, st1) \<Rightarrow> (Inl (writeBlocked ''artifact blocked by scanner'' findings), st1)))"

definition withFindings :: "(string \<times> meta) list \<Rightarrow> finding list \<Rightarrow> (string \<times> meta) list" where
  "withFindings md findings = (if length findings > 0 then md @ [(''findings'', MFindings findings)] else md)"

definition communityAutoApproveActor :: string where "communityAutoApproveActor = ''system:auto-approve''"

definition maybeAutoApprove :: "server \<Rightarrow> string \<Rightarrow> arow \<Rightarrow> db \<Rightarrow> (dberr + arow) \<times> db" where
  "maybeAutoApprove s tenant current d =
     (if \<not> sv_autoApprove s then (Inr current, d)
      else (case SetArtifactApproved tenant (ar_id current) communityAutoApproveActor (sv_revisionKeep s) d of
              (Inl e, d1) \<Rightarrow> (Inl e, d1)
            | (Inr (approved, _), d1) \<Rightarrow> (Inr approved, d1)))"

definition create_tx ::
  "server \<Rightarrow> caller \<Rightarrow> string \<Rightarrow> artifact_write \<Rightarrow> finding list \<Rightarrow> db \<Rightarrow> (api_error + audit_event \<times> arow) \<times> db" where
  "create_tx s c newid a findings d =
     (case CreateArtifact newid (cl_tenant c) a d of
        (Inl e, d1) \<Rightarrow> (Inl (StoreErr e), d1)
      | (Inr created, d1) \<Rightarrow>
          (case maybeAutoApprove s (cl_tenant c) created d1 of
             (Inl e, d2) \<Rightarrow> (Inl (StoreErr e), d2)
           | (Inr created2, d2) \<Rightarrow>
               (Inr (\<lparr>ae_tenant = cl_tenant c, ae_actor = cl_subject c, ae_action = ''artifact.create'',
                  ae_target = ar_id created2, ae_decision = ''allow'',
                  ae_metadata = withFindings [(''name'', MStr (ar_name created2))] findings\<rparr>, created2), d2)))"

definition Enqueue :: "api_state \<Rightarrow> api_state" where
  "Enqueue st = st\<lparr>as_published := as_published st + 1\<rparr>"

text \<open>\<open>newid\<close> is the id the database generates for the row.\<close>

definition handleCreateArtifact ::
  "server \<Rightarrow> tx_env \<Rightarrow> string \<Rightarrow> caller option \<Rightarrow> artifactInput request_body \<Rightarrow> api_state \<Rightarrow> artifact_reply \<times> api_state" where
  "handleCreateArtifact s env newid ctx body st =
     (case resolved ctx of Inl r \<Rightarrow> (r, st) | Inr c \<Rightarrow>
      case decodeJSONOrFail body of Inl r \<Rightarrow> (r, st) | Inr i \<Rightarrow>
      case validateArtifact (sv_yaml s) i of Some e \<Rightarrow> (api_fail e, st) | None \<Rightarrow>
      case scanWriteOrReject s env c ''artifact.create'' [] (to_write i) st of
        (Inl r, st1) \<Rightarrow> (r, st1)
      | (Inr findings, st1) \<Rightarrow>
          (case auditedTx env (create_tx s c newid (to_write i) findings) st1 of
             (Inl e, st2) \<Rightarrow> (api_fail e, st2)
           | (Inr created, st2) \<Rightarrow> (Reply 201 (Some (toArtifactDTO created), None), Enqueue st2)))"

definition handleGetArtifact :: "server \<Rightarrow> caller option \<Rightarrow> string \<Rightarrow> api_state \<Rightarrow> artifact_reply" where
  "handleGetArtifact s ctx i st =
     (case resolved ctx of Inl r \<Rightarrow> r | Inr c \<Rightarrow>
      case GetArtifact (cl_tenant c) i (as_db st) of
        Inl e \<Rightarrow> api_fail (StoreErr e)
      | Inr a \<Rightarrow>
          Reply 200 (Some ((toArtifactDTO a)\<lparr>ad_role_grants :=
            Some (ArtifactRoleGrants (sv_role_order s) (cl_tenant c) (ar_id a) (as_db st))\<rparr>), Some (etag (ar_row_version a))))"

definition grantsEffect :: "string \<Rightarrow> string \<Rightarrow> string" where
  "grantsEffect newVisibility distributedVisibility =
     (let inEffect = (distributedVisibility = newVisibility) in
      if newVisibility = ''role'' then (if inEffect then ''revived'' else ''revives_on_approval'')
      else if inEffect then ''dormant'' else ''goes_dormant_on_approval'')"

text \<open>The metadata of a visibility flip.\<close>

definition flip_metadata :: "string \<Rightarrow> arow \<Rightarrow> arow \<Rightarrow> role_grants \<Rightarrow> (string \<times> meta) list" where
  "flip_metadata effVis current updated grants =
     (if effVis = ar_visibility current then []
      else [(''visibilityFrom'', MStr (ar_visibility current)), (''visibilityTo'', MStr effVis),
        (''roleGrantsAffected'', MInt (int (rg_count grants))),
        (''roleGrantsEffect'', MStr (grantsEffect effVis (str (ar_app_visibility updated)))),
        (''roles'', MStrs (rg_names grants)), (''truncated'', MBool (rg_truncated grants))])"

definition update_tx ::
  "server \<Rightarrow> caller \<Rightarrow> string \<Rightarrow> int \<Rightarrow> artifactInput \<Rightarrow> finding list \<Rightarrow> db \<Rightarrow>
   (api_error + audit_event \<times> arow \<times> role_grants) \<times> db" where
  "update_tx s c i expected inp findings d =
     (case GetArtifact (cl_tenant c) i d of
        Inl e \<Rightarrow> (Inl (StoreErr e), d)
      | Inr current \<Rightarrow>
          if ar_row_version current \<noteq> expected then (Inl (StoreErr ErrVersionMismatch), d)
          else
            let grants = ArtifactRoleGrants (sv_role_order s) (cl_tenant c) i d;
                effVis = (if ai_visibility inp = [] then ''org'' else ai_visibility inp) in
            case UpdateArtifact (cl_tenant c) i (to_write inp) (ar_row_version current) d of
              (Inl e, d1) \<Rightarrow> (Inl (StoreErr e), d1)
            | (Inr updated, d1) \<Rightarrow>
                (case maybeAutoApprove s (cl_tenant c) updated d1 of
                   (Inl e, d2) \<Rightarrow> (Inl (StoreErr e), d2)
                 | (Inr updated2, d2) \<Rightarrow>
                     (Inr (\<lparr>ae_tenant = cl_tenant c, ae_actor = cl_subject c, ae_action = ''artifact.update'',
                        ae_target = ar_id updated2, ae_decision = ''allow'',
                        ae_metadata = withFindings [(''name'', MStr (ar_name updated2))] findings @
                          flip_metadata effVis current updated2 grants\<rparr>, updated2, grants), d2)))"

definition handleUpdateArtifact ::
  "server \<Rightarrow> tx_env \<Rightarrow> caller option \<Rightarrow> string \<Rightarrow> string \<Rightarrow> artifactInput request_body \<Rightarrow> api_state \<Rightarrow>
   artifact_reply \<times> api_state" where
  "handleUpdateArtifact s env ctx header i body st =
     (case resolved ctx of Inl r \<Rightarrow> (r, st) | Inr c \<Rightarrow>
      case ifMatch header of Inl e \<Rightarrow> (api_fail e, st) | Inr expected \<Rightarrow>
      case decodeJSONOrFail body of Inl r \<Rightarrow> (r, st) | Inr inp \<Rightarrow>
      case validateArtifact (sv_yaml s) inp of Some e \<Rightarrow> (api_fail e, st) | None \<Rightarrow>
      case scanWriteOrReject s env c ''artifact.update'' i (to_write inp) st of
        (Inl r, st1) \<Rightarrow> (r, st1)
      | (Inr findings, st1) \<Rightarrow>
          (case auditedTx env (update_tx s c i expected inp findings) st1 of
             (Inr (updated, grants), st2) \<Rightarrow>
               (Reply 200 (Some ((toArtifactDTO updated)\<lparr>ad_role_grants := Some grants\<rparr>), Some (etag (ar_row_version updated))),
                Enqueue st2)
           | (Inl e, st2) \<Rightarrow>
               if e = StoreErr ErrVersionMismatch then
                 (case appendDenyAudit env \<lparr>ae_tenant = cl_tenant c, ae_actor = cl_subject c, ae_action = ''artifact.update'',
                     ae_target = i, ae_decision = ''deny'',
                     ae_metadata = [(''name'', MStr (ai_name inp)), (''reason'', MStr ''version_mismatch'')]\<rparr> st2 of
                    (Some e1, st3) \<Rightarrow> (api_fail e1, st3)
                  | (None, st3) \<Rightarrow> (api_fail e, st3))
               else (api_fail e, st2)))"

definition delete_tx :: "caller \<Rightarrow> string \<Rightarrow> db \<Rightarrow> (api_error + audit_event \<times> unit) \<times> db" where
  "delete_tx c i d =
     (case DeleteArtifact (cl_tenant c) i d of
        (Some e, d1) \<Rightarrow> (Inl (StoreErr e), d1)
      | (None, d1) \<Rightarrow>
          (Inr (\<lparr>ae_tenant = cl_tenant c, ae_actor = cl_subject c, ae_action = ''artifact.delete'', ae_target = i,
             ae_decision = ''allow'', ae_metadata = []\<rparr>, ()), d1))"

definition handleDeleteArtifact :: "tx_env \<Rightarrow> caller option \<Rightarrow> string \<Rightarrow> api_state \<Rightarrow> artifact_reply \<times> api_state" where
  "handleDeleteArtifact env ctx i st =
     (case resolved ctx of Inl r \<Rightarrow> (r, st) | Inr c \<Rightarrow>
      case auditedTx env (delete_tx c i) st of
        (Inl e, st1) \<Rightarrow> (api_fail e, st1)
      | (Inr _, st1) \<Rightarrow> (Reply 204 (None, None), Enqueue st1))"

definition handleMarketplacePublish :: "tx_env \<Rightarrow> caller option \<Rightarrow> api_state \<Rightarrow> artifact_reply \<times> api_state" where
  "handleMarketplacePublish env ctx st =
     (case resolved ctx of Inl r \<Rightarrow> (r, st) | Inr c \<Rightarrow>
      (Reply 202 (None, None), logBestEffortAudit env \<lparr>ae_tenant = cl_tenant c, ae_actor = cl_subject c,
         ae_action = ''marketplace.publish'', ae_target = [], ae_decision = ''allow'', ae_metadata = []\<rparr> (Enqueue st)))"

text \<open>The mutating routes under one name.\<close>

datatype api_request =
  CreateReq tx_env string "caller option" "artifactInput request_body"
| UpdateReq tx_env "caller option" string string "artifactInput request_body"
| DeleteReq tx_env "caller option" string

fun serve :: "server \<Rightarrow> api_request \<Rightarrow> api_state \<Rightarrow> artifact_reply \<times> api_state" where
  "serve s (CreateReq env newid ctx body) st = handleCreateArtifact s env newid ctx body st"
| "serve s (UpdateReq env ctx header i body) st = handleUpdateArtifact s env ctx header i body st"
| "serve s (DeleteReq env ctx i) st = handleDeleteArtifact env ctx i st"

subsection \<open>Grants\<close>

type_synonym grant_reply = "agrant option reply"

definition create_grant_tx :: "caller \<Rightarrow> string \<Rightarrow> string \<Rightarrow> string \<Rightarrow> db \<Rightarrow> (api_error + audit_event \<times> agrant) \<times> db" where
  "create_grant_tx c newid role artifact d =
     (if \<not> RoleExistsInTenant (cl_tenant c) role d then (Inl (ValidationError ''unknown roleId for tenant''), d)
      else if \<not> ArtifactExistsInTenant (cl_tenant c) artifact d
      then (Inl (ValidationError ''unknown artifactId for tenant''), d)
      else
        (case CreateArtifactEntitlement \<lparr>ag_id = newid, ag_tenant = cl_tenant c, ag_role = role, ag_artifact = artifact\<rparr> d of
           (Inl e, d1) \<Rightarrow> (Inl (StoreErr e), d1)
         | (Inr g, d1) \<Rightarrow>
             (Inr (\<lparr>ae_tenant = cl_tenant c, ae_actor = cl_subject c, ae_action = ''artifact_entitlement.create'',
                ae_target = ag_id g, ae_decision = ''allow'',
                ae_metadata = [(''roleId'', MStr (ag_role g)), (''artifactId'', MStr (ag_artifact g))]\<rparr>, g), d1)))"

definition handleCreateArtifactEntitlement ::
  "tx_env \<Rightarrow> string \<Rightarrow> caller option \<Rightarrow> (string \<times> string) request_body \<Rightarrow> api_state \<Rightarrow> grant_reply \<times> api_state" where
  "handleCreateArtifactEntitlement env newid ctx body st =
     (case resolved ctx of Inl r \<Rightarrow> (r, st) | Inr c \<Rightarrow>
      case decodeJSONOrFail body of Inl r \<Rightarrow> (r, st) | Inr (role, artifact) \<Rightarrow>
      if role = [] \<or> artifact = [] then (ErrorReply 400 ''roleId and artifactId are required'', st)
      else (case auditedTx env (create_grant_tx c newid role artifact) st of
              (Inl e, st1) \<Rightarrow> (api_fail e, st1)
            | (Inr g, st1) \<Rightarrow> (Reply 201 (Some g), st1)))"

definition delete_grant_tx :: "caller \<Rightarrow> string \<Rightarrow> db \<Rightarrow> (api_error + audit_event \<times> unit) \<times> db" where
  "delete_grant_tx c i d =
     (case DeleteArtifactEntitlement (cl_tenant c) i d of
        (Some e, d1) \<Rightarrow> (Inl (StoreErr e), d1)
      | (None, d1) \<Rightarrow>
          (Inr (\<lparr>ae_tenant = cl_tenant c, ae_actor = cl_subject c, ae_action = ''artifact_entitlement.delete'',
             ae_target = i, ae_decision = ''allow'', ae_metadata = []\<rparr>, ()), d1))"

definition handleDeleteArtifactEntitlement ::
  "tx_env \<Rightarrow> caller option \<Rightarrow> string \<Rightarrow> api_state \<Rightarrow> grant_reply \<times> api_state" where
  "handleDeleteArtifactEntitlement env ctx i st =
     (case resolved ctx of Inl r \<Rightarrow> (r, st) | Inr c \<Rightarrow>
      case auditedTx env (delete_grant_tx c i) st of
        (Inl e, st1) \<Rightarrow> (api_fail e, st1)
      | (Inr _, st1) \<Rightarrow> (Reply 204 None, st1))"

end
