(* ===== verification/Paging.thy ===== *)
theory Paging
  imports ApiErrors "HOL-Library.List_Lexorder" "HOL-Library.Char_ord"
begin

text \<open>
  Keyset pagination and search: the rendering of a page query (\<open>internal/store/paging.go\<close>), the
  opaque cursor and the query parameters (\<open>internal/api/paging.go\<close>), and what the rendered query
  selects. Base64 is modelled, the JSON text inside a cursor is a codec.
\<close>

subsection \<open>Base64, URL alphabet, no padding\<close>

definition b64_char :: "nat \<Rightarrow> char" where
  "b64_char n =
     (if n < 26 then char_of (n + 65) else if n < 52 then char_of (n + 71)
      else if n < 62 then char_of (n - 4) else if n = 62 then CHR ''-'' else CHR ''_'')"

definition b64_value :: "char \<Rightarrow> nat option" where
  "b64_value c =
     (let n = of_char c in
      if 65 \<le> n \<and> n \<le> 90 then Some (n - 65) else if 97 \<le> n \<and> n \<le> 122 then Some (n - 71)
      else if 48 \<le> n \<and> n \<le> 57 then Some (n + 4) else if c = CHR ''-'' then Some 62
      else if c = CHR ''_'' then Some 63 else None)"

fun b64_groups :: "nat list \<Rightarrow> nat list" where
  "b64_groups [] = []"
| "b64_groups [x] = [x div 4, x mod 4 * 16]"
| "b64_groups [x, y] = [x div 4, x mod 4 * 16 + y div 16, y mod 16 * 4]"
| "b64_groups (x # y # z # r) =
     [x div 4, x mod 4 * 16 + y div 16, y mod 16 * 4 + z div 64, z mod 64] @ b64_groups r"

text \<open>Not strict: the unused bits of a last group are ignored.\<close>

fun b64_bytes :: "nat list \<Rightarrow> nat list option" where
  "b64_bytes [] = Some []"
| "b64_bytes [a] = None"
| "b64_bytes [a, b] = Some [a * 4 + b div 16]"
| "b64_bytes [a, b, c] = Some [a * 4 + b div 16, b mod 16 * 16 + c div 4]"
| "b64_bytes (a # b # c # d # r) =
     map_option (\<lambda>t. [a * 4 + b div 16, b mod 16 * 16 + c div 4, c mod 4 * 64 + d] @ t) (b64_bytes r)"

definition b64_encode :: "bytes \<Rightarrow> string" where
  "b64_encode bs = map b64_char (b64_groups (map of_char bs))"

fun collect :: "('a \<Rightarrow> 'b option) \<Rightarrow> 'a list \<Rightarrow> 'b list option" where
  "collect f [] = Some []"
| "collect f (x # xs) =
     (case f x of None \<Rightarrow> None | Some y \<Rightarrow> (case collect f xs of None \<Rightarrow> None | Some ys \<Rightarrow> Some (y # ys)))"

definition b64_decode :: "string \<Rightarrow> bytes option" where
  "b64_decode s =
     (case collect b64_value (filter (\<lambda>c. c \<noteq> nl \<and> c \<noteq> CHR 0x0D) s) of
        None \<Rightarrow> None
      | Some vs \<Rightarrow> map_option (map char_of) (b64_bytes vs))"

subsection \<open>Cursors\<close>

record list_cursor =
  lc_keys :: "string list"
  lc_id :: string
  lc_sort :: string

record json_codec =
  jc_enc :: "string list \<Rightarrow> bytes"
  jc_dec :: "bytes \<Rightarrow> string list option"

datatype cursor_kind = CursorText | CursorUUID | CursorInt

definition hex_char :: "char \<Rightarrow> bool" where
  "hex_char c \<longleftrightarrow> (let n = of_char c :: nat in (48 \<le> n \<and> n \<le> 57) \<or> (97 \<le> n \<and> n \<le> 102) \<or> (65 \<le> n \<and> n \<le> 70))"

text \<open>\<^verbatim>\<open>^[0-9a-fA-F]{8}-[0-9a-fA-F]{4}-[0-9a-fA-F]{4}-[0-9a-fA-F]{4}-[0-9a-fA-F]{12}$\<close>\<close>

definition uuidRe :: "string \<Rightarrow> bool" where
  "uuidRe s \<longleftrightarrow> (let ps = split_on CHR ''-'' s in map length ps = [8, 4, 4, 4, 12] \<and> list_all (list_all hex_char) ps)"

definition encodeListCursor :: "json_codec \<Rightarrow> list_cursor \<Rightarrow> string" where
  "encodeListCursor j c = b64_encode (jc_enc j (lc_sort c # lc_keys c @ [lc_id c]))"

text \<open>\<open>ParseInt(s, 10, 32)\<close>: the 64-bit parse, then the range.\<close>

definition int32 :: "string \<Rightarrow> bool" where
  "int32 s \<longleftrightarrow> (case ParseInt s of None \<Rightarrow> False | Some n \<Rightarrow> - (2 ^ 31) \<le> n \<and> n < 2 ^ 31)"

definition key_shaped :: "cursor_kind \<Rightarrow> string \<Rightarrow> bool" where
  "key_shaped k s \<longleftrightarrow> (case k of CursorUUID \<Rightarrow> uuidRe s | CursorInt \<Rightarrow> int32 s | CursorText \<Rightarrow> CHR 0x00 \<notin> set s)"

definition decodeListCursor :: "json_codec \<Rightarrow> string \<Rightarrow> cursor_kind list \<Rightarrow> api_error + list_cursor" where
  "decodeListCursor j s shape =
     (let bad = Inl (ValidationError ''invalid cursor'') in
      case b64_decode s of None \<Rightarrow> bad | Some raw \<Rightarrow>
      case jc_dec j raw of None \<Rightarrow> bad | Some parts \<Rightarrow>
        if length parts \<noteq> length shape + 2 then bad
        else
          let keys = tl (butlast parts); i = last parts in
          if \<not> uuidRe i then bad
          else if \<not> list_all2 key_shaped shape keys then bad
          else Inr \<lparr>lc_keys = keys, lc_id = i, lc_sort = hd parts\<rparr>)"

subsection \<open>Query parameters\<close>

type_synonym query = "(string \<times> string) list"

definition q_get :: "query \<Rightarrow> string \<Rightarrow> string" where
  "q_get q k = (case map_of q k of None \<Rightarrow> [] | Some v \<Rightarrow> v)"

definition defaultListLimit :: nat where "defaultListLimit = 100"
definition maxListLimit :: nat where "maxListLimit = 500"

definition page_limit :: "nat \<Rightarrow> nat \<Rightarrow> query \<Rightarrow> api_error + nat" where
  "page_limit dflt mx q =
     (if q_get q ''limit'' = [] then Inr (min dflt mx)
      else (case Atoi (q_get q ''limit'') of
          None \<Rightarrow> Inl (ValidationError ''limit must be a positive integer'')
        | Some n \<Rightarrow> if n \<le> 0 then Inl (ValidationError ''limit must be a positive integer'') else Inr (min (nat n) mx)))"

definition pageParams :: "json_codec \<Rightarrow> query \<Rightarrow> nat \<Rightarrow> nat \<Rightarrow> cursor_kind list \<Rightarrow> api_error + nat \<times> list_cursor option" where
  "pageParams j q dflt mx shape =
     (case page_limit dflt mx q of Inl e \<Rightarrow> Inl e | Inr limit \<Rightarrow>
        if q_get q ''cursor'' = [] then Inr (limit, None)
        else (case decodeListCursor j (q_get q ''cursor'') shape of
            Inl e \<Rightarrow> Inl e | Inr c \<Rightarrow> Inr (limit, Some c)))"

definition sortOrderParams :: "query \<Rightarrow> string \<Rightarrow> api_error + bool" where
  "sortOrderParams q want =
     (if q_get q ''sort'' \<noteq> [] \<and> q_get q ''sort'' \<noteq> want
      then Inl (ValidationError (''sort must be '' @ [CHR 0x22] @ want @ [CHR 0x22]))
      else if q_get q ''order'' = [] \<or> q_get q ''order'' = ''asc'' then Inr False
      else if q_get q ''order'' = ''desc'' then Inr True
      else Inl (ValidationError (''order must be '' @ [CHR 0x22] @ ''asc'' @ [CHR 0x22] @ '' or '' @ [CHR 0x22] @ ''desc'' @ [CHR 0x22])))"

definition searchParam :: "query \<Rightarrow> string" where "searchParam q = q_get q ''q''"

definition refuseSearch :: "query \<Rightarrow> api_error option" where
  "refuseSearch q =
     (if map_of q ''q'' \<noteq> None
      then Some (ValidationError ''q is not supported on this list: role_id has no natural text column to search'') else None)"

subsection \<open>The rendered query\<close>

record sort_key =
  sk_col :: string
  sk_cast :: string

datatype sql_arg = ArgText string | ArgInt int | ArgNull

fun join_with :: "string \<Rightarrow> string list \<Rightarrow> string" where
  "join_with s [] = []"
| "join_with s [x] = x"
| "join_with s (x # y # r) = x @ s @ join_with s (y # r)"

definition sortIdentity :: "string \<Rightarrow> sort_key list \<Rightarrow> bool \<Rightarrow> string" where
  "sortIdentity table keys desc =
     table @ '':'' @ join_with '','' (map sk_col keys) @ '':'' @ (if desc then ''desc'' else ''asc'')"

definition idKey :: sort_key where "idKey = \<lparr>sk_col = ''id'', sk_cast = ''uuid''\<rparr>"

text \<open>The cursor is trusted only when it has the right number of keys and names this very sort.\<close>

definition cursor_error :: "string \<Rightarrow> sort_key list \<Rightarrow> bool \<Rightarrow> list_cursor option \<Rightarrow> api_error option" where
  "cursor_error table keys desc cursor =
     (case cursor of
        None \<Rightarrow> None
      | Some c \<Rightarrow>
          if length (lc_keys c) \<noteq> length keys
          then Some (OtherErr (''cursor has '' @ format_nat (length (lc_keys c)) @ '' keys, want '' @ format_nat (length keys)))
          else if lc_sort c \<noteq> sortIdentity table keys desc then Some CursorSortMismatch
          else None)"

definition placeholders :: "nat \<Rightarrow> sort_key list \<Rightarrow> string list" where
  "placeholders argN ks = map (\<lambda>(i, k). ''$'' @ format_nat (argN + i + 1) @ ''::'' @ sk_cast k) (enumerate 0 ks)"

definition keysetTail ::
  "string \<Rightarrow> sort_key list \<Rightarrow> bool \<Rightarrow> list_cursor option \<Rightarrow> nat \<Rightarrow> nat \<Rightarrow> api_error + string \<times> sql_arg list" where
  "keysetTail table keys desc cursor limit argN =
     (case cursor_error table keys desc cursor of
        Some e \<Rightarrow> Inl e
      | None \<Rightarrow>
          let ks = keys @ [idKey];
              qualified = map (\<lambda>k. table @ ''.'' @ sk_col k) ks;
              (pred, args, used) = (case cursor of
                  None \<Rightarrow> ([], [], argN)
                | Some c \<Rightarrow>
                    ('' AND ('' @ join_with '', '' qualified @ '') '' @ (if desc then ''<'' else ''>'') @ '' ('' @
                       join_with '', '' (placeholders argN ks) @ '')'',
                     map ArgText (lc_keys c @ [lc_id c]), argN + length ks));
              ord = map (\<lambda>x. if desc then x @ '' DESC'' else x) qualified in
          Inr (pred @ '' ORDER BY '' @ join_with '', '' ord @ '' LIMIT $'' @ format_nat (used + 1),
            args @ [if limit = 0 then ArgNull else ArgInt (int limit)]))"

subsection \<open>What the query selects\<close>

type_synonym row_order = "string list \<Rightarrow> string list \<Rightarrow> bool"

text \<open>
  The rows after the cursor in the order of the query, at most \<open>limit\<close> of them; the strict order
  on key tuples, the identifier last, is that of the column types, the collation for text.
\<close>

definition directed :: "bool \<Rightarrow> row_order \<Rightarrow> row_order" where
  "directed desc lt = (if desc then (\<lambda>a b. lt b a) else lt)"

definition order_rows :: "row_order \<Rightarrow> ('r \<Rightarrow> string list) \<Rightarrow> 'r list \<Rightarrow> 'r list" where
  "order_rows lt key rows = foldr (insert_by (\<lambda>a b. \<not> lt (key b) (key a))) rows []"

definition page_select ::
  "row_order \<Rightarrow> ('r \<Rightarrow> string list) \<Rightarrow> bool \<Rightarrow> list_cursor option \<Rightarrow> nat \<Rightarrow> 'r list \<Rightarrow> 'r list" where
  "page_select lt key desc cursor limit rows =
     (let past = (case cursor of
            None \<Rightarrow> rows
          | Some c \<Rightarrow> filter (\<lambda>r. directed desc lt (lc_keys c @ [lc_id c]) (key r)) rows);
          ordered = order_rows (directed desc lt) key past in
      if limit = 0 then ordered else take limit ordered)"

subsection \<open>Search\<close>

definition escapeLikeSpecials :: "bytes \<Rightarrow> bytes" where
  "escapeLikeSpecials term =
     concat (map (\<lambda>c. if c = CHR 0x5C \<or> c = CHR ''%'' \<or> c = CHR ''_'' then [CHR 0x5C, c] else [c]) term)"

definition likeSearchArg :: "bytes \<Rightarrow> bytes option" where
  "likeSearchArg term = (if term = [] then None else Some (''%'' @ escapeLikeSpecials term @ ''%''))"

text \<open>
  The pattern match of the database, on bytes: right for patterns without a bare underscore, which
  is all the escaping leaves. \<open>ILIKE\<close> compares after folding case.
\<close>

function like_match :: "bytes \<Rightarrow> bytes \<Rightarrow> bool" where
  "like_match [] t = (t = [])"
| "like_match (c # p) t =
     (if c = CHR ''%'' then like_match p t \<or> (case t of [] \<Rightarrow> False | _ # t' \<Rightarrow> like_match (c # p) t')
      else if c = CHR 0x5C then
        (case p of [] \<Rightarrow> False | e # p' \<Rightarrow> (case t of [] \<Rightarrow> False | x # t' \<Rightarrow> x = e \<and> like_match p' t'))
      else (case t of [] \<Rightarrow> False | x # t' \<Rightarrow> (c = CHR ''_'' \<or> x = c) \<and> like_match p t'))"
  by pat_completeness auto
termination by (relation "measure (\<lambda>(p, t). length p + length t)") auto

declare like_match.simps(2) [simp del]

definition search_matches :: "(bytes \<Rightarrow> bytes) \<Rightarrow> bytes \<Rightarrow> bytes \<Rightarrow> bool" where
  "search_matches fold_case term name =
     (case likeSearchArg term of None \<Rightarrow> True | Some pat \<Rightarrow> like_match (fold_case pat) (fold_case name))"

subsection \<open>One list endpoint\<close>

definition cursor_at :: "string \<Rightarrow> sort_key list \<Rightarrow> bool \<Rightarrow> string list \<Rightarrow> list_cursor" where
  "cursor_at table keys desc key = \<lparr>lc_keys = butlast key, lc_id = last key, lc_sort = sortIdentity table keys desc\<rparr>"

text \<open>The steps every list handler takes, over the page query and the cursor of its table.\<close>

definition next_cursor :: "json_codec \<Rightarrow> ('r \<Rightarrow> bool \<Rightarrow> list_cursor) \<Rightarrow> bool \<Rightarrow> nat \<Rightarrow> 'r list \<Rightarrow> string" where
  "next_cursor j mk desc limit rows =
     (if length rows = limit \<and> limit > 0 then encodeListCursor j (mk (last rows) desc) else [])"

definition list_reply ::
  "json_codec \<Rightarrow> (list_cursor option \<Rightarrow> nat \<Rightarrow> bool \<Rightarrow> api_error + 'r list) \<Rightarrow> ('r \<Rightarrow> bool \<Rightarrow> list_cursor) \<Rightarrow>
   cursor_kind list \<Rightarrow> string \<Rightarrow> (query \<Rightarrow> api_error option) \<Rightarrow> query \<Rightarrow> ('r list \<times> nat \<times> string) reply" where
  "list_reply j pager mk shape sortName check q =
     (case pageParams j q defaultListLimit maxListLimit shape of Inl e \<Rightarrow> api_fail e | Inr (limit, cursor) \<Rightarrow>
      case check q of Some e \<Rightarrow> api_fail e | None \<Rightarrow>
      case sortOrderParams q sortName of Inl e \<Rightarrow> api_fail e | Inr desc \<Rightarrow>
      case pager cursor limit desc of Inl e \<Rightarrow> api_fail e | Inr page \<Rightarrow>
      Reply 200 (page, limit, next_cursor j mk desc limit page))"

end
