(* ===== verification/SyncServe.thy ===== *)
theory SyncServe
  imports ArtifactApi Paging
begin

text \<open>
  What the API serves to \<open>orbeat-sync\<close> (\<open>internal/api/sync.go\<close>, \<open>sync_pins.go\<close>): the pins of a
  request, the clamp of a pin into the revisions that exist, the payload of each artifact and the
  \<open>GET /v1/sync/artifacts\<close> handler.
\<close>

subsection \<open>Pins\<close>

definition maxPinsPerRequest :: nat where "maxPinsPerRequest = defaultListLimit"

definition pinOverrideFloor :: string where "pinOverrideFloor = ''floor''"
definition pinOverridePruned :: string where "pinOverridePruned = ''pruned''"
definition pinOverrideAhead :: string where "pinOverrideAhead = ''ahead''"

type_synonym pins = "(string \<times> int) list"

fun parse_pairs :: "pins \<Rightarrow> string list \<Rightarrow> api_error + pins" where
  "parse_pairs pins [] = Inr pins"
| "parse_pairs pins (pair # raw) =
     (case cut_sub '':'' pair of
        None \<Rightarrow> Inl (ValidationError (''pin must be '' @ [CHR 0x22] @ ''<artifactId>:<revisionNum>'' @ [CHR 0x22]))
      | Some (i, num) \<Rightarrow>
          if \<not> uuidRe i then Inl (ValidationError ''pin artifact id must be a uuid'')
          else (case Atoi num of
                  None \<Rightarrow> Inl (ValidationError ''pin revision must be an integer >= 1'')
                | Some n \<Rightarrow>
                    if n < 1 then Inl (ValidationError ''pin revision must be an integer >= 1'')
                    else if i \<in> fst ` set pins then Inl (ValidationError ''pin names the same artifact more than once'')
                    else parse_pairs (pins @ [(i, n)]) raw))"

definition parsePins :: "string list \<Rightarrow> api_error + pins" where
  "parsePins raw =
     (if raw = [] then Inr []
      else if length raw > maxPinsPerRequest
      then Inl (ValidationError (''at most '' @ FormatInt (int maxPinsPerRequest) @ '' pin parameters per request, got '' @
        FormatInt (int (length raw))))
      else parse_pairs [] raw)"

text \<open>\<open>pins[id]\<close>, zero when there is none.\<close>

definition pin_of :: "pins \<Rightarrow> string \<Rightarrow> int" where
  "pin_of pins i = (case map_of pins i of None \<Rightarrow> 0 | Some n \<Rightarrow> n)"

record pinResolution =
  pr_served :: int
  pr_oldest :: int
  pr_reason :: string

definition pinResolve :: "int \<Rightarrow> int \<Rightarrow> int \<Rightarrow> int \<Rightarrow> pinResolution" where
  "pinResolve pin flr minNum maxNum =
     (let low = max flr minNum in
      if pin \<le> 0 then \<lparr>pr_served = maxNum, pr_oldest = low, pr_reason = []\<rparr>
      else
        let served = min (max pin low) maxNum in
        \<lparr>pr_served = served, pr_oldest = low,
         pr_reason = (if served = pin then [] else if pin > maxNum then pinOverrideAhead
           else if flr > minNum then pinOverrideFloor else pinOverridePruned)\<rparr>)"

subsection \<open>The payload of one artifact\<close>

type_synonym payloads = "((string \<times> int) \<times> revision_payload) list"

text \<open>
  What is served of an artifact: its rendering input, the seed, the revision and the corrected
  override; the second component tells whether the race fallback was taken (and logged).
\<close>

definition resolveSyncPayload ::
  "dist_artifact \<Rightarrow> pinResolution \<Rightarrow> payloads \<Rightarrow> (mkt_artifact \<times> bytes \<times> int \<times> string) \<times> bool" where
  "resolveSyncPayload a res payloads =
     (let own = \<lparr>mk_type = da_type a, mk_name = da_name a, mk_content = da_content a, mk_scope = da_scope a\<rparr> in
      if pr_served res < da_revision a then
        (case map_of payloads (da_id a, pr_served res) of
           Some pl \<Rightarrow> ((\<lparr>mk_type = rp_type pl, mk_name = rp_name pl, mk_content = rp_content pl, mk_scope = rp_scope pl\<rparr>,
             rp_seed pl, pr_served res, pr_reason res), False)
         | None \<Rightarrow> ((own, da_seed a, da_revision a, pinOverridePruned), True))
      else ((own, da_seed a, da_revision a, pr_reason res), False))"

record sync_counts =
  sc_pinned :: int
  sc_overridden :: int
  sc_artifacts :: "string list"
  sc_truncated :: bool

definition counts_add :: "bool \<Rightarrow> string \<Rightarrow> string \<Rightarrow> sync_counts \<Rightarrow> sync_counts" where
  "counts_add hasPin override name c =
     (let c1 = (if hasPin then c\<lparr>sc_pinned := sc_pinned c + 1\<rparr> else c) in
      if override \<noteq> [] then
        let c2 = c1\<lparr>sc_overridden := sc_overridden c1 + 1\<rparr> in
        if int (length (sc_artifacts c2)) < MaxGrantNames then c2\<lparr>sc_artifacts := sc_artifacts c2 @ [name]\<rparr>
        else c2\<lparr>sc_truncated := True\<rparr>
      else c1)"

subsection \<open>The handler\<close>

record syncArtifactDTO =
  sd_id :: string
  sd_revision :: int
  sd_type :: string
  sd_name :: string
  sd_content :: bytes
  sd_scope :: string
  sd_seed :: bytes
  sd_tags :: "string list"
  sd_rule_scope :: string
  sd_oldest :: int
  sd_latest :: int
  sd_override :: string

definition resolve_pin :: "pins \<Rightarrow> dist_artifact \<Rightarrow> pinResolution" where
  "resolve_pin pins a = pinResolve (pin_of pins (da_id a)) (da_min_revision a) (da_oldest a) (da_revision a)"

definition payload_keys :: "pins \<Rightarrow> dist_artifact list \<Rightarrow> (string \<times> int) list" where
  "payload_keys pins arts =
     map (\<lambda>a. (da_id a, pr_served (resolve_pin pins a)))
       (filter (\<lambda>a. pr_served (resolve_pin pins a) < da_revision a) arts)"

definition sync_dto :: "server \<Rightarrow> dist_artifact \<Rightarrow> pinResolution \<Rightarrow> mkt_artifact \<times> bytes \<times> int \<times> string \<Rightarrow> syncArtifactDTO" where
  "sync_dto s a res x =
     (case x of (src, seed, revision, override) \<Rightarrow>
        let rule = (mk_type src = ''rule'');
            seeded = (mk_type src = ''subagent'' \<and> seed \<noteq> [] \<and> (mk_scope src = ''user'' \<or> mk_scope src = ''project'')) in
        \<lparr>sd_id = da_id a, sd_revision = revision, sd_type = mk_type src, sd_name = mk_name src,
         sd_content = RenderArtifactContent (sv_yaml s) src,
         sd_scope = (if seeded then mk_scope src else []), sd_seed = (if seeded then seed else []),
         sd_tags = (if rule then da_tags a else []),
         sd_rule_scope = (if rule \<and> da_rule_scope a = ''global'' then ''global'' else []),
         sd_oldest = (if sv_pinning s then pr_oldest res else 0),
         sd_latest = (if sv_pinning s then da_revision a else 0),
         sd_override = (if sv_pinning s then override else [])\<rparr>)"

fun serve_artifacts ::
  "server \<Rightarrow> pins \<Rightarrow> payloads \<Rightarrow> sync_counts \<Rightarrow> dist_artifact list \<Rightarrow> syncArtifactDTO list \<times> sync_counts" where
  "serve_artifacts s pins payloads counts [] = ([], counts)"
| "serve_artifacts s pins payloads counts (a # arts) =
     (let res = resolve_pin pins a;
          x = fst (resolveSyncPayload a res payloads);
          counts1 = counts_add (pin_of pins (da_id a) > 0) (snd (snd (snd x))) (da_name a) counts;
          (dtos, counts2) = serve_artifacts s pins payloads counts1 arts in
      (sync_dto s a res x # dtos, counts2))"

definition sync_metadata :: "server \<Rightarrow> nat \<Rightarrow> sync_counts \<Rightarrow> (string \<times> meta) list" where
  "sync_metadata s n c =
     [(''count'', MInt (int n))] @
     (if sv_pinning s then [(''pinned'', MInt (sc_pinned c)), (''overridden'', MInt (sc_overridden c)),
        (''overriddenArtifacts'', MStrs (sc_artifacts c)), (''truncated'', MBool (sc_truncated c))] else [])"

text \<open>
  The three reads are separate statements, each on the store as it is by then: the entitled
  artifacts, the org rules, the payloads of the pinned revisions.
\<close>

definition handleSyncArtifacts ::
  "server \<Rightarrow> tx_env \<Rightarrow> caller option \<Rightarrow> string list \<Rightarrow> db \<Rightarrow> db \<Rightarrow> db \<Rightarrow> api_state \<Rightarrow>
   syncArtifactDTO list reply \<times> api_state" where
  "handleSyncArtifacts s env ctx raw d1 d2 d3 st =
     (case resolved ctx of Inl r \<Rightarrow> (r, st) | Inr c \<Rightarrow>
      case (if sv_pinning s then parsePins raw else Inr []) of Inl e \<Rightarrow> (api_fail e, st) | Inr pins \<Rightarrow>
      let arts = ListEntitledArtifacts (sv_collation s) (cl_tenant c) (cl_roles c) d1 @
            ListActiveOrgRules (sv_collation s) (cl_tenant c) d2;
          keys = payload_keys pins arts;
          payloads = (if keys = [] then [] else ListArtifactRevisionPayloads (cl_tenant c) keys d3);
          (out, counts) = serve_artifacts s pins payloads \<lparr>sc_pinned = 0, sc_overridden = 0, sc_artifacts = [], sc_truncated = False\<rparr> arts in
      (Reply 200 out, logBestEffortAudit env \<lparr>ae_tenant = cl_tenant c, ae_actor = cl_subject c, ae_action = ''sync.list'',
         ae_target = [], ae_decision = ''allow'', ae_metadata = sync_metadata s (length out) counts\<rparr> st))"

definition handleSyncConfig :: "caller option \<Rightarrow> string \<Rightarrow> bool \<Rightarrow> bool \<Rightarrow> (string \<times> bool \<times> bool) reply" where
  "handleSyncConfig ctx gatewayURL deploymentRegistry pinning =
     (case resolved ctx of Inl r \<Rightarrow> r | Inr _ \<Rightarrow> Reply 200 (gatewayURL, deploymentRegistry, pinning))"

end
