(* ===== verification/ArtifactStoreProofs.thy ===== *)
theory ArtifactStoreProofs
  imports ArtifactStore
begin

text \<open>
  What the artifact tables keep: the invariant of the statements, the optimistic lock, the
  separation of edits from distribution, and the agreement of the approved snapshot with the
  newest revision.
\<close>

subsection \<open>Revision numbers\<close>

lemma foldr_max_ge: "x = b \<or> x \<in> set ns \<Longrightarrow> x \<le> foldr max ns (b :: int)"
  by (induction ns) auto

lemma foldr_max_in: "foldr max ns (b :: int) \<in> insert b (set ns)"
  by (induction ns) (auto simp: max_def)

lemma max0_ge: "x \<in> set ns \<Longrightarrow> x \<le> max0 ns"
  using foldr_max_ge [of x "hd ns" ns] by (cases "ns = []") (auto simp: max0_def)

lemma max0_in: "ns \<noteq> [] \<Longrightarrow> max0 ns \<in> set ns"
  using foldr_max_in [of ns "hd ns"] by (cases ns) (auto simp: max0_def)

lemma max0_eq: "x \<in> set ns \<Longrightarrow> (\<And>y. y \<in> set ns \<Longrightarrow> y \<le> x) \<Longrightarrow> max0 ns = x"
  by (metis empty_iff empty_set max0_ge max0_in order_antisym)

lemma newest_max:
  assumes "ns \<noteq> []" "0 < keep"
  shows "max0 ns \<in> set (newest keep ns)"
proof -
  obtain xs x where s: "sort ns = xs @ [x]" using assms(1) by (metis rev_exhaust set_empty set_sort)
  have "sorted (xs @ [x])" using sorted_sort [of ns] s by simp
  then have "y \<le> x" if "y \<in> set ns" for y using that s by (metis Un_iff list.set_intros(1) order_refl set_ConsD set_append set_sort sorted_append empty_iff empty_set)
  moreover have "x \<in> set ns" using s by (metis in_set_conv_decomp set_sort)
  ultimately have "max0 ns = x" by (intro max0_eq)
  moreover have "x \<in> set (newest keep ns)" using s assms(2) by (cases keep) (simp_all add: newest_def)
  ultimately show ?thesis by simp
qed

lemma rev_nums_iff: "n \<in> set (rev_nums i d) \<longleftrightarrow> (\<exists>v \<in> set (db_revisions d). rv_artifact v = i \<and> rv_num v = n)"
  by (auto simp: rev_nums_def)

text \<open>What an append with its prune leaves.\<close>

lemma insertRevision_effect:
  assumes "insertRevision v keep d = (pruned, d2)"
  defines "v1 \<equiv> v\<lparr>rv_num := max0 (rev_nums (rv_artifact v) d) + 1\<rparr>"
  shows "db_artifacts d2 = db_artifacts d" "db_grants d2 = db_grants d"
    "v1 \<in> set (db_revisions d2)" "set (db_revisions d2) \<subseteq> insert v1 (set (db_revisions d))"
    "x \<in> set (db_revisions d) \<Longrightarrow> rv_artifact x \<noteq> rv_artifact v \<Longrightarrow> x \<in> set (db_revisions d2)"
    "max0 (rev_nums (rv_artifact v) d2) = rv_num v1"
    "i \<noteq> rv_artifact v \<Longrightarrow> rev_nums i d2 = rev_nums i d"
    "\<exists>p. db_revisions d2 = filter p (db_revisions d @ [v1])"
proof -
  let ?a = "rv_artifact v" and ?revs = "db_revisions d @ [v1]"
  let ?d1 = "d\<lparr>db_revisions := ?revs\<rparr>"
  define gone where "gone x \<longleftrightarrow> keep > 0 \<and> rv_tenant x = rv_tenant v \<and> rv_artifact x = ?a \<and>
     rv_num x \<notin> set (newest (nat keep) (rev_nums ?a ?d1))" for x :: rrow
  have d2: "d2 = d\<lparr>db_revisions := filter (\<lambda>x. \<not> gone x) ?revs\<rparr>"
    using assms(1) by (auto simp: insertRevision_def v1_def Let_def gone_def split: if_splits)
  have a1: "rv_artifact v1 = ?a" by (simp add: v1_def)
  have nums: "rev_nums ?a ?d1 = rev_nums ?a d @ [rv_num v1]" using a1 by (simp add: rev_nums_def)
  have top: "max0 (rev_nums ?a ?d1) = rv_num v1"
  proof (rule max0_eq)
    show "rv_num v1 \<in> set (rev_nums ?a ?d1)" by (simp add: nums)
    fix y
    assume "y \<in> set (rev_nums ?a ?d1)"
    then have "y = rv_num v1 \<or> y \<le> max0 (rev_nums ?a d)" using max0_ge by (auto simp: nums)
    then show "y \<le> rv_num v1" by (auto simp: v1_def)
  qed
  have k: "\<not> gone v1"
    using newest_max [of "rev_nums ?a ?d1" "nat keep"] top nums by (auto simp: gone_def)
  show "db_artifacts d2 = db_artifacts d" "db_grants d2 = db_grants d" by (simp_all add: d2)
  show in2: "v1 \<in> set (db_revisions d2)" using k by (simp add: d2)
  show "set (db_revisions d2) \<subseteq> insert v1 (set (db_revisions d))" by (auto simp: d2)
  show "x \<in> set (db_revisions d) \<Longrightarrow> rv_artifact x \<noteq> ?a \<Longrightarrow> x \<in> set (db_revisions d2)"
    by (auto simp: d2 gone_def)
  show "max0 (rev_nums ?a d2) = rv_num v1"
  proof (rule max0_eq)
    show "rv_num v1 \<in> set (rev_nums ?a d2)" using in2 a1 by (auto simp: rev_nums_iff)
    fix y
    assume "y \<in> set (rev_nums ?a d2)"
    moreover have "set (rev_nums ?a d2) \<subseteq> set (rev_nums ?a ?d1)" unfolding rev_nums_def d2 by auto
    ultimately have "y \<in> set (rev_nums ?a ?d1)" by blast
    then show "y \<le> rv_num v1" using max0_ge top by metis
  qed
  show "rev_nums i d2 = rev_nums i d" if "i \<noteq> ?a"
  proof -
    have "filter (\<lambda>x. rv_artifact x = i) (filter (\<lambda>x. \<not> gone x) ?revs) = filter (\<lambda>x. rv_artifact x = i) (db_revisions d)"
      using that a1 by (auto simp: gone_def intro: filter_cong)
    then show ?thesis by (simp add: rev_nums_def d2)
  qed
  show "\<exists>p. db_revisions d2 = filter p ?revs" by (auto simp: d2)
qed

subsection \<open>The invariant\<close>

definition frozen_as :: "arow \<Rightarrow> rrow \<Rightarrow> bool" where
  "frozen_as r v \<longleftrightarrow> Some (rv_content v) = ar_app_content r \<and> str (rv_seed v) = str (ar_app_seed r) \<and>
     str (rv_scope v) = str (ar_app_scope r) \<and> str (rv_type v) = str (ar_app_type r) \<and>
     str (rv_name v) = str (ar_app_name r)"

definition snapshot_kept :: "db \<Rightarrow> arow \<Rightarrow> bool" where
  "snapshot_kept d r \<longleftrightarrow> ar_app_content r = None \<or>
     (\<exists>v \<in> set (db_revisions d). rv_artifact v = ar_id r \<and> rv_num v = max0 (rev_nums (ar_id r) d) \<and> frozen_as r v)"

definition rows_ok :: "arow list \<Rightarrow> bool" where
  "rows_ok rows \<longleftrightarrow> list_all row_checks rows \<and> distinct (map live_key rows) \<and> distinct (approved_keys rows)"

definition revisions_ok :: "db \<Rightarrow> bool" where
  "revisions_ok d \<longleftrightarrow> distinct (map (\<lambda>v. (rv_artifact v, rv_num v)) (db_revisions d)) \<and>
     (\<forall>v \<in> set (db_revisions d). \<exists>r \<in> set (db_artifacts d). ar_id r = rv_artifact v \<and> ar_tenant r = rv_tenant v)"

definition store_inv :: "db \<Rightarrow> bool" where
  "store_inv d \<longleftrightarrow> distinct (map ar_id (db_artifacts d)) \<and> rows_ok (db_artifacts d) \<and> revisions_ok d \<and>
     (\<forall>r \<in> set (db_artifacts d). snapshot_kept d r)"

lemma write_rows_None: "write_rows rows d = (None, d1) \<Longrightarrow> d1 = d\<lparr>db_artifacts := rows\<rparr> \<and> rows_ok rows"
  by (auto simp: write_rows_def rows_ok_def split: if_splits)

lemma write_rows_Some: "write_rows rows d = (Some e, d1) \<Longrightarrow> d1 = d"
  by (auto simp: write_rows_def split: if_splits)

lemma write_rows_ok: "rows_ok rows \<Longrightarrow> write_rows rows d = (None, d\<lparr>db_artifacts := rows\<rparr>)"
  by (simp add: write_rows_def rows_ok_def)

definition same_key :: "(arow \<Rightarrow> arow) \<Rightarrow> bool" where
  "same_key f \<longleftrightarrow> (\<forall>r. ar_id (f r) = ar_id r \<and> ar_tenant (f r) = ar_tenant r)"

lemma bump_simps [simp]:
  "ar_row_version (bump f r) = ar_row_version r + 1"
  "ar_app_content (bump f r) = ar_app_content (f r)" "ar_app_seed (bump f r) = ar_app_seed (f r)"
  "ar_app_scope (bump f r) = ar_app_scope (f r)" "ar_app_type (bump f r) = ar_app_type (f r)"
  "ar_app_name (bump f r) = ar_app_name (f r)" "ar_app_visibility (bump f r) = ar_app_visibility (f r)"
  "ar_app_tags (bump f r) = ar_app_tags (f r)" "ar_app_rule_scope (bump f r) = ar_app_rule_scope (f r)"
  "ar_min_revision (bump f r) = ar_min_revision (f r)" "ar_id (bump f r) = ar_id (f r)"
  "ar_tenant (bump f r) = ar_tenant (f r)" "ar_content (bump f r) = ar_content (f r)"
  "ar_seed (bump f r) = ar_seed (f r)" "ar_scope (bump f r) = ar_scope (f r)"
  by (simp_all add: bump_def)

lemma update_ids: "same_key f \<Longrightarrow> map ar_id (update_rows p f rows) = map ar_id rows"
  by (auto simp: update_rows_def same_key_def)

lemma update_rows_none: "(\<And>r. r \<in> set rows \<Longrightarrow> \<not> p r) \<Longrightarrow> update_rows p f rows = rows"
  unfolding update_rows_def by (rule map_idI) simp

lemma update_in: "r' \<in> set (update_rows p f rows) \<Longrightarrow> \<exists>r \<in> set rows. r' = (if p r then bump f r else r)"
  by (auto simp: update_rows_def)

text \<open>A statement that only rewrites rows keeps the invariant when it keeps or clears each snapshot.\<close>

definition keeps_snapshot :: "(arow \<Rightarrow> arow) \<Rightarrow> bool" where
  "keeps_snapshot f \<longleftrightarrow> same_key f \<and> (\<forall>r. ar_app_content (f r) = None \<or>
     (ar_app_content (f r) = ar_app_content r \<and> ar_app_seed (f r) = ar_app_seed r \<and> ar_app_scope (f r) = ar_app_scope r \<and>
      ar_app_type (f r) = ar_app_type r \<and> ar_app_name (f r) = ar_app_name r))"

lemma revision_owner:
  assumes "store_inv d" "v \<in> set (db_revisions d)"
  obtains r where "r \<in> set (db_artifacts d)" "ar_id r = rv_artifact v" "ar_tenant r = rv_tenant v"
  using assms unfolding store_inv_def revisions_ok_def by blast

lemma rewrite_inv:
  assumes "store_inv d" "keeps_snapshot f" "rows_ok (update_rows p f (db_artifacts d))"
  shows "store_inv (d\<lparr>db_artifacts := update_rows p f (db_artifacts d)\<rparr>)"
proof -
  let ?d = "d\<lparr>db_artifacts := update_rows p f (db_artifacts d)\<rparr>"
  have k: "same_key f" using assms(2) by (simp add: keeps_snapshot_def)
  have nums: "rev_nums i ?d = rev_nums i d" for i by (simp add: rev_nums_def)
  have "snapshot_kept ?d r'" if "r' \<in> set (db_artifacts ?d)" for r'
  proof -
    from that have "r' \<in> set (update_rows p f (db_artifacts d))" by simp
    then obtain r where r: "r \<in> set (db_artifacts d)" "r' = (if p r then bump f r else r)"
      using update_in by blast
    have "snapshot_kept d r" using assms(1) r(1) by (simp add: store_inv_def)
    with r(2) assms(2) k show ?thesis
      by (auto simp: snapshot_kept_def nums frozen_as_def keeps_snapshot_def same_key_def)
  qed
  moreover have "revisions_ok ?d"
    unfolding revisions_ok_def
  proof (intro conjI ballI)
    show "distinct (map (\<lambda>v. (rv_artifact v, rv_num v)) (db_revisions ?d))"
      using assms(1) by (simp add: store_inv_def revisions_ok_def)
    fix v
    assume "v \<in> set (db_revisions ?d)"
    then have v: "v \<in> set (db_revisions d)" by simp
    obtain r where r: "r \<in> set (db_artifacts d)" "ar_id r = rv_artifact v" "ar_tenant r = rv_tenant v"
      by (rule revision_owner [OF assms(1) v])
    let ?r = "if p r then bump f r else r"
    have "?r \<in> set (db_artifacts ?d)" using r(1) by (simp add: update_rows_def)
    moreover have "ar_id ?r = rv_artifact v" "ar_tenant ?r = rv_tenant v" using r k by (simp_all add: same_key_def)
    ultimately show "\<exists>r\<in>set (db_artifacts ?d). ar_id r = rv_artifact v \<and> ar_tenant r = rv_tenant v" by blast
  qed
  ultimately show ?thesis using assms(1,3) update_ids [OF k] by (simp add: store_inv_def)
qed

lemma transition_inv:
  assumes "store_inv d" "keeps_snapshot f" "transition f tenant i d = (x, d1)"
  shows "store_inv d1"
proof (cases "List.find (addressed tenant i) (db_artifacts d)")
  case None
  with assms(1,3) show ?thesis by (simp add: transition_def)
next
  case (Some r)
  obtain e d2 where w: "write_rows (update_rows (addressed tenant i) f (db_artifacts d)) d = (e, d2)" by fastforce
  with Some assms(3) have "d1 = d2" by (auto simp: transition_def split: option.splits)
  then show ?thesis
  proof (cases e)
    case None
    from write_rows_None [OF w [unfolded None]] rewrite_inv [OF assms(1,2)] \<open>d1 = d2\<close> show ?thesis by simp
  next
    case (Some y)
    from write_rows_Some [OF w [unfolded Some]] \<open>d1 = d2\<close> assms(1) show ?thesis by simp
  qed
qed

lemma guarded_inv:
  assumes "store_inv d" "keeps_snapshot f" "guarded_update f tenant i n d = (x, d1)"
  shows "store_inv d1"
proof -
  let ?p = "\<lambda>r. addressed tenant i r \<and> ar_row_version r = n"
  obtain e d2 where w: "write_rows (update_rows ?p f (db_artifacts d)) d = (e, d2)" by fastforce
  with assms(3) have "d1 = d2" by (auto simp: guarded_update_def Let_def split: option.splits if_splits)
  then show ?thesis
  proof (cases e)
    case None
    from write_rows_None [OF w [unfolded None]] rewrite_inv [OF assms(1,2)] \<open>d1 = d2\<close> show ?thesis by simp
  next
    case (Some y)
    from write_rows_Some [OF w [unfolded Some]] \<open>d1 = d2\<close> assms(1) show ?thesis by simp
  qed
qed

lemma create_inv:
  assumes "store_inv d" "i \<notin> set (map ar_id (db_artifacts d))" "CreateArtifact i tenant a d = (x, d1)"
  shows "store_inv d1"
proof -
  let ?r = "set_working a (blank_row tenant i)"
  obtain e d2 where w: "write_rows (db_artifacts d @ [?r]) d = (e, d2)" by fastforce
  with assms(3) have "d1 = d2" by (auto simp: CreateArtifact_def Let_def split: option.splits)
  then show ?thesis
  proof (cases e)
    case None
    note n = write_rows_None [OF w [unfolded None]]
    have r: "ar_id ?r = i" "ar_app_content ?r = None" by (simp_all add: set_working_def blank_row_def)
    have "rev_nums j (d\<lparr>db_artifacts := db_artifacts d @ [?r]\<rparr>) = rev_nums j d" for j by (simp add: rev_nums_def)
    with n assms(1,2) r \<open>d1 = d2\<close> show ?thesis
      by (fastforce simp: store_inv_def revisions_ok_def snapshot_kept_def)
  next
    case (Some y)
    from write_rows_Some [OF w [unfolded Some]] \<open>d1 = d2\<close> assms(1) show ?thesis by simp
  qed
qed

lemma distinct_filter_map: "distinct (map f xs) \<Longrightarrow> distinct (map f (filter p xs))"
  by (induction xs) auto

lemma rows_ok_filter: "rows_ok rows \<Longrightarrow> rows_ok (filter p rows)"
proof -
  assume r: "rows_ok rows"
  let ?q = "\<lambda>r. ar_app_content r \<noteq> None" and ?k = "\<lambda>r. (ar_tenant r, ar_app_type r, ar_app_name r)"
  have "filter ?q (filter p rows) = filter p (filter ?q rows)" by (simp only: filter_filter conj_commute)
  then have "approved_keys (filter p rows) = map ?k (filter p (filter ?q rows))" by (simp only: approved_keys_def)
  moreover have "distinct (map ?k (filter ?q rows))" using r by (simp add: rows_ok_def approved_keys_def)
  ultimately have "distinct (approved_keys (filter p rows))" by (simp only: distinct_filter_map)
  with r show ?thesis by (auto simp: rows_ok_def list_all_iff distinct_filter_map)
qed

lemma artifact_delete_inv:
  assumes "store_inv d" "DeleteArtifact tenant i d = (x, d1)"
  shows "store_inv d1"
proof (cases "list_ex (addressed tenant i) (db_artifacts d)")
  case False
  with assms show ?thesis by (simp add: DeleteArtifact_def)
next
  case True
  then have d1: "d1 = d\<lparr>db_artifacts := filter (\<lambda>r. \<not> addressed tenant i r) (db_artifacts d),
      db_revisions := filter (\<lambda>v. rv_artifact v \<noteq> i) (db_revisions d), db_grants := filter (\<lambda>g. ag_artifact g \<noteq> i) (db_grants d)\<rparr>"
    using assms(2) by (simp add: DeleteArtifact_def)
  have ids: "ar_id r \<noteq> i" if "r \<in> set (db_artifacts d1)" for r
  proof
    assume "ar_id r = i"
    moreover obtain q where "q \<in> set (db_artifacts d)" "addressed tenant i q" using True by (auto simp: list_ex_iff)
    moreover have "r \<in> set (db_artifacts d)" "\<not> addressed tenant i r" using that d1 by auto
    ultimately show False using assms(1) unfolding store_inv_def by (metis addressed_def distinct_map inj_onD)
  qed
  have nums: "rev_nums j d1 = rev_nums j d" if "j \<noteq> i" for j
  proof -
    have "filter (\<lambda>v. rv_artifact v = j) (filter (\<lambda>v. rv_artifact v \<noteq> i) (db_revisions d)) = filter (\<lambda>v. rv_artifact v = j) (db_revisions d)"
      using that by (auto intro: filter_cong)
    then show ?thesis by (simp add: rev_nums_def d1)
  qed
  have "snapshot_kept d1 r" if "r \<in> set (db_artifacts d1)" for r
  proof -
    have "snapshot_kept d r" using that assms(1) by (simp add: d1 store_inv_def)
    with ids [OF that] nums show ?thesis by (auto simp: snapshot_kept_def d1)
  qed
  moreover have "revisions_ok d1"
    unfolding revisions_ok_def
  proof (intro conjI ballI)
    show "distinct (map (\<lambda>v. (rv_artifact v, rv_num v)) (db_revisions d1))"
      using assms(1) by (simp add: d1 store_inv_def revisions_ok_def distinct_filter_map)
    fix v
    assume "v \<in> set (db_revisions d1)"
    then have v: "v \<in> set (db_revisions d)" "rv_artifact v \<noteq> i" by (simp_all add: d1)
    obtain r where r: "r \<in> set (db_artifacts d)" "ar_id r = rv_artifact v" "ar_tenant r = rv_tenant v"
      by (rule revision_owner [OF assms(1) v(1)])
    then have "r \<in> set (db_artifacts d1)" using v(2) by (simp add: d1 addressed_def)
    with r show "\<exists>r\<in>set (db_artifacts d1). ar_id r = rv_artifact v \<and> ar_tenant r = rv_tenant v" by blast
  qed
  moreover have "rows_ok (db_artifacts d1)" "distinct (map ar_id (db_artifacts d1))"
    using assms(1) rows_ok_filter by (simp_all add: d1 store_inv_def distinct_filter_map)
  ultimately show ?thesis by (simp add: store_inv_def)
qed

text \<open>An approval: the rows are frozen and the revision is appended in one transaction.\<close>

lemma str_nullif [simp]: "str (nullif x) = x"
  by (simp add: str_def nullif_def)

lemma find_unique:
  assumes "distinct (map ar_id rows)" "List.find (addressed tenant i) rows = Some r" "q \<in> set rows" "ar_id q = i"
  shows "q = r"
proof -
  have "r \<in> set rows" "ar_id r = i"
    using assms(2) by (auto simp: find_Some_iff addressed_def in_set_conv_nth)
  with assms(1,3,4) show ?thesis by (metis distinct_map inj_onD)
qed

lemma find_addressed: "List.find (addressed tenant i) rows = Some r \<Longrightarrow> r \<in> set rows \<and> ar_id r = i \<and> ar_tenant r = tenant"
  by (auto simp: find_Some_iff addressed_def in_set_conv_nth)

lemma approve_inv:
  assumes "store_inv d" "SetArtifactApproved tenant i approver keep d = (x, d2)"
  shows "store_inv d2"
proof -
  obtain y d1 where t: "transition (freeze approver) tenant i d = (y, d1)" by fastforce
  let ?f = "freeze approver"
  have ids: "distinct (map ar_id (db_artifacts d))" using assms(1) by (simp add: store_inv_def)
  show ?thesis
  proof (cases "List.find (addressed tenant i) (db_artifacts d)")
    case None
    with t assms show ?thesis by (auto simp: SetArtifactApproved_def transition_def)
  next
    case (Some r)
    let ?rows = "update_rows (addressed tenant i) ?f (db_artifacts d)"
    obtain e d3 where w: "write_rows ?rows d = (e, d3)" by fastforce
    show ?thesis
    proof (cases e)
      case (Some z)
      with w t \<open>List.find _ _ = _\<close> assms show ?thesis
        using write_rows_Some by (fastforce simp: SetArtifactApproved_def transition_def)
    next
      case None
      note n = write_rows_None [OF w [unfolded None]]
      let ?a = "bump ?f r" and ?v = "approval_revision approver (bump ?f r)"
      obtain pruned where ins: "insertRevision ?v keep d3 = (pruned, d2)"
        using assms(2) t Some w None by (auto simp: SetArtifactApproved_def transition_def split: prod.splits)
      note I = insertRevision_effect [OF ins]
      have r: "r \<in> set (db_artifacts d)" "ar_id r = i" "ar_tenant r = tenant" using find_addressed [OF Some] by auto
      have va: "rv_artifact ?v = i" "rv_tenant ?v = tenant" using r by (simp_all add: approval_revision_def freeze_def)
      have d3: "db_artifacts d3 = ?rows" "db_revisions d3 = db_revisions d" using n by auto
      have nums: "rev_nums j d3 = rev_nums j d" for j by (simp add: rev_nums_def d3)
      have k: "same_key ?f" by (simp add: same_key_def freeze_def)
      let ?v1 = "?v\<lparr>rv_num := max0 (rev_nums (rv_artifact ?v) d3) + 1\<rparr>"
      have snap: "snapshot_kept d2 q" if "q \<in> set (db_artifacts d2)" for q
      proof (cases "ar_id q = i")
        case True
        from that I(1) d3 have "q \<in> set ?rows" by simp
        then obtain q0 where q0: "q0 \<in> set (db_artifacts d)" "q = (if addressed tenant i q0 then bump ?f q0 else q0)"
          using update_in by blast
        then have "ar_id q0 = i" using True k by (auto simp: same_key_def split: if_splits)
        then have "q0 = r" using find_unique [OF ids Some] q0(1) by blast
        with q0(2) r have "q = ?a" by (simp add: addressed_def)
        moreover have "frozen_as ?a ?v1"
          by (simp add: frozen_as_def approval_revision_def freeze_def)
        ultimately show ?thesis using I(3,6) va True unfolding snapshot_kept_def by auto
      next
        case False
        from that I(1) d3 have "q \<in> set ?rows" by simp
        then obtain q0 where q0: "q0 \<in> set (db_artifacts d)" "q = (if addressed tenant i q0 then bump ?f q0 else q0)"
          using update_in by blast
        then have "q = q0" using False k by (auto simp: same_key_def addressed_def split: if_splits)
        then have "snapshot_kept d q" using q0(1) assms(1) by (simp add: store_inv_def)
        with False I(5,7) va nums show ?thesis unfolding snapshot_kept_def d3 by fastforce
      qed
      have "revisions_ok d2"
        unfolding revisions_ok_def
      proof (intro conjI ballI)
        obtain p where p: "db_revisions d2 = filter p (db_revisions d3 @ [?v1])" using I(8) by blast
        have "rv_num ?v1 \<notin> set (rev_nums i d)" using max0_ge [of _ "rev_nums i d"] va nums by fastforce
        then have "distinct (map (\<lambda>v. (rv_artifact v, rv_num v)) (db_revisions d3 @ [?v1]))"
          using assms(1) va by (auto simp: d3 store_inv_def revisions_ok_def rev_nums_iff)
        then show "distinct (map (\<lambda>v. (rv_artifact v, rv_num v)) (db_revisions d2))"
          unfolding p by (rule distinct_filter_map)
        fix v
        assume "v \<in> set (db_revisions d2)"
        with I(4) d3 have "v = ?v1 \<or> v \<in> set (db_revisions d)" by auto
        then obtain q where q: "q \<in> set (db_artifacts d)" "ar_id q = rv_artifact v" "ar_tenant q = rv_tenant v"
          using r va revision_owner [OF assms(1)] by (metis rrow.select_convs(1,2) rrow.surjective rrow.update_convs(3))
        let ?q = "if addressed tenant i q then bump ?f q else q"
        have "?q \<in> set (db_artifacts d2)" using q(1) by (simp add: I(1) d3 update_rows_def)
        moreover have "ar_id ?q = rv_artifact v" "ar_tenant ?q = rv_tenant v" using q k by (simp_all add: same_key_def)
        ultimately show "\<exists>q\<in>set (db_artifacts d2). ar_id q = rv_artifact v \<and> ar_tenant q = rv_tenant v" by blast
      qed
      with snap n I(1) update_ids [OF k] ids show ?thesis by (simp add: store_inv_def)
    qed
  qed
qed

subsection \<open>The tables as a transition system\<close>

inductive store_step :: "db \<Rightarrow> db \<Rightarrow> bool" where
  Create: "i \<notin> set (map ar_id (db_artifacts d)) \<Longrightarrow> store_step d (snd (CreateArtifact i tenant a d))"
| Update: "store_step d (snd (UpdateArtifact tenant i a n d))"
| Floor: "store_step d (snd (SetArtifactMinRevision tenant i m n d))"
| Submit: "store_step d (snd (SetArtifactSubmitted tenant i by findings digest d))"
| Approve: "store_step d (snd (SetArtifactApproved tenant i by keep d))"
| Reject: "store_step d (snd (SetArtifactRejected tenant i reason d))"
| Withdraw: "store_step d (snd (WithdrawArtifact tenant i d))"
| Acknowledge: "store_step d (snd (SetArtifactFindingsAcknowledged tenant i by digest d))"
| Delete: "store_step d (snd (DeleteArtifact tenant i d))"
| Grant: "store_step d (snd (CreateArtifactEntitlement e d))"
| Ungrant: "store_step d (snd (DeleteArtifactEntitlement tenant i d))"

definition empty_db :: "role_row list \<Rightarrow> db" where
  "empty_db roles = \<lparr>db_artifacts = [], db_revisions = [], db_grants = [], db_roles = roles,
     db_servers = [], db_entitlements = [], db_vkeys = [], db_usage = [], db_quotas = [], db_tenants = [], db_users = []\<rparr>"

lemma keeps_ops:
  "keeps_snapshot (set_working a)" "keeps_snapshot (\<lambda>r. r\<lparr>ar_min_revision := m\<rparr>)"
  "keeps_snapshot (\<lambda>r. r\<lparr>ar_state := ''pending'', ar_submitted_by := Some by', ar_reject_reason := None,
        ar_findings := findings, ar_digest := nullif digest, ar_ack_digest := None, ar_ack_by := None\<rparr>)"
  "keeps_snapshot (\<lambda>r. r\<lparr>ar_state := ''rejected'', ar_reject_reason := Some reason\<rparr>)"
  "keeps_snapshot (\<lambda>r. r\<lparr>ar_ack_digest := Some digest, ar_ack_by := Some actor\<rparr>)"
  by (simp_all add: keeps_snapshot_def same_key_def set_working_def)

lemma keeps_withdraw:
  "keeps_snapshot (\<lambda>r. r\<lparr>ar_state := ''draft'', ar_app_content := None, ar_app_seed := None, ar_app_scope := None,
        ar_app_type := None, ar_app_name := None, ar_app_visibility := None, ar_app_tags := None,
        ar_app_rule_scope := None, ar_approved_by := None, ar_reject_reason := None, ar_submitted_by := None,
        ar_findings := ''[]'', ar_digest := None, ar_ack_digest := None, ar_ack_by := None\<rparr>)"
  by (simp add: keeps_snapshot_def same_key_def)

lemma store_inv_grants:
  assumes "db_artifacts d1 = db_artifacts d" "db_revisions d1 = db_revisions d"
  shows "store_inv d1 = store_inv d"
  using assms by (simp add: store_inv_def revisions_ok_def snapshot_kept_def rev_nums_def)

lemma store_step_inv: "store_step d d1 \<Longrightarrow> store_inv d \<Longrightarrow> store_inv d1"
proof (induction rule: store_step.induct)
  case (Create i d tenant a)
  show ?case by (rule create_inv [OF Create(2,1) prod.collapse [symmetric]])
next
  case (Update d tenant i a n)
  show ?case unfolding UpdateArtifact_def by (rule guarded_inv [OF Update keeps_ops(1) prod.collapse [symmetric]])
next
  case (Floor d tenant i m n)
  show ?case unfolding SetArtifactMinRevision_def by (rule guarded_inv [OF Floor keeps_ops(2) prod.collapse [symmetric]])
next
  case (Submit d tenant i by' findings digest)
  show ?case unfolding SetArtifactSubmitted_def by (rule transition_inv [OF Submit keeps_ops(3) prod.collapse [symmetric]])
next
  case (Approve d tenant i by' keep)
  show ?case by (rule approve_inv [OF Approve prod.collapse [symmetric]])
next
  case (Reject d tenant i reason)
  show ?case unfolding SetArtifactRejected_def by (rule transition_inv [OF Reject keeps_ops(4) prod.collapse [symmetric]])
next
  case (Withdraw d tenant i)
  show ?case unfolding WithdrawArtifact_def by (rule transition_inv [OF Withdraw keeps_withdraw prod.collapse [symmetric]])
next
  case (Acknowledge d tenant i by' digest)
  show ?case unfolding SetArtifactFindingsAcknowledged_def
    by (rule transition_inv [OF Acknowledge keeps_ops(5) prod.collapse [symmetric]])
next
  case (Delete d tenant i)
  show ?case by (rule artifact_delete_inv [OF Delete prod.collapse [symmetric]])
next
  case (Grant d e)
  have g: "db_artifacts (snd (CreateArtifactEntitlement e d)) = db_artifacts d"
    "db_revisions (snd (CreateArtifactEntitlement e d)) = db_revisions d"
    by (simp_all add: CreateArtifactEntitlement_def)
  from Grant show ?case by (rule store_inv_grants [OF g, THEN iffD2])
next
  case (Ungrant d tenant i)
  have g: "db_artifacts (snd (DeleteArtifactEntitlement tenant i d)) = db_artifacts d"
    "db_revisions (snd (DeleteArtifactEntitlement tenant i d)) = db_revisions d"
    by (simp_all add: DeleteArtifactEntitlement_def)
  from Ungrant show ?case by (rule store_inv_grants [OF g, THEN iffD2])
qed

lemma store_reach_inv: "store_step\<^sup>*\<^sup>* (empty_db roles) d \<Longrightarrow> store_inv d"
proof (induction rule: rtranclp_induct)
  case base
  show ?case by (simp add: store_inv_def empty_db_def rows_ok_def revisions_ok_def approved_keys_def)
next
  case (step d e)
  then show ?case using store_step_inv by blast
qed

subsection \<open>The distribution reads\<close>

lemma set_insert_by [simp]: "set (insert_by le x xs) = insert x (set xs)"
  by (induction xs) auto

lemma set_order_by [simp]: "set (order_by le xs) = set xs"
  by (induction xs) (auto simp: order_by_def)

lemma distributed_row:
  assumes "a \<in> set (ListEntitledArtifacts le tenant roles d) \<union> set (ListActiveOrgArtifacts le tenant d) \<union>
    set (ListActiveOrgRules le tenant d)"
  shows "\<exists>r \<in> set (db_artifacts d). ar_tenant r = tenant \<and> a = scanDistArtifact d r \<and> ar_app_content r \<noteq> None"
  using assms by (auto simp: ListEntitledArtifacts_def ListActiveOrgArtifacts_def ListActiveOrgRules_def split: if_splits)

subsection \<open>Properties\<close>

lemma snapshot_payload:
  assumes "store_inv d" "r \<in> set (db_artifacts d)" "ar_app_content r \<noteq> None"
  shows "\<exists>v \<in> set (db_revisions d). rv_artifact v = ar_id r \<and> rv_num v = max0 (rev_nums (ar_id r) d) \<and>
    payload_at r v = \<lparr>rp_content = str (ar_app_content r), rp_seed = str (ar_app_seed r), rp_scope = str (ar_app_scope r),
      rp_type = str (ar_app_type r), rp_name = str (ar_app_name r)\<rparr>"
proof -
  from assms have "snapshot_kept d r" by (simp add: store_inv_def)
  with assms(3) obtain v where v: "v \<in> set (db_revisions d)" "rv_artifact v = ar_id r"
    "rv_num v = max0 (rev_nums (ar_id r) d)" "frozen_as r v"
    by (auto simp: snapshot_kept_def)
  have "row_checks r" using assms(1,2) by (simp add: store_inv_def rows_ok_def list_all_iff)
  then have "ar_app_type r \<noteq> None" "ar_app_name r \<noteq> None" using assms(3) unfolding row_checks_def by blast+
  then obtain t n where tn: "ar_app_type r = Some t" "ar_app_name r = Some n" by blast
  have "payload_at r v = \<lparr>rp_content = str (ar_app_content r), rp_seed = str (ar_app_seed r), rp_scope = str (ar_app_scope r),
      rp_type = str (ar_app_type r), rp_name = str (ar_app_name r)\<rparr>"
  proof -
    have f: "str (rv_type v) = t" "str (rv_name v) = n" "rv_content v = str (ar_app_content r)"
      "str (rv_seed v) = str (ar_app_seed r)" "str (rv_scope v) = str (ar_app_scope r)"
      using v(4) tn assms(3) by (auto simp: frozen_as_def str_def)
    have "(case (rv_type v, rv_name v) of (Some t, Some n) \<Rightarrow> (t, n)
        | _ \<Rightarrow> (coalesce (ar_app_type r) (ar_type r), coalesce (ar_app_name r) (ar_name r))) = (t, n)"
      using f(1,2) by (auto simp: str_def coalesce_def tn split: option.splits)
    then show ?thesis unfolding payload_at_def f
      by (simp add: tn f(3-5) str_def [of "Some t"] str_def [of "Some n"])
  qed
  with v show ?thesis by blast
qed

lemma payload_lookup:
  assumes "map_of (ListArtifactRevisionPayloads tenant keys d) (i, n) = Some p"
  shows "\<exists>a \<in> set (db_artifacts d). \<exists>v \<in> set (db_revisions d). ar_tenant a = tenant \<and> ar_id a = i \<and>
    rv_artifact v = i \<and> rv_num v = n \<and> p = payload_at a v"
proof -
  from assms have "((i, n), p) \<in> set (ListArtifactRevisionPayloads tenant keys d)" by (rule map_of_SomeD)
  then obtain v where v: "v \<in> set (db_revisions d)" and
    m: "((i, n), p) \<in> set (case List.find (\<lambda>a. ar_id a = rv_artifact v) (db_artifacts d) of None \<Rightarrow> []
        | Some a \<Rightarrow> if ar_tenant a = tenant \<and> (rv_artifact v, rv_num v) \<in> set keys
            then [((rv_artifact v, rv_num v), payload_at a v)] else [])"
    unfolding ListArtifactRevisionPayloads_def by auto
  then obtain a where a: "List.find (\<lambda>a. ar_id a = rv_artifact v) (db_artifacts d) = Some a"
    by (cases "List.find (\<lambda>a. ar_id a = rv_artifact v) (db_artifacts d)") auto
  with m have "ar_tenant a = tenant" "((i, n), p) = ((rv_artifact v, rv_num v), payload_at a v)" by (auto split: if_splits)
  moreover have "a \<in> set (db_artifacts d)" "ar_id a = rv_artifact v" using a by (auto simp: find_Some_iff)
  ultimately show ?thesis using v by auto
qed

text \<open>
  C15. What an unpinned machine is served and the newest revision are the same bytes: in every
  state the statements can reach, the payload of the highest revision number of a distributed
  artifact has the content, the seed, the memory scope, the type and the name of the approved
  snapshot.
\<close>

theorem snapshot_is_newest_revision:
  assumes "store_step\<^sup>*\<^sup>* (empty_db roles) d" "r \<in> set (db_artifacts d)" "ar_app_content r \<noteq> None"
  shows "map_of (ListArtifactRevisionPayloads (ar_tenant r) [(ar_id r, da_revision (scanDistArtifact d r))] d)
      (ar_id r, da_revision (scanDistArtifact d r)) =
    Some \<lparr>rp_content = da_content (scanDistArtifact d r), rp_seed = da_seed (scanDistArtifact d r),
      rp_scope = da_scope (scanDistArtifact d r), rp_type = da_type (scanDistArtifact d r),
      rp_name = da_name (scanDistArtifact d r)\<rparr>"
proof -
  let ?n = "max0 (rev_nums (ar_id r) d)"
  let ?join = "\<lambda>v. case List.find (\<lambda>a. ar_id a = rv_artifact v) (db_artifacts d) of None \<Rightarrow> []
      | Some a \<Rightarrow> if ar_tenant a = ar_tenant r \<and> (rv_artifact v, rv_num v) \<in> set [(ar_id r, ?n)]
          then [((rv_artifact v, rv_num v), payload_at a v)] else []"
  have inv: "store_inv d" by (rule store_reach_inv [OF assms(1)])
  from snapshot_payload [OF this assms(2,3)] obtain v where v: "v \<in> set (db_revisions d)" "rv_artifact v = ar_id r" "rv_num v = ?n"
    and p: "payload_at r v = \<lparr>rp_content = str (ar_app_content r), rp_seed = str (ar_app_seed r),
      rp_scope = str (ar_app_scope r), rp_type = str (ar_app_type r), rp_name = str (ar_app_name r)\<rparr>" by blast
  have find: "List.find (\<lambda>a. ar_id a = ar_id r) (db_artifacts d) = Some r"
  proof -
    have "\<exists>q. List.find (\<lambda>a. ar_id a = ar_id r) (db_artifacts d) = Some q"
      using assms(2) by (cases "List.find (\<lambda>a. ar_id a = ar_id r) (db_artifacts d)") (auto simp: find_None_iff)
    then obtain q where q: "List.find (\<lambda>a. ar_id a = ar_id r) (db_artifacts d) = Some q" by blast
    then have "q \<in> set (db_artifacts d)" "ar_id q = ar_id r" by (auto simp: find_Some_iff in_set_conv_nth)
    with inv assms(2) have "q = r" unfolding store_inv_def by (metis distinct_map inj_onD)
    with q show ?thesis by simp
  qed
  have jv: "?join v = [((ar_id r, ?n), payload_at r v)]" using v find by simp
  have only: "w = v" if "w \<in> set (db_revisions d)" "?join w \<noteq> []" for w
  proof -
    have "rv_artifact w = ar_id r" "rv_num w = ?n" using that(2) by (auto split: option.splits if_splits)
    with v that(1) inv show ?thesis unfolding store_inv_def revisions_ok_def by (metis (no_types, lifting) distinct_map inj_onD)
  qed
  have "map_of (concat (map ?join vs)) (ar_id r, ?n) = Some (payload_at r v)"
    if "v \<in> set vs" "set vs \<subseteq> set (db_revisions d)" for vs
    using that
  proof (induction vs)
    case (Cons w vs)
    show ?case
    proof (cases "w = v")
      case True
      then show ?thesis by (simp add: jv)
    next
      case False
      with only Cons.prems(2) have "?join w = []" by auto
      with False Cons show ?thesis by simp
    qed
  qed simp
  with v(1) have m: "map_of (ListArtifactRevisionPayloads (ar_tenant r) [(ar_id r, ?n)] d) (ar_id r, ?n) = Some (payload_at r v)"
    unfolding ListArtifactRevisionPayloads_def by simp
  with p show ?thesis by (simp add: scanDistArtifact_def)
qed

definition draft :: artifact_write where
  "draft = \<lparr>aw_type = ''rule'', aw_name = ''tabs'', aw_description = [], aw_content = ''use tabs'', aw_scope = [],
     aw_seed = [], aw_version = [], aw_visibility = [], aw_tags = [], aw_rule_scope = []\<rparr>"

definition one_approved :: db where
  "one_approved = snd (SetArtifactApproved ''t'' ''a1'' ''bob'' 2
     (snd (CreateArtifact ''a1'' ''t'' draft (empty_db []))))"

lemma one_approved_reach: "store_step\<^sup>*\<^sup>* (empty_db []) one_approved"
proof -
  have "store_step (empty_db []) (snd (CreateArtifact ''a1'' ''t'' draft (empty_db [])))"
    by (rule store_step.Create) (simp add: empty_db_def)
  moreover have "store_step (snd (CreateArtifact ''a1'' ''t'' draft (empty_db []))) one_approved"
    unfolding one_approved_def by (rule store_step.Approve)
  ultimately show ?thesis by (meson rtranclp.rtrancl_into_rtrancl rtranclp.rtrancl_refl)
qed

theorem snapshot_is_newest_revision_witness:
  "map_of (ListArtifactRevisionPayloads ''t'' [(''a1'', 1)] one_approved) (''a1'', 1) =
     Some \<lparr>rp_content = ''use tabs'', rp_seed = [], rp_scope = [], rp_type = ''rule'', rp_name = ''tabs''\<rparr>"
proof -
  define r where "r = hd (db_artifacts one_approved)"
  have m: "r \<in> set (db_artifacts one_approved)" "ar_app_content r \<noteq> None" "ar_id r = ''a1''" "ar_tenant r = ''t''"
    unfolding r_def by code_simp+
  have s: "da_revision (scanDistArtifact one_approved r) = 1" "da_content (scanDistArtifact one_approved r) = ''use tabs''"
    "da_seed (scanDistArtifact one_approved r) = []" "da_scope (scanDistArtifact one_approved r) = []"
    "da_type (scanDistArtifact one_approved r) = ''rule''" "da_name (scanDistArtifact one_approved r) = ''tabs''"
    unfolding r_def by code_simp+
  show ?thesis using snapshot_is_newest_revision [OF one_approved_reach m(1,2)] m s by simp
qed

text \<open>The statements of the editing and reviewing workflow that approve and withdraw nothing.\<close>

definition edits :: "db \<Rightarrow> db set" where
  "edits d = {d'. \<exists>tenant i a n by findings digest reason.
     (i \<notin> set (map ar_id (db_artifacts d)) \<and> d' = snd (CreateArtifact i tenant a d)) \<or>
     d' = snd (UpdateArtifact tenant i a n d) \<or>
     d' = snd (SetArtifactSubmitted tenant i by findings digest d) \<or>
     d' = snd (SetArtifactRejected tenant i reason d) \<or>
     d' = snd (SetArtifactFindingsAcknowledged tenant i by digest d)}"

text \<open>The columns the distribution reads look at.\<close>

definition dist_cols where
  "dist_cols r = ((ar_id r, ar_tenant r, ar_app_content r, ar_app_seed r, ar_app_scope r),
     (ar_app_type r, ar_app_name r, ar_app_visibility r, ar_app_tags r, ar_app_rule_scope r, ar_min_revision r))"

definition same_dist :: "db \<Rightarrow> db \<Rightarrow> bool" where
  "same_dist d d' \<longleftrightarrow> db_revisions d' = db_revisions d \<and> db_grants d' = db_grants d \<and>
     map dist_cols (filter (\<lambda>r. ar_app_content r \<noteq> None) (db_artifacts d')) =
     map dist_cols (filter (\<lambda>r. ar_app_content r \<noteq> None) (db_artifacts d))"

lemma map_filter_cong:
  "map h xs = map h ys \<Longrightarrow> (\<And>x y. h x = h y \<Longrightarrow> P x = P y \<and> g x = g y) \<Longrightarrow> map g (filter P xs) = map g (filter P ys)"
proof (induction xs arbitrary: ys)
  case (Cons x xs)
  from Cons.prems(1) obtain y zs where ys: "ys = y # zs" "h x = h y" "map h xs = map h zs" by (cases ys) auto
  then show ?case using Cons.IH [OF ys(3) Cons.prems(2)] Cons.prems(2) [OF ys(2)] by simp
qed simp

lemma same_dist_reads:
  assumes "same_dist d d'"
  shows "ListActiveOrgArtifacts le t d' = ListActiveOrgArtifacts le t d"
    "ListActiveOrgRules le t d' = ListActiveOrgRules le t d"
    "ListEntitledArtifacts le t roles d' = ListEntitledArtifacts le t roles d"
proof -
  have nums: "rev_nums i d' = rev_nums i d" for i using assms by (simp add: same_dist_def rev_nums_def)
  have sel: "map (scanDistArtifact d') (filter Q (db_artifacts d')) = map (scanDistArtifact d) (filter Q (db_artifacts d))"
    if Q: "\<And>r. Q r \<Longrightarrow> ar_app_content r \<noteq> None" "\<And>r s. dist_cols r = dist_cols s \<Longrightarrow> Q r = Q s" for Q
  proof -
    have f: "filter Q rs = filter Q (filter (\<lambda>r. ar_app_content r \<noteq> None) rs)" for rs
      using Q(1) by (induction rs) auto
    have "map (scanDistArtifact d) (filter Q (filter (\<lambda>r. ar_app_content r \<noteq> None) (db_artifacts d'))) =
      map (scanDistArtifact d) (filter Q (filter (\<lambda>r. ar_app_content r \<noteq> None) (db_artifacts d)))"
    proof (rule map_filter_cong [where h = dist_cols])
      fix x y :: arow
      assume e: "dist_cols x = dist_cols y"
      with Q(2) [OF e] show "Q x = Q y \<and> scanDistArtifact d x = scanDistArtifact d y"
        by (simp add: scanDistArtifact_def dist_cols_def)
    qed (use assms in \<open>simp add: same_dist_def\<close>)
    moreover have "scanDistArtifact d' = scanDistArtifact d" by (rule ext) (simp add: scanDistArtifact_def nums)
    ultimately show ?thesis by (simp only: f [symmetric])
  qed
  have g: "db_grants d' = db_grants d" using assms by (simp add: same_dist_def)
  show "ListActiveOrgArtifacts le t d' = ListActiveOrgArtifacts le t d"
    unfolding ListActiveOrgArtifacts_def by (subst sel) (auto simp: dist_cols_def)
  show "ListActiveOrgRules le t d' = ListActiveOrgRules le t d"
    unfolding ListActiveOrgRules_def by (subst sel) (auto simp: dist_cols_def)
  show "ListEntitledArtifacts le t roles d' = ListEntitledArtifacts le t roles d"
    unfolding ListEntitledArtifacts_def g by (subst sel) (auto simp: dist_cols_def)
qed

definition live_only :: "(arow \<Rightarrow> arow) \<Rightarrow> bool" where
  "live_only f \<longleftrightarrow> (\<forall>r. dist_cols (f r) = dist_cols r)"

lemma update_dist: "live_only f \<Longrightarrow> same_dist d (d\<lparr>db_artifacts := update_rows p f (db_artifacts d)\<rparr>)"
proof -
  assume f: "live_only f"
  have c: "dist_cols (bump f r) = dist_cols r" for r using f by (simp add: live_only_def dist_cols_def)
  have e: "ar_app_content (f r) = ar_app_content r" for r using c [of r] by (simp add: dist_cols_def)
  have "map dist_cols (filter (\<lambda>r. ar_app_content r \<noteq> None) (update_rows p f rows)) =
    map dist_cols (filter (\<lambda>r. ar_app_content r \<noteq> None) rows)" for rows
    by (induction rows) (simp_all add: update_rows_def c e)
  then show ?thesis by (simp add: same_dist_def)
qed

lemma same_dist_refl [simp]: "same_dist d d"
  by (simp add: same_dist_def)

lemma write_dist:
  assumes "write_rows rows d = (e, d1)" "same_dist d (d\<lparr>db_artifacts := rows\<rparr>)"
  shows "same_dist d d1"
  using assms by (auto simp: write_rows_def split: if_splits)

lemma update_write: "live_only f \<Longrightarrow> write_rows (update_rows p f (db_artifacts d)) d = (e, d1) \<Longrightarrow> same_dist d d1"
  by (erule write_dist) (rule update_dist)

lemma transition_dist: "live_only f \<Longrightarrow> same_dist d (snd (transition f tenant i d))"
  by (auto simp: transition_def split: option.splits prod.splits dest: update_write)

lemma guarded_dist: "live_only f \<Longrightarrow> same_dist d (snd (guarded_update f tenant i n d))"
  by (auto simp: guarded_update_def Let_def split: option.splits prod.splits dest: update_write)

lemma create_dist: "same_dist d (snd (CreateArtifact i tenant a d))"
proof -
  have "same_dist d (d\<lparr>db_artifacts := db_artifacts d @ [set_working a (blank_row tenant i)]\<rparr>)"
    by (simp add: same_dist_def set_working_def blank_row_def)
  from write_dist [OF prod.collapse [symmetric] this] show ?thesis
    by (auto simp: CreateArtifact_def Let_def split: option.splits prod.splits)
qed

text \<open>
  C16. What is distributed changes only by an approval, a withdrawal, a deletion or a floor:
  creating, editing, submitting, rejecting and acknowledging leave every distribution read of
  every tenant as it was, whatever the edit says.
\<close>

theorem edits_never_distribute:
  assumes "d' \<in> edits d"
  shows "ListActiveOrgArtifacts le t d' = ListActiveOrgArtifacts le t d \<and>
    ListActiveOrgRules le t d' = ListActiveOrgRules le t d \<and>
    ListEntitledArtifacts le t roles d' = ListEntitledArtifacts le t roles d"
proof -
  have "live_only (set_working a)" "live_only (\<lambda>r. r\<lparr>ar_state := ''rejected'', ar_reject_reason := Some reason\<rparr>)"
    "live_only (\<lambda>r. r\<lparr>ar_ack_digest := Some digest, ar_ack_by := Some by'\<rparr>)"
    "live_only (\<lambda>r. r\<lparr>ar_state := ''pending'', ar_submitted_by := Some by', ar_reject_reason := None,
        ar_findings := findings, ar_digest := nullif digest, ar_ack_digest := None, ar_ack_by := None\<rparr>)"
    for a reason digest by' findings
    by (simp_all add: live_only_def dist_cols_def set_working_def)
  note l = guarded_dist [OF this(1)] transition_dist [OF this(2)] transition_dist [OF this(3)] transition_dist [OF this(4)]
  have "same_dist d d'"
    using assms l create_dist
    by (auto simp: edits_def UpdateArtifact_def SetArtifactSubmitted_def SetArtifactRejected_def
        SetArtifactFindingsAcknowledged_def)
  with same_dist_reads show ?thesis by blast
qed

theorem edits_never_distribute_witness:
  "map da_content (ListActiveOrgRules (\<lambda>_ _. True) ''t''
     (snd (UpdateArtifact ''t'' ''a1'' (draft\<lparr>aw_content := ''use spaces''\<rparr>) 2 one_approved))) = [''use tabs''] \<and>
   ar_content (hd (db_artifacts (snd (UpdateArtifact ''t'' ''a1'' (draft\<lparr>aw_content := ''use spaces''\<rparr>) 2 one_approved)))) = ''use spaces''"
proof -
  let ?d = "snd (UpdateArtifact ''t'' ''a1'' (draft\<lparr>aw_content := ''use spaces''\<rparr>) 2 one_approved)"
  have "?d \<in> edits one_approved" unfolding edits_def by blast
  then have "ListActiveOrgRules (\<lambda>_ _. True) ''t'' ?d = ListActiveOrgRules (\<lambda>_ _. True) ''t'' one_approved"
    using edits_never_distribute by blast
  moreover have "map da_content (ListActiveOrgRules (\<lambda>_ _. True) ''t'' one_approved) = [''use tabs'']" by code_simp
  moreover have "ar_content (hd (db_artifacts ?d)) = ''use spaces''" by code_simp
  ultimately show ?thesis by simp
qed

text \<open>
  C37. No lost update: once an update with a row version is accepted the version has moved on, so
  a second writer who read the same version is refused as stale and writes nothing.
\<close>

theorem no_lost_update:
  assumes "store_inv d" "UpdateArtifact tenant i a n d = (Inr r, d1)"
  shows "ar_row_version r = n + 1 \<and> UpdateArtifact tenant i b n d1 = (Inl ErrVersionMismatch, d1)"
proof -
  let ?p = "\<lambda>r. addressed tenant i r \<and> ar_row_version r = n" and ?f = "set_working a"
  let ?rows = "update_rows ?p ?f (db_artifacts d)"
  obtain e d2 where w: "write_rows ?rows d = (e, d2)" by fastforce
  with assms(2) have e: "e = None" "d2 = d1"
    by (auto simp: UpdateArtifact_def guarded_update_def Let_def split: option.splits if_splits)
  note W = write_rows_None [OF w [unfolded e]]
  have upd: "filter ?p (db_artifacts d) \<noteq> []"
    using assms(2) w e by (auto simp: UpdateArtifact_def guarded_update_def Let_def split: if_splits)
  have get: "GetArtifact tenant i d1 = Inr r"
    using assms(2) w e by (auto simp: UpdateArtifact_def guarded_update_def Let_def split: if_splits)
  have ids: "distinct (map ar_id (db_artifacts d))" using assms(1) by (simp add: store_inv_def)
  have k: "same_key ?f" by (simp add: same_key_def set_working_def)
  obtain q where q: "q \<in> set (db_artifacts d)" "?p q" using upd by (auto simp: filter_empty_conv)
  have all: "ar_row_version x = n + 1" if "x \<in> set ?rows" "addressed tenant i x" for x
  proof -
    note xs = that
    obtain x0 where x0: "x0 \<in> set (db_artifacts d)" "x = (if ?p x0 then bump ?f x0 else x0)"
      using update_in [OF xs(1)] by blast
    then have "ar_id x0 = i" using xs(2) k by (auto simp: addressed_def same_key_def split: if_splits)
    then have "x0 = q" using ids q x0(1) by (metis addressed_def distinct_map inj_onD)
    with x0(2) q(2) show ?thesis by simp
  qed
  have d1: "db_artifacts d1 = ?rows" using W e(2) by simp
  have r: "r \<in> set ?rows" "addressed tenant i r"
    using get d1 by (auto simp: GetArtifact_def find_Some_iff in_set_conv_nth split: option.splits)
  have no: "\<not> ?p x" if "x \<in> set ?rows" for x using all [OF that] by auto
  then have none: "filter ?p ?rows = []" by (simp add: filter_empty_conv)
  have same: "update_rows ?p g ?rows = ?rows" for g using no by (rule update_rows_none)
  have "rows_ok ?rows" using W by simp
  then have "write_rows (update_rows ?p (set_working b) (db_artifacts d1)) d1 = (None, d1)"
    using write_rows_ok [of ?rows d1] same d1 by simp
  moreover have "filter (addressed tenant i) (db_artifacts d1) \<noteq> []" using r d1 by (auto simp: filter_empty_conv)
  ultimately have "UpdateArtifact tenant i b n d1 = (Inl ErrVersionMismatch, d1)"
    using none d1 by (simp add: UpdateArtifact_def guarded_update_def)
  with all r show ?thesis by blast
qed

theorem no_lost_update_witness:
  "\<exists>r d1. UpdateArtifact ''t'' ''a1'' (draft\<lparr>aw_content := ''use spaces''\<rparr>) 2 one_approved = (Inr r, d1) \<and>
     UpdateArtifact ''t'' ''a1'' draft 2 d1 = (Inl ErrVersionMismatch, d1)"
proof -
  have i: "store_inv one_approved" by (rule store_reach_inv [OF one_approved_reach])
  let ?u = "UpdateArtifact ''t'' ''a1'' (draft\<lparr>aw_content := ''use spaces''\<rparr>) 2 one_approved"
  have "isl (fst ?u) = False" by code_simp
  then obtain r d1 where "?u = (Inr r, d1)" by (metis prod.collapse sum.collapse(2))
  with no_lost_update [OF i this] show ?thesis by blast
qed

end
