(* ===== verification/SyncServeProofs.thy ===== *)
theory SyncServeProofs
  imports SyncServe ArtifactStoreProofs
begin

text \<open>
  What the sync endpoint guarantees: the clamp serves the nearest revision that exists, a revision
  number names the bytes it came from, and a pin never changes who is served.
\<close>

subsection \<open>The clamp\<close>

text \<open>
  C36. A pin inside the window is honoured exactly and silently; any other is served the nearest
  end of the window, with the reason that names the binding bound: \<open>ahead\<close> above the newest,
  \<open>floor\<close> when the admin floor is what withholds the pinned revision, \<open>pruned\<close> otherwise.
\<close>

theorem pinResolve_nearest:
  assumes "0 < pin" "max flr minNum \<le> maxNum"
  shows "let res = pinResolve pin flr minNum maxNum; low = max flr minNum in
    pr_oldest res = low \<and> low \<le> pr_served res \<and> pr_served res \<le> maxNum \<and>
    (\<forall>n. low \<le> n \<and> n \<le> maxNum \<longrightarrow> \<bar>pr_served res - pin\<bar> \<le> \<bar>n - pin\<bar>) \<and>
    (pr_reason res = [] \<longleftrightarrow> low \<le> pin \<and> pin \<le> maxNum) \<and>
    (pr_reason res = pinOverrideAhead \<longleftrightarrow> maxNum < pin) \<and>
    (pr_reason res = pinOverrideFloor \<longleftrightarrow> pin < low \<and> minNum < flr) \<and>
    (pr_reason res = pinOverridePruned \<longleftrightarrow> pin < low \<and> flr \<le> minNum)"
proof -
  have d: "pinOverrideAhead \<noteq> []" "pinOverrideFloor \<noteq> []" "pinOverridePruned \<noteq> []"
    "pinOverrideAhead \<noteq> pinOverrideFloor" "pinOverrideAhead \<noteq> pinOverridePruned" "pinOverrideFloor \<noteq> pinOverridePruned"
    by (simp_all add: pinOverrideAhead_def pinOverrideFloor_def pinOverridePruned_def)
  consider "pin < max flr minNum" | "max flr minNum \<le> pin" "pin \<le> maxNum" | "maxNum < pin" by linarith
  then show ?thesis
    using assms d by cases (auto simp: pinResolve_def Let_def min_def max_def split: if_splits)
qed

theorem pinResolve_nearest_witness:
  "pr_served (pinResolve 2 5 8 12) = 8 \<and> pr_reason (pinResolve 2 5 8 12) = pinOverridePruned"
proof -
  have "pr_reason (pinResolve 2 5 8 12) = pinOverridePruned" using pinResolve_nearest [of 2 5 8 12] by (simp add: Let_def)
  moreover have "pr_served (pinResolve 2 5 8 12) = 8" by (simp add: pinResolve_def)
  ultimately show ?thesis by simp
qed

subsection \<open>The handler\<close>

lemma serve_artifacts_map:
  "fst (serve_artifacts s pins payloads counts arts) =
     map (\<lambda>a. sync_dto s a (resolve_pin pins a) (fst (resolveSyncPayload a (resolve_pin pins a) payloads))) arts"
proof (induction arts arbitrary: counts)
  case (Cons a arts)
  then show ?case by (simp add: Let_def case_prod_unfold)
qed simp

lemma fail_no_reply: "api_fail e \<noteq> Reply n b"
  by (cases e rule: api_fail.cases)
    (auto simp: writeLimitReached_def writeIdpAssertionRequired_def writeFindingsAckRequired_def)

lemma handler_reply:
  assumes "handleSyncArtifacts s env ctx raw d1 d2 d3 st = (Reply 200 out, st1)"
  shows "\<exists>c pins payloads. ctx = Some c \<and> (sv_pinning s \<longrightarrow> parsePins raw = Inr pins) \<and> (\<not> sv_pinning s \<longrightarrow> pins = []) \<and>
    (\<forall>k p. map_of payloads k = Some p \<longrightarrow> (\<exists>keys. map_of (ListArtifactRevisionPayloads (cl_tenant c) keys d3) k = Some p)) \<and>
    out = map (\<lambda>a. sync_dto s a (resolve_pin pins a) (fst (resolveSyncPayload a (resolve_pin pins a) payloads)))
      (ListEntitledArtifacts (sv_collation s) (cl_tenant c) (cl_roles c) d1 @ ListActiveOrgRules (sv_collation s) (cl_tenant c) d2)"
proof -
  obtain c where c: "ctx = Some c" using assms
    by (cases ctx) (auto simp: handleSyncArtifacts_def resolved_def)
  obtain pins where p: "(if sv_pinning s then parsePins raw else Inr []) = Inr pins"
    using assms c
    by (cases "if sv_pinning s then parsePins raw else Inr []") (auto simp: handleSyncArtifacts_def resolved_def fail_no_reply)
  let ?arts = "ListEntitledArtifacts (sv_collation s) (cl_tenant c) (cl_roles c) d1 @ ListActiveOrgRules (sv_collation s) (cl_tenant c) d2"
  let ?keys = "payload_keys pins ?arts"
  let ?pl = "if ?keys = [] then [] else ListArtifactRevisionPayloads (cl_tenant c) ?keys d3"
  have "out = fst (serve_artifacts s pins ?pl \<lparr>sc_pinned = 0, sc_overridden = 0, sc_artifacts = [], sc_truncated = False\<rparr> ?arts)"
    using assms by (auto simp: handleSyncArtifacts_def c resolved_def p Let_def split: prod.splits)
  moreover have "\<exists>keys. map_of (ListArtifactRevisionPayloads (cl_tenant c) keys d3) k = Some x" if "map_of ?pl k = Some x" for k x
    using that by (auto split: if_splits)
  ultimately show ?thesis using c p
    by (intro exI [of _ c] exI [of _ pins] exI [of _ ?pl]) (auto simp: serve_artifacts_map split: if_splits)
qed

definition named_by :: "server \<Rightarrow> string \<Rightarrow> db \<Rightarrow> syncArtifactDTO \<Rightarrow> bool" where
  "named_by s tenant d x \<longleftrightarrow>
     (\<exists>a \<in> set (db_artifacts d). \<exists>v \<in> set (db_revisions d). ar_tenant a = tenant \<and> ar_id a = sd_id x \<and>
        rv_artifact v = sd_id x \<and> rv_num v = sd_revision x \<and> sd_type x = rp_type (payload_at a v) \<and>
        sd_name x = rp_name (payload_at a v) \<and>
        sd_content x = RenderArtifactContent (sv_yaml s) \<lparr>mk_type = rp_type (payload_at a v), mk_name = rp_name (payload_at a v),
          mk_content = rp_content (payload_at a v), mk_scope = rp_scope (payload_at a v)\<rparr> \<and>
        (sd_seed x = [] \<or> sd_seed x = rp_seed (payload_at a v)))"

lemma dto_fields:
  "sync_dto s a res (src, seed, revision, override) = x \<Longrightarrow> sd_id x = da_id a \<and> sd_revision x = revision \<and>
     sd_type x = mk_type src \<and> sd_name x = mk_name src \<and> sd_content x = RenderArtifactContent (sv_yaml s) src \<and>
     (sd_seed x = [] \<or> sd_seed x = seed)"
  by (auto simp: sync_dto_def Let_def)

lemma own_named:
  assumes "store_inv d" "r \<in> set (db_artifacts d)" "ar_app_content r \<noteq> None" "ar_tenant r = tenant" "a = scanDistArtifact d r"
    and "x = sync_dto s a res (\<lparr>mk_type = da_type a, mk_name = da_name a, mk_content = da_content a, mk_scope = da_scope a\<rparr>,
      da_seed a, da_revision a, override)"
  shows "named_by s tenant d x"
proof -
  obtain v where v: "v \<in> set (db_revisions d)" "rv_artifact v = ar_id r" "rv_num v = max0 (rev_nums (ar_id r) d)"
    "payload_at r v = \<lparr>rp_content = str (ar_app_content r), rp_seed = str (ar_app_seed r), rp_scope = str (ar_app_scope r),
      rp_type = str (ar_app_type r), rp_name = str (ar_app_name r)\<rparr>"
    using snapshot_payload [OF assms(1-3)] by blast
  have a: "da_id a = ar_id r" "da_revision a = max0 (rev_nums (ar_id r) d)" "da_type a = str (ar_app_type r)"
    "da_name a = str (ar_app_name r)" "da_content a = str (ar_app_content r)" "da_scope a = str (ar_app_scope r)"
    "da_seed a = str (ar_app_seed r)" by (simp_all add: assms(5) scanDistArtifact_def)
  note x = dto_fields [OF assms(6) [symmetric]]
  show ?thesis unfolding named_by_def
    by (rule bexI [OF _ assms(2)], rule bexI [OF _ v(1)]) (use x a v(2-4) assms(4) in simp)
qed

lemma pinned_named:
  assumes "map_of (ListArtifactRevisionPayloads tenant keys d) (da_id a, n) = Some pl"
    and "x = sync_dto s a res (\<lparr>mk_type = rp_type pl, mk_name = rp_name pl, mk_content = rp_content pl, mk_scope = rp_scope pl\<rparr>,
      rp_seed pl, n, override)"
  shows "named_by s tenant d x"
proof -
  obtain b v where "b \<in> set (db_artifacts d)" "v \<in> set (db_revisions d)" "ar_tenant b = tenant" "ar_id b = da_id a"
    "rv_artifact v = da_id a" "rv_num v = n" "pl = payload_at b v"
    using payload_lookup [OF assms(1)] by blast
  then show ?thesis unfolding named_by_def using dto_fields [OF assms(2) [symmetric]] by auto
qed

lemma served_named:
  assumes "store_inv d" "a = scanDistArtifact d r" "r \<in> set (db_artifacts d)" "ar_app_content r \<noteq> None" "ar_tenant r = tenant"
    and payloads: "\<And>k p. map_of payloads k = Some p \<Longrightarrow> \<exists>keys. map_of (ListArtifactRevisionPayloads tenant keys d3) k = Some p"
    and x: "x = sync_dto s a res (fst (resolveSyncPayload a res payloads))"
  shows "named_by s tenant d x \<or> named_by s tenant d3 x"
proof (cases "pr_served res < da_revision a \<and> map_of payloads (da_id a, pr_served res) \<noteq> None")
  case True
  then obtain pl where pl: "map_of payloads (da_id a, pr_served res) = Some pl" by blast
  with payloads obtain keys where k: "map_of (ListArtifactRevisionPayloads tenant keys d3) (da_id a, pr_served res) = Some pl" by blast
  have "x = sync_dto s a res (\<lparr>mk_type = rp_type pl, mk_name = rp_name pl, mk_content = rp_content pl, mk_scope = rp_scope pl\<rparr>,
      rp_seed pl, pr_served res, pr_reason res)"
    using True pl x by (simp add: resolveSyncPayload_def Let_def)
  from pinned_named [OF k this] show ?thesis by blast
next
  case False
  then have "\<exists>override. x = sync_dto s a res
      (\<lparr>mk_type = da_type a, mk_name = da_name a, mk_content = da_content a, mk_scope = da_scope a\<rparr>, da_seed a, da_revision a, override)"
    using x by (auto simp: resolveSyncPayload_def Let_def)
  then show ?thesis using own_named [OF assms(1,3,4,5,2)] by blast
qed

text \<open>
  C22. A served revision number names the bytes it came with: every artifact in the reply is a
  revision of that very artifact, recorded under that number in the store one of the reads saw,
  and its type, name, content and seed are all that revision's, also when a prune between the
  reads took the pinned one.
\<close>

theorem sync_serves_what_it_names:
  assumes "store_step\<^sup>*\<^sup>* (empty_db roles) d1" "store_step\<^sup>*\<^sup>* (empty_db roles) d2"
    and "handleSyncArtifacts s env (Some c) raw d1 d2 d3 st = (Reply 200 out, st1)" "x \<in> set out"
  shows "\<exists>d \<in> {d1, d2, d3}. named_by s (cl_tenant c) d x"
proof -
  from handler_reply [OF assms(3)] obtain pins payloads where
    pl: "\<And>k p. map_of payloads k = Some p \<Longrightarrow> \<exists>keys. map_of (ListArtifactRevisionPayloads (cl_tenant c) keys d3) k = Some p"
    and out: "out = map (\<lambda>a. sync_dto s a (resolve_pin pins a) (fst (resolveSyncPayload a (resolve_pin pins a) payloads)))
      (ListEntitledArtifacts (sv_collation s) (cl_tenant c) (cl_roles c) d1 @ ListActiveOrgRules (sv_collation s) (cl_tenant c) d2)"
    by (simp only: option.inject) blast
  from assms(4) obtain a where
    a: "a \<in> set (ListEntitledArtifacts (sv_collation s) (cl_tenant c) (cl_roles c) d1) \<or>
      a \<in> set (ListActiveOrgRules (sv_collation s) (cl_tenant c) d2)"
    and x: "x = sync_dto s a (resolve_pin pins a) (fst (resolveSyncPayload a (resolve_pin pins a) payloads))"
    unfolding out by auto
  from a have "\<exists>d \<in> {d1, d2}. \<exists>r \<in> set (db_artifacts d). ar_tenant r = cl_tenant c \<and> a = scanDistArtifact d r \<and> ar_app_content r \<noteq> None"
  proof
    assume "a \<in> set (ListEntitledArtifacts (sv_collation s) (cl_tenant c) (cl_roles c) d1)"
    from distributed_row [OF UnI1 [OF UnI1 [OF this]]] show ?thesis by simp
  next
    assume "a \<in> set (ListActiveOrgRules (sv_collation s) (cl_tenant c) d2)"
    from distributed_row [OF UnI2 [OF this]] show ?thesis by simp
  qed
  then obtain d r where d: "d \<in> {d1, d2}" "r \<in> set (db_artifacts d)" "ar_tenant r = cl_tenant c"
    "a = scanDistArtifact d r" "ar_app_content r \<noteq> None" by blast
  then have "store_inv d" using assms(1,2) store_reach_inv by blast
  from served_named [OF this d(4,2,5,3) pl x] d(1) show ?thesis by auto
qed

definition pin_server :: server where
  "pin_server = \<lparr>sv_autoApprove = False, sv_revisionKeep = 0, sv_scanner = (\<lambda>_. Inr []),
     sv_yaml = \<lparr>yaml_unmarshal = (\<lambda>_. Inl []), yaml_marshal = (\<lambda>_. Inl [])\<rparr>,
     sv_role_order = (\<lambda>_ _. True), sv_collation = (\<lambda>_ _. True), sv_pinning = True\<rparr>"

definition dev :: caller where "dev = \<lparr>cl_tenant = ''t'', cl_roles = [''r''], cl_subject = ''dev''\<rparr>"

definition audit_ok :: tx_env where
  "audit_ok = \<lparr>te_begin = None, te_commit = None, te_audit = (\<lambda>_. None), te_notify = None\<rparr>"

definition idle :: api_state where
  "idle = \<lparr>as_db = empty_db [], as_audit = [], as_log = [], as_nudges = [], as_published = 0\<rparr>"

theorem sync_serves_what_it_names_witness:
  "\<exists>out st1 x. handleSyncArtifacts pin_server audit_ok (Some dev) [] one_approved one_approved one_approved idle = (Reply 200 out, st1) \<and>
     x \<in> set out \<and> sd_id x = ''a1'' \<and> sd_revision x = 1 \<and> sd_content x = ''use tabs'' \<and>
     named_by pin_server ''t'' one_approved x"
proof -
  let ?h = "handleSyncArtifacts pin_server audit_ok (Some dev) [] one_approved one_approved one_approved idle"
  have run: "case fst ?h of Reply n [x] \<Rightarrow> n = 200 \<and> sd_id x = ''a1'' \<and> sd_revision x = 1 \<and> sd_content x = ''use tabs'' | _ \<Rightarrow> False"
    by code_simp
  then obtain x where h: "fst ?h = Reply 200 [x]" "sd_id x = ''a1''" "sd_revision x = 1" "sd_content x = ''use tabs''"
    by (auto split: reply.splits list.splits)
  then obtain st1 where "?h = (Reply 200 [x], st1)" by (metis prod.collapse)
  from sync_serves_what_it_names [OF one_approved_reach one_approved_reach this] this h show ?thesis
    by (auto simp: dev_def)
qed

text \<open>
  C23. A pin selects content, never audience: who is served which artifacts is decided by the
  approved visibility and the grants the reads found, whatever the request pins.
\<close>

theorem sync_audience:
  assumes "handleSyncArtifacts s env (Some c) raw d1 d2 d3 st = (Reply 200 out, st1)"
  shows "set (map sd_id out) =
    {ar_id r |r. r \<in> set (db_artifacts d1) \<and> ar_tenant r = cl_tenant c \<and> ar_app_content r \<noteq> None \<and>
       ar_app_visibility r = Some ''role'' \<and> (\<exists>g \<in> set (db_grants d1). ag_artifact g = ar_id r \<and> ag_role g \<in> set (cl_roles c))} \<union>
    {ar_id r |r. r \<in> set (db_artifacts d2) \<and> ar_tenant r = cl_tenant c \<and> ar_app_content r \<noteq> None \<and>
       ar_app_visibility r = Some ''org'' \<and> ar_app_type r = Some ''rule''}"
proof -
  from handler_reply [OF assms] obtain pins payloads where
    out: "out = map (\<lambda>a. sync_dto s a (resolve_pin pins a) (fst (resolveSyncPayload a (resolve_pin pins a) payloads)))
      (ListEntitledArtifacts (sv_collation s) (cl_tenant c) (cl_roles c) d1 @ ListActiveOrgRules (sv_collation s) (cl_tenant c) d2)"
    by auto
  have "sd_id (sync_dto s a res y) = da_id a" for a res y by (cases y) (simp add: sync_dto_def Let_def)
  then have "set (map sd_id out) = da_id ` set (ListEntitledArtifacts (sv_collation s) (cl_tenant c) (cl_roles c) d1) \<union>
      da_id ` set (ListActiveOrgRules (sv_collation s) (cl_tenant c) d2)"
    unfolding out by (simp add: image_image image_Un)
  moreover have "da_id (scanDistArtifact d r) = ar_id r" for d r by (simp add: scanDistArtifact_def)
  ultimately show ?thesis
    by (auto simp: ListEntitledArtifacts_def ListActiveOrgRules_def list_ex_iff image_image)
qed

theorem sync_audience_witness:
  "\<exists>out st1. handleSyncArtifacts pin_server audit_ok (Some dev) [] one_approved one_approved one_approved idle = (Reply 200 out, st1) \<and>
     ''a1'' \<in> set (map sd_id out)"
proof -
  let ?h = "handleSyncArtifacts pin_server audit_ok (Some dev) [] one_approved one_approved one_approved idle"
  have run: "case fst ?h of Reply n xs \<Rightarrow> n = 200 | _ \<Rightarrow> False" by code_simp
  then obtain out where h: "fst ?h = Reply 200 out" by (auto split: reply.splits)
  then obtain st1 where o: "?h = (Reply 200 out, st1)" by (metis prod.collapse)
  define r where "r = hd (db_artifacts one_approved)"
  have "r \<in> set (db_artifacts one_approved) \<and> ar_tenant r = cl_tenant dev \<and> ar_app_content r \<noteq> None \<and>
     ar_app_visibility r = Some ''org'' \<and> ar_app_type r = Some ''rule'' \<and> ar_id r = ''a1''"
    unfolding r_def by code_simp
  then have "''a1'' \<in> set (map sd_id out)" unfolding sync_audience [OF o] by (intro UnI2 CollectI exI [of _ r]) simp
  with o show ?thesis by blast
qed

end
