(* ===== verification/PinProtocol.thy ===== *)
theory PinProtocol
  imports SyncRunProofs SyncServeProofs
begin

text \<open>
  A pin across the two programs: \<open>FetchArtifacts\<close> of \<open>internal/syncclient/api.go\<close> names it in the
  query, \<open>parsePins\<close> and \<open>resolveSyncPayload\<close> of \<open>internal/api\<close> answer it, and \<open>pinOutcomes\<close> and
  \<open>reportedPinned\<close> of \<open>cmd/orbeat-sync/outcome.go\<close> tell the developer and the server what became of it.
\<close>

text \<open>What the client decodes from an entry of the reply: an omitted field is a zero value.\<close>

definition wire :: "syncArtifactDTO \<Rightarrow> artifact" where
  "wire x = \<lparr>art_id = sd_id x, art_revision = sd_revision x, art_type = sd_type x, art_name = sd_name x,
     art_content = sd_content x, art_memory_scope = sd_scope x, art_memory_seed = sd_seed x,
     art_target_tags = sd_tags x, art_rule_scope = sd_rule_scope x, art_oldest_servable = sd_oldest x,
     art_latest = sd_latest x, art_pin_override = sd_override x\<rparr>"

text \<open>The value of one \<open>pin\<close> parameter, as the server reads it after the query is decoded.\<close>

definition pin_value :: "pin \<Rightarrow> string" where
  "pin_value p = pin_artifact p @ '':'' @ FormatInt (pin_revision p)"

subsection \<open>The query\<close>

lemma parse_nat_colon: "CHR '':'' \<in> set s \<Longrightarrow> parse_nat acc s = None"
proof (induction s arbitrary: acc)
  case (Cons c s)
  then show ?case by (cases "c = CHR '':''") (auto simp: digit_value_def split: option.splits)
qed simp

lemma Atoi_colon:
  assumes "CHR '':'' \<in> set s"
  shows "Atoi s = None"
proof (cases s)
  case (Cons c r)
  have "parse_nat 0 s = None" using assms by (rule parse_nat_colon)
  moreover have "c = CHR ''-'' \<or> c = CHR ''+'' \<Longrightarrow> parse_nat 0 r = None" using assms Cons by (intro parse_nat_colon) auto
  ultimately show ?thesis using Cons
    by (cases "c = CHR ''-''"; cases "c = CHR ''+''") (simp_all add: Atoi_def ParseInt_def Let_def del: parse_nat.simps)
qed (use assms in simp)

lemma Atoi_minus: "Atoi (CHR ''-'' # s) = Some n \<Longrightarrow> n \<le> 0"
  by (auto simp: Atoi_def ParseInt_def Let_def split: if_splits option.splits)

lemma Atoi_positive: "Atoi (FormatInt i) = Some n \<Longrightarrow> 1 \<le> n \<Longrightarrow> i < 2 ^ 63 \<Longrightarrow> n = i"
  using ParseInt_FormatInt [of i] Atoi_minus [of "format_nat (nat (- i))" n]
  by (cases "i < 0") (auto simp: FormatInt_def Atoi_def)

lemma cut_pin:
  assumes "cut_sub '':'' (pin_value p) = Some (i, num)" "Atoi num = Some n" "1 \<le> n" "pin_revision p < 2 ^ 63"
  shows "i = pin_artifact p" "n = pin_revision p"
proof -
  have e: "pin_artifact p @ '':'' @ FormatInt (pin_revision p) = i @ '':'' @ num"
    using cut_sub_Some [OF assms(1)] by (simp add: pin_value_def)
  have "CHR '':'' \<notin> set num" using assms(2) Atoi_colon by fastforce
  moreover have "length i \<le> length (pin_artifact p)"
    using cut_sub_first [OF assms(1), of "pin_artifact p" "FormatInt (pin_revision p)"] by (simp add: pin_value_def)
  ultimately show i: "i = pin_artifact p"
    using e by (auto simp: append_eq_append_conv2 Cons_eq_append_conv append_eq_Cons_conv)
  with e have "num = FormatInt (pin_revision p)" by simp
  with assms(2-4) show "n = pin_revision p" using Atoi_positive by blast
qed

lemma parse_pairs_sent:
  assumes "parse_pairs acc (map pin_value pins) = Inr ps" "\<forall>p \<in> set pins. pin_revision p < 2 ^ 63" "distinct (map fst acc)"
  shows "ps = acc @ map (\<lambda>p. (pin_artifact p, pin_revision p)) pins \<and> distinct (map fst acc @ map pin_artifact pins) \<and>
    (\<forall>p \<in> set pins. 1 \<le> pin_revision p)"
  using assms
proof (induction pins arbitrary: acc)
  case (Cons p pins)
  from Cons.prems(1) obtain i num n where c: "cut_sub '':'' (pin_value p) = Some (i, num)" "Atoi num = Some n" "1 \<le> n"
      "i \<notin> fst ` set acc" and r: "parse_pairs (acc @ [(i, n)]) (map pin_value pins) = Inr ps"
    by (auto split: option.splits prod.splits if_splits)
  have e: "i = pin_artifact p" "n = pin_revision p" using cut_pin [OF c(1-3)] Cons.prems(2) by auto
  have "distinct (map fst (acc @ [(i, n)]))" using Cons.prems(3) c(4) by simp
  from Cons.IH [OF r _ this] Cons.prems(2) e c(3) show ?case by simp
qed simp

lemma parsePins_sent:
  assumes "parsePins (map pin_value pins) = Inr ps" "\<forall>p \<in> set pins. pin_revision p < 2 ^ 63" "p \<in> set pins"
  shows "pin_of ps (pin_artifact p) = pin_revision p" "1 \<le> pin_revision p"
proof -
  from assms have "parse_pairs [] (map pin_value pins) = Inr ps" by (auto simp: parsePins_def split: if_splits)
  from parse_pairs_sent [OF this assms(2)] have ps: "ps = map (\<lambda>p. (pin_artifact p, pin_revision p)) pins" "distinct (map pin_artifact pins)"
    and r: "\<forall>p \<in> set pins. 1 \<le> pin_revision p" by simp_all
  have "(pin_artifact p, pin_revision p) \<in> set ps" using assms(3) by (simp add: ps)
  moreover have "distinct (map fst ps)" using ps(2) by (simp add: ps(1) comp_def)
  ultimately show "pin_of ps (pin_artifact p) = pin_revision p" by (simp add: pin_of_def)
  from r assms(3) show "1 \<le> pin_revision p" by simp
qed

subsection \<open>The answer\<close>

lemma override_codes: "pinOverrideFloor \<noteq> []" "pinOverridePruned \<noteq> []" "pinOverrideAhead \<noteq> []"
  by (simp_all add: pinOverrideFloor_def pinOverridePruned_def pinOverrideAhead_def)

lemma silent_is_exact:
  assumes "fst (resolveSyncPayload a (pinResolve n flr mn (da_revision a)) payloads) = (src, seed, rv, [])" "1 \<le> n"
  shows "rv = n"
  using assms override_codes
  by (auto simp: resolveSyncPayload_def pinResolve_def Let_def split: option.splits if_splits)

lemma answered_pin:
  assumes "handleSyncArtifacts s env (Some c) (map pin_value pins) d1 d2 d3 st = (Reply 200 out, st1)" "sv_pinning s"
    and "\<forall>p \<in> set pins. pin_revision p < 2 ^ 63" "p \<in> set pins" "x \<in> set out" "sd_id x = pin_artifact p" "sd_override x = []"
  shows "sd_revision x = pin_revision p"
proof -
  from handler_reply [OF assms(1)] assms(2) obtain c' ps payloads where c': "Some c = Some c'"
    and q: "parsePins (map pin_value pins) = Inr ps"
    and out: "out = map (\<lambda>a. sync_dto s a (resolve_pin ps a) (fst (resolveSyncPayload a (resolve_pin ps a) payloads)))
      (ListEntitledArtifacts (sv_collation s) (cl_tenant c') (cl_roles c') d1 @ ListActiveOrgRules (sv_collation s) (cl_tenant c') d2)"
    by blast
  from assms(5) out obtain a where x: "x = sync_dto s a (resolve_pin ps a) (fst (resolveSyncPayload a (resolve_pin ps a) payloads))"
    by auto
  obtain src seed rv ov where r: "fst (resolveSyncPayload a (resolve_pin ps a) payloads) = (src, seed, rv, ov)"
    by (metis surj_pair)
  have f: "sd_id x = da_id a" "sd_revision x = rv" "sd_override x = ov"
    using assms(2) by (simp_all add: x r sync_dto_def Let_def)
  note n = parsePins_sent [OF q assms(3,4)]
  have "pin_of ps (da_id a) = pin_revision p" using n(1) f(1) assms(6) by simp
  with r f assms(7) n(2) show ?thesis by (simp add: resolve_pin_def silent_is_exact)
qed

text \<open>
  C8. A held pin is kept or explained, and the word is kept across the two programs: when the client
  sent its pins and decodes the server's reply, every pin of an artifact that was served is either
  reported as honoured, and then the served revision is the pinned one, or has a line in the outcome
  that names the revision served instead and why; it is never both silently moved and reported.
\<close>

theorem pin_kept_or_explained:
  assumes "handleSyncArtifacts s env (Some c) (map pin_value pins) d1 d2 d3 st = (Reply 200 out, st1)" "sv_pinning s"
    and "\<forall>p \<in> set pins. pin_revision p < 2 ^ 63" "p \<in> set pins" "pin_artifact p \<in> sd_id ` set out"
  shows "let arts = map wire out in
    if reportedPinned pins arts True (pin_artifact p)
    then \<exists>a. served_by_id arts (pin_artifact p) = Some a \<and> art_revision a = pin_revision p
    else \<exists>a. served_by_id arts (pin_artifact p) = Some a \<and> art_pin_override a \<noteq> [] \<and>
      \<lparr>po_name = pin_type p @ ''/'' @ pin_name p, po_requested = pin_revision p, po_served = art_revision a,
        po_reason = art_pin_override a\<rparr> \<in> set (pinOutcomes pins arts [])"
proof -
  let ?arts = "map wire out"
  from assms(5) have "\<exists>a \<in> set (rev ?arts). art_id a = pin_artifact p" by (auto simp: wire_def)
  then obtain a where a: "served_by_id ?arts (pin_artifact p) = Some a"
    unfolding served_by_id_def by (metis (mono_tags, lifting) find_None_iff not_None_eq)
  then have "art_id a = pin_artifact p" "a \<in> set ?arts"
    by (auto simp: served_by_id_def find_Some_iff in_set_conv_nth)
      (metis length_map length_rev nth_mem rev_map set_map set_rev image_iff)
  then obtain x where x: "x \<in> set out" "a = wire x" "sd_id x = pin_artifact p" by (auto simp: wire_def)
  have line: "art_pin_override a \<noteq> [] \<Longrightarrow> p \<in> set qs \<Longrightarrow>
    \<lparr>po_name = pin_type p @ ''/'' @ pin_name p, po_requested = pin_revision p, po_served = art_revision a,
      po_reason = art_pin_override a\<rparr> \<in> set (pinOutcomes qs ?arts [])" for qs
    by (induction qs) (auto simp: a Let_def split: option.splits)
  show ?thesis
  proof (cases "art_pin_override a = []")
    case True
    then have "sd_override x = []" by (simp add: x wire_def)
    from answered_pin [OF assms(1-4) x(1,3) this] have "art_revision a = pin_revision p" by (simp add: x wire_def)
    moreover have "reportedPinned pins ?arts True (pin_artifact p)" using True a assms(4) by (auto simp: reportedPinned_def)
    ultimately show ?thesis using a by (simp add: Let_def)
  next
    case False
    moreover have "\<not> reportedPinned pins ?arts True (pin_artifact p)" using False a by (auto simp: reportedPinned_def)
    ultimately show ?thesis using a line [OF False assms(4)] by (simp add: Let_def)
  qed
qed

definition held_id :: string where "held_id = ''00000000-0000-0000-0000-00000000000a''"

definition held_db :: db where
  "held_db = one_approved\<lparr>db_artifacts := map (\<lambda>r. r\<lparr>ar_id := held_id\<rparr>) (db_artifacts one_approved),
     db_revisions := map (\<lambda>v. v\<lparr>rv_artifact := held_id\<rparr>) (db_revisions one_approved)\<rparr>"

definition held_pin :: pin where
  "held_pin = \<lparr>pin_artifact = held_id, pin_type = ''rule'', pin_name = ''tabs'', pin_revision = 9\<rparr>"

theorem pin_kept_or_explained_witness:
  "\<exists>out st1. handleSyncArtifacts pin_server audit_ok (Some dev) [pin_value held_pin] held_db held_db held_db idle = (Reply 200 out, st1) \<and>
     \<not> reportedPinned [held_pin] (map wire out) True held_id \<and>
     \<lparr>po_name = ''rule/tabs'', po_requested = 9, po_served = 1, po_reason = ''ahead''\<rparr> \<in> set (pinOutcomes [held_pin] (map wire out) [])"
proof -
  let ?h = "handleSyncArtifacts pin_server audit_ok (Some dev) [pin_value held_pin] held_db held_db held_db idle"
  have run: "case fst ?h of Reply n [x] \<Rightarrow> n = 200 \<and> sd_id x = held_id \<and> sd_revision x = 1 \<and> sd_override x = ''ahead'' | _ \<Rightarrow> False"
    by code_simp
  then obtain x where h: "fst ?h = Reply 200 [x]" "sd_id x = held_id" "sd_revision x = 1" "sd_override x = ''ahead''"
    by (auto split: reply.splits list.splits)
  then obtain st1 where o: "?h = (Reply 200 [x], st1)" by (metis prod.collapse)
  have w: "served_by_id (map wire [x]) held_id = Some (wire x)" "art_pin_override (wire x) = ''ahead''" "art_revision (wire x) = 1"
    using h by (simp_all add: served_by_id_def wire_def)
  then have n: "\<not> reportedPinned [held_pin] (map wire [x]) True held_id" by (simp add: reportedPinned_def)
  from pin_kept_or_explained [of pin_server audit_ok dev "[held_pin]" held_db held_db held_db idle "[x]" st1 held_pin] o n w h(2)
  have "\<lparr>po_name = ''rule/tabs'', po_requested = 9, po_served = 1, po_reason = ''ahead''\<rparr> \<in> set (pinOutcomes [held_pin] (map wire [x]) [])"
    by (simp add: held_pin_def pin_server_def Let_def)
  with o n show ?thesis by (intro exI conjI)
qed

end
