(* ===== verification/SyncCommands.thy ===== *)
theory SyncCommands
  imports SyncRun
begin

text \<open>
  The commands of \<open>orbeat-sync\<close> that change what a machine keeps: \<open>project add\<close> and
  \<open>project remove\<close>, \<open>pin\<close> and \<open>pin remove\<close> (\<open>cmd/orbeat-sync/main.go\<close>).
\<close>

subsection \<open>Projects\<close>

definition add_usage :: string where
  "add_usage = ''usage: orbeat-sync project add <path> [--tag <tag>]...''"

fun parse_add :: "string list \<Rightarrow> string \<Rightarrow> string list \<Rightarrow> string + string \<times> string list" where
  "parse_add [] path tags = (if path = [] then Inl add_usage else Inr (path, tags))"
| "parse_add (a # args) path tags =
     (if a = ''--tag'' then
        (case args of
           [] \<Rightarrow> Inl (''--tag needs a value'' @ nl # add_usage)
         | v # rest \<Rightarrow> parse_add rest path (tags @ [v]))
      else if has_prefix ''--tag='' a then parse_add args path (tags @ [drop 6 a])
      else if has_prefix ''-'' a then Inl (''unknown flag '' @ Quote a @ nl # add_usage)
      else if path = [] then parse_add args a tags
      else Inl (''project add takes one path, got '' @ Quote a @ '' as well'' @ nl # add_usage))"

definition parseProjectAdd :: "string list \<Rightarrow> string + string \<times> string list" where
  "parseProjectAdd args = parse_add args [] []"

definition project_add :: "machine_env \<Rightarrow> string list \<Rightarrow> machine \<Rightarrow> cmd_error option \<times> machine" where
  "project_add me args mc =
     (if home_dir (me_env me) = None then (Some (no_home ''projects path: ''), mc)
      else case parseProjectAdd args of Inl e \<Rightarrow> (Some (General e), mc) | Inr (path, tags) \<Rightarrow>
      case acquireRunLock me mc of (Some e, mc0) \<Rightarrow> (Some (General e), mc0) | (None, mc0) \<Rightarrow>
      case AddProject me path tags mc0 of
        (Inl e, mc1) \<Rightarrow> (Some (General e), mc1)
      | (Inr _, mc1) \<Rightarrow> (None, mc1))"

definition joined_error :: "joined \<Rightarrow> cmd_error option" where
  "joined_error j =
     (case j of
        Inl e \<Rightarrow> Some (SyncFailed e)
      | Inr [] \<Rightarrow> None
      | Inr es \<Rightarrow> Some (General ''strip: some files could not be changed''))"

text \<open>The strips of a reachable project: the seeds first, the rules only after them.\<close>

definition strip_project :: "machine_env \<Rightarrow> string \<Rightarrow> machine \<Rightarrow> cmd_error option \<times> machine" where
  "strip_project me p mc =
     (case home_dir (me_env me) of None \<Rightarrow> (Some (no_home []), mc) | Some home \<Rightarrow>
      let claudeDir = Join [home, ''.claude''] in
      case StripProjectSeeds (me_env me) claudeDir p (mc_fs mc) of ((n, j), w1) \<Rightarrow>
      (case joined_error j of
         Some e \<Rightarrow> (Some e, mc\<lparr>mc_fs := w1\<rparr>)
       | None \<Rightarrow>
           (case StripProjectRules (me_env me) claudeDir p w1 of ((rn, j2), w2) \<Rightarrow>
              (joined_error j2, mc\<lparr>mc_fs := w2\<rparr>))))"

definition project_remove :: "machine_env \<Rightarrow> string \<Rightarrow> machine \<Rightarrow> cmd_error option \<times> machine" where
  "project_remove me proj mc =
     (if home_dir (me_env me) = None then (Some (no_home ''projects path: ''), mc)
      else case acquireRunLock me mc of (Some e, mc0) \<Rightarrow> (Some (General e), mc0) | (None, mc0) \<Rightarrow>
      case ResolveRegisteredProject me proj mc0 of Inl e \<Rightarrow> (Some (General e), mc0) | Inr (p, found) \<Rightarrow>
      if \<not> found then (Some (General (''project '' @ p @ '' is not registered'')), mc0)
      else
        (case (case os_Stat (me_env me) (mc_fs mc0) p of Inl _ \<Rightarrow> (None, mc0) | Inr _ \<Rightarrow> strip_project me p mc0) of
           (Some e, mc1) \<Rightarrow> (Some e, mc1)
         | (None, mc1) \<Rightarrow>
             (case RemoveProject me proj mc1 of
                (Inl e, mc2) \<Rightarrow> (Some (General e), mc2)
              | (Inr _, mc2) \<Rightarrow> (None, mc2))))"

subsection \<open>Pins\<close>

definition splitPinTarget :: "string \<Rightarrow> string + string \<times> string" where
  "splitPinTarget target =
     (case cut_sub ''/'' target of
        Some (typ, name) \<Rightarrow>
          if typ = [] \<or> name = []
          then Inl (''pin target must be '' @ Quote ''<type>/<name>'' @ '', got '' @ Quote target)
          else Inr (typ, name)
      | None \<Rightarrow> Inl (''pin target must be '' @ Quote ''<type>/<name>'' @ '', got '' @ Quote target))"

text \<open>\<open>revision\<close> is the flag, zero when it is not given.\<close>

definition choose_revision :: "string \<Rightarrow> string \<Rightarrow> string \<Rightarrow> int \<Rightarrow> artifact \<Rightarrow> string + int" where
  "choose_revision base typ name revision found =
     (if revision > 0 then
        (if art_latest found = 0
         then Inl (base @ '' did not report a revision window for '' @ typ @ ''/'' @ name @
           '', so --revision cannot be validated (is pinning supported here?)'')
         else if revision < art_oldest_servable found \<or> revision > art_latest found
         then Inl (''revision '' @ FormatInt revision @ '' is out of range for '' @ typ @ ''/'' @ name @
           '' (this server currently serves '' @ FormatInt (art_oldest_servable found) @ ''..'' @ FormatInt (art_latest found) @ '')'')
         else Inr revision)
      else Inr (art_revision found))"

definition pin_set :: "machine_env \<Rightarrow> string \<Rightarrow> int \<Rightarrow> machine \<Rightarrow> cmd_error option \<times> machine" where
  "pin_set me target revision mc =
     (case splitPinTarget target of Inl e \<Rightarrow> (Some (General e), mc) | Inr (typ, name) \<Rightarrow>
      case acquireRunLock me mc of (Some e, mc0) \<Rightarrow> (Some (General e), mc0) | (None, mc0) \<Rightarrow>
      case loadValidToken me mc0 of (Inl e, mc0') \<Rightarrow> (Some (General e), mc0') | (Inr t, mc0') \<Rightarrow>
      let tok = tk_access t; mc1 = sent (config_request (me_api me) tok) mc0' in
      case FetchSyncConfig (me_api me) tok of
        Inl e \<Rightarrow> (Some (General (e @ ''. No pin was written: pinning support could not be confirmed'')), mc1)
      | Inr c \<Rightarrow>
      if \<not> scf_pinning c
      then (Some (General (ae_base (me_api me) @ '' does not support pinning, so no pin was written: it ignores ?pin= and would keep serving the latest revision of '' @ typ @ ''/'' @ name)), mc1)
      else (case LoadPins mc1 of Inl e \<Rightarrow> (Some (General e), mc1) | Inr existing \<Rightarrow>
      let mc2 = sent (artifacts_request (me_api me) tok existing) mc1 in
      case FetchArtifacts (me_api me) tok existing of Inl e \<Rightarrow> (Some (General e), mc2) | Inr arts \<Rightarrow>
      case List.find (\<lambda>a. art_type a = typ \<and> art_name a = name) arts of
        None \<Rightarrow> (Some (General (''no entitled artifact named '' @ typ @ ''/'' @ name)), mc2)
      | Some found \<Rightarrow>
      case choose_revision (ae_base (me_api me)) typ name revision found of Inl e \<Rightarrow> (Some (General e), mc2) | Inr rv \<Rightarrow>
      case SetPin me \<lparr>pin_artifact = art_id found, pin_type = typ, pin_name = name, pin_revision = rv\<rparr> mc2 of
        (Some e, mc3) \<Rightarrow> (Some (General e), mc3)
      | (None, mc3) \<Rightarrow> (None, mc3)))"

definition pin_remove :: "machine_env \<Rightarrow> string \<Rightarrow> machine \<Rightarrow> cmd_error option \<times> machine" where
  "pin_remove me target mc =
     (case splitPinTarget target of Inl e \<Rightarrow> (Some (General e), mc) | Inr (typ, name) \<Rightarrow>
      case acquireRunLock me mc of (Some e, mc0) \<Rightarrow> (Some (General e), mc0) | (None, mc0) \<Rightarrow>
      case RemovePin me typ name mc0 of
        (Inl e, mc1) \<Rightarrow> (Some (General e), mc1)
      | (Inr False, mc1) \<Rightarrow> (Some (General (''no pin for '' @ typ @ ''/'' @ name)), mc1)
      | (Inr True, mc1) \<Rightarrow> (None, mc1))"

end
