(* ===== verification/SeedStripProofs.thy ===== *)
theory SeedStripProofs
  imports SeedSyncProofs
begin

text \<open>
  What a strip leaves of a memory file: \<open>seed_stripped\<close> states it on the text, and the lemmas follow
  one file through \<open>stripUndesired\<close>, the loop over the candidates of a project, and the writes of the
  rules files and the ledger, none of which touches it.
\<close>

subsection \<open>The text\<close>

text \<open>For every name found in the file, once and in order: its block is taken out, unless its markers are malformed.\<close>

definition seed_out :: "string \<Rightarrow> bytes \<Rightarrow> bytes" where
  "seed_out name s = (if seedMarkersHealthy s name then fst (stripSeed s name) else s)"

definition seed_stripped :: "bytes \<Rightarrow> bytes" where
  "seed_stripped s = fold seed_out (dedupe {} (seedNamesIn s)) s"

lemma strip_names_content: "fst (strip_names p {} seen names s n ws) = fold seed_out (dedupe seen names) s"
  by (induction seen names arbitrary: s n ws rule: dedupe.induct)
    (auto simp: Let_def seed_out_def stripSeed_def split: prod.splits option.splits)

lemma strip_names_counts:
  "n \<le> fst (snd (strip_names p d seen names s n ws)) \<and>
     (fst (snd (strip_names p d seen names s n ws)) = n \<longrightarrow> fst (strip_names p d seen names s n ws) = s)"
proof (induction names arbitrary: seen s n ws)
  case (Cons name names)
  have k: "n \<le> fst (snd (strip_names p d t names s n v)) \<and>
     (fst (snd (strip_names p d t names s n v)) = n \<longrightarrow> fst (strip_names p d t names s n v) = s)" for t v
    by (rule Cons.IH)
  have c: "n < fst (snd (strip_names p d t names o' (n + 1) v))" for t o' v
    using Cons.IH [where n = "n + 1"] by (metis Suc_eq_plus1 Suc_le_lessD)
  show ?case using k c by (auto simp: Let_def less_imp_le split: prod.splits) (metis nat_less_le fst_conv snd_conv)+
qed simp

lemma strip_undesired_text:
  assumes "strip_names p {} {} (seedNamesIn s) s 0 [] = (out, n, ws)"
  shows "out = seed_stripped s" "n = 0 \<Longrightarrow> out = s"
  using assms strip_names_content [of p "{}" "seedNamesIn s" s 0 "[]"]
    strip_names_counts [of 0 p "{}" "{}" "seedNamesIn s" s "[]"]
  by (auto simp: seed_stripped_def)

lemma only_element: "set xs = {x} \<and> distinct xs \<Longrightarrow> xs = [x]"
proof (cases xs)
  case (Cons y ys)
  assume a: "set xs = {x} \<and> distinct xs"
  with Cons have "y = x" "set ys \<subseteq> {x}" "x \<notin> set ys" by auto
  then have "ys = []" by (cases ys) auto
  with Cons \<open>y = x\<close> show ?thesis by simp
qed simp

text \<open>A file with the one block the client wrote loses it, and nothing but newlines beside it.\<close>

lemma seed_stripped_single:
  assumes "set (seedNamesIn s) = {name}" "seedMarkersHealthy s name"
  shows "seedBlockRe name (seed_stripped s) = None"
proof -
  have k: "artifactNameRe name" using assms(1) seedNamesIn_iff [of name s] by simp
  have "set (dedupe {} (seedNamesIn s)) = {name} \<and> distinct (dedupe {} (seedNamesIn s))"
  proof -
    have "set (dedupe u xs) = set xs - u \<and> distinct (dedupe u xs)" for u xs
      by (induction u xs rule: dedupe.induct) auto
    with assms(1) show ?thesis by auto
  qed
  then have "dedupe {} (seedNamesIn s) = [name]" by (rule only_element)
  then have out: "seed_stripped s = fst (stripSeed s name)" using assms(2) by (simp add: seed_stripped_def seed_out_def)
  show ?thesis
  proof (cases "seedBlockRe name s")
    case None
    with out show ?thesis by (simp add: stripSeed_def)
  next
    case (Some x)
    then obtain pre h b post where f: "seedBlockRe name s = Some (pre, h, b, post)" by (cases x) auto
    note free = seed_healthy_block [OF k assms(2) f]
    have "seedBlockRe name (pre @ post) = None" "seedBlockRe name (lead_nl post) = None"
      using free seed_join_free [of name pre post] seed_join_free [of name "[]" "lead_nl post"] seed_free_lead by simp_all
    with out f show ?thesis by (simp add: stripSeed_def Let_def)
  qed
qed

subsection \<open>One file\<close>

text \<open>A file whose name is \<open>MEMORY.md\<close>: neither a rules file nor the ledger nor a temporary of either.\<close>

abbreviation memory_file :: "path \<Rightarrow> bool" where
  "memory_file q \<equiv> q \<noteq> [] \<and> last q = ''MEMORY.md''"

lemma memory_not_temp: "memory_file q \<Longrightarrow> \<not> temp_of k q"
proof
  assume q: "memory_file q" "temp_of k q"
  from q(2) obtain x where x: "q = butlast k @ [x]" "has_prefix (last k @ ''.tmp-'') x" unfolding temp_of_def by blast
  with q(1) have "has_prefix (last k @ ''.tmp-'') ''MEMORY.md''" by simp
  then obtain r where r: "''MEMORY.md'' = last k @ ''.tmp-'' @ r" unfolding has_prefix_iff prefix_def by auto
  have "CHR ''-'' \<in> set (last k @ ''.tmp-'' @ r)" by simp
  then show False unfolding r [symmetric] by simp
qed

lemma memory_comps_file: "memory_comps q \<Longrightarrow> memory_file q"
  by (auto simp: memory_comps_def)

lemma strip_one:
  assumes "run_ok env w" "roots_ok {b}" "root_on r b w" "IsAbs p" "memory_comps (pcomps p)"
    and "stripUndesired env r p {} w = (Inr (n, ws), w1)" "look w q = Some (File c perm)" "memory_file q"
  shows "\<exists>perm'. look w1 q = Some (File (if pcomps p = q then seed_stripped c else c) perm')"
proof (cases "r_readFile env w r p")
  case (Inl e)
  with assms(6) have e: "e = NotExist" "w1 = w" by (cases e; simp add: stripUndesired_def)+
  have "pcomps p \<noteq> q"
  proof
    assume q: "pcomps p = q"
    have g: "good_tree w" using assms(1) by (simp add: run_ok_def)
    have d: "pcomps (rt_dir r) = b" "IsAbs (rt_dir r)" "look w b = Some Dir" using assms(3) by (auto simp: root_on_def pcomps_abs_path)
    from Inl e(1) have "rooted_rel (rt_dir r) p \<noteq> None" by (auto simp: r_readFile_def split: option.splits)
    then have "prefix b (pcomps p)" using rooted_rel_iff [OF d(2) assms(4)] d(1) by simp
    then obtain cs where cs: "pcomps p = b @ cs" by (auto simp: prefix_def)
    have ne: "cs \<noteq> []" using cs d(3) assms(7) q by auto
    have pc: "list_all plain_comp cs" using pcomps_plain [of p] cs by simp
    have "r_readFile env w r p = r_readFile env w r (abs_path (b @ cs))"
      using rooted_rel_clean [OF d(2) assms(4)] cs by (simp add: r_readFile_def)
    then show False
      using Inl e(1) root_on_rel [OF assms(3) pc ne] r_walk_found [OF g pc ne] assms(3,7) cs q
      by (auto simp: r_readFile_def root_on_def split: if_splits)
  qed
  with e(2) assms(7) show ?thesis by simp
next
  case (Inr data)
  have g: "good_tree w" "\<not> active w" "plain_env env" using assms(1) by (auto simp: run_ok_def)
  have nd: "look w (pcomps p) \<noteq> Some Dir" by (rule memory_no_dir [OF assms(1,3,4) disjI1 [OF Inr]])
  have d: "pcomps (rt_dir r) = b" "IsAbs (rt_dir r)" "look w b = Some Dir" using assms(3) by (auto simp: root_on_def pcomps_abs_path)
  from Inr have "rooted_rel (rt_dir r) p \<noteq> None" by (auto simp: r_readFile_def split: option.splits)
  then have "prefix b (pcomps p)" using rooted_rel_iff [OF d(2) assms(4)] d(1) by simp
  then obtain cs where cs: "pcomps p = b @ cs" by (auto simp: prefix_def)
  have ne: "cs \<noteq> []" using cs d(3) nd by auto
  have pc: "list_all plain_comp cs" using pcomps_plain [of p] cs by simp
  have rel: "rooted_rel (rt_dir r) p = rooted_rel (rt_dir r) (abs_path (b @ cs))"
    using rooted_rel_clean [OF d(2) assms(4)] cs by simp
  then have rd: "r_readFile env w r (abs_path (b @ cs)) = Inr data" using Inr by (simp add: r_readFile_def)
  from r_readFile_Inr [OF g(1) assms(3) pc ne rd] obtain p0 where f: "look w (b @ cs) = Some (File data p0)" ..
  obtain out k vs where s: "strip_names p {} {} (seedNamesIn data) data 0 [] = (out, k, vs)" by (metis prod_cases3)
  note T = strip_undesired_text [OF s]
  show ?thesis
  proof (cases "k > 0")
    case False
    then have "w1 = w" using assms(6) Inr s by (simp add: stripUndesired_def)
    with T False f assms(7) cs show ?thesis by auto
  next
    case True
    then have "r_writeAtomic env r p out (r_existingPerm env w r p 0x1A4) w = (None, w1)"
      using assms(6) Inr s by (auto simp: stripUndesired_def split: option.splits prod.splits)
    then have wr: "r_writeAtomic env r (abs_path (b @ cs)) out (r_existingPerm env w r p 0x1A4) w = (None, w1)"
      using rel g(2) \<open>rooted_rel (rt_dir r) p \<noteq> None\<close> by (auto simp: r_writeAtomic_def)
    note W = write_good [OF g(1,2) assms(3) pc ne g(3) wr]
    show ?thesis
    proof (cases "pcomps p = q")
      case True
      with W(5) T(1) f assms(7) cs show ?thesis by auto
    next
      case False
      have "look w1 q = look w q"
        using W(6) [of q] False cs memory_not_temp [OF assms(8)] assms(7) by (metis option.distinct(1))
      with False assms(7) show ?thesis by simp
    qed
  qed
qed

subsection \<open>The candidates of a project\<close>

lemma strip_errs: "strip_project_candidates env r ps st w = (st', w') \<Longrightarrow> \<exists>es. sp_errs st' = sp_errs st @ es"
proof (induction ps arbitrary: st w)
  case (Cons p ps)
  obtain x w1 where s: "stripUndesired env r p {} w = (x, w1)" by fastforce
  show ?case
  proof (cases x)
    case (Inl e)
    from Cons.prems s Inl Cons.IH [of "st\<lparr>sp_errs := sp_errs st @ [e], sp_failed := insert p (sp_failed st)\<rparr>" w1]
    show ?thesis by auto
  next
    case (Inr y)
    obtain a vs where y: "y = (a, vs)" by fastforce
    have "strip_project_candidates env r ps
        (st\<lparr>sp_malformed := (if vs \<noteq> [] then insert p (sp_malformed st) else sp_malformed st), sp_stripped := sp_stripped st + a\<rparr>) w1 = (st', w')"
      using Cons.prems s Inr y by simp
    from Cons.IH [OF this] show ?thesis by simp
  qed
qed simp

lemma strip_loop:
  assumes "run_ok env w" "roots_ok {b}" "root_on r b w" "\<And>p. p \<in> set ps \<Longrightarrow> IsAbs p \<and> memory_comps (pcomps p)"
    and "strip_project_candidates env r ps st w = (st', w')" "sp_errs st' = []"
    and "look w q = Some (File c perm)" "memory_file q"
  shows "\<exists>perm'. look w' q = Some (File ((seed_stripped ^^ length (filter (\<lambda>p. pcomps p = q) ps)) c) perm')"
  using assms(1,3-7)
proof (induction ps arbitrary: st w c perm)
  case Nil
  then show ?case by simp
next
  case (Cons p ps)
  have cc: "cache_run {b} env v \<lparr>rc_roots = [(abs_path b, r)], rc_gone = {}\<rparr> \<longleftrightarrow> run_ok env v \<and> root_on r b v" for v
    by (auto simp: cache_run_def)
  obtain x w1 where s: "stripUndesired env r p {} w = (x, w1)" by fastforce
  have p: "IsAbs p" "memory_comps (pcomps p)" using Cons.prems(3) by simp_all
  have "cache_run {b} env w1 \<lparr>rc_roots = [(abs_path b, r)], rc_gone = {}\<rparr>"
    using stripUndesired_good [OF _ assms(2) _ Cons.prems(2) p s, of "\<lparr>rc_roots = [(abs_path b, r)], rc_gone = {}\<rparr>"]
      Cons.prems(1,2) by (simp add: cc)
  then have w1: "run_ok env w1" "root_on r b w1" by (simp_all add: cc)
  have "\<exists>st1 y. x = Inr y \<and> strip_project_candidates env r ps st1 w1 = (st', w')"
  proof (cases x)
    case (Inl e)
    then have "strip_project_candidates env r ps (st\<lparr>sp_errs := sp_errs st @ [e], sp_failed := insert p (sp_failed st)\<rparr>) w1 = (st', w')"
      using Cons.prems(4) s by simp
    from strip_errs [OF this] Cons.prems(5) show ?thesis by simp
  next
    case (Inr y)
    with Cons.prems(4) s show ?thesis by (cases y) auto
  qed
  then obtain st1 n ws where x: "x = Inr (n, ws)" and rest: "strip_project_candidates env r ps st1 w1 = (st', w')" by auto
  from strip_one [OF Cons.prems(1) assms(2) Cons.prems(2) p s [unfolded x] Cons.prems(6) assms(8)] obtain perm1 where
    l: "look w1 q = Some (File (if pcomps p = q then seed_stripped c else c) perm1)" ..
  have "\<exists>perm'. look w' q = Some (File ((seed_stripped ^^ length (filter (\<lambda>p. pcomps p = q) ps))
      (if pcomps p = q then seed_stripped c else c)) perm')"
    by (rule Cons.IH [OF w1 _ rest Cons.prems(5) l]) (use Cons.prems(3) in simp)
  then show ?case by (auto simp: funpow_swap1)
qed

subsection \<open>What the other writes leave alone\<close>

lemma stripRulesFile_kept:
  assumes "run_ok env w" "root_on r b w" "managed_name f" "stripRulesFile env r (abs_path (b @ [f])) w = (x, w')"
    and "memory_file q" "look w q = Some (File c p)"
  shows "look w' q = Some (File c p)"
proof (rule ccontr)
  assume n: "look w' q \<noteq> Some (File c p)"
  with assms(6) have "w' \<noteq> w" by auto
  with assms(4) obtain out perm e where wr: "r_writeAtomic env r (abs_path (b @ [f])) out perm w = (e, w')"
    by (auto simp: stripRulesFile_def split: sum.splits ioerr.splits if_splits prod.splits option.splits)
  have gd: "good_tree w" "\<not> active w" "plain_env env" using assms(1) by (auto simp: run_ok_def)
  have pc: "list_all plain_comp [f]" using managed_plain [OF assms(3)] by simp
  from write_good(4) [OF gd(1,2) assms(2) pc _ gd(3) wr] n assms(6)
  have "q = b @ [f] \<or> temp_of (b @ [f]) q" unfolding files_kept_def by (metis not_Cons_self2)
  with assms(3,5) memory_not_temp [of q "b @ [f]"] show False by (auto simp: managed_name_def)
qed

lemma strip_files_kept:
  assumes "run_ok env w" "root_on r b w" "\<And>f. f \<in> set files \<Longrightarrow> managed_name f"
    and "strip_files env r (abs_path b) files n0 ws0 es0 w = (x, w')" "memory_file q" "look w q = Some (File c p)"
  shows "look w' q = Some (File c p)"
  using assms
proof (induction files arbitrary: n0 ws0 es0 w)
  case (Cons f files)
  have b: "list_all plain_comp b" "b \<noteq> []" using Cons.prems(2) by (auto simp: root_on_def)
  have mf: "managed_name f" using Cons.prems(3) by simp
  obtain y w1 where s: "stripRulesFile env r (abs_path (b @ [f])) w = (y, w1)" by fastforce
  note S = stripRulesFile_good [OF Cons.prems(1,2) mf s] stripRulesFile_kept [OF Cons.prems(1,2) mf s Cons.prems(5,6)]
  obtain n1 ws1 es1 where rest: "strip_files env r (abs_path b) files n1 ws1 es1 w1 = (x, w')"
    using Cons.prems(4) resolve_file [OF b(1) managed_plain [OF mf]] s b(2) by (auto split: sum.splits)
  show ?case by (rule Cons.IH [OF S(1,2) _ rest Cons.prems(5) S(5)]) (use Cons.prems(3) in simp)
qed simp

lemma stripRulesFromProject_kept:
  assumes "run_ok env w" "list_all plain_comp b" "b \<noteq> []" "stripRulesFromProject env (abs_path b) w = (x, w')"
    and "memory_file q" "look w q = Some (File c p)"
  shows "look w' q = Some (File c p)"
proof (cases "\<exists>r. openRootedOptional env w (abs_path b) = Inr (Some r)")
  case False
  with assms(4,6) show ?thesis by (auto simp: stripRulesFromProject_def split: sum.splits option.splits)
next
  case True
  then obtain r where o: "openRootedOptional env w (abs_path b) = Inr (Some r)" by blast
  have "strip_files env r (abs_path b) rulesManagedFiles 0 [] [] w = (x, w')" using assms(4) o by (simp add: stripRulesFromProject_def)
  from strip_files_kept [OF assms(1) openRootedOptional_good [OF assms(1-3) o] _ this assms(5,6)]
  show ?thesis by (simp add: rulesManagedFiles_def managed_name_def)
qed

lemma saveManifest_kept:
  assumes "run_ok env w" "list_all plain_comp b" "b \<noteq> []" "saveManifest env (abs_path b) m w = (e, w')"
    and "memory_file q" "look w q = Some (File c p)"
  shows "look w' q = Some (File c p)"
proof (rule ccontr)
  assume n: "look w' q \<noteq> Some (File c p)"
  have g: "good_tree w" "\<not> active w" "plain_env env" using assms(1) by (auto simp: run_ok_def)
  from saveManifest_good(2) [OF g assms(2,3,4)] n assms(6)
  have "q = b @ [manifestName] \<or> temp_of (b @ [manifestName]) q" unfolding files_kept_def by metis
  with assms(5) memory_not_temp [of q "b @ [manifestName]"] show False by (auto simp: manifestName_def)
qed

end
