(* ===== verification/SyncCommandProofs.thy ===== *)
theory SyncCommandProofs
  imports SyncCommands SyncRunProofs SeedStripProofs
begin

text \<open>
  What \<open>project remove\<close> and \<open>pin\<close> promise: a project leaves the registry only after its governed
  blocks were taken out, a failure leaves the registry as it was, and a pin is written only for a
  revision the server said it serves.
\<close>

subsection \<open>The tree under the strips\<close>

lemma MkdirAll_no_file:
  assumes "good_tree w" "list_all plain_comp b" "b \<noteq> []" "os_MkdirAll env (abs_path b) w = (e, w')"
    and "look w' q = Some (File c p)"
  shows "look w q = Some (File c p)"
proof -
  have w': "w' = snd (mkdirs env None w [] b)"
    using assms(4) split_abs [OF assms(2,3)] by (simp add: os_MkdirAll_def)
  have "link_free w" using assms(1) by (simp add: good_tree_def)
  from mkdirs_link_free [OF this assms(2), of env None "[]"]
  have "look w' q \<noteq> look w q \<longrightarrow> look w' q = Some Dir" unfolding w' by blast
  with assms(5) show ?thesis by (cases "look w' q = look w q") auto
qed

text \<open>The ledger is no managed file, so saving it adds and removes no block.\<close>

lemma saveManifest_run:
  assumes "run_ok env w" "list_all plain_comp b" "b \<noteq> []" "saveManifest env (abs_path b) m w = (e, w')"
  shows "run_ok env w'" "no_new_blocks w w'"
    "managed_name (last q) \<Longrightarrow> look w q = Some (File c p) \<Longrightarrow> look w' q = Some (File c p)"
proof -
  have g: "good_tree w" "\<not> active w" "plain_env env" using assms(1) by (auto simp: run_ok_def)
  note G = saveManifest_good [OF g assms(2,3,4)]
  obtain e1 w1 where mk: "os_MkdirAll env (abs_path b) w = (e1, w1)" by fastforce
  note M = MkdirAll_good [OF g(1) assms(2,3) mk] MkdirAll_no_file [OF g(1) assms(2,3) mk]
  have "\<not> active w' \<and> (\<forall>q c p. look w' q = Some (File c p) \<and> managed_name (last q) \<longrightarrow> look w q = Some (File c p))"
  proof (cases "e1 = None \<and> (\<exists>r. openRooted env w1 (abs_path b) = Inr r)")
    case False
    then have "w' = w1"
      using assms(4) g(2) mk by (auto simp: saveManifest_def Let_def openRootedFor_def M(2) split: option.splits sum.splits)
    with M(2,4) g(2) show ?thesis by simp
  next
    case True
    then obtain r where r: "openRooted env w1 (abs_path b) = Inr r" by blast
    note ro = openRooted_good [OF M(1) assms(2,3) r]
    have run: "r_writeAtomic env r (abs_path (b @ [manifestName])) (json_marshal env (sorted_manifest m)) 0x1A4 w1 = (e, w')"
      using True r assms(4) g(2) mk M(2) manifest_path_abs [OF assms(2)]
      by (simp add: saveManifest_def Let_def openRootedFor_def)
    have na: "\<not> active w1" using M(2) g(2) by simp
    have pc: "list_all plain_comp [manifestName]" using manifest_plain by simp
    note W = write_good [OF M(1) na ro pc _ g(3) run]
    have "look w1 q = Some (File c p)" if q: "look w' q = Some (File c p)" "managed_name (last q)" for q c p
    proof (cases "look w' q = look w1 q")
      case True
      with q show ?thesis by simp
    next
      case False
      with W(6) [of q] q have "q = b @ [manifestName]" using managed_not_temp by auto
      with q(2) show ?thesis by (simp add: managed_name_def manifestName_def)
    qed
    with M(4) W(2) show ?thesis by blast
  qed
  then show "run_ok env w'" "no_new_blocks w w'" using G(1) g(3) by (auto simp: run_ok_def no_new_blocks_def)
  show "look w' q = Some (File c p)" if q: "managed_name (last q)" "look w q = Some (File c p)"
  proof (rule ccontr)
    assume "look w' q \<noteq> Some (File c p)"
    with G(2) q(2) have "q = b @ [manifestName] \<or> temp_of (b @ [manifestName]) q" unfolding files_kept_def by metis
    with q(1) managed_not_temp show False by (auto simp: managed_name_def manifestName_def)
  qed
qed

subsection \<open>The seed strip of a project\<close>

lemma strip_project_candidates_run:
  assumes "run_ok env w" "roots_ok {b}" "root_on r b w" "\<And>p. p \<in> set ps \<Longrightarrow> IsAbs p \<and> memory_comps (pcomps p)"
    "strip_project_candidates env r ps st w = (st', w')"
  shows "run_ok env w'"
proof -
  have c: "cache_run {b} env v \<lparr>rc_roots = [(abs_path b, r)], rc_gone = {}\<rparr> \<longleftrightarrow> run_ok env v \<and> root_on r b v" for v
    by (auto simp: cache_run_def)
  from assms(1,3-5) show ?thesis
  proof (induction ps arbitrary: st w)
    case (Cons p ps)
    obtain x w1 where s: "stripUndesired env r p {} w = (x, w1)" by fastforce
    have "cache_run {b} env w1 \<lparr>rc_roots = [(abs_path b, r)], rc_gone = {}\<rparr>"
      using stripUndesired_good [OF _ assms(2) _ Cons.prems(2) _ _ s, of "\<lparr>rc_roots = [(abs_path b, r)], rc_gone = {}\<rparr>"]
        Cons.prems(1-3) by (auto simp: c)
    then have w1: "run_ok env w1" "root_on r b w1" by (simp_all add: c)
    obtain st1 where "strip_project_candidates env r ps st1 w1 = (st', w')"
      using Cons.prems(4) s by (auto split: sum.splits prod.splits)
    from Cons.IH [OF w1 _ this] Cons.prems(3) show ?case by simp
  qed simp
qed

lemma StripProjectSeeds_run:
  assumes "run_ok env w" "roots_ok {b}" "list_all plain_comp cb" "cb \<noteq> []" "\<And>ks. set (range_order env ks) \<subseteq> set ks"
    and "StripProjectSeeds env (abs_path cb) (abs_path b) w = (x, w')"
  shows "run_ok env w'"
proof (cases "loadManifest env w (abs_path cb)")
  case (Inl err)
  with assms show ?thesis by (simp add: StripProjectSeeds_def)
next
  case (Inr m)
  have b: "list_all plain_comp b" "b \<noteq> []" using assms(2) by (auto simp: roots_ok_def)
  define cands where "cands = seed_candidates env m (abs_path b) w"
  define st0 where "st0 = \<lparr>sp_stripped = 0, sp_malformed = {}, sp_failed = {}, sp_errs = []\<rparr>"
  have "abs_path b \<noteq> []" by (simp add: abs_path_def)
  then have "Join [abs_path b, ''.claude'', ''agent-memory''] = Join [abs_path b, join_with slash [''.claude'', ''agent-memory'']]"
    by (rule Join_three) simp_all
  also have "\<dots> = abs_path (pcomps (abs_path b) @ [''.claude'', ''agent-memory''])"
    by (rule Join_plain) (simp_all add: plain_comp_def)
  finally have j: "Join [abs_path b, ''.claude'', ''agent-memory''] = abs_path ((b @ [''.claude'']) @ [''agent-memory''])"
    by (simp add: pcomps_abs_path [OF b(1)])
  have "list_all plain_comp (b @ [''.claude''])" using b(1) by (simp add: plain_comp_def)
  then have cs: "IsAbs p \<and> memory_comps (pcomps p)" if "p \<in> set (range_order env cands)" for p
    using that assms(5) [of cands] scanned_shape [OF _ _ j, of p env w] validSeedPath_comps [of p]
    by (auto simp: cands_def seed_candidates_def j)
  show ?thesis
  proof (cases "openRootedOptional env w (abs_path b)")
    case (Inl e)
    with Inr assms show ?thesis by (simp add: StripProjectSeeds_def Let_def)
  next
    case o: (Inr o')
    obtain st w1 where s: "(case o' of None \<Rightarrow> (st0, w) | Some r \<Rightarrow> strip_project_candidates env r (range_order env cands) st0 w) = (st, w1)"
      by fastforce
    have w1: "run_ok env w1"
    proof (cases o')
      case (Some r)
      with o have "root_on r b w" using openRootedOptional_good [OF assms(1) b] by simp
      from strip_project_candidates_run [OF assms(1,2) this cs] s Some show ?thesis by simp
    qed (use s assms(1) in simp)
    obtain e w2 where sv: "saveManifest env (abs_path cb)
        (m\<lparr>mf_seeds := forget_project (Clean (abs_path b) @ [slash]) st (mf_seeds m)\<rparr>) w1 = (e, w2)" by fastforce
    have "w' = w2"
      using assms(6) Inr o s sv by (auto simp: StripProjectSeeds_def Let_def cands_def st0_def split: option.splits)
    with saveManifest_run(1) [OF w1 assms(3,4) sv] show ?thesis by simp
  qed
qed

text \<open>Every candidate that held a text holds the stripped one (stripped again for every further name the ledger has of it).\<close>

definition project_seeds_stripped :: "env \<Rightarrow> path \<Rightarrow> path \<Rightarrow> world \<Rightarrow> world \<Rightarrow> bool" where
  "project_seeds_stripped env cb b w w' \<longleftrightarrow>
     (\<exists>m. loadManifest env w (abs_path cb) = Inr m \<and>
        (\<forall>p \<in> set (seed_candidates env m (abs_path b) w). \<forall>c perm. look w (pcomps p) = Some (File c perm) \<longrightarrow>
           (\<exists>n perm'. look w' (pcomps p) = Some (File ((seed_stripped ^^ Suc n) c) perm'))))"

lemma stripped_kept:
  assumes "project_seeds_stripped env cb b w w1" "\<And>q c p. memory_file q \<Longrightarrow> look w1 q = Some (File c p) \<Longrightarrow> look w2 q = Some (File c p)"
    and "\<And>m p. p \<in> set (seed_candidates env m (abs_path b) w) \<Longrightarrow> memory_comps (pcomps p)"
  shows "project_seeds_stripped env cb b w w2"
  using assms memory_comps_file unfolding project_seeds_stripped_def by meson

lemma reachable_opens: "os_Stat env w d = Inr nd \<Longrightarrow> openRootedOptional env w d \<noteq> Inr None"
  by (auto simp: os_Stat_def node_at_def openRootedOptional_def openRooted_def split: sum.splits option.splits if_splits node.splits)

lemma candidates_shape:
  assumes "list_all plain_comp b" "p \<in> set (seed_candidates env m (abs_path b) w)"
  shows "IsAbs p \<and> memory_comps (pcomps p)"
proof -
  have "abs_path b \<noteq> []" by (simp add: abs_path_def)
  then have "Join [abs_path b, ''.claude'', ''agent-memory''] = Join [abs_path b, join_with slash [''.claude'', ''agent-memory'']]"
    by (rule Join_three) simp_all
  also have "\<dots> = abs_path (pcomps (abs_path b) @ [''.claude'', ''agent-memory''])"
    by (rule Join_plain) (simp_all add: plain_comp_def)
  finally have j: "Join [abs_path b, ''.claude'', ''agent-memory''] = abs_path ((b @ [''.claude'']) @ [''agent-memory''])"
    by (simp add: pcomps_abs_path [OF assms(1)])
  have "list_all plain_comp (b @ [''.claude''])" using assms(1) by (simp add: plain_comp_def)
  then show ?thesis
    using assms(2) scanned_shape [OF _ _ j, of p env w] validSeedPath_comps [of p] by (auto simp: seed_candidates_def j)
qed

lemma StripProjectSeeds_done:
  assumes "run_ok env w" "roots_ok {b}" "list_all plain_comp cb" "cb \<noteq> []" "\<And>ks. set (range_order env ks) = set ks"
    and "StripProjectSeeds env (abs_path cb) (abs_path b) w = ((n, Inr []), w')" "os_Stat env w (abs_path b) = Inr nd"
  shows "project_seeds_stripped env cb b w w'"
proof (cases "loadManifest env w (abs_path cb)")
  case (Inl err)
  with assms(6) show ?thesis by (simp add: StripProjectSeeds_def)
next
  case (Inr m)
  have b: "list_all plain_comp b" "b \<noteq> []" using assms(2) by (auto simp: roots_ok_def)
  define ps where "ps = range_order env (seed_candidates env m (abs_path b) w)"
  define st0 where "st0 = \<lparr>sp_stripped = 0, sp_malformed = {}, sp_failed = {}, sp_errs = []\<rparr>"
  have ps: "set ps = set (seed_candidates env m (abs_path b) w)" using assms(5) by (simp add: ps_def)
  have cs: "\<And>p. p \<in> set ps \<Longrightarrow> IsAbs p \<and> memory_comps (pcomps p)" using candidates_shape [OF b(1)] ps by blast
  obtain r where o: "openRootedOptional env w (abs_path b) = Inr (Some r)"
    using reachable_opens [OF assms(7)] assms(6) Inr
    by (cases "openRootedOptional env w (abs_path b)") (auto simp: StripProjectSeeds_def Let_def)
  have ro: "root_on r b w" by (rule openRootedOptional_good [OF assms(1) b o])
  obtain st w1 where s: "strip_project_candidates env r ps st0 w = (st, w1)" by fastforce
  obtain e w2 where sv: "saveManifest env (abs_path cb)
      (m\<lparr>mf_seeds := forget_project (Clean (abs_path b) @ [slash]) st (mf_seeds m)\<rparr>) w1 = (e, w2)" by fastforce
  have e: "w' = w2" "sp_errs st = []"
    using assms(6) Inr o s sv by (auto simp: StripProjectSeeds_def Let_def ps_def st0_def split: option.splits)
  have w1: "run_ok env w1" by (rule strip_project_candidates_run [OF assms(1,2) ro cs s])
  have "\<exists>n perm'. look w2 (pcomps p) = Some (File ((seed_stripped ^^ Suc n) c) perm')"
    if p: "p \<in> set ps" and l: "look w (pcomps p) = Some (File c perm)" for p c perm
  proof -
    have mf: "memory_file (pcomps p)" using cs [OF p] memory_comps_file by blast
    have "p \<in> set (filter (\<lambda>x. pcomps x = pcomps p) ps)" using p by simp
    then have "length (filter (\<lambda>x. pcomps x = pcomps p) ps) \<noteq> 0" by (metis length_0_conv list.distinct(1) list.set_cases)
    then obtain n where n: "length (filter (\<lambda>x. pcomps x = pcomps p) ps) = Suc n" by (meson not0_implies_Suc)
    from strip_loop [OF assms(1,2) ro cs s e(2) l mf] obtain perm' where
      "look w1 (pcomps p) = Some (File ((seed_stripped ^^ Suc n) c) perm')" unfolding n by blast
    from saveManifest_kept [OF w1 assms(3,4) sv mf this] show ?thesis by blast
  qed
  with Inr ps e(1) show ?thesis unfolding project_seeds_stripped_def by auto
qed

lemma StripProjectRules_kept:
  assumes "run_ok env w" "list_all plain_comp b" "b \<noteq> []" "list_all plain_comp cb" "cb \<noteq> []"
    and "StripProjectRules env (abs_path cb) (abs_path b) w = (x, w')" "memory_file q" "look w q = Some (File c p)"
  shows "look w' q = Some (File c p)"
proof (cases "loadManifest env w (abs_path cb)")
  case (Inl err)
  with assms(6,8) show ?thesis by (simp add: StripProjectRules_def)
next
  case (Inr m)
  obtain k ws j w1 where s: "stripRulesFromProject env (abs_path b) w = ((k, ws, j), w1)" by (metis surj_pair)
  have l: "look w1 q = Some (File c p)" by (rule stripRulesFromProject_kept [OF assms(1-3) s assms(7,8)])
  have w1: "run_ok env w1" by (rule stripRulesFromProject_good(1) [OF assms(1,2) s])
  have "w' = w1 \<or> (\<exists>m' e. saveManifest env (abs_path cb) m' w1 = (e, w'))"
    using assms(6) Inr s by (auto simp: StripProjectRules_def Let_def split: sum.splits option.splits prod.splits if_splits)
  with l saveManifest_kept [OF w1 assms(4,5) _ assms(7) l] show ?thesis by blast
qed

subsection \<open>The rules strip of a project\<close>

definition malformed_left :: "path \<Rightarrow> world \<Rightarrow> bool" where
  "malformed_left b w \<longleftrightarrow>
     (\<exists>f c p. managed_name f \<and> look w (b @ [f]) = Some (File c p) \<and> \<not> rulesMarkersHealthy c)"

lemma stripRulesFile_warned:
  assumes "run_ok env w" "root_on r b w" "managed_name f"
    "stripRulesFile env r (abs_path (b @ [f])) w = (Inr (n, Some x), w')"
  shows "w' = w" "\<exists>c p. look w (b @ [f]) = Some (File c p) \<and> \<not> rulesMarkersHealthy c"
proof -
  have g: "good_tree w" using assms(1) by (simp add: run_ok_def)
  have pc: "list_all plain_comp [f]" using managed_plain [OF assms(3)] by simp
  obtain data where d: "r_readFile env w r (abs_path (b @ [f])) = Inr data"
    using assms(4) by (cases "r_readFile env w r (abs_path (b @ [f]))") (auto simp: stripRulesFile_def split: ioerr.splits)
  with assms(4) have "w' = w \<and> \<not> rulesMarkersHealthy data"
    by (auto simp: stripRulesFile_def split: if_splits prod.splits option.splits)
  with r_readFile_Inr [OF g assms(2) pc _ d]
  show "w' = w" "\<exists>c p. look w (b @ [f]) = Some (File c p) \<and> \<not> rulesMarkersHealthy c" by auto
qed

lemma stripRulesFile_frame:
  assumes "run_ok env w" "root_on r b w" "managed_name f" "managed_name g" "g \<noteq> f"
    "stripRulesFile env r (abs_path (b @ [f])) w = (x, w')" "look w (b @ [g]) = Some (File c p)"
  shows "look w' (b @ [g]) = Some (File c p)"
proof (rule ccontr)
  assume n: "look w' (b @ [g]) \<noteq> Some (File c p)"
  with assms(7) have "w' \<noteq> w" by auto
  with assms(6) obtain out perm e where wr: "r_writeAtomic env r (abs_path (b @ [f])) out perm w = (e, w')"
    by (auto simp: stripRulesFile_def split: sum.splits ioerr.splits if_splits prod.splits option.splits)
  have gd: "good_tree w" "\<not> active w" "plain_env env" using assms(1) by (auto simp: run_ok_def)
  have pc: "list_all plain_comp [f]" using managed_plain [OF assms(3)] by simp
  from write_good(4) [OF gd(1,2) assms(2) pc _ gd(3) wr] n assms(7)
  have "b @ [g] = b @ [f] \<or> temp_of (b @ [f]) (b @ [g])" unfolding files_kept_def by (metis not_Cons_self2)
  with assms(4,5) managed_not_temp [of "b @ [f]" "b @ [g]"] show False by simp
qed

lemma stripRulesFromProject_done:
  assumes "run_ok env w" "list_all plain_comp b" "b \<noteq> []" "stripRulesFromProject env (abs_path b) w = ((n, ws, Inr []), w')"
  shows "block_gone b w' \<or> malformed_left b w'"
proof (cases "ws = []")
  case True
  with stripRulesFromProject_good(3) [OF assms(1,2,4)] show ?thesis by simp
next
  case False
  obtain r where o: "openRootedOptional env w (abs_path b) = Inr (Some r)"
    using assms(4) False by (auto simp: stripRulesFromProject_def split: sum.splits option.splits)
  have ro: "root_on r b w" by (rule openRootedOptional_good [OF assms(1-3) o])
  let ?f = "\<lambda>n. abs_path (b @ [n])"
  have m: "managed_name ''AGENTS.md''" "managed_name ''CLAUDE.md''" by (simp_all add: managed_name_def)
  have rf: "resolveContained (abs_path b) f = Inr (?f f)" if "managed_name f" for f
    using resolve_file [OF assms(2) managed_plain [OF that]] assms(3) by simp
  obtain x w1 where s1: "stripRulesFile env r (?f ''AGENTS.md'') w = (x, w1)" by fastforce
  obtain y w2 where s2: "stripRulesFile env r (?f ''CLAUDE.md'') w1 = (y, w2)" by fastforce
  note S1 = stripRulesFile_good [OF assms(1) ro m(1) s1]
  have run: "strip_files env r (abs_path b) [''AGENTS.md'', ''CLAUDE.md''] 0 [] [] w = ((n, ws, Inr []), w')"
    using assms(4) o by (simp add: stripRulesFromProject_def rulesManagedFiles_def)
  then obtain n1 k1 n2 k2 where xy: "x = Inr (n1, k1)" "y = Inr (n2, k2)" "w' = w2" "k1 \<noteq> None \<or> k2 \<noteq> None"
    using False by (auto simp: rf [OF m(1)] rf [OF m(2)] s1 s2 split: sum.splits prod.splits option.splits)
  show ?thesis
  proof (cases k2)
    case (Some z)
    with stripRulesFile_warned [OF S1(1,2) m(2)] s2 xy m(2) show ?thesis unfolding malformed_left_def by blast
  next
    case None
    with xy(4) obtain z where "k1 = Some z" by auto
    with stripRulesFile_warned [OF assms(1) ro m(1)] s1 xy(1) obtain c p where
      "w1 = w" "look w (b @ [''AGENTS.md'']) = Some (File c p)" "\<not> rulesMarkersHealthy c" by blast
    moreover from this have "look w2 (b @ [''AGENTS.md'']) = Some (File c p)"
      using stripRulesFile_frame [OF S1(1,2) m(2,1) _ s2] by simp
    ultimately show ?thesis using m(1) xy(3) unfolding malformed_left_def by blast
  qed
qed

lemma StripProjectRules_done:
  assumes "run_ok env w" "list_all plain_comp b" "b \<noteq> []" "list_all plain_comp cb" "cb \<noteq> []"
    "StripProjectRules env (abs_path cb) (abs_path b) w = ((n, Inr []), w')"
  shows "block_gone b w' \<or> malformed_left b w'"
proof (cases "loadManifest env w (abs_path cb)")
  case (Inl err)
  with assms(6) show ?thesis by (simp add: StripProjectRules_def)
next
  case (Inr m)
  obtain k ws j w1 where s: "stripRulesFromProject env (abs_path b) w = ((k, ws, j), w1)" by (metis surj_pair)
  have "j = Inr [] \<and> (\<exists>m'. saveManifest env (abs_path cb) m' w1 = (None, w'))"
    using assms(6) Inr s by (auto simp: StripProjectRules_def Let_def split: sum.splits option.splits prod.splits)
  then obtain m' where j: "j = Inr []" and sv: "saveManifest env (abs_path cb) m' w1 = (None, w')" by blast
  have w1: "run_ok env w1" by (rule stripRulesFromProject_good(1) [OF assms(1,2) s])
  note S = saveManifest_run [OF w1 assms(4,5) sv]
  from stripRulesFromProject_done [OF assms(1-3) s [unfolded j]] show ?thesis
  proof
    assume "block_gone b w1"
    with block_gone_kept S(2) show ?thesis by blast
  next
    assume "malformed_left b w1"
    then obtain f c p where "managed_name f" "look w1 (b @ [f]) = Some (File c p)" "\<not> rulesMarkersHealthy c"
      unfolding malformed_left_def by blast
    moreover from this have "look w' (b @ [f]) = Some (File c p)" using S(3) [of "b @ [f]"] by simp
    ultimately show ?thesis unfolding malformed_left_def by blast
  qed
qed

subsection \<open>\<open>project remove\<close>\<close>

lemma joined_none: "joined_error j = None \<longleftrightarrow> j = Inr []"
  by (auto simp: joined_error_def split: sum.splits list.splits)

lemma strip_project_keeps: "strip_project me p mc = (e, mc1) \<Longrightarrow> mc1 = mc\<lparr>mc_fs := mc_fs mc1\<rparr>"
  by (auto simp: strip_project_def Let_def split: option.splits prod.splits)

lemma strip_project_done:
  assumes "run_ok (me_env me) (mc_fs mc)" "home_dir (me_env me) = Some (abs_path hb)" "list_all plain_comp hb"
    and "\<And>ks. set (range_order (me_env me) ks) = set ks" "roots_ok {b}"
    and "strip_project me (abs_path b) mc = (None, mc1)" "os_Stat (me_env me) (mc_fs mc) (abs_path b) = Inr nd"
  shows "(block_gone b (mc_fs mc1) \<or> malformed_left b (mc_fs mc1)) \<and>
    project_seeds_stripped (me_env me) (hb @ [''.claude'']) b (mc_fs mc) (mc_fs mc1)"
proof -
  let ?c = "hb @ [''.claude'']"
  have c: "list_all plain_comp ?c" "?c \<noteq> []" using assms(3) by (simp_all add: plain_comp_def)
  have b: "list_all plain_comp b" "b \<noteq> []" using assms(5) by (auto simp: roots_ok_def)
  have j: "Join [abs_path hb, ''.claude''] = abs_path ?c"
    using Join_plain [of "abs_path hb" "[''.claude'']"] by (simp add: pcomps_abs_path [OF assms(3)] plain_comp_def)
  obtain n sj w1 where s: "StripProjectSeeds (me_env me) (abs_path ?c) (abs_path b) (mc_fs mc) = ((n, sj), w1)" by (metis surj_pair)
  obtain rn rj w2 where r: "StripProjectRules (me_env me) (abs_path ?c) (abs_path b) w1 = ((rn, rj), w2)" by (metis surj_pair)
  have e: "rj = Inr []" "mc_fs mc1 = w2" "sj = Inr []"
    using assms(2,6) s r by (auto simp: strip_project_def j joined_none split: option.splits)
  have w1: "run_ok (me_env me) w1" by (rule StripProjectSeeds_run [OF assms(1,5) c _ s]) (simp add: assms(4))
  have "project_seeds_stripped (me_env me) ?c b (mc_fs mc) w1"
    by (rule StripProjectSeeds_done [OF assms(1,5) c assms(4) s [unfolded e(3)] assms(7)])
  then have "project_seeds_stripped (me_env me) ?c b (mc_fs mc) w2"
    by (rule stripped_kept [OF _ StripProjectRules_kept [OF w1 b c r]]) (use candidates_shape [OF b(1)] in auto)
  with StripProjectRules_done [OF w1 b c r [unfolded e(1)]] e(2) show ?thesis by simp
qed

lemma RemoveProject_result:
  assumes "RemoveProject me proj mc = (Inr r, mc')" "ResolveRegisteredProject me proj mc = Inr (p, True)"
  shows "\<exists>ps. LoadProjects mc = Inr ps \<and> mc_projects mc' = Holds (sort_key pj_path (filter (\<lambda>x. pj_path x \<noteq> p) ps)) \<and>
    mc_fs mc' = mc_fs mc"
  using assms by (auto simp: RemoveProject_def saveProjects_def split: sum.splits option.splits)

lemma RemoveProject_failed:
  "RemoveProject me proj mc = (Inl e, mc') \<Longrightarrow> mc_projects mc' = mc_projects mc"
  by (auto simp: RemoveProject_def saveProjects_def split: sum.splits option.splits prod.splits bool.splits)


text \<open>A project with a seed and a stray second end marker in its \<open>AGENTS.md\<close>, removed without a word.\<close>

definition orphan_text :: bytes where
  "orphan_text = ''<!-- ORBEAT-RULES:BEGIN sha=00112233aabb managed -->'' @ [nl] @ ''body'' @ [nl] @
     ''<!-- ORBEAT-RULES:END -->'' @ [nl] @ ''<!-- ORBEAT-RULES:END -->'' @ [nl]"

definition seeded_text :: bytes where
  "seeded_text = ''<!-- ORBEAT-SEED:BEGIN x sha=00112233aabb '' @ seedNote @ [nl] @ ''body'' @ [nl] @
     ''<!-- ORBEAT-SEED:END x -->'' @ [nl] @ ''mine'' @ [nl]"

definition orphan_memory :: path where "orphan_memory = [''p'', ''.claude'', ''agent-memory'', ''x'', ''MEMORY.md'']"

definition orphan_machine :: machine where
  "orphan_machine = \<lparr>mc_fs = \<lparr>nodes = [([''p''], Dir), ([''p'', ''AGENTS.md''], File orphan_text 420), ([''p'', ''.claude''], Dir),
       ([''p'', ''.claude'', ''agent-memory''], Dir), ([''p'', ''.claude'', ''agent-memory'', ''x''], Dir),
       (orphan_memory, File seeded_text 420)], plan = None\<rparr>,
     mc_projects = Holds [\<lparr>pj_path = ''/p'', pj_tags = []\<rparr>], mc_pins = NoFile, mc_install = NoFile, mc_token = NoFile,
     mc_dir = True, mc_lock_file = False, mc_sent = [], mc_oauth = []\<rparr>"

definition orphan_env :: machine_env where
  "orphan_env = \<lparr>me_env = sample_env\<lparr>home_dir := Some ''/h''\<rparr>,
     me_api = \<lparr>ae_base = [], ae_do = (\<lambda>_. NoAnswer []), ae_artifacts = (\<lambda>_. Inl []), ae_config = (\<lambda>_. Inl []), ae_report = (\<lambda>_. Inl [])\<rparr>,
     me_oidc = \<lparr>oi_discovery = [], oi_client = [], oi_now = 0, oi_do = (\<lambda>_. NoAnswer []), oi_metadata = (\<lambda>_. Inl []),
       oi_tokens = (\<lambda>_. Inl []), oi_save = None\<rparr>,
     me_lock = LockTaken, me_save = (\<lambda>_. None), me_cwd = Inr ''/'', me_random = Inl []\<rparr>"


end
