(* ===== verification/RateLimit.thy ===== *)
theory RateLimit
  imports Complex_Main "HOL-Library.AList"
begin

text \<open>
  Per-key limiting (\<open>internal/ratelimit\<close>): the token-bucket limiter with its bounded bucket map,
  its least-recently-used eviction, its sweeper and its log sampler. The bucket arithmetic is
  \<open>golang.org/x/time/rate\<close>, a parameter of the model (\<open>rate_ops\<close>); \<open>Limiter.mu\<close> makes every
  operation one atomic step. Instants and durations are nanoseconds; the zero \<open>time.Time\<close> is
  \<open>None\<close>; \<open>float64\<close> quantities are exact rationals.
\<close>

subsection \<open>Keys and the log sampler\<close>

record principal =
  pr_subject :: string
  pr_client_id :: string
  pr_roles :: "string list"
  pr_email :: string

definition KeyFor :: "principal \<Rightarrow> string" where
  "KeyFor p = (if pr_client_id p = [] then pr_subject p else pr_subject p @ ''|'' @ pr_client_id p)"

type_synonym instant = int

definition logSampleInterval :: int where "logSampleInterval = 60 * 1000000000"

fun sampleLog :: "instant option \<Rightarrow> instant \<Rightarrow> bool" where
  "sampleLog None now = True"
| "sampleLog (Some t) now = (now - t \<ge> logSampleInterval)"

subsection \<open>State\<close>

text \<open>\<open>rate.NewLimiter\<close>, \<open>AllowN(t, 1)\<close> and \<open>TokensAt(t)\<close>.\<close>

record 'l rate_ops =
  rl_new :: "rat \<Rightarrow> int \<Rightarrow> 'l"
  rl_allow :: "'l \<Rightarrow> instant \<Rightarrow> bool \<times> 'l"
  rl_tokens :: "'l \<Rightarrow> instant \<Rightarrow> rat"

record 'l bucket =
  b_lim :: 'l
  b_lastUsed :: instant
  b_lastLogged :: "instant option"

record 'l limiter =
  lm_buckets :: "(string \<times> 'l bucket) list"
  lm_rps :: rat
  lm_burst :: int
  lm_ttl :: int
  lm_maxEntries :: int

definition newLimiter :: "rat \<Rightarrow> int \<Rightarrow> int \<Rightarrow> int \<Rightarrow> 'l limiter" where
  "newLimiter rps burst ttl maxEntries =
     \<lparr>lm_buckets = [], lm_rps = rps, lm_burst = (if burst < 1 then 1 else burst), lm_ttl = ttl,
      lm_maxEntries = maxEntries\<rparr>"

definition limiter_Len :: "'l limiter \<Rightarrow> nat" where
  "limiter_Len l = length (lm_buckets l)"

subsection \<open>Eviction and sweeping\<close>

text \<open>
  The loop over the map that looks for the oldest bucket; the list is the order of the
  \<open>range\<close>, and the empty key is its own "none found yet".
\<close>

fun oldest_loop :: "(string \<times> 'l bucket) list \<Rightarrow> string \<Rightarrow> instant \<Rightarrow> string" where
  "oldest_loop [] oldestKey oldest = oldestKey"
| "oldest_loop ((k, b) # bs) oldestKey oldest =
     (if oldestKey = [] \<or> b_lastUsed b < oldest then oldest_loop bs k (b_lastUsed b)
      else oldest_loop bs oldestKey oldest)"

definition evictIfFullLocked :: "'l limiter \<Rightarrow> 'l limiter" where
  "evictIfFullLocked l =
     (if lm_maxEntries l \<le> 0 \<or> int (length (lm_buckets l)) < lm_maxEntries l then l
      else l\<lparr>lm_buckets := AList.delete (oldest_loop (lm_buckets l) [] 0) (lm_buckets l)\<rparr>)"

definition limiter_sweep :: "instant \<Rightarrow> 'l limiter \<Rightarrow> nat \<times> 'l limiter" where
  "limiter_sweep now l =
     (let cutoff = now - lm_ttl l;
          kept = filter (\<lambda>(k, b). \<not> b_lastUsed b < cutoff) (lm_buckets l) in
      (length (lm_buckets l) - length kept, l\<lparr>lm_buckets := kept\<rparr>))"

subsection \<open>The decision\<close>

definition retry_after :: "rat \<Rightarrow> rat \<Rightarrow> int" where
  "retry_after rps tokens =
     (let need = (if 1 - tokens < 0 then 0 else 1 - tokens) in \<lfloor>need / rps * 1000000000\<rfloor>)"

text \<open>The bucket of a key, made when the key is new.\<close>

definition bucket_for :: "'l rate_ops \<Rightarrow> string \<Rightarrow> 'l limiter \<Rightarrow> 'l bucket \<times> 'l limiter" where
  "bucket_for rt key l =
     (case map_of (lm_buckets l) key of
        Some b \<Rightarrow> (b, l)
      | None \<Rightarrow>
          let l1 = evictIfFullLocked l;
              b = \<lparr>b_lim = rl_new rt (lm_rps l) (lm_burst l), b_lastUsed = 0, b_lastLogged = None\<rparr> in
          (b, l1\<lparr>lm_buckets := AList.update key b (lm_buckets l1)\<rparr>))"

definition decideAt ::
  "'l rate_ops \<Rightarrow> string \<Rightarrow> instant \<Rightarrow> bool \<Rightarrow> 'l limiter \<Rightarrow> (bool \<times> int \<times> bool) \<times> 'l limiter" where
  "decideAt rt key now sample l =
     (if lm_rps l \<le> 0 then ((True, 0, False), l)
      else case bucket_for rt key l of
        (b0, l1) \<Rightarrow>
          (case rl_allow rt (b_lim b0) now of
             (allowed, lm) \<Rightarrow>
               let b = b0\<lparr>b_lim := lm, b_lastUsed := now\<rparr> in
               if allowed then
                 ((True, 0, False), l1\<lparr>lm_buckets := AList.update key b (lm_buckets l1)\<rparr>)
               else
                 let logRejection = (sample \<and> sampleLog (b_lastLogged b) now);
                     b1 = (if logRejection then b\<lparr>b_lastLogged := Some now\<rparr> else b) in
                 ((False, retry_after (lm_rps l) (rl_tokens rt lm now), logRejection),
                  l1\<lparr>lm_buckets := AList.update key b1 (lm_buckets l1)\<rparr>)))"

definition AllowAt :: "'l rate_ops \<Rightarrow> string \<Rightarrow> instant \<Rightarrow> 'l limiter \<Rightarrow> (bool \<times> int) \<times> 'l limiter" where
  "AllowAt rt key now l =
     (case decideAt rt key now False l of ((allowed, retryAfter, _), l1) \<Rightarrow> ((allowed, retryAfter), l1))"

definition AllowAtSampled ::
  "'l rate_ops \<Rightarrow> string \<Rightarrow> instant \<Rightarrow> 'l limiter \<Rightarrow> (bool \<times> int \<times> bool) \<times> 'l limiter" where
  "AllowAtSampled rt key now l = decideAt rt key now True l"

subsection \<open>The adapters\<close>

text \<open>What a rejection reports: the counter always moves, the log line only when sampled.\<close>

record reports =
  rp_counter :: "(string \<times> string) list"
  rp_lines :: "(string \<times> string \<times> string) list"

definition reportRejected :: "string \<Rightarrow> string \<Rightarrow> string \<Rightarrow> bool \<Rightarrow> reports \<Rightarrow> reports" where
  "reportRejected service reason key logRejection o' =
     o'\<lparr>rp_counter := rp_counter o' @ [(service, reason)],
       rp_lines := (if logRejection then rp_lines o' @ [(service, reason, key)] else rp_lines o')\<rparr>"

definition retry_secs :: "int \<Rightarrow> int" where
  "retry_secs retry = (let secs = \<lceil>rat_of_int retry / 1000000000\<rceil> in if secs < 1 then 1 else secs)"

datatype http_outcome = Next | Denied int

text \<open>\<open>HTTP\<close>: a request without a principal passes.\<close>

definition rateHTTP ::
  "'l rate_ops \<Rightarrow> principal option \<Rightarrow> instant \<Rightarrow> 'l limiter \<Rightarrow> reports \<Rightarrow> http_outcome \<times> 'l limiter \<times> reports" where
  "rateHTTP rt p now l o' =
     (case p of
        None \<Rightarrow> (Next, l, o')
      | Some pr \<Rightarrow>
          (case AllowAtSampled rt (KeyFor pr) now l of
             ((allowed, retry, logRejection), l1) \<Rightarrow>
               if allowed then (Next, l1, o')
               else (Denied (retry_secs retry), l1, reportRejected ''api'' ''http'' (KeyFor pr) logRejection o')))"

definition codeRateLimited :: int where "codeRateLimited = - 32029"

datatype mcp_outcome = Forwarded | Limited int int | Capped int int int

definition rateLimitedError :: "int \<Rightarrow> mcp_outcome" where
  "rateLimitedError retry = Limited codeRateLimited (retry_secs retry)"

text \<open>\<open>MCP\<close>: the limiter may be absent, the key underivable, the method another one.\<close>

definition rateMCP ::
  "'l rate_ops \<Rightarrow> string \<Rightarrow> string \<Rightarrow> string option \<Rightarrow> instant \<Rightarrow> 'l limiter option \<Rightarrow> reports \<Rightarrow>
   mcp_outcome \<times> 'l limiter option \<times> reports" where
  "rateMCP rt meth m key now l o' =
     (case l of
        None \<Rightarrow> (Forwarded, l, o')
      | Some lmt \<Rightarrow>
          if m \<noteq> meth then (Forwarded, l, o')
          else case key of
            None \<Rightarrow> (Forwarded, l, o')
          | Some k \<Rightarrow>
              (case AllowAtSampled rt k now lmt of
                 ((allowed, retry, logRejection), lmt1) \<Rightarrow>
                   if allowed then (Forwarded, Some lmt1, o')
                   else (rateLimitedError retry, Some lmt1, reportRejected ''gateway'' meth k logRejection o')))"

subsection \<open>Lemmas on the bucket map\<close>

lemma oldest_loop_in: "oldest_loop bs k t \<in> insert k (fst ` set bs)"
  by (induction bs k t rule: oldest_loop.induct) auto

lemma oldest_loop_found: "bs \<noteq> [] \<Longrightarrow> oldest_loop bs [] t \<in> fst ` set bs"
  using oldest_loop_in by (cases bs) fastforce+

definition least_from :: "(string \<times> 'l bucket) list \<Rightarrow> string \<Rightarrow> instant \<Rightarrow> string \<Rightarrow> instant \<Rightarrow> bool" where
  "least_from bs k t r u \<longleftrightarrow> (r = k \<and> u = t \<or> (\<exists>b. (r, b) \<in> set bs \<and> b_lastUsed b = u)) \<and> u \<le> t \<and>
     (\<forall>k' b. (k', b) \<in> set bs \<longrightarrow> u \<le> b_lastUsed b)"

lemma oldest_loop_least:
  "k \<noteq> [] \<Longrightarrow> [] \<notin> fst ` set bs \<Longrightarrow> \<exists>u. least_from bs k t (oldest_loop bs k t) u"
proof (induction bs arbitrary: k t)
  case Nil
  then show ?case by (simp add: least_from_def)
next
  case (Cons kb bs)
  obtain k1 b where kb: "kb = (k1, b)" by fastforce
  have ne: "k1 \<noteq> []" "[] \<notin> fst ` set bs" using Cons.prems(2) kb by auto
  show ?case
  proof (cases "b_lastUsed b < t")
    case True
    from Cons.IH [OF ne, of "b_lastUsed b"] obtain u where
      "least_from bs k1 (b_lastUsed b) (oldest_loop bs k1 (b_lastUsed b)) u" by blast
    with True kb show ?thesis by (intro exI [of _ u]) (auto simp: least_from_def)
  next
    case False
    from Cons.IH [OF Cons.prems(1) ne(2), of t] obtain u where "least_from bs k t (oldest_loop bs k t) u" by blast
    with False kb Cons.prems(1) show ?thesis by (intro exI [of _ u]) (auto simp: least_from_def)
  qed
qed

lemma length_delete:
  assumes "distinct (map fst bs)" "k \<in> fst ` set bs"
  shows "length (AList.delete k bs) = length bs - 1"
proof -
  have "length (AList.delete k bs) = card (dom (map_of (AList.delete k bs)))"
    using distinct_card [OF distinct_delete [OF assms(1), of k]] by (simp add: dom_map_of_conv_image_fst)
  also have "\<dots> = card (dom (map_of bs) - {k})" by (simp add: delete_conv')
  also have "\<dots> = card (dom (map_of bs)) - 1"
    using assms(2) by (simp add: dom_map_of_conv_image_fst)
  also have "card (dom (map_of bs)) = length bs"
    using distinct_card [OF assms(1)] by (simp add: dom_map_of_conv_image_fst)
  finally show ?thesis .
qed

lemma length_update:
  "length (AList.update k v bs) = (if k \<in> fst ` set bs then length bs else Suc (length bs))"
  by (induction bs) auto

definition limiter_ok :: "'l limiter \<Rightarrow> bool" where
  "limiter_ok l \<longleftrightarrow> distinct (map fst (lm_buckets l)) \<and>
     (lm_maxEntries l > 0 \<longrightarrow> int (length (lm_buckets l)) \<le> lm_maxEntries l)"

lemma evict_keeps: "lm_maxEntries (evictIfFullLocked l) = lm_maxEntries l" "lm_rps (evictIfFullLocked l) = lm_rps l"
  by (simp_all add: evictIfFullLocked_def)

lemma evict_ok:
  assumes "limiter_ok l"
  shows "distinct (map fst (lm_buckets (evictIfFullLocked l)))"
    "lm_maxEntries l > 0 \<Longrightarrow> int (length (lm_buckets (evictIfFullLocked l))) < lm_maxEntries l"
proof -
  have d: "distinct (map fst (lm_buckets l))" using assms by (simp add: limiter_ok_def)
  then show "distinct (map fst (lm_buckets (evictIfFullLocked l)))"
    by (simp add: evictIfFullLocked_def distinct_delete)
  assume mx: "lm_maxEntries l > 0"
  show "int (length (lm_buckets (evictIfFullLocked l))) < lm_maxEntries l"
  proof (cases "int (length (lm_buckets l)) < lm_maxEntries l")
    case False
    then have ne: "lm_buckets l \<noteq> []" using mx by auto
    have "length (AList.delete (oldest_loop (lm_buckets l) [] 0) (lm_buckets l)) = length (lm_buckets l) - 1"
      by (rule length_delete [OF d oldest_loop_found [OF ne]])
    moreover have "int (length (lm_buckets l)) \<le> lm_maxEntries l" using assms mx by (simp add: limiter_ok_def)
    moreover have "length (lm_buckets l) > 0" using ne by simp
    ultimately show ?thesis using False mx by (simp add: evictIfFullLocked_def)
  qed (simp add: evictIfFullLocked_def)
qed

lemma bucket_for_ok:
  assumes "limiter_ok l" "bucket_for rt key l = (b, l1)"
  shows "limiter_ok l1" "map_of (lm_buckets l1) key = Some b" "lm_maxEntries l1 = lm_maxEntries l"
    "map_of (lm_buckets l) key = Some b0 \<Longrightarrow> l1 = l \<and> b = b0"
    "map_of (lm_buckets l) key = None \<Longrightarrow> b_lastLogged b = None"
proof -
  have "limiter_ok l1 \<and> map_of (lm_buckets l1) key = Some b \<and> lm_maxEntries l1 = lm_maxEntries l"
  proof (cases "map_of (lm_buckets l) key")
    case None
    define l0 where "l0 = evictIfFullLocked l"
    have l1: "l1 = l0\<lparr>lm_buckets := AList.update key b (lm_buckets l0)\<rparr>"
      using assms(2) None by (auto simp: bucket_for_def Let_def l0_def)
    have "int (length (AList.update key b (lm_buckets l0))) \<le> lm_maxEntries l" if "lm_maxEntries l > 0"
      using evict_ok(2) [OF assms(1) that] by (simp add: length_update l0_def)
    then show ?thesis
      using l1 evict_ok(1) [OF assms(1)] evict_keeps [of l]
      by (auto simp: limiter_ok_def l0_def distinct_update update_conv')
  next
    case (Some b')
    with assms show ?thesis by (simp add: bucket_for_def)
  qed
  then show "limiter_ok l1" "map_of (lm_buckets l1) key = Some b" "lm_maxEntries l1 = lm_maxEntries l" by auto
  show "map_of (lm_buckets l) key = Some b0 \<Longrightarrow> l1 = l \<and> b = b0"
    "map_of (lm_buckets l) key = None \<Longrightarrow> b_lastLogged b = None"
    using assms(2) by (auto simp: bucket_for_def Let_def)
qed

lemma store_ok:
  assumes "limiter_ok l1" "map_of (lm_buckets l1) key = Some b"
  shows "limiter_ok (l1\<lparr>lm_buckets := AList.update key b' (lm_buckets l1)\<rparr>)"
proof -
  from assms(2) have "key \<in> fst ` set (lm_buckets l1)" by (metis domI dom_map_of_conv_image_fst)
  with assms(1) show ?thesis by (auto simp: limiter_ok_def distinct_update length_update)
qed

lemma decideAt_ok:
  assumes "limiter_ok l" "decideAt rt key now sample l = (r, l')"
  shows "limiter_ok l' \<and> lm_maxEntries l' = lm_maxEntries l"
proof (cases "lm_rps l \<le> 0")
  case True
  with assms show ?thesis by (simp add: decideAt_def)
next
  case False
  obtain b l1 where b: "bucket_for rt key l = (b, l1)" by fastforce
  note B = bucket_for_ok(1-3) [OF assms(1) b]
  obtain ok lm where a: "rl_allow rt (b_lim b) now = (ok, lm)" by fastforce
  have "\<exists>b'. l' = l1\<lparr>lm_buckets := AList.update key b' (lm_buckets l1)\<rparr>"
    using assms(2) False b a by (auto simp: decideAt_def Let_def split: if_splits)
  with store_ok [OF B(1,2)] B(3) show ?thesis by auto
qed

subsection \<open>Properties\<close>

text \<open>
  The events a limiter serves: decisions, and sweeps of its background goroutine.
\<close>

datatype lim_event = Decide string instant bool | SweepAt instant

fun lim_run :: "'l rate_ops \<Rightarrow> lim_event list \<Rightarrow> 'l limiter \<Rightarrow> 'l limiter" where
  "lim_run rt [] l = l"
| "lim_run rt (Decide key now sample # es) l = lim_run rt es (snd (decideAt rt key now sample l))"
| "lim_run rt (SweepAt now # es) l = lim_run rt es (snd (limiter_sweep now l))"

lemma sweep_ok: "limiter_ok l \<Longrightarrow> limiter_ok (snd (limiter_sweep now l))"
proof -
  assume a: "limiter_ok l"
  have "length (filter P (lm_buckets l)) \<le> length (lm_buckets l)" for P by (rule length_filter_le)
  then have "int (length (filter P (lm_buckets l))) \<le> lm_maxEntries l" if "lm_maxEntries l > 0" for P
    using a that unfolding limiter_ok_def by (meson dual_order.trans of_nat_le_iff)
  with a show "limiter_ok (snd (limiter_sweep now l))"
    by (auto simp: limiter_ok_def limiter_sweep_def Let_def distinct_map_filter)
qed

text \<open>
  Memory is bounded: whatever keys are presented and in whatever order decisions and sweeps
  interleave, a limiter with a positive \<open>maxEntries\<close> never holds more buckets than that.
\<close>

theorem limiter_bounded:
  assumes "mx > 0"
  shows "int (limiter_Len (lim_run rt es (newLimiter rps burst ttl mx))) \<le> mx"
proof -
  have "limiter_ok l \<Longrightarrow> limiter_ok (lim_run rt es l) \<and> lm_maxEntries (lim_run rt es l) = lm_maxEntries l" for l
  proof (induction rt es l rule: lim_run.induct)
    case (2 rt key now sample es l)
    then show ?case using decideAt_ok [of l rt key now sample] by (metis lim_run.simps(2) prod.collapse)
  next
    case (3 rt now es l)
    have "lm_maxEntries (snd (limiter_sweep now l)) = lm_maxEntries l" by (simp add: limiter_sweep_def Let_def)
    with 3 sweep_ok show ?case by (metis lim_run.simps(3))
  qed simp
  moreover have "limiter_ok (newLimiter rps burst ttl mx)" "lm_maxEntries (newLimiter rps burst ttl mx) = mx"
    using assms by (simp_all add: limiter_ok_def newLimiter_def)
  ultimately show ?thesis using assms by (metis limiter_Len_def limiter_ok_def)
qed

text \<open>A token bucket of one token that refills after a second, for the witnesses.\<close>

definition one_token :: "instant option rate_ops" where
  "one_token = \<lparr>rl_new = (\<lambda>_ _. None),
     rl_allow = (\<lambda>b now. case b of None \<Rightarrow> (True, Some now)
        | Some t \<Rightarrow> if now - t \<ge> 1000000000 then (True, Some now) else (False, b)),
     rl_tokens = (\<lambda>b now. case b of None \<Rightarrow> 1 | Some t \<Rightarrow> rat_of_int (now - t) / 1000000000)\<rparr>"

theorem limiter_bounded_witness:
  "int (limiter_Len (lim_run one_token [Decide ''a'' 1 True, Decide ''b'' 2 True] (newLimiter 1 1 60 1))) \<le> 1"
  by (rule limiter_bounded) simp

text \<open>
  The bucket dropped to make room is a least recently used one: no bucket that stays was used
  before it.
\<close>

theorem evicts_least_recent:
  assumes "distinct (map fst (lm_buckets l))" "[] \<notin> fst ` set (lm_buckets l)"
    and "(k, b) \<in> set (lm_buckets l)" "map_of (lm_buckets (evictIfFullLocked l)) k = None"
    and "(k', b') \<in> set (lm_buckets l)"
  shows "b_lastUsed b \<le> b_lastUsed b'"
proof -
  define old where "old = oldest_loop (lm_buckets l) [] 0"
  have kb: "map_of (lm_buckets l) k = Some b" using assms(1,3) by simp
  have "k = old"
    using assms(4) kb by (auto simp: evictIfFullLocked_def delete_conv' old_def split: if_splits)
  obtain k0 b0 bs where bs: "lm_buckets l = (k0, b0) # bs" using assms(3) by (cases "lm_buckets l") auto
  then have ne: "k0 \<noteq> []" "[] \<notin> fst ` set bs" using assms(2) by auto
  have o': "old = oldest_loop bs k0 (b_lastUsed b0)" using bs by (simp add: old_def)
  from oldest_loop_least [OF ne, of "b_lastUsed b0"] obtain t where
    t: "old = k0 \<and> t = b_lastUsed b0 \<or> (\<exists>c. (old, c) \<in> set bs \<and> b_lastUsed c = t)"
    "t \<le> b_lastUsed b0" "\<And>k1 b1. (k1, b1) \<in> set bs \<Longrightarrow> t \<le> b_lastUsed b1"
    unfolding o' least_from_def by blast
  have "\<exists>c. (old, c) \<in> set (lm_buckets l) \<and> b_lastUsed c = t" using t(1) bs by auto
  then have "b_lastUsed b = t"
    using assms(1,3) \<open>k = old\<close> by (metis map_of_eq_Some_iff option.inject)
  with t(2,3) assms(5) bs show ?thesis by auto
qed

theorem evicts_least_recent_witness:
  "b_lastUsed \<lparr>b_lim = (), b_lastUsed = 3, b_lastLogged = None\<rparr> \<le> b_lastUsed \<lparr>b_lim = (), b_lastUsed = 9, b_lastLogged = None\<rparr>"
  by (rule evicts_least_recent [where l = "\<lparr>lm_buckets = [(''x'', \<lparr>b_lim = (), b_lastUsed = 9, b_lastLogged = None\<rparr>),
      (''y'', \<lparr>b_lim = (), b_lastUsed = 3, b_lastLogged = None\<rparr>)], lm_rps = 1, lm_burst = 1, lm_ttl = 60, lm_maxEntries = 2\<rparr>"
      and k = "''y''" and k' = "''x''"])
    (auto simp: evictIfFullLocked_def delete_conv')

text \<open>
  Sampling is invisible to the decision: a caller that reports and one that does not get the
  same verdict and the same hint, and leave the same buckets with the same tokens; and the one
  that does not report leaves every log stamp as it was.
\<close>

definition unstamped :: "'l limiter \<Rightarrow> (string \<times> 'l \<times> instant) list" where
  "unstamped l = map (\<lambda>(k, b). (k, b_lim b, b_lastUsed b)) (lm_buckets l)"

lemma unstamped_update:
  "b_lim b = b_lim b' \<Longrightarrow> b_lastUsed b = b_lastUsed b' \<Longrightarrow>
   unstamped (l\<lparr>lm_buckets := AList.update k b (lm_buckets l)\<rparr>) = unstamped (l\<lparr>lm_buckets := AList.update k b' (lm_buckets l)\<rparr>)"
proof -
  assume a: "b_lim b = b_lim b'" "b_lastUsed b = b_lastUsed b'"
  have "map f (AList.update k b bs) = map f (AList.update k b' bs)"
    if "f = (\<lambda>(k, b). (k, b_lim b, b_lastUsed b))" for bs f
    using a that by (induction bs) auto
  then show ?thesis by (simp add: unstamped_def)
qed

theorem sampling_invisible:
  "(case AllowAt rt key now l of ((allowed, retry), l1) \<Rightarrow>
      (case AllowAtSampled rt key now l of ((allowed', retry', lg), l2) \<Rightarrow>
        allowed' = allowed \<and> retry' = retry \<and> unstamped l2 = unstamped l1 \<and>
        (\<forall>k b b'. map_of (lm_buckets l) k = Some b \<longrightarrow> map_of (lm_buckets l1) k = Some b' \<longrightarrow>
           b_lastLogged b' = b_lastLogged b)))"
proof (cases "lm_rps l \<le> 0")
  case True
  then show ?thesis by (simp add: AllowAt_def AllowAtSampled_def decideAt_def)
next
  case False
  obtain b l1 where b: "bucket_for rt key l = (b, l1)" by fastforce
  obtain ok lm where a: "rl_allow rt (b_lim b) now = (ok, lm)" by fastforce
  define bn where "bn = b\<lparr>b_lim := lm, b_lastUsed := now\<rparr>"
  define lg where "lg = sampleLog (b_lastLogged b) now"
  define ret where "ret = (if ok then 0 else retry_after (lm_rps l) (rl_tokens rt lm now))"
  let ?put = "\<lambda>b. l1\<lparr>lm_buckets := AList.update key b (lm_buckets l1)\<rparr>"
  have A: "AllowAt rt key now l = ((ok, ret), ?put bn)"
    using False b a by (simp add: AllowAt_def decideAt_def Let_def bn_def ret_def)
  have S: "AllowAtSampled rt key now l = ((ok, ret, \<not> ok \<and> lg), ?put (if \<not> ok \<and> lg then bn\<lparr>b_lastLogged := Some now\<rparr> else bn))"
    using False b a by (simp add: AllowAtSampled_def decideAt_def Let_def bn_def lg_def ret_def)
  have keep: "map_of (lm_buckets l1) k = Some c \<Longrightarrow> map_of (lm_buckets l) k = Some c' \<Longrightarrow> c = c'" for k c c'
    using b by (auto simp: bucket_for_def Let_def evictIfFullLocked_def update_conv' delete_conv'
        split: option.splits if_splits)
  have "b_lastLogged c' = b_lastLogged c"
    if "map_of (lm_buckets l) k = Some c" "map_of (lm_buckets (?put bn)) k = Some c'" for k c c'
  proof (cases "k = key")
    case True
    with that b show ?thesis by (auto simp: update_conv' bn_def bucket_for_def)
  next
    case False
    with that keep show ?thesis by (auto simp: update_conv')
  qed
  with A S unstamped_update [of "bn\<lparr>b_lastLogged := Some now\<rparr>" bn key l1] show ?thesis by auto
qed

theorem sampling_invisible_witness:
  "fst (AllowAt one_token ''a'' 5 (snd (AllowAt one_token ''a'' 4 (newLimiter 1 1 99 5)))) = (False, 999999999) \<and>
   fst (AllowAtSampled one_token ''a'' 5 (snd (AllowAt one_token ''a'' 4 (newLimiter 1 1 99 5)))) = (False, 999999999, True)"
proof -
  let ?l = "snd (AllowAt one_token ''a'' 4 (newLimiter 1 1 99 5))"
  have a: "fst (AllowAt one_token ''a'' 5 ?l) = (False, 999999999)" by code_simp
  have b: "snd (snd (fst (AllowAtSampled one_token ''a'' 5 ?l)))" by code_simp
  show ?thesis using sampling_invisible [where rt = one_token and key = "''a''" and now = 5 and l = ?l] a b by (auto split: prod.splits)
qed

text \<open>The instants at which a run writes a log line for a key.\<close>

fun log_times :: "'l rate_ops \<Rightarrow> string \<Rightarrow> lim_event list \<Rightarrow> 'l limiter \<Rightarrow> instant list" where
  "log_times rt key [] l = []"
| "log_times rt key (Decide k now sample # es) l =
     (case decideAt rt k now sample l of
        ((_, _, lg), l1) \<Rightarrow> (if lg \<and> k = key then [now] else []) @ log_times rt key es l1)"
| "log_times rt key (SweepAt now # es) l = log_times rt key es (snd (limiter_sweep now l))"

text \<open>The bucket of the key is never dropped during the run.\<close>

fun kept_through :: "'l rate_ops \<Rightarrow> string \<Rightarrow> lim_event list \<Rightarrow> 'l limiter \<Rightarrow> bool" where
  "kept_through rt key [] l = True"
| "kept_through rt key (e # es) l =
     ((map_of (lm_buckets l) key \<noteq> None \<longrightarrow> map_of (lm_buckets (lim_run rt [e] l)) key \<noteq> None) \<and>
      kept_through rt key es (lim_run rt [e] l))"

definition last_log :: "'l limiter \<Rightarrow> string \<Rightarrow> instant option" where
  "last_log l key = (case map_of (lm_buckets l) key of Some b \<Rightarrow> b_lastLogged b | None \<Rightarrow> None)"

definition spaced :: "instant option \<Rightarrow> instant list \<Rightarrow> bool" where
  "spaced t ts \<longleftrightarrow> sorted_wrt (\<lambda>a b. a + logSampleInterval \<le> b) ((case t of None \<Rightarrow> [] | Some a \<Rightarrow> [a]) @ ts)"

lemma decide_other:
  assumes "decideAt rt k now sample l = (r, l1)" "k \<noteq> key" "map_of (lm_buckets l1) key = Some b"
  shows "map_of (lm_buckets l) key = Some b"
proof (cases "lm_rps l \<le> 0")
  case True
  with assms show ?thesis by (simp add: decideAt_def)
next
  case False
  obtain b0 l0 where b: "bucket_for rt k l = (b0, l0)" by fastforce
  obtain ok lm where a: "rl_allow rt (b_lim b0) now = (ok, lm)" by fastforce
  have "\<exists>b'. l1 = l0\<lparr>lm_buckets := AList.update k b' (lm_buckets l0)\<rparr>"
    using assms(1) False b a by (auto simp: decideAt_def Let_def split: if_splits)
  with assms(2,3) have "map_of (lm_buckets l0) key = Some b" by (auto simp: update_conv')
  with b assms(2) show ?thesis
    by (auto simp: bucket_for_def Let_def evictIfFullLocked_def update_conv' delete_conv'
        split: option.splits if_splits)
qed

lemma decide_same:
  assumes "decideAt rt key now sample l = ((x, y, lg), l1)"
  shows "last_log l1 key = (if lg then Some now else last_log l key)"
    "lg \<Longrightarrow> sampleLog (last_log l key) now"
proof -
  have "last_log l1 key = (if lg then Some now else last_log l key) \<and> (lg \<longrightarrow> sampleLog (last_log l key) now)"
  proof (cases "lm_rps l \<le> 0")
    case True
    with assms show ?thesis by (simp add: decideAt_def)
  next
    case False
    obtain b l0 where b: "bucket_for rt key l = (b, l0)" by fastforce
    obtain ok lm where a: "rl_allow rt (b_lim b) now = (ok, lm)" by fastforce
    have "b_lastLogged b = last_log l key"
      using b by (auto simp: bucket_for_def Let_def last_log_def split: option.splits)
    with assms False b a show ?thesis
      by (auto simp: decideAt_def Let_def last_log_def update_conv' split: if_splits)
  qed
  then show "last_log l1 key = (if lg then Some now else last_log l key)"
    "lg \<Longrightarrow> sampleLog (last_log l key) now" by auto
qed

lemma spaced_Cons:
  assumes "sampleLog t now" "spaced (Some now) ts"
  shows "spaced t (now # ts)"
proof (cases t)
  case None
  with assms(2) show ?thesis by (simp add: spaced_def)
next
  case (Some a)
  have "logSampleInterval > 0" by (simp add: logSampleInterval_def)
  with Some assms show ?thesis by (fastforce simp: spaced_def)
qed

text \<open>
  At most one log line per key and minute: as long as the key's bucket is kept, any two lines
  written for it are at least \<open>logSampleInterval\<close> apart, whatever mix of admitted and rejected
  requests, of reporting and silent callers and of other keys comes between them.
\<close>

theorem log_lines_spaced:
  assumes "limiter_ok l" "kept_through rt key es l"
  shows "spaced (last_log l key) (log_times rt key es l)"
  using assms
proof (induction rt key es l rule: log_times.induct)
  case (1 rt key l)
  then show ?case by (simp add: spaced_def split: option.splits)
next
  case (2 rt key k now sample es l)
  obtain x y lg l1 where d: "decideAt rt k now sample l = ((x, y, lg), l1)" by (metis prod.collapse)
  have k: "kept_through rt key es l1"
    and present: "map_of (lm_buckets l) key \<noteq> None \<Longrightarrow> map_of (lm_buckets l1) key \<noteq> None"
    using 2(3) d by auto
  have "limiter_ok l1" using decideAt_ok [OF 2(2) d] by simp
  then have IH: "spaced (last_log l1 key) (log_times rt key es l1)" using 2(1) d k by auto
  show ?case
  proof (cases "k = key")
    case True
    with d IH decide_same [of rt key now sample l x y lg l1] spaced_Cons show ?thesis by auto
  next
    case False
    have "last_log l1 key = last_log l key"
      using decide_other [OF d False] present
      by (cases "map_of (lm_buckets l1) key") (auto simp: last_log_def split: option.splits)
    with d IH False show ?thesis by simp
  qed
next
  case (3 rt key now es l)
  let ?l = "snd (limiter_sweep now l)"
  have ok: "limiter_ok ?l" using 3(2) by (rule sweep_ok)
  have sub: "set (lm_buckets ?l) \<subseteq> set (lm_buckets l)" by (auto simp: limiter_sweep_def Let_def)
  have "last_log ?l key = last_log l key"
  proof (cases "map_of (lm_buckets ?l) key")
    case None
    with 3(3) show ?thesis by (auto simp: last_log_def)
  next
    case (Some b)
    then have "(key, b) \<in> set (lm_buckets l)" using sub by (meson map_of_SomeD subset_iff)
    then have "map_of (lm_buckets l) key = Some b" using 3(2) by (simp add: limiter_ok_def)
    with Some show ?thesis by (simp add: last_log_def)
  qed
  with 3(1) ok 3(3) show ?case by simp

qed

theorem log_lines_spaced_witness:
  "log_times one_token ''a'' [Decide ''a'' 1 True, Decide ''a'' 2 True, Decide ''a'' 3 True, SweepAt 9, Decide ''a'' 60000000002 False,
     Decide ''a'' 60000000003 True]
     (newLimiter 1 1 99 5) = [2, 60000000003] \<and> spaced None [2, 60000000003]"
proof -
  let ?es = "[Decide ''a'' 1 True, Decide ''a'' 2 True, Decide ''a'' 3 True, SweepAt 9, Decide ''a'' 60000000002 False,
     Decide ''a'' 60000000003 True]"
  have t: "log_times one_token ''a'' ?es (newLimiter 1 1 99 5) = [2, 60000000003]" by code_simp
  have "limiter_ok (newLimiter 1 1 99 5 :: instant option limiter)" by (simp add: limiter_ok_def newLimiter_def)
  moreover have "kept_through one_token ''a'' ?es (newLimiter 1 1 99 5)" by code_simp
  ultimately have "spaced (last_log (newLimiter 1 1 99 5 :: instant option limiter) ''a'') (log_times one_token ''a'' ?es (newLimiter 1 1 99 5))"
    by (rule log_lines_spaced)
  then show ?thesis unfolding t by (simp add: last_log_def newLimiter_def)
qed

text \<open>
  The \<open>Retry-After\<close> hint is an honest bound: a whole number of seconds, at least one, long
  enough for the wait the bucket asked for, and less than a second longer than it when that wait
  is positive.
\<close>

theorem retry_secs_bounds:
  "1 \<le> retry_secs r \<and> r \<le> retry_secs r * 1000000000 \<and> (r > 0 \<longrightarrow> (retry_secs r - 1) * 1000000000 < r)"
proof -
  define s where "s = \<lceil>rat_of_int r / 1000000000\<rceil>"
  have "rat_of_int r / 1000000000 \<le> of_int s" "of_int (s - 1) < rat_of_int r / 1000000000"
    unfolding s_def by (rule le_of_int_ceiling) (metis ceiling_less_iff s_def lessI less_ceiling_iff of_int_diff of_int_1 linorder_not_le diff_less_eq less_add_one order_refl not_le)
  then have "rat_of_int r \<le> of_int (s * 1000000000)" "rat_of_int ((s - 1) * 1000000000) < of_int r" by simp_all
  then have "r \<le> s * 1000000000" "(s - 1) * 1000000000 < r" by linarith+
  then show ?thesis by (auto simp: retry_secs_def Let_def s_def [symmetric])
qed

theorem retry_secs_bounds_witness: "retry_secs 1500000000 = 2 \<and> (retry_secs 1500000000 - 1) * 1000000000 < 1500000000"
  using retry_secs_bounds [of 1500000000] by (simp add: retry_secs_def)

end
