(* ===== verification/Concurrency.thy ===== *)
theory Concurrency
  imports RateLimit
begin

text \<open>
  The cap on calls in flight (\<open>internal/ratelimit/concurrency.go\<close>) and its MCP adapter. A
  release closure is a handle: \<open>sync.Once\<close> makes its second call do nothing, which the state
  records as the set of handles not called yet. \<open>ConcurrencyLimiter.mu\<close> makes every operation
  one step of a transition system over which the cap is an invariant.
\<close>

subsection \<open>State and operations\<close>

record slot =
  sl_n :: int
  sl_idleSince :: instant
  sl_lastLogged :: "instant option"

record conc =
  cc_slots :: "string \<Rightarrow> slot option"
  cc_max :: int
  cc_ttl :: int

definition NewConcurrency :: "int \<Rightarrow> int \<Rightarrow> conc" where
  "NewConcurrency mx ttl = \<lparr>cc_slots = (\<lambda>_. None), cc_max = mx, cc_ttl = ttl\<rparr>"

definition put_slot :: "string \<Rightarrow> slot \<Rightarrow> conc \<Rightarrow> conc" where
  "put_slot key s c = c\<lparr>cc_slots := (cc_slots c)(key := Some s)\<rparr>"

definition slot_of :: "conc \<Rightarrow> string \<Rightarrow> slot" where
  "slot_of c key =
     (case cc_slots c key of Some s \<Rightarrow> s | None \<Rightarrow> \<lparr>sl_n = 0, sl_idleSince = 0, sl_lastLogged = None\<rparr>)"

definition acquireAt :: "string \<Rightarrow> instant \<Rightarrow> bool \<Rightarrow> conc \<Rightarrow> (bool \<times> bool) \<times> conc" where
  "acquireAt key now sample c =
     (if cc_max c \<le> 0 then ((True, False), c)
      else
        let s = slot_of c key; c1 = put_slot key s c in
        if sl_n s \<ge> cc_max c then
          let lg = (sample \<and> sampleLog (sl_lastLogged s) now) in
          ((False, lg), if lg then put_slot key (s\<lparr>sl_lastLogged := Some now\<rparr>) c1 else c1)
        else ((True, False), put_slot key (s\<lparr>sl_n := sl_n s + 1\<rparr>) c1))"

definition conc_Acquire :: "string \<Rightarrow> instant \<Rightarrow> conc \<Rightarrow> bool \<times> conc" where
  "conc_Acquire key now c = (case acquireAt key now False c of ((ok, _), c1) \<Rightarrow> (ok, c1))"

definition AcquireAtSampled :: "string \<Rightarrow> instant \<Rightarrow> conc \<Rightarrow> (bool \<times> bool) \<times> conc" where
  "AcquireAtSampled key now c = acquireAt key now True c"

definition conc_release :: "string \<Rightarrow> instant \<Rightarrow> conc \<Rightarrow> conc" where
  "conc_release key now c =
     (case cc_slots c key of
        None \<Rightarrow> c
      | Some s \<Rightarrow>
          if sl_n s = 0 then c
          else
            let s1 = s\<lparr>sl_n := sl_n s - 1\<rparr> in
            put_slot key (if sl_n s1 = 0 then s1\<lparr>sl_idleSince := now\<rparr> else s1) c)"

definition InFlight :: "conc \<Rightarrow> string \<Rightarrow> int" where
  "InFlight c key = (case cc_slots c key of Some s \<Rightarrow> sl_n s | None \<Rightarrow> 0)"

definition conc_sweep :: "instant \<Rightarrow> conc \<Rightarrow> conc" where
  "conc_sweep now c =
     c\<lparr>cc_slots := (\<lambda>k. case cc_slots c k of
        None \<Rightarrow> None
      | Some s \<Rightarrow> if sl_n s > 0 then Some s
                  else if now - sl_idleSince s \<ge> cc_ttl c then None else Some s)\<rparr>"

subsection \<open>The limiter as a transition system\<close>

text \<open>A handle is what \<open>Acquire\<close> returned to one caller; \<open>live\<close> are those not released yet.\<close>

record conc_state =
  cs_conc :: conc
  cs_live :: "nat \<Rightarrow> string option"

inductive conc_step :: "conc_state \<Rightarrow> conc_state \<Rightarrow> bool" where
  admit: "acquireAt key now sample c = ((True, lg), c') \<Longrightarrow> live h = None \<Longrightarrow>
    conc_step \<lparr>cs_conc = c, cs_live = live\<rparr> \<lparr>cs_conc = c', cs_live = live(h := Some key)\<rparr>"
| reject: "acquireAt key now sample c = ((False, lg), c') \<Longrightarrow>
    conc_step \<lparr>cs_conc = c, cs_live = live\<rparr> \<lparr>cs_conc = c', cs_live = live\<rparr>"
| release: "live h = Some key \<Longrightarrow>
    conc_step \<lparr>cs_conc = c, cs_live = live\<rparr> \<lparr>cs_conc = conc_release key now c, cs_live = live(h := None)\<rparr>"
| again: "live h = None \<Longrightarrow>
    conc_step \<lparr>cs_conc = c, cs_live = live\<rparr> \<lparr>cs_conc = c, cs_live = live\<rparr>"
| sweep: "conc_step \<lparr>cs_conc = c, cs_live = live\<rparr> \<lparr>cs_conc = conc_sweep now c, cs_live = live\<rparr>"

inductive_cases conc_stepE: "conc_step s t"

inductive conc_reach :: "int \<Rightarrow> int \<Rightarrow> conc_state \<Rightarrow> bool" for mx ttl where
  start: "conc_reach mx ttl \<lparr>cs_conc = NewConcurrency mx ttl, cs_live = (\<lambda>_. None)\<rparr>"
| more: "conc_reach mx ttl s \<Longrightarrow> conc_step s t \<Longrightarrow> conc_reach mx ttl t"

subsection \<open>The adapter\<close>

definition codeConcurrencyLimited :: int where "codeConcurrencyLimited = - 32030"

text \<open>
  \<open>MCPConcurrency\<close>: what it decides before the handler runs; the deferred release runs after
  it, whatever way it returns.
\<close>

definition rateMCPConcurrency ::
  "string \<Rightarrow> string \<Rightarrow> string option \<Rightarrow> instant \<Rightarrow> conc option \<Rightarrow> reports \<Rightarrow>
   mcp_outcome \<times> conc option \<times> reports" where
  "rateMCPConcurrency meth m key now c o' =
     (case c of
        None \<Rightarrow> (Forwarded, c, o')
      | Some cl \<Rightarrow>
          if m \<noteq> meth then (Forwarded, c, o')
          else case key of
            None \<Rightarrow> (Forwarded, c, o')
          | Some k \<Rightarrow>
              (case AcquireAtSampled k now cl of
                 ((admitted, logRejection), cl1) \<Rightarrow>
                   if admitted then (Forwarded, Some cl1, o')
                   else (Capped codeConcurrencyLimited (cc_max cl1) (InFlight cl1 k), Some cl1,
                     reportRejected ''gateway'' (meth @ '' concurrency'') k logRejection o')))"

subsection \<open>Properties\<close>

text \<open>How many calls of a key are in flight: its handles that were not released.\<close>

definition held :: "(nat \<Rightarrow> string option) \<Rightarrow> string \<Rightarrow> nat set" where
  "held live key = {h. live h = Some key}"

definition conc_inv :: "conc_state \<Rightarrow> bool" where
  "conc_inv s \<longleftrightarrow> (\<forall>key. finite (held (cs_live s) key)) \<and>
     (\<forall>key. InFlight (cs_conc s) key = int (card (held (cs_live s) key))) \<and>
     (\<forall>key. int (card (held (cs_live s) key)) \<le> cc_max (cs_conc s))"

lemma held_upd:
  "live h = None \<Longrightarrow> held (live(h := Some key)) k = (if k = key then insert h (held live k) else held live k)"
  "live h = Some key \<Longrightarrow> held (live(h := None)) k = (if k = key then held live k - {h} else held live k)"
  by (auto simp: held_def)

lemma InFlight_put [simp]: "InFlight (put_slot key s c) k = (if k = key then sl_n s else InFlight c k)"
  by (simp add: InFlight_def put_slot_def)

lemma slot_of_InFlight [simp]: "sl_n (slot_of c key) = InFlight c key"
  by (simp add: slot_of_def InFlight_def split: option.splits)

lemma cc_kept [simp]:
  "cc_max (put_slot key s c) = cc_max c" "cc_max (conc_release key now c) = cc_max c" "cc_max (conc_sweep now c) = cc_max c"
  by (auto simp: put_slot_def conc_release_def conc_sweep_def Let_def split: option.splits)

lemma acquire_effect:
  assumes "acquireAt key now sample c = ((ok, lg), c')" "cc_max c > 0"
  shows "ok \<longleftrightarrow> InFlight c key < cc_max c" "cc_max c' = cc_max c"
    "InFlight c' k = InFlight c k + (if ok \<and> k = key then 1 else 0)"
  using assms by (auto simp: acquireAt_def Let_def split: if_splits)

lemma release_effect:
  "InFlight c key \<ge> 0 \<Longrightarrow> InFlight (conc_release key now c) k =
     InFlight c k - (if k = key \<and> InFlight c key > 0 then 1 else 0)"
  by (auto simp: conc_release_def InFlight_def put_slot_def Let_def split: option.splits)

lemma sweep_effect: "InFlight c k \<ge> 0 \<Longrightarrow> InFlight (conc_sweep now c) k = InFlight c k"
  by (auto simp: conc_sweep_def InFlight_def split: option.splits)

lemma conc_inv_step: "conc_step s t \<Longrightarrow> cc_max (cs_conc s) > 0 \<Longrightarrow> conc_inv s \<Longrightarrow> conc_inv t \<and> cc_max (cs_conc t) > 0"
proof (induction rule: conc_step.induct)
  case (admit key now sample c lg c' live h)
  note E = acquire_effect [OF admit(1)]
  have n: "h \<notin> held live k" for k using admit(2) by (simp add: held_def)
  have l: "int (card (held live key)) + 1 \<le> cc_max c" using E admit by (simp add: conc_inv_def)
  have "card (held (live(h := Some key)) k) = card (held live k) + (if k = key then 1 else 0)" for k
    using admit n [of key] by (simp add: conc_inv_def held_upd)
  moreover have "InFlight c' k = InFlight c k + (if k = key then 1 else 0)" for k using E admit by simp
  ultimately show ?case using admit E(2) l by (simp add: conc_inv_def held_upd)
next
  case (reject key now sample c lg c' live)
  note E = acquire_effect [OF reject(1)]
  have "InFlight c' k = InFlight c k" "cc_max c' = cc_max c" for k using E reject by auto
  with reject show ?case by (simp add: conc_inv_def)
next
  case (release live h key c now)
  have f: "finite (held live k)" for k using release by (simp add: conc_inv_def)
  have "h \<in> held live key" using release by (simp add: held_def)
  with f have "card (held live key) > 0" by (auto simp: card_gt_0_iff)
  moreover have eq: "InFlight c k = int (card (held live k))" for k using release by (simp add: conc_inv_def)
  moreover have le: "int (card (held live k)) \<le> cc_max c" for k using release by (simp add: conc_inv_def)
  ultimately have "InFlight (conc_release key now c) k = int (card (held (live(h := None)) k))" for k
    using f \<open>h \<in> held live key\<close> release(1) by (auto simp: held_upd release_effect of_nat_diff)
  moreover have "int (card (held (live(h := None)) k)) \<le> cc_max c" for k
    using le [of k] card_mono [OF f [of k], of "held live k - {h}"] release(1)
    by (simp add: held_upd) (meson Diff_subset le_trans of_nat_mono order_trans)
  moreover have "finite (held (live(h := None)) k)" for k using f release(1) by (simp add: held_upd)
  ultimately show ?case using release(2) by (simp add: conc_inv_def)
next
  case (sweep c live now)
  then show ?case by (simp add: conc_inv_def sweep_effect)
qed simp_all

text \<open>
  The cap holds: in every state the limiter can reach, whatever calls are admitted, rejected,
  released (also twice) and swept, in any order, the count of a key is exactly the number of its
  calls in flight and never exceeds the cap; and the next call of a key is admitted exactly when
  fewer calls than the cap are in flight.
\<close>

theorem concurrency_cap:
  assumes "conc_reach mx ttl s" "mx > 0"
  shows "InFlight (cs_conc s) key = int (card (held (cs_live s) key)) \<and>
    InFlight (cs_conc s) key \<le> mx \<and>
    fst (conc_Acquire key now (cs_conc s)) = (int (card (held (cs_live s) key)) < mx)"
proof -
  have m: "conc_inv s \<and> cc_max (cs_conc s) = mx"
    using assms(1)
  proof (induction rule: conc_reach.induct)
    case start
    then show ?case using assms(2) by (simp add: conc_inv_def NewConcurrency_def InFlight_def held_def)
  next
    case (more s t)
    then have "cc_max (cs_conc t) = cc_max (cs_conc s)"
      by (cases rule: conc_stepE) (use more.IH assms(2) acquire_effect(2) in auto)
    with more conc_inv_step assms(2) show ?case by auto
  qed
  have "fst (conc_Acquire key now (cs_conc s)) = (InFlight (cs_conc s) key < mx)"
    using m assms(2) by (auto simp: conc_Acquire_def acquireAt_def Let_def)
  then show ?thesis using m unfolding conc_inv_def by metis
qed

definition busy :: conc_state where
  "busy = \<lparr>cs_conc = snd (acquireAt ''k'' 5 True (NewConcurrency 1 7)), cs_live = (\<lambda>_. None)(0 := Some ''k'')\<rparr>"

theorem concurrency_cap_witness:
  "InFlight (cs_conc busy) ''k'' = int (card (held (cs_live busy) ''k'')) \<and> InFlight (cs_conc busy) ''k'' \<le> 1 \<and>
   fst (conc_Acquire ''k'' 6 (cs_conc busy)) = (int (card (held (cs_live busy) ''k'')) < 1)"
proof -
  have "acquireAt ''k'' 5 True (NewConcurrency 1 7) = ((True, False), snd (acquireAt ''k'' 5 True (NewConcurrency 1 7)))"
    by (simp add: acquireAt_def NewConcurrency_def Let_def InFlight_def)
  then have "conc_step \<lparr>cs_conc = NewConcurrency 1 7, cs_live = (\<lambda>_. None)\<rparr> busy"
    unfolding busy_def by (rule conc_step.admit) simp
  then have "conc_reach 1 7 busy" using conc_reach.start conc_reach.more by blast
  then show ?thesis by (rule concurrency_cap) simp
qed

end
