(* ===== verification/Semaphore.thy ===== *)
theory Semaphore
  imports Concurrency
begin

text \<open>
  What the cap on calls in flight promises its callers, as an abstract counting semaphore: the state
  is the list of handles given out, a handle counts until it is released, and a call is admitted
  while fewer handles of its key than the cap count. Times, the sweep, the slots and the log stamps
  of \<open>internal/ratelimit/concurrency.go\<close> do not occur in it. The limiter refines it:
  whatever is called in whatever order, every answer is the semaphore's.
\<close>

subsection \<open>Simulation\<close>

text \<open>The answers of a deterministic system to a sequence of operations.\<close>

fun answers :: "('op \<Rightarrow> 's \<Rightarrow> 'o \<times> 's) \<Rightarrow> 'op list \<Rightarrow> 's \<Rightarrow> 'o list" where
  "answers f [] s = []"
| "answers f (x # xs) s = fst (f x s) # answers f xs (snd (f x s))"

locale simulation =
  fixes conc_do :: "'op \<Rightarrow> 'c \<Rightarrow> 'o \<times> 'c"
    and abs_do :: "'op \<Rightarrow> 'a \<Rightarrow> 'o \<times> 'a"
    and rel :: "'c \<Rightarrow> 'a \<Rightarrow> bool"
  assumes answer: "rel s t \<Longrightarrow> fst (conc_do x s) = fst (abs_do x t)"
    and preserved: "rel s t \<Longrightarrow> rel (snd (conc_do x s)) (snd (abs_do x t))"
begin

lemma answers_equal: "rel s t \<Longrightarrow> answers conc_do xs s = answers abs_do xs t"
  by (induction xs arbitrary: s t) (simp_all add: answer preserved)

end

subsection \<open>The operations and what a caller sees of them\<close>

datatype conc_op =
    AcquireOp string instant bool
  | ReleaseOp nat instant
  | SweepOp instant
  | InFlightOp string

datatype conc_answer = Admitted bool | Count int | Silent

text \<open>
  The handles are the closures returned so far, in order: \<open>Some key\<close> releases a slot of the key when
  it is called, \<open>None\<close> does nothing (a rejected call's, that of a disabled cap, or one called before).
\<close>

fun limiter_do :: "conc_op \<Rightarrow> conc \<times> string option list \<Rightarrow> conc_answer \<times> conc \<times> string option list" where
  "limiter_do (AcquireOp key now sample) (c, hs) =
     (case acquireAt key now sample c of
        ((ok, _), c') \<Rightarrow> (Admitted ok, c', hs @ [if ok \<and> cc_max c > 0 then Some key else None]))"
| "limiter_do (ReleaseOp i now) (c, hs) =
     (case (if i < length hs then hs ! i else None) of
        None \<Rightarrow> (Silent, c, hs)
      | Some key \<Rightarrow> (Silent, conc_release key now c, hs[i := None]))"
| "limiter_do (SweepOp now) (c, hs) = (Silent, conc_sweep now c, hs)"
| "limiter_do (InFlightOp key) (c, hs) = (Count (InFlight c key), c, hs)"

fun semaphore_do :: "int \<Rightarrow> conc_op \<Rightarrow> string option list \<Rightarrow> conc_answer \<times> string option list" where
  "semaphore_do mx (AcquireOp key now sample) hs =
     (let ok = mx \<le> 0 \<or> int (count_list hs (Some key)) < mx in
      (Admitted ok, hs @ [if ok \<and> mx > 0 then Some key else None]))"
| "semaphore_do mx (ReleaseOp i now) hs = (Silent, hs[i := None])"
| "semaphore_do mx (SweepOp now) hs = (Silent, hs)"
| "semaphore_do mx (InFlightOp key) hs = (Count (int (count_list hs (Some key))), hs)"

subsection \<open>The refinement\<close>

definition represents :: "int \<Rightarrow> conc \<times> string option list \<Rightarrow> string option list \<Rightarrow> bool" where
  "represents mx s hs \<longleftrightarrow> snd s = hs \<and> cc_max (fst s) = mx \<and>
     (\<forall>key. InFlight (fst s) key = int (count_list hs (Some key)))"

lemma count_list_drop:
  "i < length hs \<Longrightarrow> hs ! i = Some key \<Longrightarrow>
   int (count_list (hs[i := None]) (Some k)) = int (count_list hs (Some k)) - (if k = key then 1 else 0)"
proof (induction hs arbitrary: i)
  case (Cons h hs)
  then show ?case by (cases i) auto
qed simp

lemma count_list_here: "i < length hs \<Longrightarrow> hs ! i = x \<Longrightarrow> 0 < count_list hs x"
  by (metis count_list_0_iff gr0I nth_mem)

lemma acquire_represents:
  assumes "represents mx (c, hs) t"
  shows "fst (limiter_do (AcquireOp key now sample) (c, hs)) = fst (semaphore_do mx (AcquireOp key now sample) t) \<and>
    represents mx (snd (limiter_do (AcquireOp key now sample) (c, hs))) (snd (semaphore_do mx (AcquireOp key now sample) t))"
proof -
  obtain ok lg c' where a: "acquireAt key now sample c = ((ok, lg), c')" by (cases "acquireAt key now sample c") auto
  have t: "t = hs" and m: "cc_max c = mx" and n: "\<And>k. InFlight c k = int (count_list hs (Some k))"
    using assms by (simp_all add: represents_def)
  show ?thesis
  proof (cases "mx \<le> 0")
    case True
    then have "ok" "c' = c" using a m by (auto simp: acquireAt_def)
    with a True m n t show ?thesis by (simp add: represents_def)
  next
    case False
    then have p: "cc_max c > 0" using m by simp
    note e = acquire_effect [OF a p]
    have k: "ok \<longleftrightarrow> int (count_list hs (Some key)) < mx" using e(1) n m by simp
    have f: "InFlight c' k = int (count_list hs (Some k)) + (if ok \<and> k = key then 1 else 0)" for k
      using e(3) [of k] n by simp
    from k have "fst (semaphore_do mx (AcquireOp key now sample) t) = Admitted ok"
      and g: "snd (semaphore_do mx (AcquireOp key now sample) t) = hs @ [if ok then Some key else None]"
      using False by (simp_all add: t Let_def)
    moreover have "limiter_do (AcquireOp key now sample) (c, hs) = (Admitted ok, c', hs @ [if ok then Some key else None])"
      using p by (simp add: a)
    ultimately show ?thesis using f e(2) m by (simp add: represents_def)
  qed
qed

lemma release_represents:
  assumes "represents mx (c, hs) t"
  shows "represents mx (snd (limiter_do (ReleaseOp i now) (c, hs))) (snd (semaphore_do mx (ReleaseOp i now) t))"
proof (cases "i < length hs \<and> hs ! i \<noteq> None")
  case False
  then have "hs[i := None] = hs" by (metis list_update_beyond list_update_id not_less)
  with assms False show ?thesis by (auto simp: represents_def)
next
  case True
  then obtain key where k: "hs ! i = Some key" by auto
  with assms True count_list_here [of i hs "Some key"] have "InFlight c key > 0" by (simp add: represents_def)
  with assms True k show ?thesis by (simp add: represents_def release_effect count_list_drop)
qed

interpretation cap: simulation limiter_do "semaphore_do mx" "represents mx" for mx
proof
  fix s t and x :: conc_op
  assume r: "represents mx s t"
  obtain c hs where s: "s = (c, hs)" by (cases s)
  show "fst (limiter_do x s) = fst (semaphore_do mx x t)"
  proof (cases x)
    case (ReleaseOp i now)
    then show ?thesis by (simp add: s split: option.splits)
  qed (use r acquire_represents [of mx c hs t] in \<open>auto simp: s represents_def simp del: limiter_do.simps(1) semaphore_do.simps(1)\<close>)
  show "represents mx (snd (limiter_do x s)) (snd (semaphore_do mx x t))"
  proof (cases x)
    case (SweepOp now)
    with r show ?thesis by (simp add: s represents_def sweep_effect)
  qed (use r acquire_represents [of mx c hs t] release_represents [of mx c hs t] in \<open>auto simp: s represents_def simp del: limiter_do.simps(1,2) semaphore_do.simps(1,2)\<close>)
qed

text \<open>
  C10. The limiter is a counting semaphore: whatever sequence of acquires, releases (also of a
  handle released before or never granted), sweeps and readings of the count is run against a fresh
  limiter of any cap and any idle time, at whatever times and with or without sampling, every answer
  is the one of the semaphore that only counts the handles given out and not released. A sweep, a
  log stamp or the order of times can therefore never change what is admitted.
\<close>

theorem limiter_is_semaphore:
  "answers limiter_do ops (NewConcurrency mx ttl, []) = answers (semaphore_do mx) ops []"
  by (rule cap.answers_equal) (simp add: represents_def NewConcurrency_def InFlight_def)

theorem limiter_is_semaphore_witness:
  "answers limiter_do
     [AcquireOp ''k'' 0 True, AcquireOp ''k'' 1 True, SweepOp 99, ReleaseOp 0 100, ReleaseOp 0 100, SweepOp 200,
      AcquireOp ''k'' 300 False, InFlightOp ''k''] (NewConcurrency 1 7, []) =
   [Admitted True, Admitted False, Silent, Silent, Silent, Silent, Admitted True, Count 1]"
  unfolding limiter_is_semaphore by simp

end
