(* ===== verification/SessionCache.thy ===== *)
theory SessionCache
  imports RateLimit
begin

text \<open>
  The gateway's session cache and the transport-session index over it
  (\<open>internal/gateway/session.go\<close>), and the admission decision of \<open>withSession\<close>
  (\<open>internal/gateway/server.go\<close>). Sessions are objects: a heap maps their addresses to their
  fields, and the cache and the index hold addresses. \<open>sessionCache.mu\<close> makes every operation
  one step. The metric counters are lists of the labels they were moved with.
\<close>

subsection \<open>State\<close>

type_synonym addr = nat

record session =
  se_subject :: string
  se_cacheKey :: string
  se_tenant :: string
  se_lastSeen :: instant
  se_builtAt :: instant
  se_transports :: "string list"
  se_dirty :: bool
  se_closed :: nat

record transportBinding =
  tb_sess :: "addr option"
  tb_cause :: string
  tb_staleAt :: instant

record transportLookup =
  tl_known :: bool
  tl_sess :: "addr option"
  tl_cause :: string

record sessionCache =
  sc_heap :: "addr \<Rightarrow> session"
  sc_m :: "(string \<times> addr) list"
  sc_bound :: "(string \<times> transportBinding) list"
  sc_ttl :: int
  sc_maxAge :: int
  sc_down :: bool
  sc_reclaims :: "string list"
  sc_lookups :: "string list"

definition reclaimDirty :: string where "reclaimDirty = ''dirty''"
definition reclaimMaxAge :: string where "reclaimMaxAge = ''max_age''"
definition reclaimIdle :: string where "reclaimIdle = ''idle_timeout''"
definition reclaimExplicit :: string where "reclaimExplicit = ''explicit_close''"
definition reclaimEntitlementChange :: string where "reclaimEntitlementChange = ''entitlement_change''"
definition reclaimUnknown :: string where "reclaimUnknown = ''unknown''"

definition upd_session :: "addr \<Rightarrow> (session \<Rightarrow> session) \<Rightarrow> sessionCache \<Rightarrow> sessionCache" where
  "upd_session a f c = c\<lparr>sc_heap := (sc_heap c)(a := f (sc_heap c a))\<rparr>"

definition markDirty :: "addr \<Rightarrow> sessionCache \<Rightarrow> sessionCache" where
  "markDirty a c = upd_session a (\<lambda>s. s\<lparr>se_dirty := True\<rparr>) c"

text \<open>\<open>session.close\<close>: severs the upstream connections; the field counts the calls.\<close>

definition close_session :: "addr \<Rightarrow> sessionCache \<Rightarrow> sessionCache" where
  "close_session a c = upd_session a (\<lambda>s. s\<lparr>se_closed := se_closed s + 1\<rparr>) c"

definition recordReclaim :: "string \<Rightarrow> sessionCache \<Rightarrow> sessionCache" where
  "recordReclaim cause c = c\<lparr>sc_reclaims := sc_reclaims c @ [cause]\<rparr>"

definition recordLookup :: "string \<Rightarrow> sessionCache \<Rightarrow> sessionCache" where
  "recordLookup r c = c\<lparr>sc_lookups := sc_lookups c @ [r]\<rparr>"

subsection \<open>The transport index\<close>

fun stale_ids :: "addr \<Rightarrow> string \<Rightarrow> instant \<Rightarrow> string list \<Rightarrow> (string \<times> transportBinding) list \<Rightarrow> (string \<times> transportBinding) list" where
  "stale_ids a cause now [] bound = bound"
| "stale_ids a cause now (i # is) bound =
     (case map_of bound i of
        None \<Rightarrow> stale_ids a cause now is bound
      | Some b \<Rightarrow>
          if tb_sess b \<noteq> Some a then stale_ids a cause now is bound
          else stale_ids a cause now is
            (AList.update i \<lparr>tb_sess = None, tb_cause = cause, tb_staleAt = now\<rparr> bound))"

definition staleTransportsLocked :: "addr \<Rightarrow> string \<Rightarrow> instant \<Rightarrow> sessionCache \<Rightarrow> sessionCache" where
  "staleTransportsLocked a cause now c =
     upd_session a (\<lambda>s. s\<lparr>se_transports := []\<rparr>)
       (c\<lparr>sc_bound := stale_ids a cause now (se_transports (sc_heap c a)) (sc_bound c)\<rparr>)"

definition bindTransport :: "string \<Rightarrow> addr option \<Rightarrow> sessionCache \<Rightarrow> sessionCache" where
  "bindTransport i s c =
     (case s of
        None \<Rightarrow> c
      | Some a \<Rightarrow>
          if i = [] \<or> sc_down c \<or> map_of (sc_bound c) i \<noteq> None then c
          else upd_session a (\<lambda>s. s\<lparr>se_transports := se_transports s @ [i]\<rparr>)
            (c\<lparr>sc_bound := AList.update i \<lparr>tb_sess = Some a, tb_cause = [], tb_staleAt = 0\<rparr> (sc_bound c)\<rparr>))"

definition lookupTransport :: "string \<Rightarrow> sessionCache \<Rightarrow> transportLookup" where
  "lookupTransport i c =
     (if i = [] then \<lparr>tl_known = False, tl_sess = None, tl_cause = []\<rparr>
      else case map_of (sc_bound c) i of
          None \<Rightarrow> \<lparr>tl_known = False, tl_sess = None, tl_cause = []\<rparr>
        | Some b \<Rightarrow> \<lparr>tl_known = True, tl_sess = tb_sess b, tl_cause = tb_cause b\<rparr>)"

definition tombstoneHorizon :: "sessionCache \<Rightarrow> int" where
  "tombstoneHorizon c = 2 * sc_maxAge c"

text \<open>What the sweep makes of one binding: dropped, tombstoned or kept.\<close>

definition sweep_binding :: "sessionCache \<Rightarrow> instant \<Rightarrow> transportBinding \<Rightarrow> transportBinding option" where
  "sweep_binding c now b =
     (case tb_sess b of
        Some a \<Rightarrow>
          if map_of (sc_m c) (se_cacheKey (sc_heap c a)) \<noteq> Some a
          then Some \<lparr>tb_sess = None, tb_cause = reclaimUnknown, tb_staleAt = now\<rparr> else Some b
      | None \<Rightarrow> if now - tb_staleAt b > tombstoneHorizon c then None else Some b)"

definition sweepTransportsLocked :: "instant \<Rightarrow> sessionCache \<Rightarrow> sessionCache" where
  "sweepTransportsLocked now c =
     c\<lparr>sc_bound := List.map_filter (\<lambda>(i, b). map_option (Pair i) (sweep_binding c now b)) (sc_bound c)\<rparr>"

subsection \<open>The cache\<close>

definition reclaimCause :: "sessionCache \<Rightarrow> session \<Rightarrow> instant \<Rightarrow> string option" where
  "reclaimCause c s now =
     (if se_dirty s then Some reclaimDirty
      else if now - se_builtAt s > sc_maxAge c then Some reclaimMaxAge
      else if now - se_lastSeen s > sc_ttl c then Some reclaimIdle
      else None)"

definition sc_get :: "string \<Rightarrow> instant \<Rightarrow> sessionCache \<Rightarrow> addr option \<times> sessionCache" where
  "sc_get key now c =
     (case map_of (sc_m c) key of
        None \<Rightarrow> (None, c)
      | Some a \<Rightarrow>
          (case reclaimCause c (sc_heap c a) now of
             Some cause \<Rightarrow>
               let c1 = staleTransportsLocked a cause now c in
               (None, recordReclaim cause (close_session a (c1\<lparr>sc_m := AList.delete key (sc_m c1)\<rparr>)))
           | None \<Rightarrow> (Some a, upd_session a (\<lambda>s. s\<lparr>se_lastSeen := now\<rparr>) c)))"

definition sc_put :: "string \<Rightarrow> addr \<Rightarrow> instant \<Rightarrow> sessionCache \<Rightarrow> sessionCache" where
  "sc_put key a now c =
     (if sc_down c then recordReclaim reclaimExplicit (close_session a (staleTransportsLocked a reclaimExplicit now c))
      else
        let c1 = upd_session a (\<lambda>s. s\<lparr>se_lastSeen := now, se_builtAt := now, se_cacheKey := key\<rparr>) c in
        c1\<lparr>sc_m := AList.update key a (sc_m c1)\<rparr>)"

text \<open>
  \<open>getOrBuild\<close>: \<open>build\<close> is what \<open>buildSession\<close> returns, an error or the address of a session it
  allocated; single-flight runs the second half once per key. \<open>now2\<close> and \<open>now3\<close> are the two
  later readings of the clock.
\<close>

definition getOrBuild ::
  "string \<Rightarrow> instant \<Rightarrow> instant \<Rightarrow> instant \<Rightarrow> (sessionCache \<Rightarrow> (string + addr) \<times> sessionCache) \<Rightarrow> sessionCache \<Rightarrow>
   (string + addr) \<times> sessionCache" where
  "getOrBuild key now now2 now3 build c =
     (case sc_get key now c of
        (Some a, c1) \<Rightarrow> (Inr a, recordLookup ''hit'' c1)
      | (None, c1) \<Rightarrow>
          (case sc_get key now2 (recordLookup ''miss'' c1) of
             (Some a, c2) \<Rightarrow> (Inr a, c2)
           | (None, c2) \<Rightarrow>
               (case build c2 of
                  (Inl err, c3) \<Rightarrow> (Inl err, c3)
                | (Inr a, c3) \<Rightarrow> (Inr a, sc_put key a now3 c3))))"

text \<open>Evicting a list of entries: tombstone, delete; the close follows.\<close>

fun evict_all :: "instant \<Rightarrow> (string \<times> addr \<times> string) list \<Rightarrow> sessionCache \<Rightarrow> sessionCache" where
  "evict_all now [] c = c"
| "evict_all now ((key, a, cause) # vs) c =
     (let c1 = staleTransportsLocked a cause now c in
      evict_all now vs (c1\<lparr>sc_m := AList.delete key (sc_m c1)\<rparr>))"

fun close_all :: "addr list \<Rightarrow> sessionCache \<Rightarrow> sessionCache" where
  "close_all [] c = c"
| "close_all (a # as) c = close_all as (close_session a c)"

fun record_all :: "string list \<Rightarrow> sessionCache \<Rightarrow> sessionCache" where
  "record_all [] c = c"
| "record_all (r # rs) c = record_all rs (recordReclaim r c)"

definition tenant_victims :: "string \<Rightarrow> sessionCache \<Rightarrow> (string \<times> addr \<times> string) list" where
  "tenant_victims tenant c =
     map (\<lambda>(k, a). (k, a, reclaimEntitlementChange))
       (filter (\<lambda>(k, a). se_tenant (sc_heap c a) = tenant) (sc_m c))"

definition invalidateTenant :: "string \<Rightarrow> instant \<Rightarrow> sessionCache \<Rightarrow> nat \<times> sessionCache" where
  "invalidateTenant tenant now c =
     (if sc_down c then (0, c)
      else
        let vs = tenant_victims tenant c;
            c1 = close_all (map (fst \<circ> snd) vs) (evict_all now vs c) in
        (length vs, if length vs > 0 then recordReclaim reclaimEntitlementChange c1 else c1))"

definition expired_victims :: "instant \<Rightarrow> sessionCache \<Rightarrow> (string \<times> addr \<times> string) list" where
  "expired_victims now c =
     List.map_filter (\<lambda>(k, a). map_option (\<lambda>cause. (k, a, cause)) (reclaimCause c (sc_heap c a) now)) (sc_m c)"

definition sc_reap :: "instant \<Rightarrow> sessionCache \<Rightarrow> sessionCache" where
  "sc_reap now c =
     (let vs = expired_victims now c in
      record_all (map (snd \<circ> snd) vs)
        (close_all (map (fst \<circ> snd) vs) (sweepTransportsLocked now (evict_all now vs c))))"

definition closeAll :: "instant \<Rightarrow> sessionCache \<Rightarrow> sessionCache" where
  "closeAll now c =
     (let vs = map (\<lambda>(k, a). (k, a, reclaimExplicit)) (sc_m c) in
      record_all (map (snd \<circ> snd) vs)
        (close_all (map (fst \<circ> snd) vs) (evict_all now vs (c\<lparr>sc_down := True\<rparr>))))"

subsection \<open>\<open>withSession\<close>\<close>

record rejection =
  rj_header :: string
  rj_cause :: string

definition markedRejection :: "string \<Rightarrow> rejection" where
  "markedRejection cause = \<lparr>rj_header = cause, rj_cause = cause\<rparr>"

datatype admission = PassThrough | Unavailable | Served addr | Rejected rejection

text \<open>\<open>sessionUnbound\<close> and \<open>sessionCrossSubject\<close>.\<close>

definition sessionUnbound :: string where "sessionUnbound = ''unbound''"
definition sessionCrossSubject :: string where "sessionCrossSubject = ''cross_subject''"

definition admit_transport :: "principal \<Rightarrow> string \<Rightarrow> string \<Rightarrow> addr \<Rightarrow> sessionCache \<Rightarrow> admission" where
  "admit_transport p meth inbound sess c =
     (let b = lookupTransport inbound c in
      if inbound = [] then Served sess
      else if meth = ''DELETE'' then Served sess
      else if tl_known b \<and> tl_sess b = Some sess then Served sess
      else if tl_known b then
        let rej = (if tl_cause b = [] then markedRejection reclaimUnknown else markedRejection (tl_cause b)) in
        (case tl_sess b of
           Some other \<Rightarrow>
             if se_subject (sc_heap c other) \<noteq> pr_subject p then Rejected (rej\<lparr>rj_cause := sessionCrossSubject\<rparr>)
             else Rejected rej
         | None \<Rightarrow> Rejected rej)
      else Rejected (markedRejection sessionUnbound))"

definition withSession ::
  "principal option \<Rightarrow> string \<Rightarrow> string \<Rightarrow> instant \<Rightarrow> instant \<Rightarrow> instant \<Rightarrow>
   (sessionCache \<Rightarrow> (string + addr) \<times> sessionCache) \<Rightarrow> sessionCache \<Rightarrow> admission \<times> sessionCache" where
  "withSession p meth inbound now now2 now3 build c =
     (case p of
        None \<Rightarrow> (PassThrough, c)
      | Some pr \<Rightarrow>
          (case getOrBuild (KeyFor pr) now now2 now3 build c of
             (Inl err, c1) \<Rightarrow> (Unavailable, c1)
           | (Inr sess, c1) \<Rightarrow> (admit_transport pr meth inbound sess c1, c1)))"

end
