(* ===== verification/SessionCacheProofs.thy ===== *)
theory SessionCacheProofs
  imports SessionCache
begin

text \<open>
  The session cache keeps its index honest: no transport session stays bound to a gateway session
  that was evicted, and no request is served on a session other than its caller's current one.
\<close>

subsection \<open>Frames of the small operations\<close>

definition live :: "sessionCache \<Rightarrow> string \<Rightarrow> addr \<Rightarrow> bool" where
  "live c i a \<longleftrightarrow> (\<exists>b. map_of (sc_bound c) i = Some b \<and> tb_sess b = Some a)"

definition cache_inv :: "sessionCache \<Rightarrow> bool" where
  "cache_inv c \<longleftrightarrow> distinct (map fst (sc_m c)) \<and> distinct (map fst (sc_bound c)) \<and>
     (\<forall>k a. map_of (sc_m c) k = Some a \<longrightarrow> se_cacheKey (sc_heap c a) = k) \<and>
     (\<forall>i a. live c i a \<longrightarrow> i \<in> set (se_transports (sc_heap c a)))"

lemma frames [simp]:
  "sc_m (close_session a c) = sc_m c" "sc_bound (close_session a c) = sc_bound c" "sc_down (close_session a c) = sc_down c"
  "sc_m (recordReclaim r c) = sc_m c" "sc_bound (recordReclaim r c) = sc_bound c" "sc_heap (recordReclaim r c) = sc_heap c"
  "sc_m (recordLookup r c) = sc_m c" "sc_bound (recordLookup r c) = sc_bound c" "sc_heap (recordLookup r c) = sc_heap c"
  "sc_down (recordReclaim r c) = sc_down c" "sc_down (recordLookup r c) = sc_down c"
  "sc_m (upd_session a f c) = sc_m c" "sc_bound (upd_session a f c) = sc_bound c" "sc_down (upd_session a f c) = sc_down c"
  "sc_reclaims (upd_session a f c) = sc_reclaims c" "sc_reclaims (close_session a c) = sc_reclaims c"
  "sc_m (staleTransportsLocked a r t c) = sc_m c" "sc_down (staleTransportsLocked a r t c) = sc_down c"
  "sc_reclaims (staleTransportsLocked a r t c) = sc_reclaims c"
  by (simp_all add: close_session_def recordReclaim_def recordLookup_def upd_session_def staleTransportsLocked_def)

lemma frames_all [simp]:
  "sc_m (close_all as c) = sc_m c" "sc_bound (close_all as c) = sc_bound c" "sc_reclaims (close_all as c) = sc_reclaims c"
  "sc_m (record_all rs c) = sc_m c" "sc_bound (record_all rs c) = sc_bound c" "sc_heap (record_all rs c) = sc_heap c"
  "sc_reclaims (record_all rs c) = sc_reclaims c @ rs"
proof -
  show "sc_m (close_all as c) = sc_m c" "sc_bound (close_all as c) = sc_bound c" "sc_reclaims (close_all as c) = sc_reclaims c"
    by (induction as arbitrary: c) auto
  show "sc_m (record_all rs c) = sc_m c" "sc_bound (record_all rs c) = sc_bound c" "sc_heap (record_all rs c) = sc_heap c"
    by (induction rs arbitrary: c) auto
  show "sc_reclaims (record_all rs c) = sc_reclaims c @ rs"
    by (induction rs arbitrary: c) (auto simp: recordReclaim_def)
qed

lemma heap_upd [simp]: "sc_heap (upd_session a f c) x = (if x = a then f (sc_heap c a) else sc_heap c x)"
  by (simp add: upd_session_def)

lemma live_cong: "sc_bound c = sc_bound d \<Longrightarrow> live c = live d"
  by (simp add: live_def fun_eq_iff)

lemma stale_ids_look:
  "map_of (stale_ids a cause now is bound) i =
     (case map_of bound i of
        None \<Rightarrow> None
      | Some b \<Rightarrow> if i \<in> set is \<and> tb_sess b = Some a
                  then Some \<lparr>tb_sess = None, tb_cause = cause, tb_staleAt = now\<rparr> else Some b)"
  by (induction a cause now "is" bound rule: stale_ids.induct)
    (auto simp: update_conv' split: option.splits)

lemma stale_ids_distinct: "distinct (map fst bound) \<Longrightarrow> distinct (map fst (stale_ids a cause now is bound))"
  by (induction a cause now "is" bound rule: stale_ids.induct) (auto simp: distinct_update split: option.splits)

lemma stale_look:
  "map_of (sc_bound (staleTransportsLocked a cause now c)) i =
     (case map_of (sc_bound c) i of
        None \<Rightarrow> None
      | Some b \<Rightarrow> if i \<in> set (se_transports (sc_heap c a)) \<and> tb_sess b = Some a
                  then Some \<lparr>tb_sess = None, tb_cause = cause, tb_staleAt = now\<rparr> else Some b)"
  by (simp add: staleTransportsLocked_def stale_ids_look)

lemma inv_distinct: "cache_inv c \<Longrightarrow> distinct (map fst (sc_bound c))"
  by (simp add: cache_inv_def)

lemma inv_bound: "cache_inv c \<Longrightarrow> live c i a \<Longrightarrow> i \<in> set (se_transports (sc_heap c a))"
  by (simp add: cache_inv_def)

lemma stale_live: "cache_inv c \<Longrightarrow> live (staleTransportsLocked a cause now c) i x \<longleftrightarrow> live c i x \<and> x \<noteq> a"
  using inv_bound [of c i a] by (cases "map_of (sc_bound c) i") (auto simp: live_def stale_look)

lemma stale_heap:
  "sc_heap (staleTransportsLocked a cause now c) x = (if x = a then (sc_heap c a)\<lparr>se_transports := []\<rparr> else sc_heap c x)"
  by (simp add: staleTransportsLocked_def)

lemma stale_inv: "cache_inv c \<Longrightarrow> cache_inv (staleTransportsLocked a cause now c)"
proof -
  assume c: "cache_inv c"
  have "distinct (map fst (sc_bound (staleTransportsLocked a cause now c)))"
    using c by (simp add: staleTransportsLocked_def stale_ids_distinct cache_inv_def)
  with c stale_live [OF c] show ?thesis by (auto simp: cache_inv_def stale_heap)
qed

lemma filter_keys: "fst ` set (List.map_filter (\<lambda>(i, b). map_option (Pair i) (f b)) bs) \<subseteq> fst ` set bs"
  by (force simp: List.map_filter_def)

lemma delete_inv: "cache_inv c \<Longrightarrow> cache_inv (c\<lparr>sc_m := AList.delete k (sc_m c)\<rparr>)"
  by (auto simp: cache_inv_def distinct_delete delete_conv' live_def split: if_splits)

lemma heap_inv:
  assumes "cache_inv c" "sc_m d = sc_m c" "sc_bound d = sc_bound c"
    "\<And>x. se_cacheKey (sc_heap d x) = se_cacheKey (sc_heap c x) \<and> se_transports (sc_heap d x) = se_transports (sc_heap c x)"
  shows "cache_inv d"
  using assms live_cong [OF assms(3)] by (simp add: cache_inv_def)

lemma close_inv: "cache_inv c \<Longrightarrow> cache_inv (close_session a c)"
  by (erule heap_inv) (simp_all add: close_session_def)

lemma close_all_inv: "cache_inv c \<Longrightarrow> cache_inv (close_all as c)"
  by (induction as arbitrary: c) (auto intro: close_inv)

lemma record_inv: "cache_inv c \<Longrightarrow> cache_inv (recordReclaim r c)" "cache_inv c \<Longrightarrow> cache_inv (recordLookup r c)"
  by (erule heap_inv, simp_all)+

lemma record_all_inv: "cache_inv c \<Longrightarrow> cache_inv (record_all rs c)"
  by (induction rs arbitrary: c) (auto intro: record_inv)

lemma sweep_look:
  assumes "distinct (map fst (sc_bound c))"
  shows "map_of (sc_bound (sweepTransportsLocked now c)) i = Option.bind (map_of (sc_bound c) i) (sweep_binding c now)"
proof -
  have "map_of (List.map_filter (\<lambda>(i, b). map_option (Pair i) (f b)) bs) i = Option.bind (map_of bs i) f"
    if "distinct (map fst bs)" for bs :: "(string \<times> transportBinding) list" and f :: "transportBinding \<Rightarrow> transportBinding option"
    using that
  proof (induction bs)
    case Nil
    then show ?case by (simp add: List.map_filter_def)
  next
    case (Cons ib bs)
    have "map_of (List.map_filter (\<lambda>(i, b). map_option (Pair i) (f b)) bs) (fst ib) = None"
      using Cons.prems filter_keys [of f bs] by (auto simp: map_of_eq_None_iff)
    with Cons show ?case by (cases ib; cases "f (snd ib)") (auto simp: List.map_filter_simps)
  qed
  with assms show ?thesis by (simp add: sweepTransportsLocked_def)
qed

lemma sweep_distinct: "distinct (map fst bs) \<Longrightarrow>
  distinct (map fst (List.map_filter (\<lambda>(i, b). map_option (Pair i) (f b)) bs))"
proof (induction bs)
  case Nil
  then show ?case by (simp add: List.map_filter_def)
next
  case (Cons ib bs)
  then show ?case
    using filter_keys [of f bs] by (cases ib; cases "f (snd ib)") (auto simp: List.map_filter_simps)
qed

lemma sweep_live: "cache_inv c \<Longrightarrow> live (sweepTransportsLocked now c) i a \<Longrightarrow> live c i a"
  by (auto simp: live_def sweep_look [OF inv_distinct] sweep_binding_def Option.bind_eq_Some_conv
      split: option.splits if_splits)

lemma sweep_inv: "cache_inv c \<Longrightarrow> cache_inv (sweepTransportsLocked now c)"
proof -
  assume c: "cache_inv c"
  have "sc_m (sweepTransportsLocked now c) = sc_m c" "sc_heap (sweepTransportsLocked now c) = sc_heap c"
    by (simp_all add: sweepTransportsLocked_def)
  moreover have "distinct (map fst (sc_bound (sweepTransportsLocked now c)))"
    using c by (simp add: sweepTransportsLocked_def sweep_distinct cache_inv_def)
  ultimately show ?thesis using c sweep_live [OF c] by (auto simp: cache_inv_def)
qed

subsection \<open>Evictions\<close>

lemma evict_one_inv: "cache_inv c \<Longrightarrow> cache_inv ((staleTransportsLocked a r t c)\<lparr>sc_m := AList.delete k (sc_m c)\<rparr>)"
proof -
  assume "cache_inv c"
  from delete_inv [OF stale_inv [OF this, of a r t], of k] show ?thesis by simp
qed

lemma evict_all_inv: "cache_inv c \<Longrightarrow> cache_inv (evict_all now vs c)"
  by (induction now vs c rule: evict_all.induct) (auto simp: Let_def evict_one_inv)

lemma evict_all_live:
  "cache_inv c \<Longrightarrow> live (evict_all now vs c) i x \<longleftrightarrow> live c i x \<and> x \<notin> fst ` snd ` set vs"
proof (induction now vs c rule: evict_all.induct)
  case (2 now key a cause vs c)
  let ?c = "(staleTransportsLocked a cause now c)\<lparr>sc_m := AList.delete key (sc_m (staleTransportsLocked a cause now c))\<rparr>"
  have "cache_inv ?c" by (intro delete_inv stale_inv 2(2))
  moreover have "live ?c i x \<longleftrightarrow> live c i x \<and> x \<noteq> a" using stale_live [OF 2(2)] by (simp add: live_def)
  ultimately show ?case using 2(1) by (auto simp: Let_def)
qed simp

lemma evict_all_m:
  "map_of (sc_m (evict_all now vs c)) k = (if k \<in> fst ` set vs then None else map_of (sc_m c) k)"
proof (induction now vs c rule: evict_all.induct)
  case (2 now key a cause vs c)
  show ?case using 2 by (auto simp: Let_def delete_conv')
qed simp

lemma evict_all_frames [simp]:
  "sc_reclaims (evict_all now vs c) = sc_reclaims c" "sc_down (evict_all now vs c) = sc_down c"
  by (induction now vs c rule: evict_all.induct) (auto simp: Let_def)

lemma get_inv: "cache_inv c \<Longrightarrow> sc_get k now c = (r, c') \<Longrightarrow> cache_inv c'"
proof -
  assume c: "cache_inv c" and g: "sc_get k now c = (r, c')"
  have "cache_inv (upd_session a (\<lambda>s. s\<lparr>se_lastSeen := now\<rparr>) c)" for a by (rule heap_inv [OF c]) simp_all
  with c g show ?thesis
    by (auto simp: sc_get_def Let_def split: option.splits intro!: record_inv close_inv evict_one_inv)
qed

text \<open>The four ways a session leaves the cache.\<close>

definition evictions :: "sessionCache \<Rightarrow> sessionCache set" where
  "evictions c = {snd (sc_get k now c) | k now. True} \<union> {sc_reap now c | now. True} \<union>
     {snd (invalidateTenant t now c) | t now. True} \<union> {closeAll now c | now. True}"

lemma victim_keys:
  "(k, a, cause) \<in> set (tenant_victims t c) \<Longrightarrow> (k, a) \<in> set (sc_m c)"
  "(k, a, cause) \<in> set (expired_victims now c) \<Longrightarrow> (k, a) \<in> set (sc_m c)"
  by (auto simp: tenant_victims_def expired_victims_def List.map_filter_def split: if_splits)

lemma down_inv: "cache_inv c \<Longrightarrow> cache_inv (c\<lparr>sc_down := True\<rparr>)"
  by (auto simp: cache_inv_def live_def)

lemma evictions_cases [consumes 2, case_names kept gone]:
  assumes "cache_inv c" "c' \<in> evictions c"
  obtains (kept) "sc_m c' = sc_m c" "sc_bound c' = sc_bound c" "cache_inv c'"
  | (gone) vs :: "(string \<times> addr \<times> string) list" where "set (map (\<lambda>(k, a, r). (k, a)) vs) \<subseteq> set (sc_m c)" "cache_inv c'"
      "\<And>k. map_of (sc_m c') k = (if k \<in> fst ` set vs then None else map_of (sc_m c) k)"
      "\<And>i x. live c' i x \<Longrightarrow> live c i x \<and> x \<notin> fst ` snd ` set vs"
proof -
  have got: thesis if "c' = snd (sc_get k now c)" for k now
  proof (cases "map_of (sc_m c) k")
    case None
    with that show ?thesis by (intro kept) (simp_all add: sc_get_def assms(1))
  next
    case (Some a)
    show ?thesis
    proof (cases "reclaimCause c (sc_heap c a) now")
      case None
      with Some that have "c' = upd_session a (\<lambda>s. s\<lparr>se_lastSeen := now\<rparr>) c" by (simp add: sc_get_def)
      moreover have "cache_inv (upd_session a (\<lambda>s. s\<lparr>se_lastSeen := now\<rparr>) c)" by (rule heap_inv [OF assms(1)]) simp_all
      ultimately show ?thesis by (intro kept) simp_all
    next
      case cause: (Some r)
      have c': "c' = recordReclaim r (close_session a (evict_all now [(k, a, r)] c))"
        using that Some cause by (simp add: sc_get_def Let_def)
      have l: "live c' = live (evict_all now [(k, a, r)] c)" unfolding c' by (rule live_cong) simp
      have i: "cache_inv c'" unfolding c' by (intro record_inv close_inv evict_all_inv assms(1))
      have m: "sc_m c' = sc_m (evict_all now [(k, a, r)] c)" unfolding c' by simp
      show ?thesis
      proof (rule gone [of "[(k, a, r)]"])
        show "set (map (\<lambda>(k, a, r). (k, a)) [(k, a, r)]) \<subseteq> set (sc_m c)" using Some map_of_SomeD by fastforce
      qed (use i m l evict_all_m [of now "[(k, a, r)]" c] evict_all_live [OF assms(1), of now "[(k, a, r)]"] in auto)
    qed
  qed
  have bulk: thesis if vs: "\<And>k a r. (k, a, r) \<in> set vs \<Longrightarrow> (k, a) \<in> set (sc_m c)" and d: "cache_inv d" "sc_m d = sc_m c" "sc_bound d = sc_bound c"
    and c': "sc_m c' = sc_m (evict_all now vs d)" "cache_inv c'" "\<And>i x. live c' i x \<Longrightarrow> live (evict_all now vs d) i x" for vs now d
  proof (rule gone [of vs])
    show "set (map (\<lambda>(k, a, r). (k, a)) vs) \<subseteq> set (sc_m c)" using vs by auto
    show "map_of (sc_m c') k = (if k \<in> fst ` set vs then None else map_of (sc_m c) k)" for k
      using c'(1) d(2) evict_all_m [of now vs d k] by simp
    show "live c' i x \<Longrightarrow> live c i x \<and> x \<notin> fst ` snd ` set vs" for i x
      using c'(3) [of i x] evict_all_live [OF d(1), of now vs i x] live_cong [OF d(3)] by simp
  qed (rule c'(2))
  from assms(2) consider (get) k now where "c' = snd (sc_get k now c)" | (reap) now where "c' = sc_reap now c"
    | (inv) t now where "c' = snd (invalidateTenant t now c)" | (down) now where "c' = closeAll now c"
    by (auto simp: evictions_def)
  then show thesis
  proof cases
    case get
    then show ?thesis by (rule got)
  next
    case reap
    let ?e = "evict_all now (expired_victims now c) c"
    have e: "cache_inv ?e" by (rule evict_all_inv [OF assms(1)])
    show ?thesis
    proof (rule bulk [of "expired_victims now c" c now])
      show "cache_inv c'" unfolding reap sc_reap_def Let_def
        by (intro record_all_inv close_all_inv sweep_inv e)
      show "live c' i x \<Longrightarrow> live ?e i x" for i x
        using sweep_live [OF e, of now i x] unfolding reap sc_reap_def Let_def by (simp add: live_def)
      show "sc_m c' = sc_m ?e" by (simp add: reap sc_reap_def Let_def sweepTransportsLocked_def)
    qed (use assms(1) victim_keys(2) in auto)
  next
    case inv
    show ?thesis
    proof (cases "sc_down c")
      case True
      with inv show ?thesis by (intro kept) (simp_all add: invalidateTenant_def assms(1))
    next
      case False
      show ?thesis
      proof (rule bulk [of "tenant_victims t c" c now])
        show "cache_inv c'" using False assms(1) unfolding inv invalidateTenant_def Let_def
          by (auto intro!: record_inv close_all_inv evict_all_inv)
        show "live c' i x \<Longrightarrow> live (evict_all now (tenant_victims t c) c) i x" for i x
          using False unfolding inv invalidateTenant_def Let_def by (simp add: live_def split: if_splits)
        show "sc_m c' = sc_m (evict_all now (tenant_victims t c) c)"
          using False by (simp add: inv invalidateTenant_def Let_def)
      qed (use assms(1) victim_keys(1) in auto)
    qed
  next
    case down
    let ?vs = "map (\<lambda>(k, a). (k, a, reclaimExplicit)) (sc_m c)" and ?d = "c\<lparr>sc_down := True\<rparr>"
    have d: "cache_inv ?d" by (rule down_inv [OF assms(1)])
    show ?thesis
    proof (rule bulk [of ?vs ?d now])
      show "cache_inv c'" unfolding down closeAll_def Let_def
        by (intro record_all_inv close_all_inv evict_all_inv d)
      show "live c' i x \<Longrightarrow> live (evict_all now ?vs ?d) i x" for i x
        unfolding down closeAll_def Let_def by (simp add: live_def)
      show "sc_m c' = sc_m (evict_all now ?vs ?d)" by (simp add: down closeAll_def Let_def)
    qed (use d in auto)
  qed
qed

subsection \<open>The cache as a transition system\<close>

text \<open>
  \<open>Alloc\<close> is what \<open>buildSession\<close> does to the heap: a session nobody knows yet. \<open>Bind\<close> is the
  \<open>GetSessionID\<close> closure of a session, which may run after the session was evicted.
\<close>

definition unknown_addr :: "addr \<Rightarrow> sessionCache \<Rightarrow> bool" where
  "unknown_addr a c \<longleftrightarrow> (\<forall>k. map_of (sc_m c) k \<noteq> Some a) \<and> (\<forall>i. \<not> live c i a)"

inductive cache_step :: "sessionCache \<Rightarrow> sessionCache \<Rightarrow> bool" where
  Evict: "c' \<in> evictions c \<Longrightarrow> cache_step c c'"
| Alloc: "unknown_addr a c \<Longrightarrow> cache_step c (upd_session a (\<lambda>_. s) c)"
| Put: "unknown_addr a c \<Longrightarrow> cache_step c (sc_put key a now c)"
| Bind: "cache_step c (bindTransport i (Some a) c)"
| Dirty: "cache_step c (markDirty a c)"

definition empty_cache :: "int \<Rightarrow> int \<Rightarrow> (addr \<Rightarrow> session) \<Rightarrow> sessionCache" where
  "empty_cache ttl maxAge h = \<lparr>sc_heap = h, sc_m = [], sc_bound = [], sc_ttl = ttl, sc_maxAge = maxAge,
     sc_down = False, sc_reclaims = [], sc_lookups = []\<rparr>"

lemma put_inv:
  assumes "cache_inv c" "unknown_addr a c"
  shows "cache_inv (sc_put key a now c)"
proof (cases "sc_down c")
  case True
  with assms(1) show ?thesis by (auto simp: sc_put_def intro!: record_inv close_inv stale_inv)
next
  case False
  with assms show ?thesis
    by (auto simp: sc_put_def Let_def cache_inv_def distinct_update update_conv' unknown_addr_def live_def)
qed

lemma bind_inv: "cache_inv c \<Longrightarrow> cache_inv (bindTransport i (Some a) c)"
proof -
  assume c: "cache_inv c"
  show ?thesis
  proof (cases "i = [] \<or> sc_down c \<or> map_of (sc_bound c) i \<noteq> None")
    case True
    with c show ?thesis by (simp add: bindTransport_def)
  next
    case False
    then have n: "map_of (sc_bound c) i = None" by auto
    let ?d = "bindTransport i (Some a) c"
    have "live ?d j x \<longleftrightarrow> (if j = i then x = a else live c j x)" for j x
      using False by (auto simp: bindTransport_def live_def update_conv')
    moreover have "se_transports (sc_heap ?d x) = se_transports (sc_heap c x) @ (if x = a then [i] else [])" for x
      using False by (simp add: bindTransport_def)
    moreover have "se_cacheKey (sc_heap ?d x) = se_cacheKey (sc_heap c x)" for x
      using False by (simp add: bindTransport_def)
    moreover have "sc_m ?d = sc_m c" "distinct (map fst (sc_bound ?d))"
      using False inv_distinct [OF c] by (simp_all add: bindTransport_def distinct_update)
    ultimately show ?thesis using c inv_bound [OF c] by (auto simp: cache_inv_def split: if_splits)
  qed
qed

lemma cache_step_inv: "cache_step c c' \<Longrightarrow> cache_inv c \<Longrightarrow> cache_inv c'"
proof (induction rule: cache_step.induct)
  case (Evict c' c)
  then show ?case by (cases rule: evictions_cases [OF Evict(2,1)]) auto
next
  case (Alloc a c s)
  then show ?case by (auto simp: cache_inv_def unknown_addr_def live_def)
next
  case (Put a c key now)
  then show ?case by (intro put_inv)
next
  case (Bind c i a)
  then show ?case by (rule bind_inv)
next
  case (Dirty c a)
  then show ?case by (rule heap_inv) (simp_all add: markDirty_def)
qed

lemma reach_inv: "cache_step\<^sup>*\<^sup>* (empty_cache ttl maxAge h) c \<Longrightarrow> cache_inv c"
proof (induction rule: rtranclp_induct)
  case base
  show ?case by (simp add: cache_inv_def empty_cache_def live_def)
next
  case (step c d)
  then show ?case using cache_step_inv by blast
qed

subsection \<open>Properties\<close>

text \<open>
  C20. No transport session outlives its gateway session: in every state the cache can reach, a
  session that any eviction removes (expiry on use, the reaper, an entitlement nudge, shutdown)
  keeps no binding, and an eviction never creates one.
\<close>

theorem evicted_sessions_unbound:
  assumes "cache_step\<^sup>*\<^sup>* (empty_cache ttl maxAge h) c" "c' \<in> evictions c"
    and "map_of (sc_m c) key = Some a" "map_of (sc_m c') key \<noteq> Some a"
  shows "\<not> live c' i a \<and> (live c' i b \<longrightarrow> live c i b)"
  using reach_inv [OF assms(1)] assms(2)
proof (cases rule: evictions_cases)
  case kept
  with assms(3,4) show ?thesis by simp
next
  case (gone vs)
  have "key \<in> fst ` set vs" using gone(3) [of key] assms(3,4) by (auto split: if_splits)
  then obtain a' r where v: "(key, a', r) \<in> set vs" by auto
  then have "(key, a') \<in> set (sc_m c)" using gone(1) by auto
  moreover have "distinct (map fst (sc_m c))" using reach_inv [OF assms(1)] by (simp add: cache_inv_def)
  ultimately have "a' = a" using assms(3) by (metis map_of_eq_Some_iff option.inject)
  with v have "a \<in> fst ` snd ` set vs" by force
  with gone(4) show ?thesis by blast
qed

definition blank :: session where
  "blank = \<lparr>se_subject = ''u'', se_cacheKey = [], se_tenant = ''t'', se_lastSeen = 0, se_builtAt = 0,
     se_transports = [], se_dirty = False, se_closed = 0\<rparr>"

definition warm :: sessionCache where
  "warm = bindTransport ''sid'' (Some 7) (sc_put ''u'' 7 10 (empty_cache 20 10 (\<lambda>_. blank)))"

lemma warm_reach: "cache_step\<^sup>*\<^sup>* (empty_cache 20 10 (\<lambda>_. blank)) warm"
proof -
  have "cache_step (empty_cache 20 10 (\<lambda>_. blank)) (sc_put ''u'' 7 10 (empty_cache 20 10 (\<lambda>_. blank)))"
    by (rule cache_step.Put) (simp add: unknown_addr_def empty_cache_def live_def)
  then show ?thesis unfolding warm_def
    by (meson cache_step.Bind rtranclp.rtrancl_into_rtrancl rtranclp.rtrancl_refl)
qed

lemmas warm_eval = warm_def bindTransport_def sc_put_def empty_cache_def upd_session_def blank_def Let_def
  sc_get_def reclaimCause_def staleTransportsLocked_def recordReclaim_def close_session_def

theorem evicted_sessions_unbound_witness:
  "map_of (sc_m warm) ''u'' = Some 7 \<and> live warm ''sid'' 7 \<and> \<not> live (snd (sc_get ''u'' 21 warm)) ''sid'' 7"
proof -
  have m: "map_of (sc_m warm) ''u'' = Some 7" "live warm ''sid'' 7" by (simp_all add: warm_eval live_def)
  have g: "map_of (sc_m (snd (sc_get ''u'' 21 warm))) ''u'' \<noteq> Some 7" by (simp add: warm_eval)
  have "snd (sc_get ''u'' 21 warm) \<in> evictions warm" by (auto simp: evictions_def)
  from evicted_sessions_unbound [OF warm_reach this m(1) g] m show ?thesis by blast
qed

text \<open>
  What the cache relies on of \<open>buildSession\<close>: it returns a session nobody knows and touches
  nothing else.
\<close>

definition builds_fresh :: "(sessionCache \<Rightarrow> (string + addr) \<times> sessionCache) \<Rightarrow> bool" where
  "builds_fresh build \<longleftrightarrow> (\<forall>c r c'. build c = (r, c') \<longrightarrow> sc_m c' = sc_m c \<and> sc_bound c' = sc_bound c \<and>
     sc_down c' = sc_down c \<and> (\<forall>a. r = Inr a \<longrightarrow> unknown_addr a c))"

lemma get_miss: "sc_get k now c = (None, c1) \<Longrightarrow> map_of (sc_m c1) k = None"
  by (auto simp: sc_get_def Let_def delete_conv' split: option.splits)

lemma get_hit:
  assumes "sc_get k now c = (Some a, c1)"
  shows "map_of (sc_m c) k = Some a" "reclaimCause c (sc_heap c a) now = None" "sc_bound c1 = sc_bound c" "sc_m c1 = sc_m c"
  using assms by (auto simp: sc_get_def Let_def split: option.splits)

lemma get_absent: "map_of (sc_m c) k = None \<Longrightarrow> sc_get k now c = (None, c)"
  by (simp add: sc_get_def)

text \<open>
  C19. A request other than a DELETE that carries a transport session is served only on the caller's own
  current session: the id was bound to that session before the request came, the session was the cache
  entry of the caller's key, and it was neither marked dirty nor past its age or idle limit. For such a
  request a transport session minted for anybody or anything else is never served. A DELETE is exempt, as
  \<open>withSession\<close> documents: it runs on the session \<open>getOrBuild\<close> gives the caller, and the same one
  whatever transport session it names.
\<close>

theorem session_served_is_current:
  assumes "cache_inv c" "builds_fresh build" "inbound \<noteq> []"
    and "withSession (Some p) meth inbound now now2 now3 build c = (Served a, c')"
  shows "if meth = ''DELETE''
    then getOrBuild (KeyFor p) now now2 now3 build c = (Inr a, c') \<and>
      (\<forall>other. withSession (Some p) meth other now now2 now3 build c = (Served a, c'))
    else live c inbound a \<and> map_of (sc_m c) (KeyFor p) = Some a \<and> \<not> se_dirty (sc_heap c a) \<and>
      now - se_builtAt (sc_heap c a) \<le> sc_maxAge c \<and> now - se_lastSeen (sc_heap c a) \<le> sc_ttl c"
proof (cases "meth = ''DELETE''")
  case True
  have "admit_transport p ''DELETE'' other r c2 = Served r" for other r c2
    by (cases "other = []") (simp_all add: admit_transport_def Let_def)
  with assms(4) True show ?thesis by (auto simp: withSession_def split: prod.splits sum.splits)
next
  case False
  obtain r where g: "getOrBuild (KeyFor p) now now2 now3 build c = (Inr r, c')"
    and ad: "admit_transport p meth inbound r c' = Served a"
    using assms(4) by (auto simp: withSession_def split: prod.splits sum.splits)
  have l: "live c' inbound a" "r = a"
    using ad assms(3) False
    by (auto simp: admit_transport_def lookupTransport_def Let_def live_def split: if_splits option.splits)
  obtain x c1 where g1: "sc_get (KeyFor p) now c = (x, c1)" by fastforce
  show ?thesis
  proof (cases x)
    case (Some y)
    with g g1 have "y = a" "c' = recordLookup ''hit'' c1" using l(2) by (auto simp: getOrBuild_def)
    with get_hit [OF g1 [unfolded Some]] l(1) live_cong [of c' c] False show ?thesis
      by (auto simp: reclaimCause_def split: if_splits)
  next
    case None
    let ?d = "recordLookup ''miss'' c1"
    have "map_of (sc_m ?d) (KeyFor p) = None" using get_miss g1 None by simp
    then have g2: "sc_get (KeyFor p) now2 ?d = (None, ?d)" by (rule get_absent)
    obtain y c3 where b: "build ?d = (y, c3)" by fastforce
    with g g1 None g2 l(2) have y: "y = Inr a" "c' = sc_put (KeyFor p) a now3 c3"
      by (auto simp: getOrBuild_def split: sum.splits)
    have un: "unknown_addr a ?d" "sc_bound c3 = sc_bound ?d" using assms(2) b y(1) unfolding builds_fresh_def by blast+
    then have nl: "\<not> live c3 inbound a" using live_cong [OF un(2)] by (simp add: unknown_addr_def)
    have "live c' inbound a \<Longrightarrow> live c3 inbound a"
      unfolding y(2) sc_put_def Let_def
      by (auto simp: live_def stale_look split: if_splits option.splits)
    with nl l(1) show ?thesis by blast
  qed
qed

theorem session_served_is_current_witness:
  "withSession (Some \<lparr>pr_subject = ''u'', pr_client_id = [], pr_roles = [], pr_email = []\<rparr>) ''POST'' ''sid'' 15 15 15 (\<lambda>c. (Inl ''down'', c)) warm
     = (Served 7, snd (withSession (Some \<lparr>pr_subject = ''u'', pr_client_id = [], pr_roles = [], pr_email = []\<rparr>) ''POST'' ''sid'' 15 15 15
        (\<lambda>c. (Inl ''down'', c)) warm)) \<and> \<not> se_dirty (sc_heap warm 7) \<and> live warm ''sid'' 7"
proof -
  let ?p = "\<lparr>pr_subject = ''u'', pr_client_id = [], pr_roles = [], pr_email = []\<rparr>" and ?b = "\<lambda>c. (Inl ''down'', c)"
  have s: "withSession (Some ?p) ''POST'' ''sid'' 15 15 15 ?b warm = (Served 7, snd (withSession (Some ?p) ''POST'' ''sid'' 15 15 15 ?b warm))"
    by (simp add: withSession_def getOrBuild_def KeyFor_def admit_transport_def lookupTransport_def recordLookup_def warm_eval)
  have i: "cache_inv warm" by (rule reach_inv [OF warm_reach])
  have "builds_fresh ?b" by (simp add: builds_fresh_def)
  from session_served_is_current [OF i this _ s] s show ?thesis by simp
qed

text \<open>
  C38. The 404 tells a caller whether a foreign transport session is alive: for an id bound to
  another subject's live session the marker header reads \<^verbatim>\<open>unknown\<close>, for an id this process
  never minted it reads \<^verbatim>\<open>unbound\<close>.
\<close>

theorem replay_liveness_oracle:
  assumes "foreign \<noteq> []" "meth \<noteq> ''DELETE''" "other \<noteq> mine" "se_subject (sc_heap c other) \<noteq> pr_subject p"
    and "map_of (sc_bound c) foreign = Some \<lparr>tb_sess = Some other, tb_cause = [], tb_staleAt = 0\<rparr>"
    and "never \<noteq> []" "map_of (sc_bound c) never = None"
  shows "admit_transport p meth foreign mine c = Rejected \<lparr>rj_header = ''unknown'', rj_cause = ''cross_subject''\<rparr> \<and>
    admit_transport p meth never mine c = Rejected \<lparr>rj_header = ''unbound'', rj_cause = ''unbound''\<rparr>"
  using assms
  by (simp add: admit_transport_def lookupTransport_def Let_def markedRejection_def reclaimUnknown_def
      sessionCrossSubject_def sessionUnbound_def)

theorem replay_liveness_oracle_witness:
  "admit_transport \<lparr>pr_subject = ''eve'', pr_client_id = [], pr_roles = [], pr_email = []\<rparr> ''POST'' ''sid'' 8 warm \<noteq>
   admit_transport \<lparr>pr_subject = ''eve'', pr_client_id = [], pr_roles = [], pr_email = []\<rparr> ''POST'' ''nosuch'' 8 warm"
  using replay_liveness_oracle [of "''sid''" "''POST''" 7 8 warm "\<lparr>pr_subject = ''eve'', pr_client_id = [], pr_roles = [], pr_email = []\<rparr>" "''nosuch''"]
  by (simp add: warm_eval)

text \<open>
  The reclaim counter: the reaper and shutdown move it once per session they remove, an
  entitlement nudge moves it once however many sessions it removes.
\<close>

theorem reclaim_counts:
  "length (sc_reclaims (sc_reap now c)) = length (sc_reclaims c) + length (expired_victims now c) \<and>
   length (sc_reclaims (closeAll now c)) = length (sc_reclaims c) + length (sc_m c) \<and>
   (\<not> sc_down c \<and> tenant_victims t c \<noteq> [] \<longrightarrow>
      fst (invalidateTenant t now c) = length (tenant_victims t c) \<and>
      sc_reclaims (snd (invalidateTenant t now c)) = sc_reclaims c @ [reclaimEntitlementChange])"
  by (simp add: sc_reap_def closeAll_def invalidateTenant_def Let_def sweepTransportsLocked_def)
    (simp add: recordReclaim_def)

theorem reclaim_counts_witness:
  "sc_reclaims (snd (invalidateTenant ''t'' 11 warm)) = [reclaimEntitlementChange]"
proof -
  have "\<not> sc_down warm" "tenant_victims ''t'' warm \<noteq> []" "sc_reclaims warm = []"
    by (simp_all add: tenant_victims_def warm_eval)
  with reclaim_counts [of 11 warm "''t''"] show ?thesis by simp
qed

end
