(* ===== verification/GatewayCalls.thy ===== *)
theory GatewayCalls
  imports ApiErrors Rbac "HOL-Library.AList"
begin

text \<open>
  A call through the gateway: the audit of its decision, the governance scan of its arguments and
  of its result, the middleware around \<open>tools/call\<close> and \<open>tools/list\<close>, and the proxy that forwards
  to an upstream (\<open>internal/gateway\<close>: \<open>rbac_middleware.go\<close>, \<open>intercept.go\<close>, \<open>broker.go\<close>,
  \<open>server.go\<close>, and the edition stubs \<open>virtualkey.go\<close>, \<open>quota.go\<close>, \<open>usage.go\<close>).

  The upstream servers, the store and the MCP library are fields of an environment record.
\<close>

subsection \<open>State\<close>

text \<open>A connection is named by the server it was dialled for; a session build dials a server once.\<close>

record upstreamConn =
  uc_server :: string
  uc_slug :: string
  uc_owned :: bool

record upstream_tool =
  ut_name :: string
  ut_description :: string
  ut_schema :: "bytes option"

text \<open>What \<open>AddTool\<close> is given: the tool as listed, and what its handler closes over.\<close>

record proxy_tool =
  px_name :: string
  px_description :: string
  px_schema :: bytes
  px_conn :: upstreamConn
  px_tool :: string

record gateway_session =
  gs_subject :: string
  gs_tenant :: string
  gs_actor :: string
  gs_entitlements :: "entitlement list"
  gs_slugs :: "(string \<times> string) list"
  gs_upstreams :: "upstreamConn list"
  gs_tools :: "(string \<times> proxy_tool) list"
  gs_keyID :: string
  gs_keyNarrow :: "string list option"
  gs_keyClient :: string

datatype result_content = TextContent bytes | OtherContent bytes

record tool_result =
  tr_content :: "result_content list"
  tr_structured :: "bytes option"
  tr_meta :: "(string \<times> bytes) list option"
  tr_error :: bool

datatype call_error =
    ToolDenied string
  | ToolsListDenied
  | InterceptDenied string
  | QuotaExceeded string
  | UnknownTool string
  | UpstreamFailed string
  | ConnectionClosed string

fun call_error_text :: "call_error \<Rightarrow> string" where
  "call_error_text (ToolDenied t) = ''forbidden: tool not entitled: '' @ t"
| "call_error_text ToolsListDenied = ''forbidden: virtual key revoked''"
| "call_error_text (InterceptDenied t) = ''blocked: content governance intercepted this call's arguments: '' @ t"
| "call_error_text (QuotaExceeded m) = m"
| "call_error_text (UnknownTool t) = ''unknown tool '' @ t"
| "call_error_text (UpstreamFailed m) = m"
| "call_error_text (ConnectionClosed m) = m"

text \<open>
  What is outside: whether an audit row can be written, the interceptor, the edition's hooks
  (revocation, quota, metering), what an upstream answers, and the rendering of results.
\<close>

record gateway_env =
  ge_audit :: "audit_event \<Rightarrow> string option"
  ge_interceptor :: "scanner option"
  ge_keyRevoked :: "string \<Rightarrow> string \<Rightarrow> string + bool"
  ge_quota :: "(string \<Rightarrow> string option) option"
  ge_usage :: bool
  ge_call :: "upstreamConn \<Rightarrow> string \<Rightarrow> bytes \<Rightarrow> call_error + tool_result option"
  ge_marshal :: "tool_result \<Rightarrow> bytes option"
  ge_quote :: "string \<Rightarrow> string"

text \<open>
  What the gateway does to the world: durable audit rows, audit log lines with whether the row
  was written, the decision counter, the metered calls, the calls that reached an upstream, the
  connections torn down, and whether the session was flagged for a rebuild.
\<close>

record gateway_world =
  gw_audit :: "audit_event list"
  gw_log :: "(audit_event \<times> bool) list"
  gw_decisions :: "string list"
  gw_usage :: "(string \<times> string \<times> string \<times> string) list"
  gw_calls :: "(upstreamConn \<times> string \<times> bytes) list"
  gw_closed :: "upstreamConn list"
  gw_dirty :: bool

subsection \<open>Audit\<close>

definition auditAs ::
  "gateway_env \<Rightarrow> string \<Rightarrow> string \<Rightarrow> string \<Rightarrow> string \<Rightarrow> string \<Rightarrow> (string \<times> meta) list \<Rightarrow> gateway_world \<Rightarrow> gateway_world" where
  "auditAs env tenant actor action target decision metadata w =
     (let ev = \<lparr>ae_tenant = tenant, ae_actor = actor, ae_action = action, ae_target = target,
          ae_decision = decision, ae_metadata = metadata\<rparr> in
      case ge_audit env ev of
        Some _ \<Rightarrow> w\<lparr>gw_log := gw_log w @ [(ev, False)]\<rparr>
      | None \<Rightarrow> w\<lparr>gw_audit := gw_audit w @ [ev], gw_log := gw_log w @ [(ev, True)]\<rparr>)"

definition gateway_audit ::
  "gateway_env \<Rightarrow> gateway_session \<Rightarrow> string \<Rightarrow> string \<Rightarrow> string \<Rightarrow> (string \<times> meta) list \<Rightarrow> gateway_world \<Rightarrow> gateway_world" where
  "gateway_audit env sess action target decision metadata w =
     auditAs env (gs_tenant sess) (gs_actor sess) action target decision metadata w"

text \<open>The one place that moves the decision counter.\<close>

definition auditDecision ::
  "gateway_env \<Rightarrow> gateway_session \<Rightarrow> string \<Rightarrow> string \<Rightarrow> gateway_world \<Rightarrow> gateway_world" where
  "auditDecision env sess target decision w =
     gateway_audit env sess ''gateway.tool.call'' target decision []
       (w\<lparr>gw_decisions := gw_decisions w @ [decision]\<rparr>)"

definition maxAuditTargetRunes :: nat where "maxAuditTargetRunes = 256"

definition truncateAuditTarget :: "string \<Rightarrow> string" where
  "truncateAuditTarget s =
     (if length (runes s) \<le> maxAuditTargetRunes then s else concat (take maxAuditTargetRunes (runes s)))"

definition listAuditTarget :: string where "listAuditTarget = ''<tools/list>''"

subsection \<open>Interception\<close>

definition auditCallFinding ::
  "gateway_env \<Rightarrow> gateway_session \<Rightarrow> string \<Rightarrow> finding \<Rightarrow> gateway_world \<Rightarrow> gateway_world" where
  "auditCallFinding env sess tool f w =
     gateway_audit env sess
       (if fd_severity f = ''block'' then ''gateway.call.blocked'' else ''gateway.call.flagged'') tool
       (if fd_severity f = ''block'' then ''deny'' else ''allow'')
       [(''rule'', MStr (fd_rule f)), (''severity'', MStr (fd_severity f))] w"

fun audit_findings ::
  "gateway_env \<Rightarrow> gateway_session \<Rightarrow> string \<Rightarrow> finding list \<Rightarrow> gateway_world \<Rightarrow> gateway_world" where
  "audit_findings env sess tool [] w = w"
| "audit_findings env sess tool (f # fs) w = audit_findings env sess tool fs (auditCallFinding env sess tool f w)"

definition interceptArguments ::
  "gateway_env \<Rightarrow> gateway_session \<Rightarrow> string \<Rightarrow> bytes \<Rightarrow> gateway_world \<Rightarrow> call_error option \<times> gateway_world" where
  "interceptArguments env sess tool args w =
     (case ge_interceptor env of
        None \<Rightarrow> (None, w)
      | Some sc \<Rightarrow>
          (case ScanCall sc \<lparr>cp_tool = tool, cp_direction = ''arguments'', cp_content = args\<rparr> of
             Inl _ \<Rightarrow> (Some (InterceptDenied tool), w)
           | Inr findings \<Rightarrow>
               (if HasBlocking findings then Some (InterceptDenied tool) else None,
                audit_findings env sess tool findings w)))"

fun blockingRule :: "finding list \<Rightarrow> string" where
  "blockingRule [] = ''unknown''"
| "blockingRule (f # fs) = (if fd_severity f = ''block'' then fd_rule f else blockingRule fs)"

text \<open>
  \<open>json.Marshal\<close> of a value with a \<open>MarshalJSON\<close> of its own (\<open>ge_marshal\<close>, the library's): the bytes it
  returns are compacted, white space outside strings dropped, and \<^verbatim>\<open><\<close>, \<^verbatim>\<open>>\<close>, \<^verbatim>\<open>&\<close> and the runes
  U+2028 and U+2029 become escapes.
\<close>

datatype json_pos = Outside | Within | Escaping

fun json_next :: "json_pos \<Rightarrow> char \<Rightarrow> json_pos" where
  "json_next Outside c = (if c = CHR 0x22 then Within else Outside)"
| "json_next Within c = (if c = CHR 0x5C then Escaping else if c = CHR 0x22 then Outside else Within)"
| "json_next Escaping c = Within"

definition json_space :: "char \<Rightarrow> bool" where
  "json_space c \<longleftrightarrow> c = CHR '' '' \<or> c = CHR 0x09 \<or> c = nl \<or> c = CHR 0x0D"

fun json_strip :: "json_pos \<Rightarrow> bytes \<Rightarrow> bytes" where
  "json_strip q [] = []"
| "json_strip q (c # s) = (if q = Outside \<and> json_space c then [] else [c]) @ json_strip (json_next q c) s"

text \<open>What stands for the next byte, and how many more bytes that covers.\<close>

definition escape_head :: "char \<Rightarrow> bytes \<Rightarrow> bytes \<times> nat" where
  "escape_head c s =
     (if c = CHR ''<'' then (CHR 0x5C # ''u003c'', 0)
      else if c = CHR ''>'' then (CHR 0x5C # ''u003e'', 0)
      else if c = CHR ''&'' then (CHR 0x5C # ''u0026'', 0)
      else if c = CHR 0xE2 \<and> take 2 s = [CHR 0x80, CHR 0xA8] then (CHR 0x5C # ''u2028'', 2)
      else if c = CHR 0xE2 \<and> take 2 s = [CHR 0x80, CHR 0xA9] then (CHR 0x5C # ''u2029'', 2)
      else ([c], 0))"

fun html_escape :: "bytes \<Rightarrow> bytes" where
  "html_escape [] = []"
| "html_escape (c # s) = fst (escape_head c s) @ html_escape (drop (snd (escape_head c s)) s)"

text \<open>An error of the library is scanned as the empty text.\<close>

definition marshalResult :: "gateway_env \<Rightarrow> tool_result \<Rightarrow> bytes" where
  "marshalResult env res =
     (case ge_marshal env res of None \<Rightarrow> [] | Some b \<Rightarrow> html_escape (json_strip Outside b))"

definition refusalContent :: "gateway_env \<Rightarrow> string \<Rightarrow> string \<Rightarrow> result_content list" where
  "refusalContent env tool rule =
     [TextContent (''orbeat: result withheld for tool '' @ ge_quote env tool @
        '' -- its output matched a blocking content-governance rule ('' @ rule @
        '') and was not returned. This does not undo the call: the upstream tool already ran before this check happened.'')]"

definition withholdResult :: "gateway_env \<Rightarrow> tool_result \<Rightarrow> string \<Rightarrow> string \<Rightarrow> tool_result" where
  "withholdResult env res tool rule =
     res\<lparr>tr_content := refusalContent env tool rule, tr_structured := None, tr_meta := None, tr_error := True\<rparr>"

definition interceptResult ::
  "gateway_env \<Rightarrow> gateway_session \<Rightarrow> string \<Rightarrow> tool_result \<Rightarrow> gateway_world \<Rightarrow> tool_result \<times> gateway_world" where
  "interceptResult env sess tool res w =
     (case ge_interceptor env of
        None \<Rightarrow> (res, w)
      | Some sc \<Rightarrow>
          (case ScanCall sc \<lparr>cp_tool = tool, cp_direction = ''result'', cp_content = marshalResult env res\<rparr> of
             Inl _ \<Rightarrow> (withholdResult env res tool ''scan-error'', w)
           | Inr findings \<Rightarrow>
               (if HasBlocking findings then withholdResult env res tool (blockingRule findings) else res,
                audit_findings env sess tool findings w)))"

subsection \<open>The proxy of one tool\<close>

definition proxy_call ::
  "gateway_env \<Rightarrow> gateway_session \<Rightarrow> proxy_tool \<Rightarrow> bytes \<Rightarrow> gateway_world \<Rightarrow> (call_error + tool_result option) \<times> gateway_world" where
  "proxy_call env sess px args w =
     (let w1 = w\<lparr>gw_calls := gw_calls w @ [(px_conn px, px_tool px, args)]\<rparr> in
      case ge_call env (px_conn px) (px_tool px) args of
        Inl (ConnectionClosed m) \<Rightarrow> (Inl (ConnectionClosed m), w1\<lparr>gw_dirty := True\<rparr>)
      | Inl e \<Rightarrow> (Inl e, w1)
      | Inr None \<Rightarrow> (Inr None, w1)
      | Inr (Some res) \<Rightarrow>
          (case interceptResult env sess (px_name px) res w1 of (res1, w2) \<Rightarrow> (Inr (Some res1), w2)))"

text \<open>The MCP server's own handler of \<open>tools/call\<close>: the tool registered last under the name.\<close>

definition dispatch ::
  "gateway_env \<Rightarrow> gateway_session \<Rightarrow> string \<Rightarrow> bytes \<Rightarrow> gateway_world \<Rightarrow> (call_error + tool_result option) \<times> gateway_world" where
  "dispatch env sess name args w =
     (case map_of (gs_tools sess) name of
        None \<Rightarrow> (Inl (UnknownTool name), w)
      | Some px \<Rightarrow> proxy_call env sess px args w)"

subsection \<open>The middleware\<close>

text \<open>\<open>None\<close> stands for parameters of an unexpected type, which only a change of the library can cause.\<close>

definition rbacToolsCall ::
  "gateway_env \<Rightarrow> gateway_session \<Rightarrow> (string \<Rightarrow> bytes \<Rightarrow> gateway_world \<Rightarrow> (call_error + 'r) \<times> gateway_world) \<Rightarrow>
   (string \<times> bytes) option \<Rightarrow> gateway_world \<Rightarrow> (call_error + 'r) \<times> gateway_world" where
  "rbacToolsCall env sess nxt params w =
     (case params of
        None \<Rightarrow> (Inl (ToolDenied ''<unparseable>''), auditDecision env sess ''<unparseable>'' ''deny'' w)
      | Some (name, args) \<Rightarrow>
          let target = truncateAuditTarget name;
              denied = (Inl (ToolDenied name), auditDecision env sess target ''deny'' w) in
          if gs_keyID sess \<noteq> [] \<and> ge_keyRevoked env (gs_tenant sess) (gs_keyClient sess) \<noteq> Inr False then denied
          else
            (case toolCallAuthorization name (gs_slugs sess) (gs_entitlements sess) (gs_keyID sess) (gs_keyNarrow sess) of
               None \<Rightarrow> denied
             | Some (serverID, tool, roleID) \<Rightarrow>
                 (case interceptArguments env sess target args (auditDecision env sess target ''allow'' w) of
                    (Some e, w1) \<Rightarrow> (Inl e, w1)
                  | (None, w1) \<Rightarrow>
                      (case (case ge_quota env of None \<Rightarrow> None | Some check \<Rightarrow> check roleID) of
                         Some m \<Rightarrow> (Inl (QuotaExceeded m), w1)
                       | None \<Rightarrow>
                           nxt name args
                             (if ge_usage env then w1\<lparr>gw_usage := gw_usage w1 @ [(gs_subject sess, serverID, tool, roleID)]\<rparr>
                              else w1)))))"

definition rbacToolsList ::
  "gateway_env \<Rightarrow> gateway_session \<Rightarrow> (gateway_world \<Rightarrow> (call_error + 'r) \<times> gateway_world) \<Rightarrow>
   gateway_world \<Rightarrow> (call_error + 'r) \<times> gateway_world" where
  "rbacToolsList env sess nxt w =
     (if gs_keyID sess = [] then nxt w
      else if ge_keyRevoked env (gs_tenant sess) (gs_keyClient sess) \<noteq> Inr False
      then (Inl ToolsListDenied, gateway_audit env sess ''gateway.tools.list'' listAuditTarget ''deny'' [] w)
      else nxt w)"

text \<open>The methods \<open>rbacMiddleware\<close> tells apart, over the MCP server's own handlers.\<close>

datatype mcp_request =
    CallTool "(string \<times> bytes) option"
  | ListTools
  | OtherMethod string

datatype mcp_reply =
    CallReply "tool_result option"
  | ListReply "(string \<times> string \<times> bytes) list"
  | OtherReply

definition list_tools :: "gateway_session \<Rightarrow> (string \<times> string \<times> bytes) list" where
  "list_tools sess = map (\<lambda>(n, px). (n, px_description px, px_schema px)) (gs_tools sess)"

fun rbacMiddleware ::
  "gateway_env \<Rightarrow> gateway_session \<Rightarrow> mcp_request \<Rightarrow> gateway_world \<Rightarrow> (call_error + mcp_reply) \<times> gateway_world" where
  "rbacMiddleware env sess (CallTool params) w =
     rbacToolsCall env sess (\<lambda>name args w1. map_prod (map_sum id CallReply) id (dispatch env sess name args w1)) params w"
| "rbacMiddleware env sess ListTools w =
     rbacToolsList env sess (\<lambda>w1. (Inr (ListReply (list_tools sess)), w1)) w"
| "rbacMiddleware env sess (OtherMethod m) w = (Inr OtherReply, w)"

subsection \<open>The hooks of this edition\<close>

text \<open>No virtual keys, no quota, no metering (\<open>virtualkey.go\<close>, \<open>quota.go\<close>, \<open>usage.go\<close>).\<close>

definition keyRevoked :: "string \<Rightarrow> string \<Rightarrow> string + bool" where
  "keyRevoked tenant client = Inr False"

definition quota_Check :: "string \<Rightarrow> string option" where
  "quota_Check roleID = None"

end
