(* ===== verification/GatewayBuild.thy ===== *)
theory GatewayBuild
  imports GatewayCalls ServerStore
begin

text \<open>
  Building a session (\<open>buildSession\<close>, \<open>dialUpstream\<close>, \<open>skipUpstream\<close> in
  \<open>internal/gateway/server.go\<close>; \<open>connectUpstream\<close>, \<open>registerProxies\<close>, the bearer round
  tripper in \<open>broker.go\<close>; the dial guard's address test in \<open>dialguard.go\<close>).
\<close>

subsection \<open>The dial guard\<close>

text \<open>
  \<open>net.IP\<close> holds 16 bytes, an IPv4 address in its mapped form; \<open>To4\<close> and \<open>IsLinkLocalUnicast\<close>
  as the standard library defines them.
\<close>

type_synonym ip = "nat list"

definition To4 :: "ip \<Rightarrow> nat list option" where
  "To4 a = (if length a = 4 then Some a
     else if length a = 16 \<and> take 12 a = replicate 10 0 @ [255, 255] then Some (drop 12 a) else None)"

definition IsLinkLocalUnicast :: "ip \<Rightarrow> bool" where
  "IsLinkLocalUnicast a =
     (case To4 a of
        Some b \<Rightarrow> b ! 0 = 169 \<and> b ! 1 = 254
      | None \<Rightarrow> length a = 16 \<and> a ! 0 = 254 \<and> a ! 1 div 64 = 2)"

definition ip_Equal :: "ip \<Rightarrow> ip \<Rightarrow> bool" where
  "ip_Equal a b = (case (To4 a, To4 b) of (Some x, Some y) \<Rightarrow> x = y | (None, None) \<Rightarrow> a = b | _ \<Rightarrow> False)"

definition awsIPv6MetadataAddr :: ip where
  "awsIPv6MetadataAddr = [253, 0, 14, 194, 0, 0, 0, 0, 0, 0, 0, 0, 0, 0, 2, 84]"

definition alibabaMetadataAddr :: ip where
  "alibabaMetadataAddr = replicate 10 0 @ [255, 255, 100, 100, 100, 200]"

datatype dial_error = Unparseable | NonIP | MetadataBlocked

text \<open>The arguments are what \<open>SplitHostPort\<close> and \<open>ParseIP\<close> made of the address.\<close>

definition blockMetadataDial :: "string option \<Rightarrow> (string \<Rightarrow> ip option) \<Rightarrow> dial_error option" where
  "blockMetadataDial host parse =
     (case host of
        None \<Rightarrow> Some Unparseable
      | Some h \<Rightarrow>
          (case parse h of
             None \<Rightarrow> Some NonIP
           | Some a \<Rightarrow>
               if IsLinkLocalUnicast a \<or> ip_Equal a awsIPv6MetadataAddr \<or> ip_Equal a alibabaMetadataAddr
               then Some MetadataBlocked else None))"

subsection \<open>Connecting\<close>

text \<open>The header the round tripper adds: only to the host the secret was resolved for.\<close>

definition bearer_header :: "string \<Rightarrow> string \<Rightarrow> string \<Rightarrow> string option" where
  "bearer_header token allowedHost requestHost =
     (if token \<noteq> [] \<and> requestHost = allowedHost then Some (''Bearer '' @ token) else None)"

text \<open>
  Outside: \<open>url.Parse\<close>, the parser of a CA bundle, the handshake of the MCP client, the pages of
  an upstream's tool list (the tools before an error, and the error), the provider of secrets, and
  whether the watchdog of a dial fired.
\<close>

record dial_env =
  de_parse_url :: "string \<Rightarrow> string + string"
  de_ca_parses :: "string \<Rightarrow> bool"
  de_connect :: "string \<Rightarrow> string \<Rightarrow> string \<Rightarrow> string \<Rightarrow> string \<Rightarrow> string option"
  de_tools :: "upstreamConn \<Rightarrow> upstream_tool list \<times> string option"
  de_secret :: "string \<Rightarrow> string + string"
  de_fired :: "string \<Rightarrow> bool"

definition connectUpstream :: "dial_env \<Rightarrow> mcp_server \<Rightarrow> string \<Rightarrow> string \<Rightarrow> string + upstreamConn" where
  "connectUpstream de srv secret caPEM =
     (let slug = Slugify (ms_name srv) in
      if slug = [] then Inl (''gateway: server has an empty slug: '' @ ms_id srv)
      else
        (case de_parse_url de (ms_endpoint srv) of
           Inl e \<Rightarrow> Inl (''gateway: parse upstream endpoint: '' @ e)
         | Inr host \<Rightarrow>
             if caPEM \<noteq> [] \<and> \<not> de_ca_parses de caPEM then Inl (''gateway: tls ca for '' @ ms_name srv)
             else if ms_transport srv \<notin> {''http'', ''sse''} then Inl ''gateway: unsupported upstream transport''
             else
               (case de_connect de (ms_transport srv) (ms_endpoint srv) host secret caPEM of
                  Some e \<Rightarrow> Inl (''gateway: connect upstream '' @ ms_name srv @ '': '' @ e)
                | None \<Rightarrow> Inr \<lparr>uc_server = ms_id srv, uc_slug = slug, uc_owned = (caPEM \<noteq> [])\<rparr>)))"

record dialOutcome =
  do_conn :: "upstreamConn option"
  do_watchdog :: bool
  do_reason :: string
  do_err :: "string option"

definition no_dial :: "string \<Rightarrow> string option \<Rightarrow> dialOutcome" where
  "no_dial reason err = \<lparr>do_conn = None, do_watchdog = False, do_reason = reason, do_err = err\<rparr>"

definition dialUpstream :: "dial_env \<Rightarrow> mcp_server \<Rightarrow> dialOutcome" where
  "dialUpstream de srv =
     (if ms_transport srv \<noteq> ''http'' \<and> ms_transport srv \<noteq> ''sse'' then no_dial ''unsupported transport'' None
      else
        (case de_secret de (ms_secret_ref srv) of
           Inl e \<Rightarrow> no_dial ''secret resolve'' (Some e)
         | Inr secret \<Rightarrow>
             (case (if ms_tls_ca_ref srv = [] then Inr [] else de_secret de (ms_tls_ca_ref srv)) of
                Inl e \<Rightarrow> no_dial ''tls ca resolve'' (Some e)
              | Inr caPEM \<Rightarrow>
                  (case connectUpstream de srv secret caPEM of
                     Inl e \<Rightarrow> \<lparr>do_conn = None, do_watchdog = True, do_reason = ''connect'', do_err = Some e\<rparr>
                   | Inr conn \<Rightarrow> \<lparr>do_conn = Some conn, do_watchdog = True, do_reason = [], do_err = None\<rparr>))))"

subsection \<open>Registration\<close>

definition defaultedSchema :: "bytes option \<Rightarrow> bytes" where
  "defaultedSchema s = (case s of None \<Rightarrow> ''{'' @ [CHR 0x22] @ ''type'' @ [CHR 0x22] @ '':'' @ [CHR 0x22] @ ''object'' @ [CHR 0x22] @ ''}''
     | Some b \<Rightarrow> b)"

text \<open>The tools of one upstream, in the order its pages list them; an error keeps what came before it.\<close>

fun register_tools :: "upstreamConn \<Rightarrow> upstream_tool list \<Rightarrow> gateway_session \<Rightarrow> gateway_session" where
  "register_tools conn [] sess = sess"
| "register_tools conn (ut # uts) sess =
     (let proxyName = Namespace (uc_slug conn) (ut_name ut) in
      if \<not> toolCallAllowed proxyName [(uc_slug conn, uc_server conn)] (gs_entitlements sess) (gs_keyID sess) (gs_keyNarrow sess)
      then register_tools conn uts sess
      else register_tools conn uts
        (sess\<lparr>gs_tools := AList.update proxyName
           \<lparr>px_name = proxyName, px_description = ut_description ut, px_schema = defaultedSchema (ut_schema ut),
            px_conn = conn, px_tool = ut_name ut\<rparr> (gs_tools sess)\<rparr>))"

definition registerProxies :: "dial_env \<Rightarrow> upstreamConn \<Rightarrow> gateway_session \<Rightarrow> string option \<times> gateway_session" where
  "registerProxies de conn sess =
     (case de_tools de conn of
        (uts, err) \<Rightarrow> (case err of None \<Rightarrow> None | Some e \<Rightarrow> Some (''gateway: list upstream tools: '' @ e),
          register_tools conn uts sess))"

subsection \<open>Building\<close>

definition skipUpstream ::
  "gateway_env \<Rightarrow> gateway_session \<Rightarrow> string \<Rightarrow> upstreamConn option \<Rightarrow> gateway_world \<Rightarrow> gateway_world" where
  "skipUpstream env sess server conn w =
     gateway_audit env sess ''gateway.upstream.connect'' server ''error'' []
       (case conn of None \<Rightarrow> w | Some c \<Rightarrow> w\<lparr>gw_closed := gw_closed w @ [c]\<rparr>)"

definition build_candidates :: "string set \<Rightarrow> mcp_server list \<Rightarrow> mcp_server list" where
  "build_candidates visible servers = filter (\<lambda>s. ms_id s \<in> visible \<and> ms_status s = ''active'') servers"

text \<open>One step of the second phase.\<close>

definition attach_upstream ::
  "gateway_env \<Rightarrow> dial_env \<Rightarrow> mcp_server \<Rightarrow> dialOutcome \<Rightarrow> gateway_session \<Rightarrow> gateway_world \<Rightarrow> gateway_session \<times> gateway_world" where
  "attach_upstream env de srv r sess w =
     (if do_reason r \<noteq> [] then
        (sess, if do_watchdog r then skipUpstream env sess (ms_id srv) (do_conn r) w
           else gateway_audit env sess ''gateway.upstream.connect'' (ms_id srv) ''error'' [] w)
      else
        (case do_conn r of
           None \<Rightarrow> (sess, w)
         | Some conn \<Rightarrow>
          if map_of (gs_slugs sess) (Slugify (ms_name srv)) \<noteq> None
          then (sess, skipUpstream env sess (ms_id srv) (Some conn) w)
          else
            (case registerProxies de conn sess of
               (Some _, sess1) \<Rightarrow> (sess1, skipUpstream env sess1 (ms_id srv) (Some conn) w)
             | (None, sess1) \<Rightarrow>
                 if de_fired de (ms_id srv) then (sess1, skipUpstream env sess1 (ms_id srv) (Some conn) w)
                 else
                   let sess2 = sess1\<lparr>gs_slugs := AList.update (uc_slug conn) (ms_id srv) (gs_slugs sess1),
                         gs_upstreams := gs_upstreams sess1 @ [conn]\<rparr> in
                   (sess2, gateway_audit env sess2 ''gateway.upstream.connect'' (ms_id srv) ''allow'' [] w))))"

fun attach_all ::
  "gateway_env \<Rightarrow> dial_env \<Rightarrow> (mcp_server \<times> dialOutcome) list \<Rightarrow> gateway_session \<Rightarrow> gateway_world \<Rightarrow> gateway_session \<times> gateway_world" where
  "attach_all env de [] sess w = (sess, w)"
| "attach_all env de ((srv, r) # rs) sess w =
     (case attach_upstream env de srv r sess w of (sess1, w1) \<Rightarrow> attach_all env de rs sess1 w1)"

record principal =
  pr_subject :: string
  pr_client :: string
  pr_email :: string
  pr_roles :: "string list"

record resolved_context =
  rc_tenant :: string
  rc_user :: string
  rc_roles :: "string list"

text \<open>What the build reads: the identity, as a virtual key or as a person, and the catalogue.\<close>

record build_env =
  be_virtualKey :: "principal \<Rightarrow> string + (resolved_context \<times> string \<times> string list option) option"
  be_resolve :: "principal \<Rightarrow> string + resolved_context"
  be_entitlements :: "string \<Rightarrow> string list \<Rightarrow> string + entitlement list"
  be_servers :: "string \<Rightarrow> string + mcp_server list"

definition build_identity :: "build_env \<Rightarrow> principal \<Rightarrow> string + (resolved_context \<times> string \<times> string list option)" where
  "build_identity be p =
     (case be_virtualKey be p of
        Inl e \<Rightarrow> Inl e
      | Inr (Some k) \<Rightarrow> Inr k
      | Inr None \<Rightarrow> map_sum id (\<lambda>rc. (rc, [], None)) (be_resolve be p))"

text \<open>
  The dials of the first phase run concurrently and share nothing: each outcome depends on its own
  server alone, and the second phase walks them in the order of the catalogue.
\<close>

definition buildSession ::
  "build_env \<Rightarrow> gateway_env \<Rightarrow> dial_env \<Rightarrow> principal \<Rightarrow> gateway_world \<Rightarrow> (string + gateway_session) \<times> gateway_world" where
  "buildSession be env de p w =
     (case build_identity be p of Inl e \<Rightarrow> (Inl e, w) | Inr (rc, keyID, keyNarrow) \<Rightarrow>
      case be_entitlements be (rc_tenant rc) (rc_roles rc) of Inl e \<Rightarrow> (Inl e, w) | Inr ents \<Rightarrow>
      case be_servers be (rc_tenant rc) of Inl e \<Rightarrow> (Inl e, w) | Inr servers \<Rightarrow>
      let sess = \<lparr>gs_subject = pr_subject p, gs_tenant = rc_tenant rc, gs_actor = pr_subject p,
            gs_entitlements = ents, gs_slugs = [], gs_upstreams = [], gs_tools = [],
            gs_keyID = keyID, gs_keyNarrow = keyNarrow, gs_keyClient = (if keyID = [] then [] else pr_client p)\<rparr>;
          candidates = build_candidates (VisibleServerIDs ents) servers;
          results = map (dialUpstream de) candidates in
      map_prod Inr id (attach_all env de (zip candidates results) sess w))"

text \<open>\<open>resolveVirtualKey\<close> of this edition.\<close>

definition resolveVirtualKey :: "principal \<Rightarrow> string + (resolved_context \<times> string \<times> string list option) option" where
  "resolveVirtualKey p = Inr None"

end
