(* ===== verification/ArtifactApiProofs.thy ===== *)
theory ArtifactApiProofs
  imports ArtifactApi ArtifactStoreProofs
begin

text \<open>
  What the admin routes guarantee: validation accepts only rows the constraints of the table
  accept, no change of the tables goes unaudited, and with auto-approval on, everything that is
  distributed was validated and scanned.
\<close>

subsection \<open>What validation accepts\<close>

lemma first_error_None: "first_error es = None \<longleftrightarrow> (\<forall>e \<in> set es. e = None)"
  by (induction es rule: first_error.induct) auto

lemma validateArtifact_None:
  assumes "validateArtifact y i = None"
  shows "ai_type i \<in> {''skill'', ''subagent'', ''rule''}" "slugRe (ai_name i)" "ai_visibility i \<in> {[], ''org'', ''role''}"
    "validateTargetTags i = None" "validateRuleScope i = None" "length (ai_content i) \<le> MaxContentBytes"
    "\<not> HasReservedMarker (ai_content i)" "validate_scope i = None" "validate_seed i = None" "validate_body y i = None"
  using assms by (auto simp: validateArtifact_def first_error_None split: if_splits)

lemma tags_None: "validateTargetTags i = None \<Longrightarrow> ai_tags i \<noteq> [] \<Longrightarrow> ai_type i = ''rule'' \<and> length (ai_tags i) \<le> 16"
  by (auto simp: validateTargetTags_def maxTargetTags_def split: if_splits)

lemma rule_scope_None:
  "validateRuleScope i = None \<Longrightarrow> ai_rule_scope i \<noteq> [] \<Longrightarrow> ai_type i = ''rule'' \<and> ai_rule_scope i \<in> {''project'', ''global''}"
  by (auto simp: validateRuleScope_def split: if_splits)

lemma scope_None:
  "validate_scope i = None \<Longrightarrow> ai_scope i \<noteq> [] \<Longrightarrow> ai_type i = ''subagent'' \<and> ai_scope i \<in> {''user'', ''project'', ''local''}"
  by (auto simp: validate_scope_def split: if_splits)

lemma seed_None:
  "validate_seed i = None \<Longrightarrow> ai_seed i \<noteq> [] \<Longrightarrow>
     ai_type i = ''subagent'' \<and> ai_scope i \<in> {''user'', ''project''} \<and> length (ai_seed i) \<le> MaxSeedBytes \<and>
     \<not> contains ''ORBEAT-SEED'' (ai_seed i) \<and> \<not> HasReservedMarker (ai_seed i)"
  by (auto simp: validate_seed_def split: if_splits)

lemma nullif_eq: "nullif x = None \<longleftrightarrow> x = []" "nullif x = Some v \<longleftrightarrow> x = v \<and> v \<noteq> []"
  by (auto simp: nullif_def)

lemma row_checks_working:
  assumes "validateArtifact y i = None" "row_checks r"
  shows "row_checks (set_working (to_write i) r)"
proof -
  note v = validateArtifact_None [OF assms(1)]
  let ?r = "set_working (to_write i) r"
  have t: "ar_type ?r \<in> {''skill'', ''subagent'', ''rule''}" using v(1) by (simp add: set_working_def to_write_def)
  have s: "ar_scope ?r \<in> {None, Some ''user'', Some ''project'', Some ''local''}" "ar_scope ?r = None \<or> ar_type ?r = ''subagent''"
    using scope_None [OF v(8)] by (auto simp: set_working_def to_write_def nullif_def)
  have sd: "ar_seed ?r = None \<or> ar_type ?r = ''subagent''"
    using seed_None [OF v(9)] by (auto simp: set_working_def to_write_def nullif_def)
  have vis: "ar_visibility ?r \<in> {''org'', ''role''}" using v(3) by (auto simp: set_working_def to_write_def)
  have tags: "tags_ok (ar_tags ?r) (ar_type ?r = ''rule'')"
    using tags_None [OF v(4)] by (cases "ai_tags i") (auto simp: set_working_def to_write_def nullif_def tags_ok_def)
  have rs: "case ar_rule_scope ?r of None \<Rightarrow> True | Some x \<Rightarrow> x \<in> {''project'', ''global''} \<and> ar_type ?r = ''rule''"
    using rule_scope_None [OF v(5)] by (auto simp: set_working_def to_write_def nullif_def)
  have rest: "ar_state ?r = ''draft''" "ar_app_content ?r = ar_app_content r" "ar_app_name ?r = ar_app_name r"
    "ar_app_type ?r = ar_app_type r" "ar_app_visibility ?r = ar_app_visibility r" "ar_min_revision ?r = ar_min_revision r"
    "ar_app_tags ?r = ar_app_tags r" "ar_app_rule_scope ?r = ar_app_rule_scope r" "ar_ack_digest ?r = ar_ack_digest r"
    "ar_ack_by ?r = ar_ack_by r" by (simp_all add: set_working_def)
  have st: "ar_state ?r \<in> {''draft'', ''pending'', ''approved'', ''rejected''}" by (simp add: rest(1))
  note old = assms(2) [unfolded row_checks_def]
  show ?thesis unfolding row_checks_def rest(2-) using old t s sd vis tags rs st by blast
qed

lemma row_checks_freeze: "row_checks r \<Longrightarrow> row_checks (freeze by' r)"
  unfolding row_checks_def freeze_def by (auto split: option.splits)

lemma row_checks_bump: "row_checks (bump f r) = row_checks (f r)"
  by (cases "ar_rule_scope (f r)"; cases "ar_app_rule_scope (f r)") (simp_all add: row_checks_def bump_def)

text \<open>
  C40. Validation implies the constraints of the table: a row written from an input that passed
  satisfies every CHECK the migrations put on \<open>artifact\<close> (the type, the scope and the seed of a
  subagent only, the visibility, the state, the frozen identity, the tags and the scope of a rule only,
  the acknowledgement), as a draft on any well-formed row and again when it is frozen as approved, so
  no validated write is refused by one.
\<close>

theorem validated_rows_well_formed:
  assumes "validateArtifact y i = None" "row_checks r"
  shows "row_checks (set_working (to_write i) r) \<and> row_checks (freeze approver (set_working (to_write i) r))"
  using row_checks_working [OF assms] row_checks_freeze by blast

definition tiny_rule :: artifactInput where
  "tiny_rule = \<lparr>ai_type = ''rule'', ai_name = ''no-secrets'', ai_description = [], ai_content = ''Keep secrets out.'',
     ai_scope = [], ai_seed = [], ai_version = ''1'', ai_visibility = [], ai_tags = [''go'', ''web''], ai_rule_scope = ''project''\<rparr>"

lemma tiny_rule_valid: "validateArtifact tiny_yaml tiny_rule = None"
proof -
  have "\<not> HasReservedMarker (ai_content tiny_rule)" "slugRe (ai_name tiny_rule)" "validateTargetTags tiny_rule = None"
    "validateRuleScope tiny_rule = None" "validate_scope tiny_rule = None" "validate_body tiny_yaml tiny_rule = None"
    "ai_type tiny_rule = ''rule''" "ai_visibility tiny_rule = []" "ai_seed tiny_rule = []" "length (ai_content tiny_rule) = 17"
    by code_simp+
  then show ?thesis by (simp add: validateArtifact_def validate_seed_def MaxContentBytes_def)
qed

theorem validated_rows_well_formed_witness:
  "row_checks (freeze ''bob'' (set_working (to_write tiny_rule) (blank_row ''t'' ''a1'')))"
proof -
  have "row_checks (set_working (to_write tiny_rule) (blank_row ''t'' ''a1''))" by code_simp
  then have "row_checks (freeze ''bob'' (set_working (to_write tiny_rule) (set_working (to_write tiny_rule) (blank_row ''t'' ''a1''))))"
    using validated_rows_well_formed [OF tiny_rule_valid] by blast
  moreover have "set_working a (set_working a r) = set_working a r" for a r by (simp add: set_working_def)
  ultimately show ?thesis by simp
qed

subsection \<open>Audit\<close>

definition client_error :: "api_error option \<Rightarrow> bool" where
  "client_error x \<longleftrightarrow> (\<forall>e. x = Some e \<longrightarrow> (\<exists>m. e = ValidationError m))"

lemma first_error_client: "list_all client_error es \<Longrightarrow> client_error (first_error es)"
  by (induction es rule: first_error.induct) (auto simp: client_error_def)

lemma client_error_if: "client_error (if c then Some (ValidationError m) else None)"
  by (simp add: client_error_def)

lemma check_tags_error: "check_tags seen ts = Some e \<Longrightarrow> \<exists>m. e = ValidationError m"
  by (induction seen ts rule: check_tags.induct) (auto split: if_splits)

lemma part_errors:
  "validateTargetTags i = Some e \<Longrightarrow> \<exists>m. e = ValidationError m"
  "validateRuleScope i = Some e \<Longrightarrow> \<exists>m. e = ValidationError m"
  "validate_scope i = Some e \<Longrightarrow> \<exists>m. e = ValidationError m"
  "validate_seed i = Some e \<Longrightarrow> \<exists>m. e = ValidationError m"
  "validate_body y i = Some e \<Longrightarrow> \<exists>m. e = ValidationError m"
  by (auto simp: validateTargetTags_def validateRuleScope_def validate_scope_def validate_seed_def validate_body_def
      split: if_splits option.splits dest: check_tags_error)

lemma client_parts:
  "client_error (validateTargetTags i)" "client_error (validateRuleScope i)" "client_error (validate_scope i)"
  "client_error (validate_seed i)" "client_error (validate_body y i)"
  unfolding client_error_def using part_errors by blast+

lemma validation_errors: "validateArtifact y i = Some e \<Longrightarrow> \<exists>m. e = ValidationError m"
proof -
  have "client_error (validateArtifact y i)"
    unfolding validateArtifact_def by (rule first_error_client) (simp only: list.pred_inject client_error_if client_parts simp_thms)
  then show "validateArtifact y i = Some e \<Longrightarrow> \<exists>m. e = ValidationError m" by (simp add: client_error_def)
qed

lemma write_rows_error: "write_rows rows d = (Some e, d1) \<Longrightarrow> e \<noteq> ErrVersionMismatch"
  by (auto simp: write_rows_def split: if_splits)

lemma transition_error: "transition f tenant i d = (Inl e, d1) \<Longrightarrow> e \<noteq> ErrVersionMismatch"
  by (auto simp: transition_def split: option.splits prod.splits dest: write_rows_error)

lemma auto_approve_error: "maybeAutoApprove s tenant r d = (Inl e, d1) \<Longrightarrow> e \<noteq> ErrVersionMismatch"
  by (auto simp: maybeAutoApprove_def SetArtifactApproved_def split: if_splits sum.splits prod.splits dest: transition_error)

lemma create_tx_error: "create_tx s c i a fs d = (Inl e, d1) \<Longrightarrow> \<exists>x. e = StoreErr x \<and> x \<noteq> ErrVersionMismatch"
  by (auto simp: create_tx_def CreateArtifact_def Let_def split: sum.splits prod.splits option.splits
      dest: write_rows_error auto_approve_error)

lemma delete_tx_error: "delete_tx c i d = (Inl e, d1) \<Longrightarrow> e = StoreErr ErrNotFound"
  by (auto simp: delete_tx_def DeleteArtifact_def split: if_splits)

lemma update_tx_error: "update_tx s c i n inp fs d = (Inl e, d1) \<Longrightarrow> \<exists>x. e = StoreErr x"
  by (auto simp: update_tx_def Let_def split: sum.splits prod.splits if_splits)

lemma store_status: "x \<noteq> ErrVersionMismatch \<Longrightarrow> status_of (api_fail (StoreErr x)) \<in> {404, 409, 400, 500}"
  by (cases x) auto

lemma ifMatch_error: "ifMatch h = Inl e \<Longrightarrow> \<exists>m. e = PreconditionRequired m \<or> e = ValidationError m"
  by (auto simp: ifMatch_def Let_def split: if_splits option.splits)

lemma scan_Inr: "scanWriteOrReject s env c act i a st = (Inr fs, st1) \<Longrightarrow>
    st1 = st \<and> scanArtifactWrite s a = Inr fs \<and> \<not> HasBlocking fs"
  by (auto simp: scanWriteOrReject_def split: sum.splits if_splits prod.splits option.splits)

text \<open>A durable deny is the last audit row.\<close>

definition denied :: "api_state \<Rightarrow> api_state \<Rightarrow> bool" where
  "denied st st1 \<longleftrightarrow> (\<exists>ev. as_audit st1 = as_audit st @ [ev] \<and> ae_decision ev = ''deny'')"

lemma denyAudit: "appendDenyAudit env ev st = (x, st1) \<Longrightarrow> as_db st1 = as_db st \<and> as_published st1 = as_published st \<and>
    (x = None \<longrightarrow> denied st st1) \<and> (\<forall>e. x = Some e \<longrightarrow> (\<exists>m. e = OtherErr m))"
  by (auto simp: appendDenyAudit_def denied_def Let_def split: option.splits)

lemma denyAudit_Some: "appendDenyAudit env ev st = (Some e, st1) \<Longrightarrow> as_db st1 = as_db st \<and> (\<exists>m. e = OtherErr m)"
  using denyAudit by blast

lemma denyAudit_None: "appendDenyAudit env ev st = (None, st1) \<Longrightarrow> as_db st1 = as_db st \<and> denied st st1"
  using denyAudit by blast

lemma scan_Inl: "scanWriteOrReject s env c act i a st = (Inl r, st1) \<Longrightarrow>
    as_db st1 = as_db st \<and> (status_of r = 500 \<or> status_of r = 422 \<and> denied st st1)"
  by (auto simp: scanWriteOrReject_def writeBlocked_def split: sum.splits if_splits prod.splits option.splits dest!: denyAudit_Some denyAudit_None)

definition recorded :: "api_state \<Rightarrow> api_state \<Rightarrow> bool" where
  "recorded st st1 \<longleftrightarrow> (\<exists>ev. as_audit st1 = as_audit st @ [ev] \<and> ae_decision ev = ''allow'') \<and>
     as_published st1 = as_published st + 1"

definition accounted :: "nat \<Rightarrow> api_state \<Rightarrow> api_state \<Rightarrow> bool" where
  "accounted status st st1 \<longleftrightarrow>
     (if status \<in> {200, 201, 204} then recorded st st1
      else as_db st1 = as_db st \<and> (status \<in> {412, 422} \<longrightarrow> denied st st1))"

lemma accounted_quiet: "status \<notin> {200, 201, 204, 412, 422} \<Longrightarrow> as_db st1 = as_db st \<Longrightarrow> accounted status st st1"
  by (auto simp: accounted_def)

lemma accounted_done:
  assumes "auditedTx env m st = (Inr x, st1)" "\<And>d ev y d1. m d = (Inr (ev, y), d1) \<Longrightarrow> ae_decision ev = ''allow''"
    "status \<in> {200, 201, 204}"
  shows "accounted status st (Enqueue st1)"
  using auditedTx_Inr [OF assms(1)] assms(2,3) by (auto simp: accounted_def recorded_def Enqueue_def)

lemma auditedTx_error:
  assumes "auditedTx env m st = (Inl e, st1)"
  shows "st1 = st \<and> ((\<exists>x. e = OtherErr x) \<or> (\<exists>d1. m (as_db st) = (Inl e, d1)))"
  using assms by (auto simp: auditedTx_def split: option.splits sum.splits prod.splits)

lemma accounted_error:
  assumes "auditedTx env m st = (Inl e, st1)" "\<And>d1. m (as_db st) = (Inl e, d1) \<Longrightarrow> \<exists>x. e = StoreErr x \<and> x \<noteq> ErrVersionMismatch"
  shows "accounted (status_of (api_fail e)) st st1"
proof (rule accounted_quiet)
  from auditedTx_error [OF assms(1)] assms(2)
  consider x where "e = OtherErr x" | x where "e = StoreErr x" "x \<noteq> ErrVersionMismatch" by blast
  then show "status_of (api_fail e) \<notin> {200, 201, 204, 412, 422}"
  proof cases
    case 2
    then show ?thesis by (cases x) auto
  qed simp
qed (simp add: auditedTx_error [OF assms(1)])

lemma create_allow: "create_tx s c i a fs d = (Inr (ev, x), d1) \<Longrightarrow> ae_decision ev = ''allow''"
  by (auto simp: create_tx_def split: sum.splits prod.splits)

lemma update_allow: "update_tx s c i n inp fs d = (Inr (ev, x), d1) \<Longrightarrow> ae_decision ev = ''allow''"
  by (auto simp: update_tx_def Let_def split: sum.splits prod.splits if_splits)

lemma delete_allow: "delete_tx c i d = (Inr (ev, x), d1) \<Longrightarrow> ae_decision ev = ''allow''"
  by (auto simp: delete_tx_def split: option.splits prod.splits)

lemma accounted_validation: "validateArtifact y i = Some e \<Longrightarrow> accounted (status_of (api_fail e)) st st"
  using validation_errors [of y i e] by (auto simp: accounted_def)

lemma accounted_decode: "decodeJSONOrFail b = Inl r \<Longrightarrow> accounted (status_of r) st st"
  by (auto simp: decodeJSONOrFail_def accounted_def split: request_body.splits)

lemma accounted_resolved: "resolved ctx = Inl r \<Longrightarrow> accounted (status_of r) st st"
  by (auto simp: resolved_def accounted_def split: option.splits)

lemma accounted_scan: "scanWriteOrReject s env c act i a st = (Inl r, st1) \<Longrightarrow> accounted (status_of r) st st1"
  using scan_Inl [of s env c act i a st r st1] by (auto simp: accounted_def)

lemma create_accounted: "handleCreateArtifact s env newid ctx body st = (r, st1) \<Longrightarrow> accounted (status_of r) st st1"
  unfolding handleCreateArtifact_def
  by (auto split: sum.splits prod.splits option.splits dest: scan_Inr
      intro: accounted_validation accounted_decode accounted_resolved accounted_scan
        accounted_error [OF _ create_tx_error] accounted_done [OF _ create_allow])

lemma delete_accounted: "handleDeleteArtifact env ctx i st = (r, st1) \<Longrightarrow> accounted (status_of r) st st1"
  unfolding handleDeleteArtifact_def
  by (auto split: sum.splits prod.splits intro: accounted_resolved accounted_done [OF _ delete_allow]
      accounted_error dest: delete_tx_error)

lemma update_refused:
  assumes "auditedTx env (update_tx s c i n inp fs) st = (Inl e, st1)" "e \<noteq> StoreErr ErrVersionMismatch"
  shows "accounted (status_of (api_fail e)) st st1"
  by (rule accounted_error [OF assms(1)]) (use assms(2) update_tx_error in blast)

lemma update_stale:
  assumes "auditedTx env m st = (Inl (StoreErr ErrVersionMismatch), st1)" "appendDenyAudit env ev st1 = (x, st2)"
  shows "accounted (status_of (case x of Some e \<Rightarrow> api_fail e | None \<Rightarrow> api_fail (StoreErr ErrVersionMismatch))) st st2"
  using auditedTx_Inl [OF assms(1)] denyAudit [OF assms(2)] by (cases x) (auto simp: accounted_def)

lemma update_accounted: "handleUpdateArtifact s env ctx header i body st = (r, st1) \<Longrightarrow> accounted (status_of r) st st1"
proof -
  assume h: "handleUpdateArtifact s env ctx header i body st = (r, st1)"
  show ?thesis
  proof (cases "resolved ctx :: artifact_reply + caller")
    case (Inl x)
    with h show ?thesis by (auto simp: handleUpdateArtifact_def intro: accounted_resolved)
  next
    case c: (Inr c)
    show ?thesis
    proof (cases "ifMatch header")
      case (Inl e)
      with h c ifMatch_error [OF Inl] show ?thesis by (auto simp: handleUpdateArtifact_def accounted_def)
    next
      case n: (Inr n)
      show ?thesis
      proof (cases "decodeJSONOrFail body :: artifact_reply + artifactInput")
        case (Inl x)
        with h c n show ?thesis by (auto simp: handleUpdateArtifact_def intro: accounted_decode)
      next
        case inp: (Inr inp)
        show ?thesis
        proof (cases "validateArtifact (sv_yaml s) inp")
          case (Some e)
          with h c n inp show ?thesis by (auto simp: handleUpdateArtifact_def intro: accounted_validation)
        next
          case v: None
          obtain q :: "artifact_reply + finding list" and st2 where q: "scanWriteOrReject s env c ''artifact.update'' i (to_write inp) st = (q, st2)" by (meson surj_pair)
          note un = handleUpdateArtifact_def c n inp v q
          show ?thesis
          proof (cases q)
            case (Inl x)
            then have "x = r \<and> st2 = st1" using h by (simp add: un)
            with accounted_scan [OF q [unfolded Inl]] show ?thesis by simp
          next
            case (Inr fs)
            then have st2: "st2 = st" using scan_Inr q by blast
            obtain z st3 where z: "auditedTx env (update_tx s c i n inp fs) st = (z, st3)" by (meson surj_pair)
            show ?thesis
            proof (cases z)
              case (Inr a)
              have "accounted 200 st (Enqueue st3)"
                using z unfolding Inr by (rule accounted_done) (auto dest: update_allow)
              then show ?thesis using h z Inr \<open>q = Inr fs\<close> st2 by (cases a) (auto simp: un)
            next
              case (Inl e)
              show ?thesis
              proof (cases "e = StoreErr ErrVersionMismatch")
                case False
                with h z Inl \<open>q = Inr fs\<close> st2 update_refused [of env s c i n inp fs st e st3] show ?thesis by (auto simp: un)
              next
                case True
                define ev where "ev = \<lparr>ae_tenant = cl_tenant c, ae_actor = cl_subject c, ae_action = ''artifact.update'',
                  ae_target = i, ae_decision = ''deny'', ae_metadata = [(''name'', MStr (ai_name inp)), (''reason'', MStr ''version_mismatch'')]\<rparr>"
                obtain x st4 where x: "appendDenyAudit env ev st3 = (x, st4)" by (meson surj_pair)
                have "r = (case x of Some e \<Rightarrow> api_fail e | None \<Rightarrow> api_fail (StoreErr ErrVersionMismatch)) \<and> st1 = st4"
                  using h z Inl True \<open>q = Inr fs\<close> st2 x by (cases x) (auto simp: un ev_def)
                then show ?thesis using update_stale [OF z [unfolded Inl True] x] by simp
              qed
            qed
          qed
        qed
      qed
    qed
  qed
qed

lemma serve_accounted: "serve s req st = (r, st1) \<Longrightarrow> accounted (status_of r) st st1"
  using create_accounted update_accounted delete_accounted by (cases req) auto

text \<open>
  C29. Every change is on record and every refusal that counts is too: a reply of 200, 201 or 204
  comes with exactly one durable audit row, an allow, and one publish request; any other reply
  leaves the tables as they were, and a 412 or a 422 is answered only after a durable deny row.
\<close>

theorem artifact_writes_audited:
  assumes "serve s req st = (r, st1)"
  shows "(if status_of r \<in> {200, 201, 204}
    then (\<exists>ev. as_audit st1 = as_audit st @ [ev] \<and> ae_decision ev = ''allow'') \<and> as_published st1 = as_published st + 1
    else as_db st1 = as_db st \<and>
      (status_of r \<in> {412, 422} \<longrightarrow> (\<exists>ev. as_audit st1 = as_audit st @ [ev] \<and> ae_decision ev = ''deny'')))"
  using serve_accounted [OF assms] by (simp only: accounted_def recorded_def denied_def)

definition demo_server :: server where
  "demo_server = \<lparr>sv_autoApprove = True, sv_revisionKeep = 0, sv_scanner = (\<lambda>_. Inr []), sv_yaml = tiny_yaml,
     sv_role_order = (\<lambda>_ _. True), sv_collation = (\<lambda>_ _. True), sv_pinning = False\<rparr>"

definition demo_caller :: caller where
  "demo_caller = \<lparr>cl_tenant = ''t'', cl_roles = [], cl_subject = ''alice''\<rparr>"

definition quiet_env :: tx_env where
  "quiet_env = \<lparr>te_begin = None, te_commit = None, te_audit = (\<lambda>_. None), te_notify = None\<rparr>"

definition start :: "role_row list \<Rightarrow> api_state" where
  "start roles = \<lparr>as_db = empty_db roles, as_audit = [], as_log = [], as_nudges = [], as_published = 0\<rparr>"

definition demo_row :: arow where
  "demo_row = bump (freeze communityAutoApproveActor) (set_working (to_write tiny_rule) (blank_row ''t'' ''a1''))"

lemma demo_tx:
  "\<exists>ev d1. create_tx demo_server demo_caller ''a1'' (to_write tiny_rule) [] (empty_db roles) = (Inr (ev, demo_row), d1) \<and>
     db_artifacts d1 = [demo_row]"
proof -
  have "let x = create_tx demo_server demo_caller ''a1'' (to_write tiny_rule) [] (empty_db []) in
      isl (fst x) = False \<and> snd (projr (fst x)) = demo_row \<and> db_artifacts (snd x) = [demo_row]" by code_simp
  moreover have "fst (create_tx demo_server demo_caller ''a1'' (to_write tiny_rule) [] (empty_db roles)) =
      fst (create_tx demo_server demo_caller ''a1'' (to_write tiny_rule) [] (empty_db []))"
    "db_artifacts (snd (create_tx demo_server demo_caller ''a1'' (to_write tiny_rule) [] (empty_db roles))) =
      db_artifacts (snd (create_tx demo_server demo_caller ''a1'' (to_write tiny_rule) [] (empty_db [])))"
    by (simp_all add: create_tx_def CreateArtifact_def write_rows_def empty_db_def Let_def maybeAutoApprove_def demo_server_def
        SetArtifactApproved_def transition_def insertRevision_def rev_nums_def split: option.splits if_splits)
  ultimately show ?thesis by (simp add: Let_def isl_def prod_eq_iff) (metis prod.collapse sum.collapse(2) sum.disc(1) sum.exhaust_sel)
qed

lemma artifact_create_run:
  "\<exists>st2. serve demo_server (CreateReq quiet_env ''a1'' (Some demo_caller) (Body tiny_rule)) (start []) =
      (Reply 201 (Some (toArtifactDTO demo_row), None), Enqueue st2) \<and> db_artifacts (as_db (Enqueue st2)) = [demo_row]"
proof -
  let ?req = "CreateReq quiet_env ''a1'' (Some demo_caller) (Body tiny_rule)"
  obtain ev d1 where t: "create_tx demo_server demo_caller ''a1'' (to_write tiny_rule) [] (empty_db []) = (Inr (ev, demo_row), d1)"
    "db_artifacts d1 = [demo_row]" using demo_tx by blast
  have v: "validateArtifact (sv_yaml demo_server) tiny_rule = None" using tiny_rule_valid by (simp add: demo_server_def)
  have sc: "scanWriteOrReject demo_server quiet_env demo_caller ''artifact.create'' [] (to_write tiny_rule) (start []) =
      (Inr [], start [])"
    by (simp add: scanWriteOrReject_def scanArtifactWrite_def demo_server_def HasBlocking_def)
  obtain st2 where a: "auditedTx quiet_env (create_tx demo_server demo_caller ''a1'' (to_write tiny_rule) []) (start []) =
      (Inr demo_row, st2)" and d: "as_db st2 = d1"
    using t(1) by (simp add: auditedTx_def quiet_env_def start_def)
  have s: "serve demo_server ?req (start []) = (Reply 201 (Some (toArtifactDTO demo_row), None), Enqueue st2)"
    using a by (simp add: handleCreateArtifact_def resolved_def decodeJSONOrFail_def v sc)
  moreover have "as_db (Enqueue st2) = d1" by (simp add: d Enqueue_def)
  ultimately show ?thesis using t(2) by auto
qed

theorem artifact_writes_audited_witness:
  "\<exists>r st1. serve demo_server (CreateReq quiet_env ''a1'' (Some demo_caller) (Body tiny_rule)) (start []) = (r, st1) \<and>
     status_of r = 201 \<and> db_artifacts (as_db st1) = [demo_row] \<and> length (as_audit st1) = 1 \<and> as_published st1 = 1"
proof -
  obtain st2 where s: "serve demo_server (CreateReq quiet_env ''a1'' (Some demo_caller) (Body tiny_rule)) (start []) =
      (Reply 201 (Some (toArtifactDTO demo_row), None), Enqueue st2)" "db_artifacts (as_db (Enqueue st2)) = [demo_row]"
    using artifact_create_run by blast
  have "length (as_audit (Enqueue st2)) = 1 \<and> as_published (Enqueue st2) = 1"
    using artifact_writes_audited [OF s(1)] by (auto simp: start_def)
  with s show ?thesis by auto
qed

subsection \<open>What reaches distribution\<close>

definition vetted_input :: "server \<Rightarrow> artifactInput \<Rightarrow> bool" where
  "vetted_input s i \<longleftrightarrow> validateArtifact (sv_yaml s) i = None \<and>
     (\<exists>fs. sv_scanner s (artifactScanPayload (to_write i)) = Inr fs \<and> \<not> HasBlocking fs)"

definition works_on :: "artifactInput \<Rightarrow> arow \<Rightarrow> bool" where
  "works_on i r \<longleftrightarrow> ar_type r = ai_type i \<and> ar_name r = ai_name i \<and> ar_content r = ai_content i \<and>
     ar_scope r = nullif (ai_scope i) \<and> ar_seed r = nullif (ai_seed i)"

definition distributes :: "artifactInput \<Rightarrow> arow \<Rightarrow> bool" where
  "distributes i r \<longleftrightarrow> ar_app_type r = Some (ai_type i) \<and> ar_app_name r = Some (ai_name i) \<and>
     ar_app_content r = Some (ai_content i) \<and> ar_app_scope r = nullif (ai_scope i) \<and> ar_app_seed r = nullif (ai_seed i)"

definition drafted :: "server \<Rightarrow> arow \<Rightarrow> bool" where
  "drafted s r \<longleftrightarrow> (\<exists>i. vetted_input s i \<and> works_on i r)"

definition vetted :: "server \<Rightarrow> arow \<Rightarrow> bool" where
  "vetted s r \<longleftrightarrow> (\<exists>i. vetted_input s i \<and> works_on i r \<and> distributes i r)"

lemma vetted_drafted: "vetted s r \<Longrightarrow> drafted s r"
  by (auto simp: vetted_def drafted_def)

lemma drafted_write: "vetted_input s i \<Longrightarrow> drafted s (set_working (to_write i) r) \<and> drafted s (bump (set_working (to_write i)) r)"
  by (auto simp: drafted_def works_on_def set_working_def to_write_def bump_def)

lemma vetted_freeze: "drafted s r \<Longrightarrow> vetted s (bump (freeze by') r)"
  by (auto simp: drafted_def vetted_def works_on_def distributes_def freeze_def bump_def)

definition all_vetted :: "server \<Rightarrow> db \<Rightarrow> bool" where
  "all_vetted s d \<longleftrightarrow> (\<forall>r \<in> set (db_artifacts d). vetted s r)"

lemma approved_rows:
  assumes "SetArtifactApproved tenant i by' keep d = (Inr (a, n), d2)"
  shows "db_artifacts d2 = update_rows (addressed tenant i) (freeze by') (db_artifacts d)"
proof -
  obtain x d1 where t: "transition (freeze by') tenant i d = (Inr x, d1)"
    and d2: "d2 = snd (insertRevision (approval_revision by' x) keep d1)"
    using assms by (auto simp: SetArtifactApproved_def split: sum.splits prod.splits)
  have "db_artifacts d1 = update_rows (addressed tenant i) (freeze by') (db_artifacts d)"
    using t by (auto simp: transition_def split: option.splits prod.splits dest: write_rows_None)
  moreover have "db_artifacts d2 = db_artifacts d1" by (simp add: d2 insertRevision_def Let_def)
  ultimately show ?thesis by simp
qed

lemma approve_vets:
  assumes "sv_autoApprove s" "maybeAutoApprove s tenant a d = (Inr b, d2)"
    and "\<And>r. r \<in> set (db_artifacts d) \<Longrightarrow> drafted s r"
    and "\<And>r. r \<in> set (db_artifacts d) \<Longrightarrow> \<not> addressed tenant (ar_id a) r \<Longrightarrow> vetted s r"
  shows "all_vetted s d2"
proof -
  have "db_artifacts d2 = update_rows (addressed tenant (ar_id a)) (freeze communityAutoApproveActor) (db_artifacts d)"
    using assms(1,2) by (auto simp: maybeAutoApprove_def split: sum.splits prod.splits dest: approved_rows)
  then show ?thesis using assms(3,4) vetted_freeze by (auto simp: all_vetted_def update_rows_def)
qed

lemma create_vets:
  assumes "sv_autoApprove s" "vetted_input s i" "all_vetted s d"
    and "create_tx s c newid (to_write i) fs d = (Inr (ev, r), d2)"
  shows "all_vetted s d2"
proof -
  obtain a d1 b where c: "CreateArtifact newid (cl_tenant c) (to_write i) d = (Inr a, d1)"
    and m: "maybeAutoApprove s (cl_tenant c) a d1 = (Inr b, d2)"
    using assms(4) by (auto simp: create_tx_def split: sum.splits prod.splits)
  let ?r = "set_working (to_write i) (blank_row (cl_tenant c) newid)"
  have rows: "db_artifacts d1 = db_artifacts d @ [?r]" and a: "a = ?r"
    using c by (auto simp: CreateArtifact_def Let_def split: option.splits prod.splits dest: write_rows_None)
  show ?thesis
  proof (rule approve_vets [OF assms(1) m])
    fix r assume "r \<in> set (db_artifacts d1)"
    then show "drafted s r" using assms(2,3) rows drafted_write vetted_drafted by (auto simp: all_vetted_def)
  next
    fix r assume "r \<in> set (db_artifacts d1)" "\<not> addressed (cl_tenant c) (ar_id a) r"
    then show "vetted s r" using assms(3) rows
      by (auto simp: all_vetted_def addressed_def a set_working_def blank_row_def)
  qed
qed

lemma update_vets:
  assumes "sv_autoApprove s" "vetted_input s inp" "all_vetted s d"
    and "update_tx s c i n inp fs d = (Inr x, d2)"
  shows "all_vetted s d2"
proof -
  obtain cur a d1 b where cur: "GetArtifact (cl_tenant c) i d = Inr cur"
    and u: "UpdateArtifact (cl_tenant c) i (to_write inp) (ar_row_version cur) d = (Inr a, d1)"
    and m: "maybeAutoApprove s (cl_tenant c) a d1 = (Inr b, d2)"
    using assms(4) by (auto simp: update_tx_def Let_def split: sum.splits prod.splits if_splits)
  let ?p = "\<lambda>r. addressed (cl_tenant c) i r \<and> ar_row_version r = ar_row_version cur"
  have rows: "db_artifacts d1 = update_rows ?p (set_working (to_write inp)) (db_artifacts d)"
    and a: "GetArtifact (cl_tenant c) i d1 = Inr a"
    using u by (auto simp: UpdateArtifact_def guarded_update_def Let_def split: option.splits prod.splits if_splits
        dest!: write_rows_None)
  from a have ai: "ar_id a = i"
    by (auto simp: GetArtifact_def split: option.splits dest: find_addressed)
  show ?thesis
  proof (rule approve_vets [OF assms(1) m])
    fix r assume "r \<in> set (db_artifacts d1)"
    then show "drafted s r" using assms(2,3) drafted_write vetted_drafted
      by (auto simp: all_vetted_def rows update_rows_def)
  next
    fix r assume r: "r \<in> set (db_artifacts d1)" "\<not> addressed (cl_tenant c) (ar_id a) r"
    then obtain q where q: "q \<in> set (db_artifacts d)" "r = (if ?p q then bump (set_working (to_write inp)) q else q)"
      by (auto simp: rows update_rows_def)
    have "\<not> ?p q" using r(2) q(2) by (auto simp: ai addressed_def bump_def set_working_def split: if_splits)
    with q assms(3) show "vetted s r" by (auto simp: all_vetted_def)
  qed
qed

lemma delete_vets: "all_vetted s d \<Longrightarrow> delete_tx c i d = (Inr x, d2) \<Longrightarrow> all_vetted s d2"
  by (auto simp: delete_tx_def DeleteArtifact_def all_vetted_def split: if_splits)

lemma scanned_input:
  "sv_autoApprove s \<Longrightarrow> validateArtifact (sv_yaml s) i = None \<Longrightarrow> scanArtifactWrite s (to_write i) = Inr fs \<Longrightarrow>
   \<not> HasBlocking fs \<Longrightarrow> vetted_input s i"
  by (auto simp: vetted_input_def scanArtifactWrite_def)

lemma tx_vets:
  assumes "auditedTx env m st = (Inr x, st1)" "all_vetted s (as_db st)"
    "\<And>ev y d2. m (as_db st) = (Inr (ev, y), d2) \<Longrightarrow> all_vetted s d2"
  shows "all_vetted s (as_db st1)"
  using auditedTx_Inr [OF assms(1)] assms(2,3) by metis

lemma db_Enqueue [simp]: "as_db (Enqueue st) = as_db st"
  by (simp add: Enqueue_def)

lemma create_db:
  assumes "handleCreateArtifact s env newid ctx body st = (r, st1)" "as_db st1 \<noteq> as_db st"
  shows "\<exists>c i fs x st2. auditedTx env (create_tx s c newid (to_write i) fs) st = (Inr x, st2) \<and>
       validateArtifact (sv_yaml s) i = None \<and> scanArtifactWrite s (to_write i) = Inr fs \<and> \<not> HasBlocking fs \<and>
       as_db st1 = as_db st2"
  using assms unfolding handleCreateArtifact_def
  by (auto split: sum.splits option.splits prod.splits dest: scan_Inl dest!: scan_Inr auditedTx_Inl)
    (intro exI conjI, assumption, assumption, assumption, assumption, simp)

lemma update_db:
  assumes "handleUpdateArtifact s env ctx header i body st = (r, st1)" "as_db st1 \<noteq> as_db st"
  shows "\<exists>c n inp fs x y st2. auditedTx env (update_tx s c i n inp fs) st = (Inr (x, y), st2) \<and>
       validateArtifact (sv_yaml s) inp = None \<and> scanArtifactWrite s (to_write inp) = Inr fs \<and> \<not> HasBlocking fs \<and>
       as_db st1 = as_db st2"
  using assms unfolding handleUpdateArtifact_def
  by (auto split: sum.splits option.splits prod.splits if_splits dest: scan_Inl denyAudit_Some denyAudit_None
      dest!: scan_Inr auditedTx_Inl)
    (intro exI conjI, assumption, assumption, assumption, assumption, simp)

lemma delete_db:
  assumes "handleDeleteArtifact env ctx i st = (r, st1)" "as_db st1 \<noteq> as_db st"
  shows "\<exists>c x st2. auditedTx env (delete_tx c i) st = (Inr x, st2) \<and> as_db st1 = as_db st2"
  using assms unfolding handleDeleteArtifact_def
  by (auto split: sum.splits prod.splits dest!: auditedTx_Inl) metis

lemma serve_vets:
  assumes "sv_autoApprove s" "all_vetted s (as_db st)" "serve s req st = (r, st1)"
  shows "all_vetted s (as_db st1)"
proof (cases req)
  case (CreateReq env newid ctx body)
  with assms(3) have h: "handleCreateArtifact s env newid ctx body st = (r, st1)" by simp
  show ?thesis
  proof (cases "as_db st1 = as_db st")
    case False
    from create_db [OF h False] show ?thesis
    proof (elim exE conjE)
    fix c i fs x st2
    assume a: "auditedTx env (create_tx s c newid (to_write i) fs) st = (Inr x, st2)" "validateArtifact (sv_yaml s) i = None"
      "scanArtifactWrite s (to_write i) = Inr fs" "\<not> HasBlocking fs" "as_db st1 = as_db st2"
    from scanned_input [OF assms(1) a(2-4)] have "vetted_input s i" .
    then show ?thesis unfolding a(5) using tx_vets [OF a(1) assms(2)] create_vets [OF assms(1) _ assms(2)] by blast
    qed
  qed (simp add: assms(2))
next
  case (UpdateReq env ctx header i body)
  with assms(3) have h: "handleUpdateArtifact s env ctx header i body st = (r, st1)" by simp
  show ?thesis
  proof (cases "as_db st1 = as_db st")
    case False
    from update_db [OF h False] show ?thesis
    proof (elim exE conjE)
    fix c n inp fs x y st2
    assume a: "auditedTx env (update_tx s c i n inp fs) st = (Inr (x, y), st2)" "validateArtifact (sv_yaml s) inp = None"
      "scanArtifactWrite s (to_write inp) = Inr fs" "\<not> HasBlocking fs" "as_db st1 = as_db st2"
    from scanned_input [OF assms(1) a(2-4)] have "vetted_input s inp" .
    then show ?thesis unfolding a(5) using tx_vets [OF a(1) assms(2)] update_vets [OF assms(1) _ assms(2)] by blast
    qed
  qed (simp add: assms(2))
next
  case (DeleteReq env ctx i)
  with assms(3) have h: "handleDeleteArtifact env ctx i st = (r, st1)" by simp
  show ?thesis
  proof (cases "as_db st1 = as_db st")
    case False
    from delete_db [OF h False] show ?thesis
    proof (elim exE conjE)
    fix c x st2
    assume a: "auditedTx env (delete_tx c i) st = (Inr x, st2)" "as_db st1 = as_db st2"
    show ?thesis unfolding a(2) using tx_vets [OF a(1) assms(2)] delete_vets [OF assms(2)] by blast
    qed
  qed (simp add: assms(2))
qed

inductive served :: "server \<Rightarrow> role_row list \<Rightarrow> api_state \<Rightarrow> bool" for s roles where
  served_start: "served s roles (start roles)"
| served_step: "served s roles st \<Longrightarrow> served s roles (snd (serve s req st))"
| served_grant: "served s roles st \<Longrightarrow> served s roles (snd (handleCreateArtifactEntitlement env newid ctx body st))"
| served_revoke: "served s roles st \<Longrightarrow> served s roles (snd (handleDeleteArtifactEntitlement env ctx i st))"

lemma grant_tx_rows: "create_grant_tx c newid role artifact d = (Inr x, d1) \<Longrightarrow> db_artifacts d1 = db_artifacts d"
  "delete_grant_tx c i d = (Inr y, d1) \<Longrightarrow> db_artifacts d1 = db_artifacts d"
  by (auto simp: create_grant_tx_def delete_grant_tx_def CreateArtifactEntitlement_def DeleteArtifactEntitlement_def
      split: if_splits sum.splits prod.splits option.splits)

lemma tx_rows:
  assumes "auditedTx env m st = (x, st1)" "\<And>d y d1. m d = (Inr y, d1) \<Longrightarrow> db_artifacts d1 = db_artifacts d"
  shows "db_artifacts (as_db st1) = db_artifacts (as_db st)"
proof (cases x)
  case (Inl e)
  with assms(1) show ?thesis by (auto dest: auditedTx_Inl)
next
  case (Inr y)
  with assms(1) obtain ev where "m (as_db st) = (Inr (ev, y), as_db st1)" using auditedTx_Inr by fastforce
  then show ?thesis by (rule assms(2))
qed

lemma grant_rows:
  "db_artifacts (as_db (snd (handleCreateArtifactEntitlement env newid ctx body st))) = db_artifacts (as_db st)"
  "db_artifacts (as_db (snd (handleDeleteArtifactEntitlement env ctx i st))) = db_artifacts (as_db st)"
  unfolding handleCreateArtifactEntitlement_def handleDeleteArtifactEntitlement_def
  by (auto split: sum.splits prod.splits intro: tx_rows grant_tx_rows)

lemma served_vets: "served s roles st \<Longrightarrow> sv_autoApprove s \<Longrightarrow> all_vetted s (as_db st)"
proof (induction rule: served.induct)
  case (served_grant st env newid ctx body)
  then show ?case by (simp add: all_vetted_def grant_rows)
next
  case (served_revoke st env ctx i)
  then show ?case by (simp add: all_vetted_def grant_rows)
next
  case served_start
  show ?case by (simp add: start_def all_vetted_def empty_db_def)
next
  case (served_step st req)
  then show ?case using serve_vets [OF _ _ prod.collapse [symmetric]] by blast
qed

definition da_payload :: "dist_artifact \<Rightarrow> artifactPayload" where
  "da_payload a = \<lparr>pl_type = da_type a, pl_name = da_name a, pl_content = da_content a, pl_scope = da_scope a, pl_seed = da_seed a\<rparr>"

lemma distributed_vetted:
  assumes "served s roles st" "sv_autoApprove s"
    and "a \<in> set (ListEntitledArtifacts le tenant rs (as_db st)) \<union> set (ListActiveOrgArtifacts le tenant (as_db st)) \<union>
      set (ListActiveOrgRules le tenant (as_db st))"
  shows "da_type a \<in> {''skill'', ''subagent'', ''rule''} \<and> slugRe (da_name a) \<and> length (da_content a) \<le> MaxContentBytes \<and>
    length (da_seed a) \<le> MaxSeedBytes \<and> \<not> HasReservedMarker (da_content a) \<and> \<not> HasReservedMarker (da_seed a) \<and>
    (\<exists>fs. sv_scanner s (da_payload a) = Inr fs \<and> \<not> HasBlocking fs)"
proof -
  from distributed_row [OF assms(3)] obtain r where r: "r \<in> set (db_artifacts (as_db st))"
    "a = scanDistArtifact (as_db st) r" by blast
  with served_vets [OF assms(1,2)] obtain i where i: "vetted_input s i" "distributes i r"
    by (auto simp: all_vetted_def vetted_def)
  have f: "da_type a = ai_type i" "da_name a = ai_name i" "da_content a = ai_content i" "da_scope a = ai_scope i"
    "da_seed a = ai_seed i"
    using i(2) r(2) by (simp_all add: scanDistArtifact_def distributes_def) (simp_all add: str_def)
  have "da_payload a = artifactScanPayload (to_write i)"
    by (simp add: da_payload_def artifactScanPayload_def to_write_def f)
  moreover note v = validateArtifact_None [OF i(1) [unfolded vetted_input_def, THEN conjunct1]]
  moreover have "length (ai_seed i) \<le> MaxSeedBytes \<and> \<not> HasReservedMarker (ai_seed i)"
  proof (cases "ai_seed i = []")
    case True
    have "\<not> HasReservedMarker []" by code_simp
    with True show ?thesis by simp
  qed (use seed_None [OF v(9)] in simp)
  ultimately show ?thesis using i(1) v(1,2,6,7) by (auto simp: f vetted_input_def)
qed

text \<open>
  C5. With auto-approval on, whatever the admin routes did and whatever failed on the way,
  everything a distribution read returns was validated and scanned as it is: a known type, a slug
  for a name, sizes within the limits, no managed-block marker in the content or the seed, and a
  scanner that had no blocking finding on that very payload.
\<close>

theorem distributed_is_vetted:
  assumes "served s roles st" "sv_autoApprove s"
    and "a \<in> set (ListEntitledArtifacts le tenant rs (as_db st)) \<union> set (ListActiveOrgArtifacts le tenant (as_db st)) \<union>
      set (ListActiveOrgRules le tenant (as_db st))"
  shows "da_type a \<in> {''skill'', ''subagent'', ''rule''} \<and> slugRe (da_name a) \<and> length (da_content a) \<le> MaxContentBytes \<and>
    length (da_seed a) \<le> MaxSeedBytes \<and> \<not> HasReservedMarker (da_content a) \<and> \<not> HasReservedMarker (da_seed a) \<and>
    (\<exists>fs. sv_scanner s (da_payload a) = Inr fs \<and> \<not> HasBlocking fs)"
  by (rule distributed_vetted [OF assms])

theorem distributed_is_vetted_witness:
  "\<exists>st a. served demo_server [] st \<and> a \<in> set (ListActiveOrgRules (\<lambda>_ _. True) ''t'' (as_db st)) \<and> da_name a = ''no-secrets'' \<and>
     slugRe (da_name a) \<and> \<not> HasReservedMarker (da_content a)"
proof -
  obtain r st1 where s: "serve demo_server (CreateReq quiet_env ''a1'' (Some demo_caller) (Body tiny_rule)) (start []) = (r, st1)"
    and d: "db_artifacts (as_db st1) = [demo_row]" using artifact_create_run by blast
  have served: "served demo_server [] st1"
    using served_step [OF served_start, of demo_server "[]" "CreateReq quiet_env ''a1'' (Some demo_caller) (Body tiny_rule)"] s by simp
  have row: "ar_tenant demo_row = ''t'' \<and> ar_app_visibility demo_row = Some ''org'' \<and> ar_app_type demo_row = Some ''rule'' \<and>
      ar_app_content demo_row \<noteq> None \<and> ar_app_name demo_row = Some ''no-secrets''" by code_simp
  then have a: "scanDistArtifact (as_db st1) demo_row \<in> set (ListActiveOrgRules (\<lambda>_ _. True) ''t'' (as_db st1))"
    by (simp add: ListActiveOrgRules_def d)
  moreover have "da_name (scanDistArtifact (as_db st1) demo_row) = ''no-secrets''" using row by (simp add: scanDistArtifact_def str_def)
  moreover have "sv_autoApprove demo_server" by (simp add: demo_server_def)
  ultimately show ?thesis using distributed_is_vetted [OF served _ UnI2 [OF a]] served by blast
qed

end
