(* ===== verification/AccessStore.thy ===== *)
theory AccessStore
  imports Paging
begin

text \<open>
  Roles, the server catalogue and the entitlements between them: \<open>internal/store/rbac.go\<close> and
  \<open>mcpserver.go\<close>, with the constraints and the cascades of \<open>internal/migrate/migrations\<close>
  (00001, 00009, 00010, 00020, 00022). Identifiers the database generates are arguments.
\<close>

text \<open>The collation: the strict order on key tuples, the order of names, and the folding of case.\<close>

record locale_env =
  lo_lt :: row_order
  lo_le :: "string \<Rightarrow> string \<Rightarrow> bool"
  lo_fold :: "bytes \<Rightarrow> bytes"

definition wrap_other :: "string \<Rightarrow> api_error \<Rightarrow> api_error" where
  "wrap_other msg e = (case e of OtherErr m \<Rightarrow> OtherErr (msg @ m) | _ \<Rightarrow> e)"

subsection \<open>Roles\<close>

definition role_at :: "string \<Rightarrow> string \<Rightarrow> role_row \<Rightarrow> bool" where
  "role_at tenant i r \<longleftrightarrow> ro_tenant r = tenant \<and> ro_id r = i"

definition roleNameUniqueConstraint :: string where "roleNameUniqueConstraint = ''role_tenant_id_name_key''"

definition CreateRole :: "string \<Rightarrow> string \<Rightarrow> string \<Rightarrow> db \<Rightarrow> (dberr + role_row) \<times> db" where
  "CreateRole i tenant name d =
     (if list_ex (\<lambda>r. ro_id r = i) (db_roles d) then (Inl (UniqueViolation ''role_pkey''), d)
      else if list_ex (\<lambda>r. ro_tenant r = tenant \<and> ro_name r = name) (db_roles d)
      then (Inl (UniqueViolation roleNameUniqueConstraint), d)
      else let r = \<lparr>ro_id = i, ro_tenant = tenant, ro_name = name, ro_row_version = 1\<rparr> in
        (Inr r, d\<lparr>db_roles := db_roles d @ [r]\<rparr>))"

definition GetRole :: "string \<Rightarrow> string \<Rightarrow> db \<Rightarrow> dberr + role_row" where
  "GetRole tenant i d = (case List.find (role_at tenant i) (db_roles d) of None \<Rightarrow> Inl ErrNotFound | Some r \<Rightarrow> Inr r)"

definition GetRolesByNames :: "string \<Rightarrow> string list \<Rightarrow> db \<Rightarrow> role_row list" where
  "GetRolesByNames tenant names d =
     (if names = [] then [] else filter (\<lambda>r. ro_tenant r = tenant \<and> ro_name r \<in> set names) (db_roles d))"

definition UpdateRoleName :: "string \<Rightarrow> string \<Rightarrow> string \<Rightarrow> int \<Rightarrow> db \<Rightarrow> (dberr + role_row) \<times> db" where
  "UpdateRoleName tenant i newName expected d =
     (let upd = (\<lambda>r. role_at tenant i r \<and> ro_row_version r = expected);
          existsCnt = length (filter (role_at tenant i) (db_roles d));
          updCnt = length (filter upd (db_roles d));
          d1 = d\<lparr>db_roles := map (\<lambda>r. if upd r then r\<lparr>ro_name := newName, ro_row_version := ro_row_version r + 1\<rparr> else r) (db_roles d)\<rparr> in
      if updCnt > 0 \<and> list_ex (\<lambda>r. ro_tenant r = tenant \<and> ro_name r = newName \<and> \<not> upd r) (db_roles d)
      then (Inl ErrNameTaken, d)
      else if existsCnt = 0 then (Inl ErrNotFound, d1)
      else if updCnt = 0 then (Inl ErrVersionMismatch, d1)
      else (GetRole tenant i d1, d1))"

definition roleKeys :: "sort_key list" where "roleKeys = [\<lparr>sk_col = ''name'', sk_cast = ''text''\<rparr>]"

definition RoleCursor :: "role_row \<Rightarrow> bool \<Rightarrow> list_cursor" where
  "RoleCursor r desc = \<lparr>lc_keys = [ro_name r], lc_id = ro_id r, lc_sort = sortIdentity ''role'' roleKeys desc\<rparr>"

definition opt_arg :: "bytes option \<Rightarrow> sql_arg" where
  "opt_arg x = (case x of None \<Rightarrow> ArgNull | Some s \<Rightarrow> ArgText s)"

definition rolePageSQL :: "string \<Rightarrow> list_cursor option \<Rightarrow> nat \<Rightarrow> bool \<Rightarrow> string \<Rightarrow> api_error + string \<times> sql_arg list" where
  "rolePageSQL tenant cursor limit desc search =
     map_sum id (\<lambda>(tail, args).
        (''SELECT id::text, tenant_id::text, name, row_version FROM role WHERE tenant_id = $1 AND ($2::text IS NULL OR name ILIKE $2)'' @ tail,
         [ArgText tenant, opt_arg (likeSearchArg search)] @ args))
       (keysetTail ''role'' roleKeys desc cursor limit 2)"

definition role_key :: "role_row \<Rightarrow> string list" where "role_key r = [ro_name r, ro_id r]"

definition ListRolesPage ::
  "locale_env \<Rightarrow> string \<Rightarrow> list_cursor option \<Rightarrow> nat \<Rightarrow> bool \<Rightarrow> string \<Rightarrow> db \<Rightarrow> api_error + role_row list" where
  "ListRolesPage lo tenant cursor limit desc search d =
     (case rolePageSQL tenant cursor limit desc search of
        Inl e \<Rightarrow> Inl (wrap_other ''role page cursor: '' e)
      | Inr _ \<Rightarrow> Inr (page_select (lo_lt lo) role_key desc cursor limit
          (filter (\<lambda>r. ro_tenant r = tenant \<and> search_matches (lo_fold lo) search (ro_name r)) (db_roles d))))"

subsection \<open>Deleting a role\<close>

record revoked_grants =
  rk_role :: string
  rk_entitlements :: nat
  rk_artifact_entitlements :: nat
  rk_servers :: "string list"
  rk_artifacts :: "string list"
  rk_vkeys :: nat
  rk_clients :: "string list"
  rk_cleanup :: "(string \<times> string) list"
  rk_usage_rows :: nat
  rk_usage_calls :: int
  rk_quota :: "int option"
  rk_truncated :: bool

definition uncapped :: int where "uncapped = 0"

text \<open>The joins of the delete, in the order of the names.\<close>

definition granted_servers :: "(string \<Rightarrow> string \<Rightarrow> bool) \<Rightarrow> string \<Rightarrow> string \<Rightarrow> db \<Rightarrow> string list" where
  "granted_servers le tenant i d =
     foldr (insert_by le) (concat (map (\<lambda>e. map ms_name (filter (\<lambda>m. ms_id m = en_server e) (db_servers d)))
       (filter (\<lambda>e. en_tenant e = tenant \<and> en_role e = i) (db_entitlements d)))) []"

definition granted_artifacts :: "(string \<Rightarrow> string \<Rightarrow> bool) \<Rightarrow> string \<Rightarrow> string \<Rightarrow> db \<Rightarrow> string list" where
  "granted_artifacts le tenant i d =
     foldr (insert_by le) (concat (map (\<lambda>g. map ar_name (filter (\<lambda>a. ar_id a = ag_artifact g) (db_artifacts d)))
       (filter (\<lambda>g. ag_tenant g = tenant \<and> ag_role g = i) (db_grants d)))) []"

definition role_vkeys :: "(string \<Rightarrow> string \<Rightarrow> bool) \<Rightarrow> string \<Rightarrow> string \<Rightarrow> db \<Rightarrow> vkey_row list" where
  "role_vkeys le tenant i d =
     foldr (insert_by (\<lambda>a b. le (vk_client a) (vk_client b))) (filter (\<lambda>k. vk_tenant k = tenant \<and> vk_role k = i) (db_vkeys d)) []"

text \<open>ON DELETE CASCADE on every table with a role.\<close>

definition drop_role :: "string \<Rightarrow> string \<Rightarrow> db \<Rightarrow> db" where
  "drop_role tenant i d =
     d\<lparr>db_roles := filter (\<lambda>r. \<not> role_at tenant i r) (db_roles d),
       db_entitlements := filter (\<lambda>e. en_role e \<noteq> i) (db_entitlements d),
       db_grants := filter (\<lambda>g. ag_role g \<noteq> i) (db_grants d),
       db_vkeys := filter (\<lambda>k. vk_role k \<noteq> i) (db_vkeys d),
       db_usage := filter (\<lambda>u. us_role u \<noteq> i) (db_usage d),
       db_quotas := filter (\<lambda>q. qu_role q \<noteq> i) (db_quotas d)\<rparr>"

definition DeleteRole :: "(string \<Rightarrow> string \<Rightarrow> bool) \<Rightarrow> string \<Rightarrow> string \<Rightarrow> db \<Rightarrow> (dberr + revoked_grants) \<times> db" where
  "DeleteRole le tenant i d =
     (case List.find (role_at tenant i) (db_roles d) of
        None \<Rightarrow> (Inl ErrNotFound, d)
      | Some r \<Rightarrow>
          let (srvNames, srvCount, srvTrunc) = readGrantNames MaxGrantNames (granted_servers le tenant i d);
              (artNames, artCount, artTrunc) = readGrantNames MaxGrantNames (granted_artifacts le tenant i d);
              (clients, keyCount, _) = readGrantNames uncapped (map vk_client (role_vkeys le tenant i d));
              usage = filter (\<lambda>u. us_tenant u = tenant \<and> us_role u = i) (db_usage d) in
          (Inr \<lparr>rk_role = ro_name r, rk_entitlements = srvCount, rk_artifact_entitlements = artCount,
              rk_servers = srvNames, rk_artifacts = artNames, rk_vkeys = keyCount, rk_clients = clients,
              rk_cleanup = map (\<lambda>k. (vk_client k, vk_token k)) (role_vkeys le tenant i d),
              rk_usage_rows = length usage, rk_usage_calls = sum_list (map us_calls usage),
              rk_quota = map_option qu_calls (List.find (\<lambda>q. qu_tenant q = tenant \<and> qu_role q = i) (db_quotas d)),
              rk_truncated = (srvTrunc \<or> artTrunc)\<rparr>,
           drop_role tenant i d))"

subsection \<open>The server catalogue\<close>

definition server_at :: "string \<Rightarrow> string \<Rightarrow> mcp_server \<Rightarrow> bool" where
  "server_at tenant i m \<longleftrightarrow> ms_tenant m = tenant \<and> ms_id m = i"

definition server_checks :: "mcp_server \<Rightarrow> bool" where
  "server_checks m \<longleftrightarrow> ms_transport m \<in> {''stdio'', ''http'', ''sse''} \<and> ms_status m \<in> {''active'', ''disabled''}"

definition server_name_taken :: "mcp_server \<Rightarrow> mcp_server list \<Rightarrow> bool" where
  "server_name_taken m ms \<longleftrightarrow> list_ex (\<lambda>o'. ms_tenant o' = ms_tenant m \<and> ms_name o' = ms_name m) ms"

definition CreateMCPServer :: "mcp_server \<Rightarrow> db \<Rightarrow> (dberr + mcp_server) \<times> db" where
  "CreateMCPServer m d =
     (let row = m\<lparr>ms_row_version := 1\<rparr> in
      if \<not> server_checks m then (Inl CheckViolation, d)
      else if list_ex (\<lambda>x. ms_id x = ms_id m) (db_servers d) then (Inl (UniqueViolation ''mcp_server_pkey''), d)
      else if server_name_taken m (db_servers d) then (Inl (UniqueViolation ''mcp_server_tenant_id_name_key''), d)
      else (Inr row, d\<lparr>db_servers := db_servers d @ [row]\<rparr>))"

definition GetMCPServer :: "string \<Rightarrow> string \<Rightarrow> db \<Rightarrow> dberr + mcp_server" where
  "GetMCPServer tenant i d = (case List.find (server_at tenant i) (db_servers d) of None \<Rightarrow> Inl ErrNotFound | Some m \<Rightarrow> Inr m)"

definition MCPServerExistsInTenant :: "string \<Rightarrow> string \<Rightarrow> db \<Rightarrow> bool" where
  "MCPServerExistsInTenant tenant i d \<longleftrightarrow> list_ex (server_at tenant i) (db_servers d)"

definition mcpServerKeys :: "sort_key list" where "mcpServerKeys = [\<lparr>sk_col = ''name'', sk_cast = ''text''\<rparr>]"

definition MCPServerCursor :: "mcp_server \<Rightarrow> bool \<Rightarrow> list_cursor" where
  "MCPServerCursor m desc = \<lparr>lc_keys = [ms_name m], lc_id = ms_id m, lc_sort = sortIdentity ''mcp_server'' mcpServerKeys desc\<rparr>"

definition mcpServerCols :: string where
  "mcpServerCols = ''id::text, tenant_id::text, name, description, transport, endpoint_or_command, version, protocol_version, secret_ref, tls_ca_ref, status, row_version''"

definition mcpServerPageSQL :: "string \<Rightarrow> list_cursor option \<Rightarrow> nat \<Rightarrow> bool \<Rightarrow> string \<Rightarrow> api_error + string \<times> sql_arg list" where
  "mcpServerPageSQL tenant cursor limit desc search =
     map_sum id (\<lambda>(tail, args).
        (''SELECT '' @ mcpServerCols @ '' FROM mcp_server WHERE tenant_id = $1 AND ($2::text IS NULL OR name ILIKE $2)'' @ tail,
         [ArgText tenant, opt_arg (likeSearchArg search)] @ args))
       (keysetTail ''mcp_server'' mcpServerKeys desc cursor limit 2)"

definition server_key :: "mcp_server \<Rightarrow> string list" where "server_key m = [ms_name m, ms_id m]"

definition ListMCPServersPage ::
  "locale_env \<Rightarrow> string \<Rightarrow> list_cursor option \<Rightarrow> nat \<Rightarrow> bool \<Rightarrow> string \<Rightarrow> db \<Rightarrow> api_error + mcp_server list" where
  "ListMCPServersPage lo tenant cursor limit desc search d =
     (case mcpServerPageSQL tenant cursor limit desc search of
        Inl e \<Rightarrow> Inl (wrap_other ''mcp_server page cursor: '' e)
      | Inr _ \<Rightarrow> Inr (page_select (lo_lt lo) server_key desc cursor limit
          (filter (\<lambda>m. ms_tenant m = tenant \<and> search_matches (lo_fold lo) search (ms_name m)) (db_servers d))))"

definition ListMCPServersByTenant :: "locale_env \<Rightarrow> string \<Rightarrow> db \<Rightarrow> api_error + mcp_server list" where
  "ListMCPServersByTenant lo tenant d = ListMCPServersPage lo tenant None 0 False [] d"

text \<open>A reference left out of an update keeps the stored one, an empty one clears it.\<close>

definition UpdateMCPServer ::
  "mcp_server \<Rightarrow> string option \<Rightarrow> string option \<Rightarrow> db \<Rightarrow> (dberr + mcp_server) \<times> db" where
  "UpdateMCPServer m secretRef tlsCARef d =
     (let tenant = ms_tenant m; i = ms_id m;
          upd = (\<lambda>r. server_at tenant i r \<and> ms_row_version r = ms_row_version m);
          row = (\<lambda>r. m\<lparr>ms_secret_ref := (case secretRef of None \<Rightarrow> ms_secret_ref r | Some s \<Rightarrow> s),
             ms_tls_ca_ref := (case tlsCARef of None \<Rightarrow> ms_tls_ca_ref r | Some s \<Rightarrow> s), ms_row_version := ms_row_version r + 1\<rparr>);
          existsCnt = length (filter (server_at tenant i) (db_servers d));
          updCnt = length (filter upd (db_servers d));
          d1 = d\<lparr>db_servers := map (\<lambda>r. if upd r then row r else r) (db_servers d)\<rparr> in
      if updCnt > 0 \<and> \<not> server_checks m then (Inl CheckViolation, d)
      else if updCnt > 0 \<and> server_name_taken m (filter (\<lambda>r. \<not> upd r) (db_servers d))
      then (Inl (UniqueViolation ''mcp_server_tenant_id_name_key''), d)
      else if existsCnt = 0 then (Inl ErrNotFound, d1)
      else if updCnt = 0 then (Inl ErrVersionMismatch, d1)
      else (GetMCPServer tenant i d1, d1))"

definition DeleteMCPServer :: "string \<Rightarrow> string \<Rightarrow> db \<Rightarrow> dberr option \<times> db" where
  "DeleteMCPServer tenant i d =
     (if list_ex (server_at tenant i) (db_servers d)
      then (None, d\<lparr>db_servers := filter (\<lambda>m. \<not> server_at tenant i m) (db_servers d),
        db_entitlements := filter (\<lambda>e. en_server e \<noteq> i) (db_entitlements d),
        db_usage := filter (\<lambda>u. us_server u \<noteq> i) (db_usage d)\<rparr>)
      else (Some ErrNotFound, d))"

subsection \<open>Entitlements\<close>

definition ent_at :: "string \<Rightarrow> string \<Rightarrow> entitlement \<Rightarrow> bool" where
  "ent_at tenant i e \<longleftrightarrow> en_tenant e = tenant \<and> en_id e = i"

text \<open>The statement returns the identifier alone: the version of the value returned is the caller's.\<close>

definition CreateEntitlement :: "string \<Rightarrow> entitlement \<Rightarrow> db \<Rightarrow> (dberr + entitlement) \<times> db" where
  "CreateEntitlement i e d =
     (if list_ex (\<lambda>x. en_id x = i) (db_entitlements d) then (Inl (UniqueViolation ''entitlement_pkey''), d)
      else if list_ex (\<lambda>x. en_tenant x = en_tenant e \<and> en_role x = en_role e \<and> en_server x = en_server e) (db_entitlements d)
      then (Inl (UniqueViolation ''entitlement_tenant_id_role_id_mcp_server_id_key''), d)
      else if \<not> RoleExistsInTenant (en_tenant e) (en_role e) d \<or> \<not> MCPServerExistsInTenant (en_tenant e) (en_server e) d
      then (Inl FKViolation, d)
      else (Inr (e\<lparr>en_id := i\<rparr>), d\<lparr>db_entitlements := db_entitlements d @ [e\<lparr>en_id := i, en_row_version := 1\<rparr>]\<rparr>))"

definition GetEntitlement :: "string \<Rightarrow> string \<Rightarrow> db \<Rightarrow> dberr + entitlement" where
  "GetEntitlement tenant i d = (case List.find (ent_at tenant i) (db_entitlements d) of None \<Rightarrow> Inl ErrNotFound | Some e \<Rightarrow> Inr e)"

definition UpdateEntitlement :: "entitlement \<Rightarrow> db \<Rightarrow> (dberr + entitlement) \<times> db" where
  "UpdateEntitlement e d =
     (let tenant = en_tenant e; i = en_id e;
          upd = (\<lambda>x. ent_at tenant i x \<and> en_row_version x = en_row_version e);
          existsCnt = length (filter (ent_at tenant i) (db_entitlements d));
          updCnt = length (filter upd (db_entitlements d));
          d1 = d\<lparr>db_entitlements := map (\<lambda>x. if upd x
             then x\<lparr>en_tools := en_tools e, en_permissions := en_permissions e, en_row_version := en_row_version x + 1\<rparr> else x)
             (db_entitlements d)\<rparr> in
      if existsCnt = 0 then (Inl ErrNotFound, d1)
      else if updCnt = 0 then (Inl ErrVersionMismatch, d1)
      else (GetEntitlement tenant i d1, d1))"

definition DeleteEntitlement :: "string \<Rightarrow> string \<Rightarrow> db \<Rightarrow> dberr option \<times> db" where
  "DeleteEntitlement tenant i d =
     (if list_ex (ent_at tenant i) (db_entitlements d)
      then (None, d\<lparr>db_entitlements := filter (\<lambda>e. \<not> ent_at tenant i e) (db_entitlements d)\<rparr>)
      else (Some ErrNotFound, d))"

definition ListEntitlementsByRoles :: "string \<Rightarrow> string list \<Rightarrow> db \<Rightarrow> entitlement list" where
  "ListEntitlementsByRoles tenant roleIDs d =
     (if roleIDs = [] then []
      else filter (\<lambda>e. en_tenant e = tenant \<and> en_role e \<in> set roleIDs) (db_entitlements d))"

definition entitlementKeys :: "sort_key list" where "entitlementKeys = [\<lparr>sk_col = ''role_id'', sk_cast = ''uuid''\<rparr>]"

definition EntitlementCursor :: "entitlement \<Rightarrow> bool \<Rightarrow> list_cursor" where
  "EntitlementCursor e desc = \<lparr>lc_keys = [en_role e], lc_id = en_id e, lc_sort = sortIdentity ''entitlement'' entitlementKeys desc\<rparr>"

definition entitlementPageSQL :: "string \<Rightarrow> list_cursor option \<Rightarrow> nat \<Rightarrow> bool \<Rightarrow> api_error + string \<times> sql_arg list" where
  "entitlementPageSQL tenant cursor limit desc =
     map_sum id (\<lambda>(tail, args).
        (''SELECT id::text, tenant_id::text, role_id::text, mcp_server_id::text, allowed_tools, permissions, row_version FROM entitlement WHERE tenant_id = $1'' @ tail,
         [ArgText tenant] @ args))
       (keysetTail ''entitlement'' entitlementKeys desc cursor limit 1)"

definition ent_key :: "entitlement \<Rightarrow> string list" where "ent_key e = [en_role e, en_id e]"

definition ListEntitlementsPage ::
  "locale_env \<Rightarrow> string \<Rightarrow> list_cursor option \<Rightarrow> nat \<Rightarrow> bool \<Rightarrow> db \<Rightarrow> api_error + entitlement list" where
  "ListEntitlementsPage lo tenant cursor limit desc d =
     (case entitlementPageSQL tenant cursor limit desc of
        Inl e \<Rightarrow> Inl (wrap_other ''entitlement page cursor: '' e)
      | Inr _ \<Rightarrow> Inr (page_select (lo_lt lo) ent_key desc cursor limit
          (filter (\<lambda>e. en_tenant e = tenant) (db_entitlements d))))"

end
