(* ===== verification/Secrets.thy ===== *)
theory Secrets
  imports GoText
begin

text \<open>
  References to secrets: \<open>internal/secrets/provider.go\<close> and \<open>env.go\<close>. The process environment
  is a function from names to values; this edition registers the \<open>env\<close> provider alone.
\<close>

record env_provider =
  ep_allow :: "string list"
  ep_unrestricted :: bool

type_synonym resolver = "(string \<times> env_provider) list"

definition envAllowVar :: string where "envAllowVar = ''ORBEAT_SECRET_ENV_ALLOW''"

definition defaultEnvAllowPrefixes :: "string list" where "defaultEnvAllowPrefixes = [''ORBEAT_UPSTREAM_'']"

definition parseEnvAllow :: "string \<Rightarrow> string list" where
  "parseEnvAllow raw =
     filter (\<lambda>p. p \<noteq> []) (map (\<lambda>field. trim_right {CHR ''*''} (TrimSpace field)) (split_on CHR '','' raw))"

definition allowedPrefixes :: "env_provider \<Rightarrow> string list" where
  "allowedPrefixes p = (if ep_allow p \<noteq> [] then ep_allow p else defaultEnvAllowPrefixes)"

fun join_names :: "string list \<Rightarrow> string" where
  "join_names [] = []"
| "join_names [x] = x"
| "join_names (x # y # r) = x @ '', '' @ join_names (y # r)"

definition ValidateLocator :: "env_provider \<Rightarrow> string \<Rightarrow> string option" where
  "ValidateLocator p locator =
     (if locator = [] then Some ''secrets/env: empty variable name''
      else if ep_unrestricted p then None
      else if list_ex (\<lambda>pre. has_prefix pre locator) (allowedPrefixes p) then None
      else Some (''secrets/env: variable name is not permitted by '' @ envAllowVar @ '' (allowed prefixes: '' @
        join_names (allowedPrefixes p) @ '')''))"

definition env_Resolve :: "(string \<Rightarrow> string option) \<Rightarrow> env_provider \<Rightarrow> string \<Rightarrow> string + string" where
  "env_Resolve vars p locator =
     (case ValidateLocator p locator of
        Some e \<Rightarrow> Inl e
      | None \<Rightarrow>
          (case vars locator of
             None \<Rightarrow> Inl (''secrets/env: '' @ Quote locator @ '' is not set'')
           | Some v \<Rightarrow> if v = [] then Inl (''secrets/env: '' @ Quote locator @ '' is set but empty'') else Inr v))"

definition newEnvProvider :: "(string \<Rightarrow> string option) \<Rightarrow> env_provider" where
  "newEnvProvider vars = \<lparr>ep_allow = parseEnvAllow (case vars envAllowVar of None \<Rightarrow> [] | Some v \<Rightarrow> v), ep_unrestricted = False\<rparr>"

definition NewResolver :: "(string \<Rightarrow> string option) \<Rightarrow> resolver" where
  "NewResolver vars = [(''env'', newEnvProvider vars)]"

definition NewProcessConfigResolver :: resolver where
  "NewProcessConfigResolver = [(''env'', \<lparr>ep_allow = [], ep_unrestricted = True\<rparr>)]"

definition Resolve :: "(string \<Rightarrow> string option) \<Rightarrow> resolver \<Rightarrow> string \<Rightarrow> string + string" where
  "Resolve vars r ref =
     (if ref = [] then Inr []
      else (case cut_sub '':'' ref of
          None \<Rightarrow> Inl (''secrets: ref '' @ Quote ref @ '' has no scheme'')
        | Some (scheme, locator) \<Rightarrow>
            if scheme = [] then Inl (''secrets: ref '' @ Quote ref @ '' has no scheme'')
            else (case map_of r scheme of
                None \<Rightarrow> Inl (''secrets: unknown ref scheme: '' @ Quote scheme)
              | Some p \<Rightarrow> env_Resolve vars p locator)))"

definition control_char :: "char \<Rightarrow> bool" where
  "control_char c \<longleftrightarrow> (let n = of_char c :: nat in n < 32 \<or> n = 127)"

definition ValidateRef :: "resolver \<Rightarrow> string \<Rightarrow> string option" where
  "ValidateRef r ref =
     (if ref = [] then None
      else if list_ex control_char ref then Some ''secrets: ref contains a control character''
      else (case cut_sub '':'' ref of
          None \<Rightarrow> Some (''secrets: ref must be '' @ [CHR 0x22] @ ''<scheme>:<locator>'' @ [CHR 0x22])
        | Some (scheme, locator) \<Rightarrow>
            if scheme = [] then Some (''secrets: ref must be '' @ [CHR 0x22] @ ''<scheme>:<locator>'' @ [CHR 0x22])
            else (case map_of r scheme of
                None \<Rightarrow> Some (''secrets: unknown ref scheme (registered: '' @ join_names (map fst r) @ '')'')
              | Some p \<Rightarrow> ValidateLocator p locator)))"

subsection \<open>Confinement\<close>

text \<open>An allow-list never holds the empty prefix, which would admit every name.\<close>

lemma allowed_prefix_nonempty: "pre \<in> set (allowedPrefixes (newEnvProvider vars)) \<Longrightarrow> pre \<noteq> []"
  by (auto simp: allowedPrefixes_def newEnvProvider_def parseEnvAllow_def defaultEnvAllowPrefixes_def split: if_splits)

text \<open>
  C39. A reference an administrator stores reads one variable of an allowed name or nothing: whatever
  the reference says, it resolves to the empty secret only when it is empty, and to a value only when
  it is \<open>env:\<close> and a name that starts with one of the operator's prefixes (never the empty one, and
  the default prefix when there is none); and what the write-time check accepts fails later only
  because the variable is missing or empty.
\<close>

theorem secrets_confined:
  assumes "Resolve vars (NewResolver vars) ref = Inr v \<or> ValidateRef (NewResolver vars) ref = None"
  shows "ref = [] \<or> (\<exists>name pre. ref = ''env:'' @ name \<and> pre \<in> set (allowedPrefixes (newEnvProvider vars)) \<and> pre \<noteq> [] \<and>
    prefix pre name \<and>
    Resolve vars (NewResolver vars) ref = (case vars name of
       None \<Rightarrow> Inl (''secrets/env: '' @ Quote name @ '' is not set'')
     | Some x \<Rightarrow> if x = [] then Inl (''secrets/env: '' @ Quote name @ '' is set but empty'') else Inr x))"
proof (cases "ref = []")
  case False
  then obtain scheme name where c: "cut_sub '':'' ref = Some (scheme, name)" and s: "map_of (NewResolver vars) scheme \<noteq> None"
    "scheme \<noteq> []"
    using assms by (auto simp: Resolve_def ValidateRef_def split: option.splits if_splits)
  from s(1) have env: "scheme = ''env''" "map_of (NewResolver vars) scheme = Some (newEnvProvider vars)"
    by (auto simp: NewResolver_def split: if_splits)
  from cut_sub_Some [OF c] env(1) have ref: "ref = ''env:'' @ name" by simp
  have ok: "ValidateLocator (newEnvProvider vars) name = None"
    using assms False c s(2) env(2) by (auto simp: Resolve_def ValidateRef_def env_Resolve_def split: option.splits if_splits)
  moreover have "\<not> ep_unrestricted (newEnvProvider vars)" by (simp add: newEnvProvider_def)
  ultimately obtain pre where pre: "pre \<in> set (allowedPrefixes (newEnvProvider vars))" "has_prefix pre name"
    by (auto simp: ValidateLocator_def list_ex_iff split: if_splits)
  have "Resolve vars (NewResolver vars) ref = env_Resolve vars (newEnvProvider vars) name"
    using False c s(2) env(2) by (simp add: Resolve_def)
  then show ?thesis
    using ref pre allowed_prefix_nonempty [OF pre(1)] ok
    by (intro disjI2 exI [of _ name] exI [of _ pre]) (auto simp: env_Resolve_def has_prefix_iff prefix_def)
qed simp

definition shell_vars :: "string \<Rightarrow> string option" where
  "shell_vars = map_of [(''ORBEAT_UPSTREAM_TOKEN'', ''s3''), (''DATABASE_URL'', ''pg'')]"

theorem secrets_confined_witness:
  "Resolve shell_vars (NewResolver shell_vars) ''env:ORBEAT_UPSTREAM_TOKEN'' = Inr ''s3'' \<and>
   (\<exists>pre. pre \<in> set (allowedPrefixes (newEnvProvider shell_vars)) \<and> prefix pre ''ORBEAT_UPSTREAM_TOKEN'')"
proof -
  have r: "Resolve shell_vars (NewResolver shell_vars) ''env:ORBEAT_UPSTREAM_TOKEN'' = Inr ''s3''" by code_simp
  from secrets_confined [OF disjI1 [OF r]] r show ?thesis by auto
qed

end
