(* ===== verification/AccessApi.thy ===== *)
theory AccessApi
  imports ArtifactApi AccessStore Secrets
begin

text \<open>
  The administration of servers, roles and entitlements: \<open>internal/api/admin_servers.go\<close>,
  \<open>admin_roles.go\<close>, \<open>admin_entitlements.go\<close> and the write-time caps of \<open>caps.go\<close>. The
  identifiers of new rows, the URL parser, the identity provider and the resolver of secrets are in
  the environment of a request.
\<close>

record parsed_url =
  pu_scheme :: string
  pu_host :: string
  pu_port :: string
  pu_user :: bool

text \<open>
  \<open>ad_servers\<close> and \<open>ad_roles\<close> are the edition's limits, 0 for none; \<open>ad_roleExists\<close> is the
  realm-role lookup when one is configured, \<open>ad_dcrDelete\<close> the removal of a Keycloak client.
\<close>

record admin_env =
  ad_locale :: locale_env
  ad_json :: json_codec
  ad_servers :: int
  ad_roles :: int
  ad_contact :: string
  ad_parse_url :: "string \<Rightarrow> parsed_url option"
  ad_secrets :: resolver
  ad_roleExists :: "(string \<Rightarrow> string + bool) option"
  ad_dcrDelete :: "(string \<Rightarrow> string \<Rightarrow> string option) option"

text \<open>A deny row, then the error; the error of the row when that cannot be written.\<close>

definition deny_then :: "tx_env \<Rightarrow> audit_event \<Rightarrow> api_error \<Rightarrow> api_state \<Rightarrow> 'b reply \<times> api_state" where
  "deny_then env ev err st =
     (case appendDenyAudit env ev st of (Some e, st1) \<Rightarrow> (api_fail e, st1) | (None, st1) \<Rightarrow> (api_fail err, st1))"

subsection \<open>Servers: input\<close>

text \<open>
  \<open>serverInput\<close> and \<open>serverUpdateInput\<close>: a reference left out of an update is \<open>None\<close>; in a creation
  it is the empty string, which validates and is stored alike.
\<close>

record serverInput =
  si_name :: string
  si_description :: string
  si_transport :: string
  si_endpoint :: string
  si_version :: string
  si_protocol :: string
  si_secret :: "string option"
  si_tls_ca :: "string option"
  si_status :: string

record adminServerDTO =
  as_id :: string
  as_name :: string
  as_description :: string
  as_transport :: string
  as_endpoint :: string
  as_version :: string
  as_protocol :: string
  as_status :: string
  as_hasSecret :: bool
  as_hasTlsCa :: bool
  as_rowVersion :: int

definition toAdminServerDTO :: "mcp_server \<Rightarrow> adminServerDTO" where
  "toAdminServerDTO m = \<lparr>as_id = ms_id m, as_name = ms_name m, as_description = ms_description m, as_transport = ms_transport m,
     as_endpoint = ms_endpoint m, as_version = ms_version m, as_protocol = ms_protocol m, as_status = ms_status m,
     as_hasSecret = (ms_secret_ref m \<noteq> []), as_hasTlsCa = (ms_tls_ca_ref m \<noteq> []), as_rowVersion = ms_row_version m\<rparr>"

definition validTransport :: "string \<Rightarrow> bool" where "validTransport t \<longleftrightarrow> t \<in> {''http'', ''sse''}"
definition validServerStatus :: "string \<Rightarrow> bool" where "validServerStatus s \<longleftrightarrow> s \<in> {''active'', ''disabled''}"

definition validEndpoint :: "admin_env \<Rightarrow> string \<Rightarrow> bool" where
  "validEndpoint ad endpoint =
     (case ad_parse_url ad endpoint of
        None \<Rightarrow> False
      | Some u \<Rightarrow>
          (pu_scheme u = ''http'' \<or> pu_scheme u = ''https'') \<and> pu_host u \<noteq> [] \<and>
          (pu_port u = [] \<or> (case Atoi (pu_port u) of None \<Rightarrow> False | Some n \<Rightarrow> 1 \<le> n \<and> n \<le> 65535)) \<and> \<not> pu_user u)"

definition validateServerWrite :: "admin_env \<Rightarrow> string \<Rightarrow> string option \<Rightarrow> string option \<Rightarrow> string option" where
  "validateServerWrite ad endpoint secretRef tlsCARef =
     (if \<not> validEndpoint ad endpoint
      then Some ''endpointOrCommand must be an absolute http(s) URL with a host and no embedded credentials''
      else case (case secretRef of None \<Rightarrow> None | Some s \<Rightarrow> ValidateRef (ad_secrets ad) s) of
          Some e \<Rightarrow> Some e
        | None \<Rightarrow>
            (case (case tlsCARef of None \<Rightarrow> None | Some s \<Rightarrow> ValidateRef (ad_secrets ad) s) of
               Some e \<Rightarrow> Some (''tlsCaRef: '' @ e) | None \<Rightarrow> None))"

text \<open>The checks both writes of a server begin with.\<close>

definition validate_server :: "admin_env \<Rightarrow> serverInput \<Rightarrow> string option" where
  "validate_server ad i =
     (if si_name i = [] \<or> si_transport i = [] \<or> si_endpoint i = [] \<or> si_status i = []
      then Some ''name, transport, endpointOrCommand, status are required''
      else if \<not> validTransport (si_transport i)
      then Some ''transport must be one of http, sse (stdio servers cannot be brokered by the remote gateway)''
      else if \<not> validServerStatus (si_status i) then Some ''status must be one of active, disabled''
      else validateServerWrite ad (si_endpoint i) (si_secret i) (si_tls_ca i))"

definition serverWriteAuditMetadata :: "string \<Rightarrow> string \<Rightarrow> string \<Rightarrow> string \<Rightarrow> (string \<times> meta) list" where
  "serverWriteAuditMetadata name endpoint secretRef tlsCaRef =
     [(''name'', MStr name), (''endpointOrCommand'', MStr endpoint), (''secretRef'', MStr secretRef), (''tlsCaRef'', MStr tlsCaRef)]"

definition derefRefOrUnchanged :: "string option \<Rightarrow> string" where
  "derefRefOrUnchanged p = (case p of None \<Rightarrow> ''(unchanged)'' | Some s \<Rightarrow> s)"

definition checkServerSlugCollision :: "admin_env \<Rightarrow> string \<Rightarrow> string \<Rightarrow> string \<Rightarrow> db \<Rightarrow> api_error option" where
  "checkServerSlugCollision ad tenant name excludeID d =
     (case ListMCPServersByTenant (ad_locale ad) tenant d of
        Inl e \<Rightarrow> Some e
      | Inr servers \<Rightarrow>
          (case List.find (\<lambda>m. ms_id m \<noteq> excludeID \<and> Slugify (ms_name m) = Slugify name) servers of
             None \<Rightarrow> None
           | Some other \<Rightarrow> Some (ConflictError (''server name collides with '' @ Quote (ms_name other) @ '' after slugification''))))"

definition checkServerActiveCap :: "admin_env \<Rightarrow> string \<Rightarrow> string \<Rightarrow> string \<Rightarrow> db \<Rightarrow> api_error option" where
  "checkServerActiveCap ad tenant excludeID status d =
     (if ad_servers ad \<le> 0 \<or> status \<noteq> ''active'' then None
      else (case ListMCPServersByTenant (ad_locale ad) tenant d of
          Inl e \<Rightarrow> Some e
        | Inr servers \<Rightarrow>
            let current = int (length (filter (\<lambda>m. ms_status m = ''active'' \<and> ms_id m \<noteq> excludeID) servers)) in
            if current \<ge> ad_servers ad
            then Some (LimitError \<lparr>le_resource = ''servers'', le_max = ad_servers ad, le_current = current, le_contact = ad_contact ad\<rparr>)
            else None))"

definition checkRoleCap :: "admin_env \<Rightarrow> string \<Rightarrow> db \<Rightarrow> api_error option" where
  "checkRoleCap ad tenant d =
     (if ad_roles ad \<le> 0 then None
      else (case ListRolesPage (ad_locale ad) tenant None 0 False [] d of
          Inl e \<Rightarrow> Some e
        | Inr roles \<Rightarrow>
            if int (length roles) \<ge> ad_roles ad
            then Some (LimitError \<lparr>le_resource = ''roles'', le_max = ad_roles ad, le_current = int (length roles), le_contact = ad_contact ad\<rparr>)
            else None))"

subsection \<open>Servers: handlers\<close>

type_synonym server_reply = "(adminServerDTO \<times> string option) option reply"

definition server_event :: "caller \<Rightarrow> string \<Rightarrow> string \<Rightarrow> (string \<times> meta) list \<Rightarrow> audit_event" where
  "server_event c action target m = \<lparr>ae_tenant = cl_tenant c, ae_actor = cl_subject c, ae_action = action, ae_target = target,
     ae_decision = ''allow'', ae_metadata = m\<rparr>"

definition input_server :: "caller \<Rightarrow> string \<Rightarrow> serverInput \<Rightarrow> int \<Rightarrow> mcp_server" where
  "input_server c i inp version = \<lparr>ms_id = i, ms_tenant = cl_tenant c, ms_name = si_name inp, ms_description = si_description inp,
     ms_transport = si_transport inp, ms_endpoint = si_endpoint inp, ms_version = si_version inp, ms_protocol = si_protocol inp,
     ms_secret_ref = str (si_secret inp), ms_tls_ca_ref = str (si_tls_ca inp), ms_status = si_status inp, ms_row_version = version\<rparr>"

definition create_server_tx :: "caller \<Rightarrow> mcp_server \<Rightarrow> db \<Rightarrow> (api_error + audit_event \<times> mcp_server) \<times> db" where
  "create_server_tx c m d =
     (case CreateMCPServer m d of
        (Inl e, d1) \<Rightarrow> (Inl (StoreErr e), d1)
      | (Inr r, d1) \<Rightarrow> (Inr (server_event c ''server.create'' (ms_id r)
          (serverWriteAuditMetadata (ms_name r) (ms_endpoint r) (ms_secret_ref r) (ms_tls_ca_ref r)), r), d1))"

text \<open>
  The slug check and the cap check read outside the write transaction, each in a statement of its own:
  \<open>seen\<close> and \<open>capped\<close> are the tables as they stood at these two reads.
\<close>

definition handleCreateServer ::
  "admin_env \<Rightarrow> tx_env \<Rightarrow> string \<Rightarrow> caller option \<Rightarrow> serverInput request_body \<Rightarrow> db \<Rightarrow> db \<Rightarrow> api_state \<Rightarrow>
   server_reply \<times> api_state" where
  "handleCreateServer ad env i ctx body seen capped st =
     (case resolved ctx of Inl r \<Rightarrow> (r, st) | Inr c \<Rightarrow>
      case decodeJSONOrFail body of Inl r \<Rightarrow> (r, st) | Inr inp \<Rightarrow>
      case validate_server ad inp of Some m \<Rightarrow> (ErrorReply 400 m, st) | None \<Rightarrow>
      case checkServerSlugCollision ad (cl_tenant c) (si_name inp) [] seen of Some e \<Rightarrow> (api_fail e, st) | None \<Rightarrow>
      case checkServerActiveCap ad (cl_tenant c) [] (si_status inp) capped of Some e \<Rightarrow> (api_fail e, st) | None \<Rightarrow>
      (case auditedTx env (create_server_tx c (input_server c i inp 0)) st of
         (Inl e, st1) \<Rightarrow> (api_fail e, st1)
       | (Inr m, st1) \<Rightarrow> (Reply 201 (Some (toAdminServerDTO m, None)), st1)))"

definition handleGetServer :: "caller option \<Rightarrow> string \<Rightarrow> api_state \<Rightarrow> server_reply \<times> api_state" where
  "handleGetServer ctx i st =
     (case resolved ctx of Inl r \<Rightarrow> (r, st) | Inr c \<Rightarrow>
      case GetMCPServer (cl_tenant c) i (as_db st) of
        Inl e \<Rightarrow> (api_fail (StoreErr e), st)
      | Inr m \<Rightarrow> (Reply 200 (Some (toAdminServerDTO m, Some (etag (ms_row_version m)))), st))"

definition update_server_tx ::
  "caller \<Rightarrow> mcp_server \<Rightarrow> string option \<Rightarrow> string option \<Rightarrow> db \<Rightarrow> (api_error + audit_event \<times> mcp_server) \<times> db" where
  "update_server_tx c m secretRef tlsCARef d =
     (case UpdateMCPServer m secretRef tlsCARef d of
        (Inl e, d1) \<Rightarrow> (Inl (StoreErr e), d1)
      | (Inr r, d1) \<Rightarrow> (Inr (server_event c ''server.update'' (ms_id r)
          (serverWriteAuditMetadata (ms_name r) (ms_endpoint r) (ms_secret_ref r) (ms_tls_ca_ref r)), r), d1))"

definition handleUpdateServer ::
  "admin_env \<Rightarrow> tx_env \<Rightarrow> caller option \<Rightarrow> string \<Rightarrow> string \<Rightarrow> serverInput request_body \<Rightarrow> db \<Rightarrow> db \<Rightarrow> api_state \<Rightarrow>
   server_reply \<times> api_state" where
  "handleUpdateServer ad env ctx header i body seen capped st =
     (case resolved ctx of Inl r \<Rightarrow> (r, st) | Inr c \<Rightarrow>
      case ifMatch header of Inl e \<Rightarrow> (api_fail e, st) | Inr expected \<Rightarrow>
      case decodeJSONOrFail body of Inl r \<Rightarrow> (r, st) | Inr inp \<Rightarrow>
      case validate_server ad inp of Some m \<Rightarrow> (ErrorReply 400 m, st) | None \<Rightarrow>
      case checkServerSlugCollision ad (cl_tenant c) (si_name inp) i seen of Some e \<Rightarrow> (api_fail e, st) | None \<Rightarrow>
      case checkServerActiveCap ad (cl_tenant c) i (si_status inp) capped of Some e \<Rightarrow> (api_fail e, st) | None \<Rightarrow>
      (case auditedTx env (update_server_tx c (input_server c i inp expected) (si_secret inp) (si_tls_ca inp)) st of
         (Inl e, st1) \<Rightarrow>
           if e = StoreErr ErrVersionMismatch
           then deny_then env \<lparr>ae_tenant = cl_tenant c, ae_actor = cl_subject c, ae_action = ''server.update'', ae_target = i,
             ae_decision = ''deny'', ae_metadata = serverWriteAuditMetadata (si_name inp) (si_endpoint inp)
               (derefRefOrUnchanged (si_secret inp)) (derefRefOrUnchanged (si_tls_ca inp)) @ [(''reason'', MStr ''version_mismatch'')]\<rparr> e st1
           else (api_fail e, st1)
       | (Inr m, st1) \<Rightarrow> (Reply 200 (Some (toAdminServerDTO m, Some (etag (ms_row_version m)))), st1)))"

definition delete_server_tx :: "caller \<Rightarrow> string \<Rightarrow> db \<Rightarrow> (api_error + audit_event \<times> unit) \<times> db" where
  "delete_server_tx c i d =
     (case DeleteMCPServer (cl_tenant c) i d of
        (Some e, d1) \<Rightarrow> (Inl (StoreErr e), d1)
      | (None, d1) \<Rightarrow> (Inr (server_event c ''server.delete'' i [], ()), d1))"

definition handleDeleteServer :: "tx_env \<Rightarrow> caller option \<Rightarrow> string \<Rightarrow> api_state \<Rightarrow> server_reply \<times> api_state" where
  "handleDeleteServer env ctx i st =
     (case resolved ctx of Inl r \<Rightarrow> (r, st) | Inr c \<Rightarrow>
      (case auditedTx env (delete_server_tx c i) st of
         (Inl e, st1) \<Rightarrow> (api_fail e, st1) | (Inr _, st1) \<Rightarrow> (Reply 204 None, st1)))"

definition handleListServers ::
  "admin_env \<Rightarrow> caller option \<Rightarrow> query \<Rightarrow> db \<Rightarrow> (mcp_server list \<times> nat \<times> string) reply" where
  "handleListServers ad ctx q d =
     (case resolved ctx of Inl r \<Rightarrow> r | Inr c \<Rightarrow>
      list_reply (ad_json ad)
        (\<lambda>cursor limit desc. ListMCPServersPage (ad_locale ad) (cl_tenant c) cursor limit desc (searchParam q) d)
        MCPServerCursor [CursorText] ''name'' (\<lambda>_. None) q)"

subsection \<open>Roles\<close>

definition keycloakDefaultRolesPrefix :: string where "keycloakDefaultRolesPrefix = ''default-roles-''"

definition keycloakBuiltinRealmRoleNames :: "string list" where
  "keycloakBuiltinRealmRoleNames = [''offline_access'', ''uma_authorization'']"

definition refuseKeycloakBuiltinRoleName :: "string \<Rightarrow> bool" where
  "refuseKeycloakBuiltinRoleName name \<longleftrightarrow>
     name \<in> set keycloakBuiltinRealmRoleNames \<or> has_prefix keycloakDefaultRolesPrefix name"

definition validate_role_name :: "string \<Rightarrow> string \<Rightarrow> string option" where
  "validate_role_name verb name =
     (if name = [] then Some ''name is required''
      else if refuseKeycloakBuiltinRoleName name then Some (Quote name @ '' is a Keycloak built-in realm role; '' @ verb @ '' this exact name would grant its entitlements to every user carrying that built-in (essentially the whole realm)'')
      else None)"

record roleDTO =
  rd_id :: string
  rd_name :: string
  rd_rowVersion :: int

definition toRoleDTO :: "role_row \<Rightarrow> roleDTO" where
  "toRoleDTO r = \<lparr>rd_id = ro_id r, rd_name = ro_name r, rd_rowVersion = ro_row_version r\<rparr>"

type_synonym role_reply = "(roleDTO \<times> string option) reply"

definition create_role_tx :: "caller \<Rightarrow> string \<Rightarrow> string \<Rightarrow> db \<Rightarrow> (api_error + audit_event \<times> role_row) \<times> db" where
  "create_role_tx c i name d =
     (case CreateRole i (cl_tenant c) name d of
        (Inl e, d1) \<Rightarrow> (Inl (StoreErr e), d1)
      | (Inr r, d1) \<Rightarrow> (Inr (server_event c ''role.create'' (ro_id r) [(''name'', MStr (ro_name r))], r), d1))"

definition handleCreateRole ::
  "admin_env \<Rightarrow> tx_env \<Rightarrow> string \<Rightarrow> caller option \<Rightarrow> string request_body \<Rightarrow> db \<Rightarrow> api_state \<Rightarrow> role_reply \<times> api_state" where
  "handleCreateRole ad env i ctx body capped st =
     (case resolved ctx of Inl r \<Rightarrow> (r, st) | Inr c \<Rightarrow>
      case decodeJSONOrFail body of Inl r \<Rightarrow> (r, st) | Inr name \<Rightarrow>
      case validate_role_name ''creating an orbeat role with'' name of Some m \<Rightarrow> (ErrorReply 400 m, st) | None \<Rightarrow>
      case checkRoleCap ad (cl_tenant c) capped of Some e \<Rightarrow> (api_fail e, st) | None \<Rightarrow>
      (case auditedTx env (create_role_tx c i name) st of
         (Inl e, st1) \<Rightarrow> (api_fail e, st1)
       | (Inr r, st1) \<Rightarrow> (Reply 201 (toRoleDTO r, None), st1)))"

definition handleListRoles ::
  "admin_env \<Rightarrow> caller option \<Rightarrow> query \<Rightarrow> db \<Rightarrow> (role_row list \<times> nat \<times> string) reply" where
  "handleListRoles ad ctx q d =
     (case resolved ctx of Inl r \<Rightarrow> r | Inr c \<Rightarrow>
      list_reply (ad_json ad)
        (\<lambda>cursor limit desc. ListRolesPage (ad_locale ad) (cl_tenant c) cursor limit desc (searchParam q) d)
        RoleCursor [CursorText] ''name'' (\<lambda>_. None) q)"

definition delete_role_tx ::
  "admin_env \<Rightarrow> caller \<Rightarrow> string \<Rightarrow> db \<Rightarrow> (api_error + audit_event \<times> revoked_grants) \<times> db" where
  "delete_role_tx ad c i d =
     (case DeleteRole (lo_le (ad_locale ad)) (cl_tenant c) i d of
        (Inl e, d1) \<Rightarrow> (Inl (StoreErr e), d1)
      | (Inr g, d1) \<Rightarrow> (Inr (server_event c ''role.delete'' i
          [(''name'', MStr (rk_role g)), (''entitlementsRevoked'', MInt (int (rk_entitlements g))),
           (''artifactEntitlementsRevoked'', MInt (int (rk_artifact_entitlements g))), (''servers'', MStrs (rk_servers g)),
           (''artifacts'', MStrs (rk_artifacts g)), (''virtualKeysRevoked'', MInt (int (rk_vkeys g))),
           (''virtualKeyClientIds'', MStrs (rk_clients g)), (''usageRowsDeleted'', MInt (int (rk_usage_rows g))),
           (''usageCallsDeleted'', MInt (rk_usage_calls g)),
           (''quotaMonthlyCalls'', case rk_quota g of None \<Rightarrow> MNull | Some n \<Rightarrow> MInt n),
           (''truncated'', MBool (rk_truncated g))], g), d1))"

text \<open>What becomes of the Keycloak clients of the keys: deleted, or orphaned and logged.\<close>

definition deleteRoleKeycloakClients :: "admin_env \<Rightarrow> (string \<times> string) list \<Rightarrow> (string \<times> bool) list" where
  "deleteRoleKeycloakClients ad keys =
     (case ad_dcrDelete ad of
        None \<Rightarrow> map (\<lambda>(client, token). (client, False)) keys
      | Some del \<Rightarrow> map (\<lambda>(client, token). (client, token \<noteq> [] \<and> del client token = None)) keys)"

definition handleDeleteRole ::
  "admin_env \<Rightarrow> tx_env \<Rightarrow> caller option \<Rightarrow> string \<Rightarrow> api_state \<Rightarrow> (nat \<times> nat) reply \<times> (string \<times> bool) list \<times> api_state" where
  "handleDeleteRole ad env ctx i st =
     (case resolved ctx of Inl r \<Rightarrow> (r, [], st) | Inr c \<Rightarrow>
      (case auditedTx env (delete_role_tx ad c i) st of
         (Inl e, st1) \<Rightarrow> (api_fail e, [], st1)
       | (Inr g, st1) \<Rightarrow> (Reply 200 (rk_entitlements g, rk_artifact_entitlements g), deleteRoleKeycloakClients ad (rk_cleanup g), st1)))"

record roleRenameInput =
  rn_name :: string
  rn_idpRenamed :: bool

definition verifyIdpRename :: "admin_env \<Rightarrow> roleRenameInput \<Rightarrow> string \<times> api_error option" where
  "verifyIdpRename ad inp =
     (case ad_roleExists ad of
        None \<Rightarrow>
          if \<not> rn_idpRenamed inp then (''assertion_missing'', Some (IdpAssertionRequired
            ''no realm-role lookup is configured on this deployment; confirm the role was already renamed in the identity provider by resubmitting with idpRenamed=true''))
          else (''asserted'', None)
      | Some roleExists \<Rightarrow>
          (case roleExists (rn_name inp) of
             Inl e \<Rightarrow> (''lookup_error'', Some (IdpUnavailable (''could not verify '' @ Quote (rn_name inp) @ '' against the identity provider: '' @ e)))
           | Inr b \<Rightarrow>
               if \<not> b then (''verified_absent'', Some (ValidationError (''no realm role named '' @ Quote (rn_name inp) @
                 '' exists in the identity provider; rename it there first'')))
               else (''verified'', None)))"

text \<open>The text \<open>Error()\<close> gives of the errors \<open>verifyIdpRename\<close> makes.\<close>

definition idp_reason :: "api_error \<Rightarrow> string" where
  "idp_reason e = (case e of IdpAssertionRequired m \<Rightarrow> m | IdpUnavailable m \<Rightarrow> m | ValidationError m \<Rightarrow> m | _ \<Rightarrow> [])"

definition rename_event :: "caller \<Rightarrow> string \<Rightarrow> string \<Rightarrow> string \<Rightarrow> string \<Rightarrow> string \<Rightarrow> (string \<times> meta) list \<Rightarrow> audit_event" where
  "rename_event c i decision from to idpCheck extra = \<lparr>ae_tenant = cl_tenant c, ae_actor = cl_subject c, ae_action = ''role.rename'',
     ae_target = i, ae_decision = decision,
     ae_metadata = [(''from'', MStr from), (''to'', MStr to), (''idpCheck'', MStr idpCheck)] @ extra\<rparr>"

definition rename_tx ::
  "caller \<Rightarrow> string \<Rightarrow> string \<Rightarrow> string \<Rightarrow> string \<Rightarrow> int \<Rightarrow> db \<Rightarrow> (api_error + audit_event \<times> role_row) \<times> db" where
  "rename_tx c i from name idpCheck expected d =
     (case UpdateRoleName (cl_tenant c) i name expected d of
        (Inl e, d1) \<Rightarrow> (Inl (StoreErr e), d1)
      | (Inr r, d1) \<Rightarrow> (Inr (rename_event c (ro_id r) ''allow'' from (ro_name r) idpCheck [], r), d1))"

definition handleUpdateRole ::
  "admin_env \<Rightarrow> tx_env \<Rightarrow> caller option \<Rightarrow> string \<Rightarrow> string \<Rightarrow> roleRenameInput request_body \<Rightarrow> api_state \<Rightarrow> role_reply \<times> api_state" where
  "handleUpdateRole ad env ctx header i body st =
     (case resolved ctx of Inl r \<Rightarrow> (r, st) | Inr c \<Rightarrow>
      case ifMatch header of Inl e \<Rightarrow> (api_fail e, st) | Inr expected \<Rightarrow>
      case decodeJSONOrFail body of Inl r \<Rightarrow> (r, st) | Inr inp \<Rightarrow>
      case validate_role_name ''renaming an orbeat role to'' (rn_name inp) of Some m \<Rightarrow> (ErrorReply 400 m, st) | None \<Rightarrow>
      case GetRole (cl_tenant c) i (as_db st) of Inl e \<Rightarrow> (api_fail (StoreErr e), st) | Inr current \<Rightarrow>
      case verifyIdpRename ad inp of
        (idpCheck, Some e) \<Rightarrow>
          deny_then env (rename_event c i ''deny'' (ro_name current) (rn_name inp) idpCheck [(''reason'', MStr (idp_reason e))]) e st
      | (idpCheck, None) \<Rightarrow>
          (case auditedTx env (rename_tx c i (ro_name current) (rn_name inp) idpCheck expected) st of
             (Inl e, st1) \<Rightarrow>
               if e = StoreErr ErrVersionMismatch
               then deny_then env (rename_event c i ''deny'' (ro_name current) (rn_name inp) idpCheck
                 [(''reason'', MStr ''version_mismatch'')]) e st1
               else (api_fail e, st1)
           | (Inr r, st1) \<Rightarrow> (Reply 200 (toRoleDTO r, Some (etag (ro_row_version r))), st1)))"

subsection \<open>Entitlements\<close>

record entitlementInput =
  ei_role :: string
  ei_server :: string
  ei_tools :: "string list option"
  ei_permissions :: "string list"

record entitlementDTO =
  ed_id :: string
  ed_role :: string
  ed_server :: string
  ed_tools :: "string list option"
  ed_permissions :: "string list"
  ed_rowVersion :: int

definition toEntitlementDTO :: "entitlement \<Rightarrow> entitlementDTO" where
  "toEntitlementDTO e = \<lparr>ed_id = en_id e, ed_role = en_role e, ed_server = en_server e, ed_tools = en_tools e,
     ed_permissions = en_permissions e, ed_rowVersion = en_row_version e\<rparr>"

type_synonym entitlement_reply = "(entitlementDTO \<times> string option) option reply"

definition create_entitlement_tx ::
  "caller \<Rightarrow> string \<Rightarrow> entitlementInput \<Rightarrow> db \<Rightarrow> (api_error + audit_event \<times> entitlement) \<times> db" where
  "create_entitlement_tx c i inp d =
     (if \<not> RoleExistsInTenant (cl_tenant c) (ei_role inp) d then (Inl (ValidationError ''unknown roleId for tenant''), d)
      else if \<not> MCPServerExistsInTenant (cl_tenant c) (ei_server inp) d then (Inl (ValidationError ''unknown mcpServerId for tenant''), d)
      else
        (case CreateEntitlement i \<lparr>en_id = [], en_tenant = cl_tenant c, en_role = ei_role inp, en_server = ei_server inp,
            en_tools = ei_tools inp, en_permissions = ei_permissions inp, en_row_version = 0\<rparr> d of
           (Inl e, d1) \<Rightarrow> (Inl (StoreErr e), d1)
         | (Inr e, d1) \<Rightarrow> (Inr (server_event c ''entitlement.create'' (en_id e)
             [(''roleId'', MStr (en_role e)), (''mcpServerId'', MStr (en_server e))], e), d1)))"

definition handleCreateEntitlement ::
  "tx_env \<Rightarrow> string \<Rightarrow> caller option \<Rightarrow> entitlementInput request_body \<Rightarrow> api_state \<Rightarrow> entitlement_reply \<times> api_state" where
  "handleCreateEntitlement env i ctx body st =
     (case resolved ctx of Inl r \<Rightarrow> (r, st) | Inr c \<Rightarrow>
      case decodeJSONOrFail body of Inl r \<Rightarrow> (r, st) | Inr inp \<Rightarrow>
      if ei_role inp = [] \<or> ei_server inp = [] then (ErrorReply 400 ''roleId and mcpServerId are required'', st)
      else (case auditedTx env (create_entitlement_tx c i inp) st of
         (Inl e, st1) \<Rightarrow> (api_fail e, st1)
       | (Inr e, st1) \<Rightarrow> (Reply 201 (Some (toEntitlementDTO e, None)), st1)))"

definition handleListEntitlements ::
  "admin_env \<Rightarrow> caller option \<Rightarrow> query \<Rightarrow> db \<Rightarrow> (entitlement list \<times> nat \<times> string) reply" where
  "handleListEntitlements ad ctx q d =
     (case resolved ctx of Inl r \<Rightarrow> r | Inr c \<Rightarrow>
      list_reply (ad_json ad)
        (\<lambda>cursor limit desc. ListEntitlementsPage (ad_locale ad) (cl_tenant c) cursor limit desc d)
        EntitlementCursor [CursorUUID] ''role_id'' refuseSearch q)"

definition delete_entitlement_tx :: "caller \<Rightarrow> string \<Rightarrow> db \<Rightarrow> (api_error + audit_event \<times> unit) \<times> db" where
  "delete_entitlement_tx c i d =
     (case DeleteEntitlement (cl_tenant c) i d of
        (Some e, d1) \<Rightarrow> (Inl (StoreErr e), d1)
      | (None, d1) \<Rightarrow> (Inr (server_event c ''entitlement.delete'' i [], ()), d1))"

definition handleDeleteEntitlement :: "tx_env \<Rightarrow> caller option \<Rightarrow> string \<Rightarrow> api_state \<Rightarrow> entitlement_reply \<times> api_state" where
  "handleDeleteEntitlement env ctx i st =
     (case resolved ctx of Inl r \<Rightarrow> (r, st) | Inr c \<Rightarrow>
      (case auditedTx env (delete_entitlement_tx c i) st of
         (Inl e, st1) \<Rightarrow> (api_fail e, st1) | (Inr _, st1) \<Rightarrow> (Reply 204 None, st1)))"

definition handleGetEntitlement :: "caller option \<Rightarrow> string \<Rightarrow> api_state \<Rightarrow> entitlement_reply \<times> api_state" where
  "handleGetEntitlement ctx i st =
     (case resolved ctx of Inl r \<Rightarrow> (r, st) | Inr c \<Rightarrow>
      case GetEntitlement (cl_tenant c) i (as_db st) of
        Inl e \<Rightarrow> (api_fail (StoreErr e), st)
      | Inr e \<Rightarrow> (Reply 200 (Some (toEntitlementDTO e, Some (etag (en_row_version e)))), st))"

definition update_entitlement_tx ::
  "caller \<Rightarrow> string \<Rightarrow> entitlementInput \<Rightarrow> int \<Rightarrow> db \<Rightarrow> (api_error + audit_event \<times> entitlement) \<times> db" where
  "update_entitlement_tx c i inp expected d =
     (case UpdateEntitlement \<lparr>en_id = i, en_tenant = cl_tenant c, en_role = [], en_server = [], en_tools = ei_tools inp,
         en_permissions = ei_permissions inp, en_row_version = expected\<rparr> d of
        (Inl e, d1) \<Rightarrow> (Inl (StoreErr e), d1)
      | (Inr e, d1) \<Rightarrow> (Inr (server_event c ''entitlement.update'' (en_id e)
          [(''roleId'', MStr (en_role e)), (''mcpServerId'', MStr (en_server e)),
           (''allowedTools'', case en_tools e of None \<Rightarrow> MNull | Some ts \<Rightarrow> MStrs ts)], e), d1))"

definition handleUpdateEntitlement ::
  "tx_env \<Rightarrow> caller option \<Rightarrow> string \<Rightarrow> string \<Rightarrow> entitlementInput request_body \<Rightarrow> api_state \<Rightarrow> entitlement_reply \<times> api_state" where
  "handleUpdateEntitlement env ctx header i body st =
     (case resolved ctx of Inl r \<Rightarrow> (r, st) | Inr c \<Rightarrow>
      case ifMatch header of Inl e \<Rightarrow> (api_fail e, st) | Inr expected \<Rightarrow>
      case decodeJSONOrFail body of Inl r \<Rightarrow> (r, st) | Inr inp \<Rightarrow>
      (case auditedTx env (update_entitlement_tx c i inp expected) st of
         (Inl e, st1) \<Rightarrow>
           if e = StoreErr ErrVersionMismatch
           then deny_then env \<lparr>ae_tenant = cl_tenant c, ae_actor = cl_subject c, ae_action = ''entitlement.update'', ae_target = i,
             ae_decision = ''deny'', ae_metadata = [(''reason'', MStr ''version_mismatch'')]\<rparr> e st1
           else (api_fail e, st1)
       | (Inr e, st1) \<Rightarrow> (Reply 200 (Some (toEntitlementDTO e, Some (etag (en_row_version e)))), st1)))"

end
