(* ===== verification/PagingProofs.thy ===== *)
theory PagingProofs
  imports Paging
begin

text \<open>
  Base64 and cursors come back as they went, a search term means a substring, and following the
  cursors of a list returns every row once, in order, and ends.
\<close>

subsection \<open>Base64 and cursors\<close>

lemma b64_value_char: "n < 64 \<Longrightarrow> b64_value (b64_char n) = Some n"
  by (auto simp: b64_char_def b64_value_def Let_def)

lemma b64_char_plain:
  assumes "n < 64"
  shows "b64_char n \<noteq> nl \<and> b64_char n \<noteq> CHR 0x0D"
proof -
  have "b64_value nl = None" "b64_value (CHR 0x0D) = None" by (simp_all add: b64_value_def)
  with b64_value_char [OF assms] show ?thesis by (metis option.distinct(1))
qed

lemma b64_groups_bound: "\<forall>x \<in> set bs. x < 256 \<Longrightarrow> \<forall>v \<in> set (b64_groups bs). v < 64"
  by (induction bs rule: b64_groups.induct) auto

lemma b64_bytes_groups: "\<forall>x \<in> set bs. x < 256 \<Longrightarrow> b64_bytes (b64_groups bs) = Some bs"
proof (induction bs rule: b64_groups.induct)
  case (4 x y z r)
  have "x div 4 * 4 + (x mod 4 * 16 + y div 16) div 16 = x" "(x mod 4 * 16 + y div 16) mod 16 * 16 + (y mod 16 * 4 + z div 64) div 4 = y"
    "(y mod 16 * 4 + z div 64) mod 4 * 64 + z mod 64 = z" using 4(2) by auto
  then show ?case using 4 by simp
next
  case (3 x y)
  have "x div 4 * 4 + (x mod 4 * 16 + y div 16) div 16 = x" "(x mod 4 * 16 + y div 16) mod 16 * 16 + y mod 16 * 4 div 4 = y"
    using 3 by auto
  then show ?case by simp
next
  case (2 x)
  have "x div 4 * 4 + x mod 4 * 16 div 16 = x" using 2 by auto
  then show ?case by simp
qed simp

lemma collect_map: "(\<And>x. x \<in> set xs \<Longrightarrow> f (g x) = Some x) \<Longrightarrow> collect f (map g xs) = Some xs"
  by (induction xs) auto

lemma b64_roundtrip: "b64_decode (b64_encode bs) = Some bs"
proof -
  let ?n = "map of_char bs :: nat list"
  have v: "v < 64" if "v \<in> set (b64_groups ?n)" for v using b64_groups_bound [of ?n] that by auto
  have "filter (\<lambda>c. c \<noteq> nl \<and> c \<noteq> CHR 0x0D) (b64_encode bs) = b64_encode bs"
    using b64_char_plain v by (auto simp: b64_encode_def filter_id_conv)
  moreover have "collect b64_value (b64_encode bs) = Some (b64_groups ?n)"
    unfolding b64_encode_def using v b64_value_char by (intro collect_map) blast
  moreover have "b64_bytes (b64_groups ?n) = Some ?n" by (rule b64_bytes_groups) auto
  ultimately show ?thesis by (simp add: b64_decode_def comp_def)
qed

text \<open>A cursor minted from a row with a well-formed identifier and keys of the list's shape.\<close>

lemma cursor_roundtrip:
  assumes "\<And>xs. jc_dec j (jc_enc j xs) = Some xs" "uuidRe (lc_id c)" "list_all2 key_shaped shape (lc_keys c)"
  shows "decodeListCursor j (encodeListCursor j c) shape = Inr c"
proof -
  have "length (lc_keys c) = length shape" using assms(3) by (simp add: list_all2_lengthD)
  then show ?thesis using assms
    by (simp add: decodeListCursor_def encodeListCursor_def b64_roundtrip Let_def butlast_append)
qed

lemma encoded_not_empty: "jc_dec j (jc_enc j xs) = Some xs \<Longrightarrow> jc_dec j [] = None \<Longrightarrow> b64_encode (jc_enc j xs) \<noteq> []"
  using b64_roundtrip [of "jc_enc j xs"] by (auto simp: b64_decode_def)

subsection \<open>Search\<close>

lemma like_percent: "like_match (CHR ''%'' # p) t \<longleftrightarrow> (\<exists>u v. t = u @ v \<and> like_match p v)"
proof (induction t)
  case Nil
  then show ?case by (simp add: like_match.simps(2))
next
  case (Cons x t)
  have "like_match (CHR ''%'' # p) (x # t) \<longleftrightarrow> like_match p (x # t) \<or> like_match (CHR ''%'' # p) t"
    by (subst like_match.simps(2)) simp
  also have "\<dots> \<longleftrightarrow> (\<exists>u v. x # t = u @ v \<and> like_match p v)"
    unfolding Cons by (auto simp: Cons_eq_append_conv)
  finally show ?case .
qed

lemma like_escaped: "like_match (escapeLikeSpecials s @ p) t \<longleftrightarrow> (\<exists>v. t = s @ v \<and> like_match p v)"
proof (induction s arbitrary: t)
  case (Cons c s)
  have step: "like_match (escapeLikeSpecials (c # s) @ p) t \<longleftrightarrow>
      (case t of [] \<Rightarrow> False | x # t' \<Rightarrow> x = c \<and> like_match (escapeLikeSpecials s @ p) t')"
    by (cases t) (auto simp: escapeLikeSpecials_def like_match.simps(2))
  show ?case unfolding step Cons.IH by (cases t) auto
qed (simp add: escapeLikeSpecials_def)

lemma like_all: "like_match ''%'' t"
  unfolding like_percent by (rule exI [of _ t]) simp

text \<open>
  A search is a substring test: whatever characters the term holds, wildcards and backslashes
  included, exactly the names that contain it are kept, up to the folding of case; an empty term
  keeps every name.
\<close>

theorem search_is_substring:
  assumes "\<And>s. fold_case (''%'' @ escapeLikeSpecials s @ ''%'') = ''%'' @ escapeLikeSpecials (fold_case s) @ ''%''"
  shows "search_matches fold_case term name \<longleftrightarrow> term = [] \<or> sublist (fold_case term) (fold_case name)"
proof (cases "term = []")
  case False
  have "like_match (''%'' @ escapeLikeSpecials w @ ''%'') t \<longleftrightarrow> sublist w t" for w t
    by (auto simp: like_percent like_escaped like_all sublist_def)
  with False assms show ?thesis by (simp add: search_matches_def likeSearchArg_def)
qed (simp add: search_matches_def likeSearchArg_def)

lemma lower_byte_special:
  assumes "x \<in> {CHR 0x5C, CHR ''%'', CHR ''_''}"
  shows "lower_byte c = x \<longleftrightarrow> c = x" "lower_byte x = x"
proof -
  have n: "of_char x \<in> {92, 37, 95 :: nat}" using assms by auto
  have "char_of (of_char c + 32 :: nat) \<noteq> x" if "65 \<le> (of_char c :: nat)" "of_char c \<le> (90 :: nat)"
  proof
    assume "char_of (of_char c + 32 :: nat) = x"
    then have "of_char (char_of (of_char c + 32 :: nat)) = (of_char x :: nat)" by simp
    with n that show False by auto
  qed
  with n show "lower_byte c = x \<longleftrightarrow> c = x" "lower_byte x = x" by (auto simp: lower_byte_def Let_def)
qed

theorem search_is_substring_witness:
  "search_matches (map lower_byte) ''MY_S'' ''the my_server'' \<and> \<not> search_matches (map lower_byte) ''my_s'' ''my server''"
proof -
  have law: "map lower_byte (''%'' @ escapeLikeSpecials s @ ''%'') = ''%'' @ escapeLikeSpecials (map lower_byte s) @ ''%''" for s
    by (induction s) (auto simp: escapeLikeSpecials_def lower_byte_special)
  note t = search_is_substring [of "map lower_byte", OF law]
  have "sublist (map lower_byte ''MY_S'') (map lower_byte ''the my_server'')" "\<not> sublist (map lower_byte ''my_s'') (map lower_byte ''my server'')"
    by code_simp+
  then show ?thesis unfolding t by blast
qed

subsection \<open>Following the cursors\<close>

lemma insert_by_members: "set (insert_by le x xs) = insert x (set xs)"
  by (induction xs) auto

lemma length_insert_all: "length (foldr (insert_by le) xs []) = length xs"
proof -
  have "length (insert_by le x ys) = Suc (length ys)" for x ys by (induction ys) auto
  then show ?thesis by (induction xs) auto
qed

lemma length_order: "length (order_rows lt key rows) = length rows"
  by (simp add: order_rows_def length_insert_all)

lemma insert_by_distinct: "distinct (map key (insert_by le x xs)) \<longleftrightarrow> distinct (map key (x # xs))"
  by (induction xs) (auto simp: insert_by_members)

text \<open>The order of a list: strict and total on the key tuples.\<close>

locale keyset_order =
  fixes lt :: row_order
  assumes irrefl: "\<not> lt a a"
    and trans: "lt a b \<Longrightarrow> lt b c \<Longrightarrow> lt a c"
    and total: "a \<noteq> b \<Longrightarrow> lt a b \<or> lt b a"
begin

definition ranked :: "('r \<Rightarrow> string list) \<Rightarrow> 'r list \<Rightarrow> bool" where
  "ranked key xs \<longleftrightarrow> sorted_wrt (\<lambda>a b. \<not> lt (key b) (key a)) xs"

lemma le_trans: "\<not> lt b a \<Longrightarrow> \<not> lt c b \<Longrightarrow> \<not> lt c a"
  using trans total by metis

lemma insert_ranked: "ranked key xs \<Longrightarrow> ranked key (insert_by (\<lambda>a b. \<not> lt (key b) (key a)) x xs)"
proof (induction xs)
  case (Cons y ys)
  show ?case
  proof (cases "lt (key y) (key x)")
    case True
    then have "\<not> lt (key x) (key y)" using irrefl trans by blast
    with True Cons show ?thesis by (simp add: ranked_def insert_by_members)
  next
    case False
    then have "\<not> lt (key z) (key x)" if "z \<in> set ys" for z using Cons.prems that le_trans by (auto simp: ranked_def)
    with False Cons.prems show ?thesis by (simp add: ranked_def)
  qed
qed (simp add: ranked_def)

lemma insert_filter:
  assumes "ranked key xs"
  shows "filter p (insert_by (\<lambda>a b. \<not> lt (key b) (key a)) x xs) =
    (if p x then insert_by (\<lambda>a b. \<not> lt (key b) (key a)) x (filter p xs) else filter p xs)"
  using assms
proof (induction xs)
  case (Cons y ys)
  show ?case
  proof (cases "lt (key y) (key x)")
    case False
    have "insert_by (\<lambda>a b. \<not> lt (key b) (key a)) x (filter p (y # ys)) = x # filter p (y # ys)"
    proof (cases "filter p (y # ys)")
      case (Cons z zs)
      then have "z \<in> set (y # ys)" by (metis filter_is_subset list.set_intros(1) subsetD)
      then have "\<not> lt (key z) (key y)" using Cons.prems irrefl by (auto simp: ranked_def)
      then have "\<not> lt (key z) (key x)" using False le_trans by blast
      with Cons show ?thesis by simp
    qed simp
    with False show ?thesis by auto
  qed (use Cons in \<open>auto simp: ranked_def\<close>)
qed simp

lemma order_ranked: "ranked key (order_rows lt key rows)"
  by (induction rows) (simp_all add: order_rows_def insert_ranked, simp add: ranked_def)

lemma order_filter: "order_rows lt key (filter p rows) = filter p (order_rows lt key rows)"
proof (induction rows)
  case (Cons r rows)
  have "ranked key (order_rows lt key rows)" by (rule order_ranked)
  from insert_filter [OF this, of p r] Cons show ?case by (simp add: order_rows_def)
qed (simp add: order_rows_def)

lemma set_order: "set (order_rows lt key rows) = set rows"
  by (induction rows) (simp_all add: order_rows_def insert_by_members)

lemma distinct_order: "distinct (map key rows) \<Longrightarrow> distinct (map key (order_rows lt key rows))"
proof (induction rows)
  case (Cons r rows)
  then have "key r \<notin> key ` set (order_rows lt key rows)" by (simp add: set_order)
  with Cons show ?case by (simp add: order_rows_def insert_by_distinct)
qed (simp add: order_rows_def)

text \<open>The rows after the last of a prefix are the rest.\<close>

lemma rows_after:
  assumes "distinct (map key rows)" "order_rows lt key rows = pre @ r # rest"
  shows "order_rows lt key (filter (\<lambda>x. lt (key r) (key x)) rows) = rest"
proof -
  have rk: "ranked key (pre @ r # rest)" using order_ranked [of key rows] assms(2) by simp
  have d: "distinct (map key (pre @ r # rest))" using distinct_order [OF assms(1)] assms(2) by simp
  have "\<not> lt (key r) (key x)" if "x \<in> set (pre @ [r])" for x
    using rk that irrefl by (auto simp: ranked_def sorted_wrt_append)
  then have "filter (\<lambda>x. lt (key r) (key x)) (pre @ [r]) = []" by (auto simp: filter_empty_conv)
  moreover have "lt (key r) (key x)" if "x \<in> set rest" for x
  proof -
    have "key r \<notin> key ` set rest" using d by simp
    with that have "key x \<noteq> key r" by (metis imageI)
    moreover have "\<not> lt (key x) (key r)" using rk that by (auto simp: ranked_def sorted_wrt_append)
    ultimately show ?thesis using total by blast
  qed
  then have "filter (\<lambda>x. lt (key r) (key x)) rest = rest" by simp
  ultimately show ?thesis by (simp add: order_filter assms(2) irrefl)
qed

lemma strictly_ranked:
  "sorted_wrt (\<lambda>a b. \<not> lt (key b) (key a)) xs \<Longrightarrow> distinct (map key xs) \<Longrightarrow> sorted_wrt (\<lambda>a b. lt (key a) (key b)) xs"
proof (induction xs)
  case (Cons x xs)
  have "lt (key x) (key y)" if "y \<in> set xs" for y
  proof -
    have "key x \<noteq> key y" using Cons.prems(2) that by auto
    moreover have "\<not> lt (key y) (key x)" using Cons.prems(1) that by simp
    ultimately show ?thesis using total by blast
  qed
  with Cons show ?case by simp
qed simp

lemma order_strict: "distinct (map key rows) \<Longrightarrow> sorted_wrt (\<lambda>a b. lt (key a) (key b)) (order_rows lt key rows)"
  using strictly_ranked order_ranked distinct_order unfolding ranked_def by blast

end

text \<open>A descending list is an ascending one in the opposite order.\<close>

sublocale keyset_order \<subseteq> down: keyset_order "\<lambda>a b. lt b a"
  by unfold_locales (use irrefl trans total in blast)+

definition bytewise_lt :: row_order where
  "bytewise_lt a b \<longleftrightarrow> a < b"

interpretation bytewise: keyset_order bytewise_lt
  by unfold_locales (auto simp: bytewise_lt_def)

text \<open>A client that follows \<open>nextCursor\<close> until it is empty.\<close>

fun follow :: "nat \<Rightarrow> (string \<Rightarrow> ('r list \<times> nat \<times> string) reply) \<Rightarrow> string \<Rightarrow> 'r list option" where
  "follow 0 get c = None"
| "follow (Suc n) get c =
     (case get c of
        Reply _ (rows, _, nxt) \<Rightarrow> if nxt = [] then Some rows else map_option (append rows) (follow n get nxt)
      | _ \<Rightarrow> None)"

text \<open>What a list endpoint is over its ordered rows, and the walk through it.\<close>

lemma follow_suffix:
  assumes page: "\<And>pre rest c. ordered = pre @ rest \<Longrightarrow> (if pre = [] then c = [] else c = mk (last pre)) \<Longrightarrow>
      get c = Reply 200 (take limit rest, limit, if length (take limit rest) = limit then mk (last (take limit rest)) else [])"
    and "0 < limit" "\<And>r. r \<in> set ordered \<Longrightarrow> mk r \<noteq> []"
  shows "ordered = pre @ rest \<Longrightarrow> (if pre = [] then c = [] else c = mk (last pre)) \<Longrightarrow> length rest < n \<Longrightarrow>
    follow n get c = Some rest"
proof (induction n arbitrary: pre rest c)
  case (Suc n)
  note g = page [OF Suc.prems(1,2)]
  show ?case
  proof (cases "length (take limit rest) = limit")
    case True
    then have ne: "take limit rest \<noteq> []" "rest \<noteq> []" using assms(2) by auto
    let ?r = "last (take limit rest)"
    have "?r \<in> set ordered" using Suc.prems(1) ne(1) by (metis Un_iff in_set_takeD last_in_set set_append)
    then have m: "mk ?r \<noteq> []" by (rule assms(3))
    have "ordered = (pre @ take limit rest) @ drop limit rest" using Suc.prems(1) by simp
    moreover have "if pre @ take limit rest = [] then mk ?r = [] else mk ?r = mk (last (pre @ take limit rest))"
      using ne(1) by simp
    moreover have "length (drop limit rest) < n" using Suc.prems(3) assms(2) ne(2) by (simp add: diff_less) (cases rest; simp)
    ultimately have "follow n get (mk ?r) = Some (drop limit rest)" by (rule Suc.IH)
    with g True m show ?thesis by simp
  next
    case False
    then have "take limit rest = rest" by simp
    with g False show ?thesis by simp
  qed
qed simp

end
