(* ===== verification/AccessProofs.thy ===== *)
theory AccessProofs
  imports AccessApi PagingProofs
begin

text \<open>
  What the administration of servers, roles and entitlements guarantees: its tables stay linked and
  its slugs distinct, every change is audited and nudges the gateways, a deleted role takes all its
  grants along and the audit row counts them, and a list can be walked to its end.
\<close>

subsection \<open>Requests\<close>

datatype access_request =
    CreateServerReq admin_env tx_env string "caller option" "serverInput request_body" db db
  | UpdateServerReq admin_env tx_env "caller option" string string "serverInput request_body" db db
  | DeleteServerReq tx_env "caller option" string
  | CreateRoleReq admin_env tx_env string "caller option" "string request_body" db
  | DeleteRoleReq admin_env tx_env "caller option" string
  | UpdateRoleReq admin_env tx_env "caller option" string string "roleRenameInput request_body"
  | CreateEntitlementReq tx_env string "caller option" "entitlementInput request_body"
  | UpdateEntitlementReq tx_env "caller option" string string "entitlementInput request_body"
  | DeleteEntitlementReq tx_env "caller option" string

fun access_serve :: "access_request \<Rightarrow> api_state \<Rightarrow> nat \<times> api_state" where
  "access_serve (CreateServerReq ad env i ctx body seen capped) st = apfst status_of (handleCreateServer ad env i ctx body seen capped st)"
| "access_serve (UpdateServerReq ad env ctx header i body seen capped) st = apfst status_of (handleUpdateServer ad env ctx header i body seen capped st)"
| "access_serve (DeleteServerReq env ctx i) st = apfst status_of (handleDeleteServer env ctx i st)"
| "access_serve (CreateRoleReq ad env i ctx body capped) st = apfst status_of (handleCreateRole ad env i ctx body capped st)"
| "access_serve (DeleteRoleReq ad env ctx i) st = (case handleDeleteRole ad env ctx i st of (r, _, st1) \<Rightarrow> (status_of r, st1))"
| "access_serve (UpdateRoleReq ad env ctx header i body) st = apfst status_of (handleUpdateRole ad env ctx header i body st)"
| "access_serve (CreateEntitlementReq env i ctx body) st = apfst status_of (handleCreateEntitlement env i ctx body st)"
| "access_serve (UpdateEntitlementReq env ctx header i body) st = apfst status_of (handleUpdateEntitlement env ctx header i body st)"
| "access_serve (DeleteEntitlementReq env ctx i) st = apfst status_of (handleDeleteEntitlement env ctx i st)"

fun request_env :: "access_request \<Rightarrow> tx_env" where
  "request_env (CreateServerReq ad env i ctx body seen capped) = env"
| "request_env (UpdateServerReq ad env ctx header i body seen capped) = env"
| "request_env (DeleteServerReq env ctx i) = env"
| "request_env (CreateRoleReq ad env i ctx body capped) = env"
| "request_env (DeleteRoleReq ad env ctx i) = env"
| "request_env (UpdateRoleReq ad env ctx header i body) = env"
| "request_env (CreateEntitlementReq env i ctx body) = env"
| "request_env (UpdateEntitlementReq env ctx header i body) = env"
| "request_env (DeleteEntitlementReq env ctx i) = env"

subsection \<open>Audit and nudge\<close>

text \<open>One allow row and, when the notification can be sent, one nudge for the tenant.\<close>

definition committed :: "tx_env \<Rightarrow> string \<Rightarrow> string \<Rightarrow> api_state \<Rightarrow> api_state \<Rightarrow> bool" where
  "committed env action tenant st st1 \<longleftrightarrow>
     (\<exists>ev. as_audit st1 = as_audit st @ [ev] \<and> ae_decision ev = ''allow'' \<and> ae_action ev = action \<and> ae_tenant ev = tenant) \<and>
     as_nudges st1 = as_nudges st @ (if te_notify env = None then [tenant] else [])"

text \<open>Nothing but audit rows that are not an allow.\<close>

definition untouched :: "api_state \<Rightarrow> api_state \<Rightarrow> bool" where
  "untouched st st1 \<longleftrightarrow> as_db st1 = as_db st \<and> as_nudges st1 = as_nudges st \<and>
     (\<exists>evs. as_audit st1 = as_audit st @ evs \<and> (\<forall>ev \<in> set evs. ae_decision ev = ''deny''))"

lemma untouched_refl [simp]: "untouched st st"
  by (simp add: untouched_def)

lemma api_fail_status: "400 \<le> status_of (api_fail e)"
  by (cases e rule: api_fail.cases)
    (auto simp: writeLimitReached_def writeFindingsAckRequired_def writeIdpAssertionRequired_def)

lemma fail_no_success: "api_fail e \<noteq> Reply k g"
  by (cases e rule: api_fail.cases) (auto simp: writeLimitReached_def writeFindingsAckRequired_def writeIdpAssertionRequired_def)

lemma deny_untouched: "ae_decision ev = ''deny'' \<Longrightarrow> deny_then env ev e st = (r, st1) \<Longrightarrow> untouched st st1 \<and> 400 \<le> status_of r"
  using api_fail_status [of e] by (auto simp: deny_then_def appendDenyAudit_def untouched_def Let_def split: option.splits)

text \<open>A refusal: an error status, and nothing of the tables touched.\<close>

definition refused :: "nat \<Rightarrow> api_state \<Rightarrow> api_state \<Rightarrow> bool" where
  "refused n st st1 \<longleftrightarrow> 400 \<le> n \<and> untouched st st1"

lemma refused_same [simp]: "refused n st st \<longleftrightarrow> 400 \<le> n"
  by (simp add: refused_def)

lemma refused_deny: "ae_decision ev = ''deny'' \<Longrightarrow> deny_then env ev e st = (r, st1) \<Longrightarrow> refused (status_of r) st st1"
  using deny_untouched by (fastforce simp: refused_def)

text \<open>Every transaction of these routes writes an allow row under its action, which is one that nudges.\<close>

definition writes :: "string \<Rightarrow> string \<Rightarrow> (db \<Rightarrow> (api_error + audit_event \<times> 'a) \<times> db) \<Rightarrow> bool" where
  "writes action tenant mutate \<longleftrightarrow> nudgesGatewaySessions action \<and>
     (\<forall>d ev y d1. mutate d = (Inr (ev, y), d1) \<longrightarrow> ae_decision ev = ''allow'' \<and> ae_action ev = action \<and> ae_tenant ev = tenant)"

lemma tx_writes:
  "writes ''server.create'' (cl_tenant c) (create_server_tx c m)" "writes ''server.update'' (cl_tenant c) (update_server_tx c m sr tr)"
  "writes ''server.delete'' (cl_tenant c) (delete_server_tx c i)" "writes ''role.create'' (cl_tenant c) (create_role_tx c i name)"
  "writes ''role.delete'' (cl_tenant c) (delete_role_tx ad c i)" "writes ''role.rename'' (cl_tenant c) (rename_tx c i from name chk expected)"
  "writes ''entitlement.create'' (cl_tenant c) (create_entitlement_tx c i inp)" "writes ''entitlement.update'' (cl_tenant c) (update_entitlement_tx c i inp expected)"
  "writes ''entitlement.delete'' (cl_tenant c) (delete_entitlement_tx c i)"
  by (auto simp: writes_def nudgesGatewaySessions_def has_prefix_iff create_server_tx_def update_server_tx_def delete_server_tx_def
      create_role_tx_def delete_role_tx_def rename_tx_def create_entitlement_tx_def update_entitlement_tx_def
      delete_entitlement_tx_def server_event_def rename_event_def split: sum.splits prod.splits option.splits if_splits)

text \<open>The end of a handler: a transaction, then the error, its denial or the reply.\<close>

lemma audited_outcome:
  assumes w: "writes action tenant mutate" and t: "auditedTx env mutate st = (x, st1)"
  obtains (failed) e where "x = Inl e" "st1 = st"
  | (landed) ev y where "x = Inr y" "mutate (as_db st) = (Inr (ev, y), as_db st1)" "committed env action tenant st st1"
proof (cases x)
  case (Inl e)
  then show ?thesis using failed auditedTx_Inl t by blast
next
  case (Inr y)
  with t obtain ev d1 where m: "mutate (as_db st) = (Inr (ev, y), d1)" and s: "as_db st1 = d1"
    "as_audit st1 = as_audit st @ [ev]"
    "as_nudges st1 = as_nudges st @ (if nudgesGatewaySessions (ae_action ev) \<and> te_notify env = None then [ae_tenant ev] else [])"
    by (auto simp: auditedTx_def split: option.splits sum.splits prod.splits)
  have "ae_decision ev = ''allow''" "ae_action ev = action" "ae_tenant ev = tenant" "nudgesGatewaySessions action"
    using w m unfolding writes_def by blast+
  then have "committed env action tenant st st1" using s by (auto simp: committed_def)
  with m s Inr show ?thesis by (intro landed) auto
qed

subsection \<open>Rules for the handlers\<close>

text \<open>
  A handler ends in a refusal or in a state and a status that satisfy \<open>Q\<close>; one rule for each step of
  the handlers, so that a handler is verified by applying the rules in the order of its code.
\<close>

definition handled :: "api_state \<Rightarrow> (nat \<Rightarrow> api_state \<Rightarrow> bool) \<Rightarrow> 'r reply \<times> api_state \<Rightarrow> bool" where
  "handled st Q x \<longleftrightarrow> refused (status_of (fst x)) st (snd x) \<or> Q (status_of (fst x)) (snd x)"

named_theorems steps

lemma handled_resolved [steps]:
  "(\<And>c. ctx = Some c \<Longrightarrow> handled st Q (f c)) \<Longrightarrow> handled st Q (case resolved ctx of Inl r \<Rightarrow> (r, st) | Inr c \<Rightarrow> f c)"
  by (auto simp: handled_def resolved_def split: option.splits)

lemma handled_decode [steps]:
  "(\<And>x. b = Body x \<Longrightarrow> handled st Q (f x)) \<Longrightarrow> handled st Q (case decodeJSONOrFail b of Inl r \<Rightarrow> (r, st) | Inr x \<Rightarrow> f x)"
  by (auto simp: handled_def decodeJSONOrFail_def split: request_body.splits)

lemma handled_ifMatch [steps]:
  "(\<And>n. ifMatch h = Inr n \<Longrightarrow> handled st Q (f n)) \<Longrightarrow> handled st Q (case ifMatch h of Inl e \<Rightarrow> (api_fail e, st) | Inr n \<Rightarrow> f n)"
  by (auto simp: handled_def api_fail_status split: sum.splits)

lemma handled_get [steps]:
  "(\<And>x. g = Inr x \<Longrightarrow> handled st Q (f x)) \<Longrightarrow> handled st Q (case g of Inl e \<Rightarrow> (api_fail (StoreErr e), st) | Inr x \<Rightarrow> f x)"
  by (auto simp: handled_def api_fail_status split: sum.splits)

lemma handled_check [steps]:
  "(g = None \<Longrightarrow> handled st Q x) \<Longrightarrow> handled st Q (case g of None \<Rightarrow> x | Some e \<Rightarrow> (api_fail e, st))"
  by (auto simp: handled_def api_fail_status split: option.splits)

lemma handled_valid [steps]:
  "(g = None \<Longrightarrow> handled st Q x) \<Longrightarrow> handled st Q (case g of None \<Rightarrow> x | Some m \<Rightarrow> (ErrorReply 400 m, st))"
  by (auto simp: handled_def api_fail_status split: option.splits)

lemma handled_if [steps]:
  "(\<not> b \<Longrightarrow> handled st Q x) \<Longrightarrow> handled st Q (if b then (ErrorReply 400 m, st) else x)"
  by (auto simp: handled_def)

lemma handled_deny [steps]: "ae_decision ev = ''deny'' \<Longrightarrow> handled st Q (deny_then env ev e st)"
  unfolding handled_def by (intro disjI1 refused_deny [of ev env e]) auto

lemma handled_tx:
  assumes "writes action tenant mutate"
    and "\<And>ev y st1. mutate (as_db st) = (Inr (ev, y), as_db st1) \<Longrightarrow> committed env action tenant st st1 \<Longrightarrow> handled st Q (g y st1)"
    and "\<And>e. handled st Q (h e st)"
  shows "handled st Q (case auditedTx env mutate st of (Inl e, st1) \<Rightarrow> h e st1 | (Inr y, st1) \<Rightarrow> g y st1)"
proof -
  obtain x st1 where t: "auditedTx env mutate st = (x, st1)" by (cases "auditedTx env mutate st")
  show ?thesis
  proof (rule audited_outcome [OF assms(1) t])
    fix e assume "x = Inl e" "st1 = st"
    then show ?thesis using t assms(3) by simp
  next
    fix ev y assume "x = Inr y" "mutate (as_db st) = (Inr (ev, y), as_db st1)" "committed env action tenant st st1"
    then show ?thesis using t assms(2) by simp
  qed
qed

lemma handled_verdict [steps]:
  assumes "\<And>a e. p = (a, Some e) \<Longrightarrow> handled st Q (f a e)" "\<And>a. p = (a, None) \<Longrightarrow> handled st Q (g a)"
  shows "handled st Q (case p of (a, None) \<Rightarrow> g a | (a, Some e) \<Rightarrow> f a e)"
  using assms by (auto split: prod.split option.split)

lemma handled_api_fail [steps]: "handled st Q (api_fail e, st)"
  by (simp add: handled_def api_fail_status)

lemma handled_reply [steps]: "Q n st1 \<Longrightarrow> handled st Q (Reply n x, st1)"
  by (simp add: handled_def)

lemmas tx_steps = tx_writes [THEN handled_tx]

subsection \<open>What each request may change\<close>

lemma create_server_handled:
  "handled st (\<lambda>n st1. n = 201 \<and> (\<exists>c. ctx = Some c \<and> committed env ''server.create'' (cl_tenant c) st st1 \<and>
      (\<exists>inp m. checkServerSlugCollision ad (cl_tenant c) (si_name inp) [] seen = None \<and>
        CreateMCPServer (input_server c i inp 0) (as_db st) = (Inr m, as_db st1))))
     (handleCreateServer ad env i ctx body seen capped st)"
  unfolding handleCreateServer_def
  by (intro steps tx_steps) (auto simp: create_server_tx_def split: sum.splits prod.splits)

lemma update_server_handled:
  "handled st (\<lambda>n st1. n = 200 \<and> (\<exists>c. ctx = Some c \<and> committed env ''server.update'' (cl_tenant c) st st1 \<and>
      (\<exists>inp expected m. checkServerSlugCollision ad (cl_tenant c) (si_name inp) i seen = None \<and>
        UpdateMCPServer (input_server c i inp expected) (si_secret inp) (si_tls_ca inp) (as_db st) = (Inr m, as_db st1))))
     (handleUpdateServer ad env ctx header i body seen capped st)"
  unfolding handleUpdateServer_def
  by (intro steps tx_steps) (auto simp: update_server_tx_def intro!: steps split: sum.splits prod.splits)

lemma delete_server_handled:
  "handled st (\<lambda>n st1. n = 204 \<and> (\<exists>c. ctx = Some c \<and> committed env ''server.delete'' (cl_tenant c) st st1 \<and>
      (DeleteMCPServer (cl_tenant c) i (as_db st) = (None, as_db st1))))
     (handleDeleteServer env ctx i st)"
  unfolding handleDeleteServer_def
  by (intro steps tx_steps) (auto simp: delete_server_tx_def split: option.splits prod.splits)

lemma create_role_handled:
  "handled st (\<lambda>n st1. n = 201 \<and> (\<exists>c. ctx = Some c \<and> committed env ''role.create'' (cl_tenant c) st st1 \<and>
      (\<exists>name r. CreateRole i (cl_tenant c) name (as_db st) = (Inr r, as_db st1))))
     (handleCreateRole ad env i ctx body capped st)"
  unfolding handleCreateRole_def
  by (intro steps tx_steps) (auto simp: create_role_tx_def split: sum.splits prod.splits)

lemma update_role_handled:
  "handled st (\<lambda>n st1. n = 200 \<and> (\<exists>c. ctx = Some c \<and> committed env ''role.rename'' (cl_tenant c) st st1 \<and>
      (\<exists>name expected r. UpdateRoleName (cl_tenant c) i name expected (as_db st) = (Inr r, as_db st1))))
     (handleUpdateRole ad env ctx header i body st)"
  unfolding handleUpdateRole_def
  by (intro steps tx_steps) (auto simp: rename_tx_def rename_event_def intro!: steps split: sum.splits prod.splits)

lemma create_entitlement_handled:
  "handled st (\<lambda>n st1. n = 201 \<and> (\<exists>c. ctx = Some c \<and> committed env ''entitlement.create'' (cl_tenant c) st st1 \<and>
      (\<exists>e e'. CreateEntitlement i e (as_db st) = (Inr e', as_db st1))))
     (handleCreateEntitlement env i ctx body st)"
  unfolding handleCreateEntitlement_def
  by (intro steps tx_steps) (auto simp: create_entitlement_tx_def split: sum.splits prod.splits if_splits)

lemma update_entitlement_handled:
  "handled st (\<lambda>n st1. n = 200 \<and> (\<exists>c. ctx = Some c \<and> committed env ''entitlement.update'' (cl_tenant c) st st1 \<and>
      (\<exists>e e'. UpdateEntitlement e (as_db st) = (Inr e', as_db st1))))
     (handleUpdateEntitlement env ctx header i body st)"
  unfolding handleUpdateEntitlement_def
  by (intro steps tx_steps) (auto simp: update_entitlement_tx_def intro!: steps split: sum.splits prod.splits)

lemma delete_entitlement_handled:
  "handled st (\<lambda>n st1. n = 204 \<and> (\<exists>c. ctx = Some c \<and> committed env ''entitlement.delete'' (cl_tenant c) st st1 \<and>
      (DeleteEntitlement (cl_tenant c) i (as_db st) = (None, as_db st1))))
     (handleDeleteEntitlement env ctx i st)"
  unfolding handleDeleteEntitlement_def
  by (intro steps tx_steps) (auto simp: delete_entitlement_tx_def split: option.splits prod.splits)

lemma delete_role_handled:
  "handled st (\<lambda>n st1. n = 200 \<and> (\<exists>c. ctx = Some c \<and> committed env ''role.delete'' (cl_tenant c) st st1 \<and>
      (\<exists>g. DeleteRole (lo_le (ad_locale ad)) (cl_tenant c) i (as_db st) = (Inr g, as_db st1))))
     (case handleDeleteRole ad env ctx i st of (r, clients, st1) \<Rightarrow> (r, st1))"
proof -
  let ?f = "\<lambda>c. case auditedTx env (delete_role_tx ad c i) st of
      (Inl e, st1) \<Rightarrow> (api_fail e, st1)
    | (Inr g, st1) \<Rightarrow> (Reply 200 (rk_entitlements g, rk_artifact_entitlements g), st1)"
  have "(case handleDeleteRole ad env ctx i st of (r, clients, st1) \<Rightarrow> (r, st1)) =
    (case resolved ctx of Inl r \<Rightarrow> (r, st) | Inr c \<Rightarrow> ?f c)"
    by (simp add: handleDeleteRole_def split: sum.split prod.split)
  then show ?thesis
    by (simp only:) (intro steps tx_steps; auto simp: delete_role_tx_def split: sum.splits prod.splits)
qed

subsection \<open>Every change is audited\<close>

fun request_action :: "access_request \<Rightarrow> string" where
  "request_action (CreateServerReq ad env i ctx body seen capped) = ''server.create''"
| "request_action (UpdateServerReq ad env ctx header i body seen capped) = ''server.update''"
| "request_action (DeleteServerReq env ctx i) = ''server.delete''"
| "request_action (CreateRoleReq ad env i ctx body capped) = ''role.create''"
| "request_action (DeleteRoleReq ad env ctx i) = ''role.delete''"
| "request_action (UpdateRoleReq ad env ctx header i body) = ''role.rename''"
| "request_action (CreateEntitlementReq env i ctx body) = ''entitlement.create''"
| "request_action (UpdateEntitlementReq env ctx header i body) = ''entitlement.update''"
| "request_action (DeleteEntitlementReq env ctx i) = ''entitlement.delete''"

fun request_caller :: "access_request \<Rightarrow> caller option" where
  "request_caller (CreateServerReq ad env i ctx body seen capped) = ctx"
| "request_caller (UpdateServerReq ad env ctx header i body seen capped) = ctx"
| "request_caller (DeleteServerReq env ctx i) = ctx"
| "request_caller (CreateRoleReq ad env i ctx body capped) = ctx"
| "request_caller (DeleteRoleReq ad env ctx i) = ctx"
| "request_caller (UpdateRoleReq ad env ctx header i body) = ctx"
| "request_caller (CreateEntitlementReq env i ctx body) = ctx"
| "request_caller (UpdateEntitlementReq env ctx header i body) = ctx"
| "request_caller (DeleteEntitlementReq env ctx i) = ctx"

definition request_committed :: "access_request \<Rightarrow> api_state \<Rightarrow> api_state \<Rightarrow> bool" where
  "request_committed req st st1 \<longleftrightarrow> (\<exists>c. request_caller req = Some c \<and>
     committed (request_env req) (request_action req) (cl_tenant c) st st1)"

text \<open>What a request that succeeds has done to the tables, statement by statement.\<close>

fun statement_of :: "access_request \<Rightarrow> db \<Rightarrow> db \<Rightarrow> bool" where
  "statement_of (CreateServerReq ad env i ctx body seen capped) d d1 \<longleftrightarrow>
     (\<exists>(c::caller) inp m. checkServerSlugCollision ad (cl_tenant c) (si_name inp) [] seen = None \<and>
        CreateMCPServer (input_server c i inp 0) d = (Inr m, d1))"
| "statement_of (UpdateServerReq ad env ctx header i body seen capped) d d1 \<longleftrightarrow>
     (\<exists>(c::caller) inp expected m. checkServerSlugCollision ad (cl_tenant c) (si_name inp) i seen = None \<and>
        UpdateMCPServer (input_server c i inp expected) (si_secret inp) (si_tls_ca inp) d = (Inr m, d1))"
| "statement_of (DeleteServerReq env ctx i) d d1 \<longleftrightarrow> (\<exists>c::caller. DeleteMCPServer (cl_tenant c) i d = (None, d1))"
| "statement_of (CreateRoleReq ad env i ctx body capped) d d1 \<longleftrightarrow> (\<exists>(c::caller) name r. CreateRole i (cl_tenant c) name d = (Inr r, d1))"
| "statement_of (DeleteRoleReq ad env ctx i) d d1 \<longleftrightarrow> (\<exists>(c::caller) g. DeleteRole (lo_le (ad_locale ad)) (cl_tenant c) i d = (Inr g, d1))"
| "statement_of (UpdateRoleReq ad env ctx header i body) d d1 \<longleftrightarrow>
     (\<exists>(c::caller) name expected r. UpdateRoleName (cl_tenant c) i name expected d = (Inr r, d1))"
| "statement_of (CreateEntitlementReq env i ctx body) d d1 \<longleftrightarrow> (\<exists>e e'. CreateEntitlement i e d = (Inr e', d1))"
| "statement_of (UpdateEntitlementReq env ctx header i body) d d1 \<longleftrightarrow> (\<exists>e e'. UpdateEntitlement e d = (Inr e', d1))"
| "statement_of (DeleteEntitlementReq env ctx i) d d1 \<longleftrightarrow> (\<exists>c::caller. DeleteEntitlement (cl_tenant c) i d = (None, d1))"

lemma serve_handled:
  assumes "access_serve req st = (n, st1)"
  shows "refused n st st1 \<or>
    n \<in> {200, 201, 204} \<and> request_committed req st st1 \<and> statement_of req (as_db st) (as_db st1)"
    (is "?goal n st1")
proof -
  have served: "?goal n st1"
    if "handled st Q x" "apfst status_of x = access_serve req st"
      "\<And>k s. Q k s \<Longrightarrow> k \<in> {200, 201, 204} \<and> request_committed req st s \<and>
         statement_of req (as_db st) (as_db s)"
    for Q and x :: "'r reply \<times> api_state"
    using that assms by (cases x) (auto simp: handled_def)
  show ?thesis
proof (cases req)
  case (CreateServerReq ad env i ctx body seen capped)
  with assms show ?thesis by (intro served [OF create_server_handled]) (auto simp: request_committed_def)
next
  case (UpdateServerReq ad env ctx header i body seen capped)
  with assms show ?thesis by (intro served [OF update_server_handled]) (auto simp: request_committed_def)
next
  case (DeleteServerReq env ctx i)
  with assms show ?thesis by (intro served [OF delete_server_handled]) (auto simp: request_committed_def)
next
  case (CreateRoleReq ad env i ctx body capped)
  with assms show ?thesis by (intro served [OF create_role_handled]) (auto simp: request_committed_def)
next
  case (DeleteRoleReq ad env ctx i)
  with assms show ?thesis by (intro served [OF delete_role_handled [where ad = ad and env = env and ctx = ctx and i = i]]) (auto simp: request_committed_def split: prod.splits)
next
  case (UpdateRoleReq ad env ctx header i body)
  with assms show ?thesis by (intro served [OF update_role_handled]) (auto simp: request_committed_def)
next
  case (CreateEntitlementReq env i ctx body)
  with assms show ?thesis by (intro served [OF create_entitlement_handled]) (auto simp: request_committed_def)
next
  case (UpdateEntitlementReq env ctx header i body)
  with assms show ?thesis by (intro served [OF update_entitlement_handled]) (auto simp: request_committed_def)
next
  case (DeleteEntitlementReq env ctx i)
  with assms show ?thesis by (intro served [OF delete_entitlement_handled]) (auto simp: request_committed_def)
qed
qed

text \<open>
  C28. Administration of servers, roles and entitlements leaves a trace: a request that succeeds has
  added exactly one allow row with its action to the audit log and, unless the notification failed,
  one nudge that makes the gateways drop the sessions of the caller's tenant; any other request has changed no
  table, nudged nobody and written nothing but deny rows, however it failed (validation, cap,
  precondition, identity provider, transaction, or the audit write itself).
\<close>

theorem access_writes_audited:
  "case access_serve req st of (n, st1) \<Rightarrow>
     if n < 400 then n \<in> {200, 201, 204} \<and> request_committed req st st1
     else untouched st st1"
proof (cases "access_serve req st")
  case (Pair n st1)
  from serve_handled [OF this] show ?thesis unfolding Pair refused_def by auto
qed

end
