(* ===== verification/AccessInvariants.thy ===== *)
theory AccessInvariants
  imports AccessProofs GatewayProofs
begin

text \<open>
  What holds of the tables of servers, roles and entitlements in every state the administration
  reaches: identifiers are unique, an entitlement links a role and a server of its own tenant, and no
  two servers of a tenant share a slug.
\<close>

subsection \<open>The invariant\<close>

definition linked :: "db \<Rightarrow> bool" where
  "linked d \<longleftrightarrow>
     distinct (map ro_id (db_roles d)) \<and> distinct (map ms_id (db_servers d)) \<and> distinct (map en_id (db_entitlements d)) \<and>
     (\<forall>e \<in> set (db_entitlements d). RoleExistsInTenant (en_tenant e) (en_role e) d \<and>
        MCPServerExistsInTenant (en_tenant e) (en_server e) d)"

definition slugs_apart :: "db \<Rightarrow> bool" where
  "slugs_apart d \<longleftrightarrow> (\<forall>m \<in> set (db_servers d). ms_id m \<noteq> [] \<and>
     (\<forall>m' \<in> set (db_servers d). ms_tenant m = ms_tenant m' \<and> Slugify (ms_name m) = Slugify (ms_name m') \<longrightarrow> ms_id m = ms_id m'))"

lemmas exists_defs = RoleExistsInTenant_def MCPServerExistsInTenant_def list_ex_iff server_at_def role_at_def

text \<open>The invariant reads the keys of the rows only, and an update keeps them.\<close>

definition role_link :: "role_row \<Rightarrow> string \<times> string" where "role_link r = (ro_tenant r, ro_id r)"
definition server_link :: "mcp_server \<Rightarrow> string \<times> string" where "server_link m = (ms_tenant m, ms_id m)"
definition ent_link :: "entitlement \<Rightarrow> string \<times> string \<times> string \<times> string" where
  "ent_link e = (en_id e, en_tenant e, en_role e, en_server e)"

lemma linked_keys:
  "linked d \<longleftrightarrow>
     distinct (map snd (map role_link (db_roles d))) \<and> distinct (map snd (map server_link (db_servers d))) \<and>
     distinct (map fst (map ent_link (db_entitlements d))) \<and>
     (\<forall>(i, t, r, s) \<in> set (map ent_link (db_entitlements d)).
        (t, r) \<in> set (map role_link (db_roles d)) \<and> (t, s) \<in> set (map server_link (db_servers d)))"
  by (force simp: linked_def exists_defs role_link_def server_link_def ent_link_def comp_def image_iff)

lemma keys_update:
  "(\<And>x. p x \<Longrightarrow> k (f x) = k x) \<Longrightarrow> map k (map (\<lambda>x. if p x then f x else x) xs) = map k xs"
  by (induction xs) auto

text \<open>With unique identifiers, a row is found by its identifier alone.\<close>

lemma same_row: "distinct (map k xs) \<Longrightarrow> x \<in> set xs \<Longrightarrow> y \<in> set xs \<Longrightarrow> k x = k y \<Longrightarrow> x = y"
  by (auto simp: distinct_map inj_on_def)

subsection \<open>Preserved by every statement\<close>

lemma create_server_linked: "CreateMCPServer m d = (Inr x, d1) \<Longrightarrow> linked d \<Longrightarrow> linked d1"
  by (auto simp: CreateMCPServer_def linked_def exists_defs Let_def split: if_splits) metis

lemma delete_server_linked: "DeleteMCPServer t i d = (None, d1) \<Longrightarrow> linked d \<Longrightarrow> linked d1"
  by (fastforce simp: DeleteMCPServer_def linked_def exists_defs distinct_map_filter split: if_splits)

lemma create_role_linked: "CreateRole i t name d = (Inr x, d1) \<Longrightarrow> linked d \<Longrightarrow> linked d1"
  by (auto simp: CreateRole_def linked_def exists_defs Let_def split: if_splits)

lemma delete_role_linked: "DeleteRole le t i d = (Inr x, d1) \<Longrightarrow> linked d \<Longrightarrow> linked d1"
  by (fastforce simp: DeleteRole_def drop_role_def linked_def exists_defs distinct_map_filter Let_def split: option.splits prod.splits)

lemma create_entitlement_linked:
  assumes c: "CreateEntitlement i e d = (Inr x, d1)" and l: "linked d"
  shows "linked d1"
proof -
  from c have d1: "d1 = d\<lparr>db_entitlements := db_entitlements d @ [e\<lparr>en_id := i, en_row_version := 1\<rparr>]\<rparr>"
    and new: "i \<notin> en_id ` set (db_entitlements d)"
    and ok: "RoleExistsInTenant (en_tenant e) (en_role e) d" "MCPServerExistsInTenant (en_tenant e) (en_server e) d"
    by (auto simp: CreateEntitlement_def list_ex_iff split: if_splits)
  have "RoleExistsInTenant t r d1 = RoleExistsInTenant t r d" "MCPServerExistsInTenant t r d1 = MCPServerExistsInTenant t r d" for t r
    by (simp_all add: d1 exists_defs)
  with l ok new show ?thesis by (simp add: linked_def d1)
qed

lemma delete_entitlement_linked: "DeleteEntitlement t i d = (None, d1) \<Longrightarrow> linked d \<Longrightarrow> linked d1"
  by (auto simp: DeleteEntitlement_def linked_def exists_defs distinct_map_filter split: if_splits)

lemma linked_cong:
  assumes "map role_link (db_roles d1) = map role_link (db_roles d)" "map server_link (db_servers d1) = map server_link (db_servers d)"
    "map ent_link (db_entitlements d1) = map ent_link (db_entitlements d)"
  shows "linked d1 = linked d"
  unfolding linked_keys assms ..

lemma update_server_linked:
  assumes "UpdateMCPServer m sr tr d = (Inr x, d1)"
  shows "linked d1 = linked d"
proof (rule linked_cong)
  show "map server_link (db_servers d1) = map server_link (db_servers d)"
    using assms by (auto simp: UpdateMCPServer_def Let_def server_link_def server_at_def split: if_splits)
qed (use assms in \<open>auto simp: UpdateMCPServer_def Let_def split: if_splits\<close>)

lemma update_role_linked:
  assumes "UpdateRoleName t i name expected d = (Inr x, d1)"
  shows "linked d1 = linked d"
proof (rule linked_cong)
  show "map role_link (db_roles d1) = map role_link (db_roles d)"
    using assms by (auto simp: UpdateRoleName_def Let_def role_link_def role_at_def split: if_splits)
qed (use assms in \<open>auto simp: UpdateRoleName_def Let_def split: if_splits\<close>)

lemma update_entitlement_linked:
  assumes "UpdateEntitlement e d = (Inr x, d1)"
  shows "linked d1 = linked d"
proof (rule linked_cong)
  show "map ent_link (db_entitlements d1) = map ent_link (db_entitlements d)"
    using assms by (auto simp: UpdateEntitlement_def Let_def ent_link_def split: if_splits)
qed (use assms in \<open>auto simp: UpdateEntitlement_def Let_def split: if_splits\<close>)

lemma statement_linked: "statement_of req d d1 \<Longrightarrow> linked d \<Longrightarrow> linked d1"
  by (cases req) (auto dest: create_server_linked delete_server_linked create_role_linked delete_role_linked
      create_entitlement_linked delete_entitlement_linked update_server_linked update_role_linked update_entitlement_linked)

subsection \<open>Slugs\<close>

text \<open>The check reads every server of the tenant: the page without limit holds them all.\<close>

lemma set_insert_all [simp]: "set (foldr (insert_by le) xs []) = set xs"
  by (induction xs) (auto simp: insert_by_members)

lemma all_servers: "ListMCPServersByTenant lo t d = Inr ms \<Longrightarrow> set ms = {m \<in> set (db_servers d). ms_tenant m = t}"
  unfolding ListMCPServersByTenant_def ListMCPServersPage_def page_select_def order_rows_def directed_def
  by (auto simp: search_matches_def likeSearchArg_def split: sum.splits)

lemma no_collision:
  assumes "checkServerSlugCollision ad t name excl d = None" "m \<in> set (db_servers d)" "ms_tenant m = t" "ms_id m \<noteq> excl"
  shows "Slugify (ms_name m) \<noteq> Slugify name"
proof (cases "ListMCPServersByTenant (ad_locale ad) t d")
  case (Inl e)
  with assms(1) show ?thesis by (simp add: checkServerSlugCollision_def)
next
  case (Inr ms)
  with assms(1) have "List.find (\<lambda>m. ms_id m \<noteq> excl \<and> Slugify (ms_name m) = Slugify name) ms = None"
    by (simp add: checkServerSlugCollision_def split: option.splits)
  moreover have "m \<in> set ms" using all_servers [OF Inr] assms(2,3) by blast
  ultimately show ?thesis using assms(4) unfolding find_None_iff by blast
qed

lemma apart_id: "slugs_apart d \<Longrightarrow> m \<in> set (db_servers d) \<Longrightarrow> ms_id m \<noteq> []"
  unfolding slugs_apart_def by blast

lemma apartD:
  "slugs_apart d \<Longrightarrow> a \<in> set (db_servers d) \<Longrightarrow> b \<in> set (db_servers d) \<Longrightarrow> ms_tenant a = ms_tenant b \<Longrightarrow>
     Slugify (ms_name a) = Slugify (ms_name b) \<Longrightarrow> ms_id a = ms_id b"
  unfolding slugs_apart_def by blast

lemma create_server_slugs:
  assumes "checkServerSlugCollision ad (ms_tenant m) (ms_name m) [] d = None" "CreateMCPServer m d = (Inr x, d1)"
    and "ms_id m \<noteq> []" "slugs_apart d"
  shows "slugs_apart d1"
proof -
  let ?row = "m\<lparr>ms_row_version := 1\<rparr>"
  have c: "Slugify (ms_name m') \<noteq> Slugify (ms_name m)" if "m' \<in> set (db_servers d)" "ms_tenant m' = ms_tenant m" for m'
    using no_collision [OF assms(1) that apart_id [OF assms(4) that(1)]] .
  have d1: "db_servers d1 = db_servers d @ [?row]"
    using assms(2) by (auto simp: CreateMCPServer_def Let_def split: if_splits)
  show ?thesis unfolding slugs_apart_def
  proof (intro ballI conjI impI)
    fix a assume a: "a \<in> set (db_servers d1)"
    then show "ms_id a \<noteq> []" using assms(3) apart_id [OF assms(4)] by (auto simp: d1)
    fix b assume b: "b \<in> set (db_servers d1)" and e: "ms_tenant a = ms_tenant b \<and> Slugify (ms_name a) = Slugify (ms_name b)"
    consider "a \<in> set (db_servers d)" "b \<in> set (db_servers d)" | "a = ?row" "b = ?row"
      | "a = ?row" "b \<in> set (db_servers d)" | "a \<in> set (db_servers d)" "b = ?row"
      using a b by (auto simp: d1)
    then show "ms_id a = ms_id b"
    proof cases
      case 1
      then show ?thesis using apartD [OF assms(4)] e by blast
    next
      case 3
      then show ?thesis using c [of b] e by simp
    next
      case 4
      then show ?thesis using c [of a] e by simp
    qed simp
  qed
qed

lemma update_server_slugs:
  assumes "checkServerSlugCollision ad (ms_tenant m) (ms_name m) (ms_id m) d = None" "UpdateMCPServer m sr tr d = (Inr x, d1)"
    and "slugs_apart d"
  shows "slugs_apart d1"
proof -
  have c: "Slugify (ms_name m') \<noteq> Slugify (ms_name m)"
    if "m' \<in> set (db_servers d)" "ms_tenant m' = ms_tenant m" "ms_id m' \<noteq> ms_id m" for m'
    using no_collision [OF assms(1) that] .
  let ?upd = "\<lambda>r. server_at (ms_tenant m) (ms_id m) r \<and> ms_row_version r = ms_row_version m"
  define f where "f = (\<lambda>r. if ?upd r then m\<lparr>ms_secret_ref := (case sr of None \<Rightarrow> ms_secret_ref r | Some s \<Rightarrow> s),
      ms_tls_ca_ref := (case tr of None \<Rightarrow> ms_tls_ca_ref r | Some s \<Rightarrow> s), ms_row_version := ms_row_version r + 1\<rparr> else r)"
  have d1: "db_servers d1 = map f (db_servers d)"
    using assms(2) by (auto simp: UpdateMCPServer_def Let_def f_def split: if_splits)
  have f: "f r = r \<or> ms_id (f r) = ms_id r \<and> ms_id r = ms_id m \<and> ms_tenant (f r) = ms_tenant m \<and> ms_name (f r) = ms_name m" for r
    by (simp add: f_def server_at_def)
  show ?thesis unfolding slugs_apart_def d1
  proof (intro ballI conjI impI)
    fix a assume "a \<in> set (map f (db_servers d))"
    then obtain r where r: "r \<in> set (db_servers d)" "a = f r" by auto
    then show "ms_id a \<noteq> []" using f [of r] apart_id [OF assms(3)] by metis
    fix b assume "b \<in> set (map f (db_servers d))" and e: "ms_tenant a = ms_tenant b \<and> Slugify (ms_name a) = Slugify (ms_name b)"
    then obtain s where s: "s \<in> set (db_servers d)" "b = f s" by auto
    have same: "ms_id (f r) = ms_id r" "ms_id (f s) = ms_id s" using f [of r] f [of s] by auto
    consider "ms_id r = ms_id s" | "f r = r" "f s = s" | "f r = r" "f s \<noteq> s" "ms_id r \<noteq> ms_id m" | "f s = s" "f r \<noteq> r" "ms_id s \<noteq> ms_id m"
      using f [of r] f [of s] by argo
    then show "ms_id a = ms_id b"
    proof cases
      case 2
      then show ?thesis using apartD [OF assms(3)] r s e by metis
    next
      case 3
      then show ?thesis using c [OF r(1)] f [of s] e r s by metis
    next
      case 4
      then show ?thesis using c [OF s(1)] f [of r] e r s by metis
    qed (simp add: r s same)
  qed
qed

lemma slugs_same: "set (db_servers d1) \<subseteq> set (db_servers d) \<Longrightarrow> slugs_apart d \<Longrightarrow> slugs_apart d1"
  unfolding slugs_apart_def by blast

lemma DeleteRole_Inr:
  assumes "DeleteRole le t i d = (Inr g, d1)"
  shows "d1 = drop_role t i d" "\<exists>r. List.find (role_at t i) (db_roles d) = Some r \<and> rk_role g = ro_name r"
  using assms by (auto simp: DeleteRole_def Let_def split: option.splits prod.splits)

fun generated :: "access_request \<Rightarrow> bool" where
  "generated (CreateServerReq ad env i ctx body seen capped) \<longleftrightarrow> i \<noteq> []"
| "generated req \<longleftrightarrow> True"

text \<open>The slug check read the tables the transaction then met: no other write came in between.\<close>

fun undisturbed :: "access_request \<Rightarrow> db \<Rightarrow> bool" where
  "undisturbed (CreateServerReq ad env i ctx body seen capped) d \<longleftrightarrow> seen = d"
| "undisturbed (UpdateServerReq ad env ctx header i body seen capped) d \<longleftrightarrow> seen = d"
| "undisturbed req d \<longleftrightarrow> True"

lemma statement_slugs:
  assumes s: "statement_of req d d1" and g: "generated req" and q: "undisturbed req d"
    and a: "slugs_apart d"
  shows "slugs_apart d1"
proof (cases req)
  case (CreateServerReq ad env i ctx body seen capped)
  with s q obtain c inp m where *: "checkServerSlugCollision ad (cl_tenant c) (si_name inp) [] d = None"
    "CreateMCPServer (input_server c i inp 0) d = (Inr m, d1)" by auto
  show ?thesis by (rule create_server_slugs [OF _ *(2) _ a]) (use * g CreateServerReq in \<open>auto simp: input_server_def\<close>)
next
  case (UpdateServerReq ad env ctx header i body seen capped)
  with s q obtain c inp expected m where *: "checkServerSlugCollision ad (cl_tenant c) (si_name inp) i d = None"
    "UpdateMCPServer (input_server c i inp expected) (si_secret inp) (si_tls_ca inp) d = (Inr m, d1)" by auto
  show ?thesis by (rule update_server_slugs [OF _ *(2) a]) (use * in \<open>auto simp: input_server_def\<close>)
next
  case (DeleteServerReq env ctx i)
  with s show ?thesis by (auto simp: DeleteMCPServer_def split: if_splits intro!: slugs_same [OF _ a])
next
  case (CreateRoleReq ad env i ctx body capped)
  with s show ?thesis by (auto simp: CreateRole_def Let_def split: if_splits intro!: slugs_same [OF _ a])
next
  case (DeleteRoleReq ad env ctx i)
  with s show ?thesis
    by (auto dest!: DeleteRole_Inr(1) intro!: slugs_same [OF _ a] simp: drop_role_def)
next
  case (UpdateRoleReq ad env ctx header i body)
  with s show ?thesis by (auto simp: UpdateRoleName_def Let_def split: if_splits intro!: slugs_same [OF _ a])
next
  case (CreateEntitlementReq env i ctx body)
  with s show ?thesis by (auto simp: CreateEntitlement_def split: if_splits intro!: slugs_same [OF _ a])
next
  case (UpdateEntitlementReq env ctx header i body)
  with s show ?thesis by (auto simp: UpdateEntitlement_def Let_def split: if_splits intro!: slugs_same [OF _ a])
next
  case (DeleteEntitlementReq env ctx i)
  with s show ?thesis by (auto simp: DeleteEntitlement_def split: if_splits intro!: slugs_same [OF _ a])
qed

subsection \<open>Reachable states\<close>

text \<open>
  The states the administration reaches, one request after another; the database never generates
  an empty identifier, and what the other routes write leaves these three tables alone. With \<open>quiet\<close> no
  other write comes between the slug check of a request and its transaction; without it one can, and two
  overlapping creations can both pass the check, which the code documents and the gateway's own guard covers.
\<close>

inductive administered :: "bool \<Rightarrow> db \<Rightarrow> bool" for quiet where
  start: "db_servers d = [] \<Longrightarrow> db_roles d = [] \<Longrightarrow> db_entitlements d = [] \<Longrightarrow> administered quiet d"
| request: "administered quiet (as_db st) \<Longrightarrow> access_serve req st = (n, st1) \<Longrightarrow> generated req \<Longrightarrow>
    (quiet \<Longrightarrow> undisturbed req (as_db st)) \<Longrightarrow> administered quiet (as_db st1)"
| other: "administered quiet d \<Longrightarrow> db_servers d1 = db_servers d \<Longrightarrow> db_roles d1 = db_roles d \<Longrightarrow>
    db_entitlements d1 = db_entitlements d \<Longrightarrow> administered quiet d1"

lemma administered_inv: "administered quiet d \<Longrightarrow> linked d \<and> (quiet \<longrightarrow> slugs_apart d)"
proof (induction rule: administered.induct)
  case (start d)
  then show ?case by (simp add: linked_def slugs_apart_def)
next
  case (request st req n st1)
  from serve_handled [OF request(2)] show ?case
  proof
    assume "refused n st st1"
    then have "as_db st1 = as_db st" by (simp add: refused_def untouched_def)
    with request.IH show ?thesis by simp
  next
    assume "n \<in> {200, 201, 204} \<and> request_committed req st st1 \<and> statement_of req (as_db st) (as_db st1)"
    then have "statement_of req (as_db st) (as_db st1)" by blast
    from statement_linked [OF this] statement_slugs [OF this request(3)] request.IH request(4) show ?thesis by blast
  qed
next
  case (other d d1)
  have "linked d1 = linked d" by (rule linked_cong) (simp_all add: other)
  with other slugs_same [of d1 d] show ?case by simp
qed



subsection \<open>An office\<close>

text \<open>One server, one role and one entitlement, created one after another.\<close>

definition office_admin :: admin_env where
  "office_admin = \<lparr>ad_locale = \<lparr>lo_lt = bytewise_lt, lo_le = (\<lambda>_ _. True), lo_fold = id\<rparr>,
     ad_json = \<lparr>jc_enc = concat, jc_dec = (\<lambda>_. None)\<rparr>, ad_servers = 0, ad_roles = 3, ad_contact = [],
     ad_parse_url = (\<lambda>_. Some \<lparr>pu_scheme = ''http'', pu_host = ''files'', pu_port = [], pu_user = False\<rparr>),
     ad_secrets = NewResolver (\<lambda>_. None), ad_roleExists = None, ad_dcrDelete = None\<rparr>"

definition calm :: tx_env where
  "calm = \<lparr>te_begin = None, te_commit = None, te_audit = (\<lambda>_. None), te_notify = None\<rparr>"

definition boss :: "caller option" where
  "boss = Some \<lparr>cl_tenant = ''t'', cl_roles = [], cl_subject = ''boss''\<rparr>"

definition empty_office :: api_state where
  "empty_office = \<lparr>as_db = \<lparr>db_artifacts = [], db_revisions = [], db_grants = [], db_roles = [], db_servers = [],
     db_entitlements = [], db_vkeys = [], db_usage = [], db_quotas = [], db_tenants = [], db_users = []\<rparr>,
     as_audit = [], as_log = [], as_nudges = [], as_published = 0\<rparr>"

definition office_requests :: "(db \<Rightarrow> access_request) list" where
  "office_requests =
     [\<lambda>d. CreateServerReq office_admin calm ''s1'' boss (Body \<lparr>si_name = ''My Files'', si_description = [], si_transport = ''http'',
        si_endpoint = ''http://files'', si_version = [], si_protocol = [], si_secret = Some [], si_tls_ca = Some [], si_status = ''active''\<rparr>) d d,
      \<lambda>d. CreateRoleReq office_admin calm ''r'' boss (Body ''dev'') d,
      \<lambda>d. CreateEntitlementReq calm ''e'' boss (Body \<lparr>ei_role = ''r'', ei_server = ''s1'', ei_tools = Some [''read''], ei_permissions = []\<rparr>)]"

definition office :: api_state where
  "office = fold (\<lambda>req st. snd (access_serve (req (as_db st)) st)) office_requests empty_office"

lemma administered_fold:
  "administered quiet (as_db st) \<Longrightarrow> list_all (\<lambda>req. \<forall>d. generated (req d) \<and> undisturbed (req d) d) reqs \<Longrightarrow>
     administered quiet (as_db (fold (\<lambda>req st. snd (access_serve (req (as_db st)) st)) reqs st))"
  by (induction reqs arbitrary: st) (auto intro: administered.request [OF _ prod.collapse [symmetric]])

lemma office_administered: "administered quiet (as_db office)"
  unfolding office_def
  by (rule administered_fold) (auto simp: office_requests_def empty_office_def intro: administered.start)

lemmas office_simps = office_requests_def resolved_def boss_def decodeJSONOrFail_def calm_def auditedTx_def
    nudgesGatewaySessions_def has_prefix_iff server_event_def Let_def

definition office1 :: api_state where "office1 = snd (access_serve ((office_requests ! 0) (as_db empty_office)) empty_office)"
definition office2 :: api_state where "office2 = snd (access_serve ((office_requests ! 1) (as_db office1)) office1)"

lemma office1_db: "as_db office1 = (as_db empty_office)\<lparr>db_servers := [files_server]\<rparr>"
  by (simp add: office1_def office_simps handleCreateServer_def validate_server_def validTransport_def validServerStatus_def
    validateServerWrite_def validEndpoint_def office_admin_def ValidateRef_def checkServerSlugCollision_def
    ListMCPServersByTenant_def ListMCPServersPage_def mcpServerPageSQL_def keysetTail_def cursor_error_def
    page_select_def order_rows_def empty_office_def checkServerActiveCap_def create_server_tx_def CreateMCPServer_def
    server_checks_def server_name_taken_def input_server_def str_def files_server_def split: prod.split)

lemma office2_db:
  "as_db office2 = (as_db office1)\<lparr>db_roles := [\<lparr>ro_id = ''r'', ro_tenant = ''t'', ro_name = ''dev'', ro_row_version = 1\<rparr>]\<rparr>"
  by (simp add: office2_def office_simps handleCreateRole_def validate_role_name_def refuseKeycloakBuiltinRoleName_def
    keycloakBuiltinRealmRoleNames_def keycloakDefaultRolesPrefix_def checkRoleCap_def office_admin_def ListRolesPage_def
    rolePageSQL_def keysetTail_def cursor_error_def page_select_def order_rows_def office1_db empty_office_def
    create_role_tx_def CreateRole_def split: prod.split)

definition dev_files :: entitlement where
  "dev_files = \<lparr>en_id = ''e'', en_tenant = ''t'', en_role = ''r'', en_server = ''s1'', en_tools = Some [''read''],
     en_permissions = [], en_row_version = 1\<rparr>"

lemma office_steps: "office = snd (access_serve ((office_requests ! 2) (as_db office2)) office2)"
  by (simp add: office_def office2_def office1_def office_requests_def)

lemma office_db: "as_db office = (as_db office2)\<lparr>db_entitlements := [dev_files]\<rparr>"
  by (simp add: office_steps office_simps handleCreateEntitlement_def create_entitlement_tx_def exists_defs office2_db office1_db
    empty_office_def CreateEntitlement_def files_server_def dev_files_def)

lemmas office_rows = office_db office2_db office1_db empty_office_def

text \<open>
  The race: a second creation, whose slug check read the empty catalogue, joins the office. Its name
  differs from the first one's and has the same slug.
\<close>

definition late_request :: access_request where
  "late_request = CreateServerReq office_admin calm ''s2'' boss (Body \<lparr>si_name = ''my-files'', si_description = [], si_transport = ''http'',
     si_endpoint = ''http://files'', si_version = [], si_protocol = [], si_secret = Some [], si_tls_ca = Some [], si_status = ''active''\<rparr>)
     (as_db empty_office) (as_db empty_office)"

lemma racing_creations:
  "administered False (as_db (snd (access_serve late_request office1))) \<and>
   \<not> slugs_apart (as_db (snd (access_serve late_request office1)))"
proof -
  have "administered False (as_db empty_office)" by (rule administered.start) (simp_all add: empty_office_def)
  then have o1: "administered False (as_db office1)" unfolding office1_def
    by (rule administered.request [OF _ prod.collapse [symmetric]]) (simp_all add: office_requests_def)
  have a: "administered False (as_db (snd (access_serve late_request office1)))"
    by (rule administered.request [OF o1 prod.collapse [symmetric]]) (simp_all add: late_request_def)
  have s: "db_servers (as_db (snd (access_serve late_request office1))) =
      [files_server, files_server\<lparr>ms_id := ''s2'', ms_name := ''my-files''\<rparr>]"
    by (simp add: late_request_def office_simps handleCreateServer_def validate_server_def validTransport_def validServerStatus_def
      validateServerWrite_def validEndpoint_def office_admin_def ValidateRef_def checkServerSlugCollision_def
      ListMCPServersByTenant_def ListMCPServersPage_def mcpServerPageSQL_def keysetTail_def cursor_error_def
      page_select_def order_rows_def office1_db empty_office_def checkServerActiveCap_def create_server_tx_def CreateMCPServer_def
      server_checks_def server_name_taken_def input_server_def str_def files_server_def split: prod.split)
  have "Slugify (ms_name files_server) = Slugify ''my-files''" by code_simp
  with a show ?thesis by (auto simp: slugs_apart_def s files_server_def)
qed



end
