(* ===== verification/Directory.thy ===== *)
theory Directory
  imports ArtifactStore
begin

text \<open>
  Tenants and users: \<open>internal/store/tenant.go\<close> and \<open>user.go\<close>, with the constraints of
  migrations 00001, 00002, 00015, 00020, 00021 and 00035. The clock and the identifiers the database
  generates are arguments; an absent text column reads as the empty string.
\<close>

subsection \<open>Tenants\<close>

definition CreateTenant :: "string \<Rightarrow> string \<Rightarrow> db \<Rightarrow> (dberr + tenant_row) \<times> db" where
  "CreateTenant i name d =
     (if list_ex (\<lambda>t. tn_id t = i) (db_tenants d) then (Inl (UniqueViolation ''tenant_pkey''), d)
      else if list_ex (\<lambda>t. tn_name t = name) (db_tenants d) then (Inl (UniqueViolation ''tenant_name_key''), d)
      else let t = \<lparr>tn_id = i, tn_name = name\<rparr> in (Inr t, d\<lparr>db_tenants := db_tenants d @ [t]\<rparr>))"

definition GetTenant :: "string \<Rightarrow> db \<Rightarrow> dberr + tenant_row" where
  "GetTenant i d = (case List.find (\<lambda>t. tn_id t = i) (db_tenants d) of None \<Rightarrow> Inl ErrNotFound | Some t \<Rightarrow> Inr t)"

definition GetOrCreateTenantByName :: "string \<Rightarrow> string \<Rightarrow> db \<Rightarrow> (dberr + tenant_row) \<times> db" where
  "GetOrCreateTenantByName i name d =
     (case List.find (\<lambda>t. tn_name t = name) (db_tenants d) of
        Some t \<Rightarrow> (Inr t, d)
      | None \<Rightarrow> CreateTenant i name d)"

subsection \<open>Users\<close>

definition user_of :: "string \<Rightarrow> string \<Rightarrow> user_row \<Rightarrow> bool" where
  "user_of tenant subject u \<longleftrightarrow> ur_tenant u = tenant \<and> ur_subject u = subject"

definition user_at :: "string \<Rightarrow> string \<Rightarrow> user_row \<Rightarrow> bool" where
  "user_at tenant i u \<longleftrightarrow> ur_tenant u = tenant \<and> ur_id u = i"

definition hour :: int where "hour = 3600 * 10 ^ 9"
definition lastSeenWriteThreshold :: int where "lastSeenWriteThreshold = hour"

text \<open>
  \<open>INSERT ... ON CONFLICT (tenant_id, subject) DO UPDATE\<close>: the row inserted, or the update of the
  one there is; the value returned has the identifier and the deactivation of the row.
\<close>

definition upsert_row :: "user_row \<Rightarrow> (user_row \<Rightarrow> user_row) \<Rightarrow> db \<Rightarrow> (dberr + user_row) \<times> db" where
  "upsert_row new upd d =
     (case List.find (user_of (ur_tenant new) (ur_subject new)) (db_users d) of
        Some r \<Rightarrow>
          (Inr (new\<lparr>ur_id := ur_id r, ur_deactivated := ur_deactivated r\<rparr>),
           d\<lparr>db_users := map (\<lambda>x. if user_of (ur_tenant new) (ur_subject new) x then upd x else x) (db_users d)\<rparr>)
      | None \<Rightarrow>
          if list_ex (\<lambda>x. ur_id x = ur_id new) (db_users d) then (Inl (UniqueViolation ''users_pkey''), d)
          else if \<not> list_ex (\<lambda>t. tn_id t = ur_tenant new) (db_tenants d) then (Inl FKViolation, d)
          else (Inr new, d\<lparr>db_users := db_users d @ [new]\<rparr>))"

definition new_user :: "string \<Rightarrow> string \<Rightarrow> string \<Rightarrow> string \<Rightarrow> string \<Rightarrow> int option \<Rightarrow> user_row" where
  "new_user i tenant subject email display seen = \<lparr>ur_id = i, ur_tenant = tenant, ur_subject = subject, ur_email = email,
     ur_display = display, ur_last_seen = seen, ur_deactivated = None\<rparr>"

text \<open>The row as it is when nothing is to be written, and the write otherwise.\<close>

definition fresh_user :: "int \<Rightarrow> string \<Rightarrow> string \<Rightarrow> user_row \<Rightarrow> bool" where
  "fresh_user now email display r \<longleftrightarrow> ur_email r = email \<and> ur_display r = display \<and>
     (case ur_last_seen r of None \<Rightarrow> False | Some t \<Rightarrow> now - t < lastSeenWriteThreshold)"

definition UpsertUser ::
  "int \<Rightarrow> string \<Rightarrow> string \<Rightarrow> string \<Rightarrow> string \<Rightarrow> string \<Rightarrow> db \<Rightarrow> (dberr + user_row) \<times> db" where
  "UpsertUser now i tenant subject email display d =
     (let write = upsert_row (new_user i tenant subject email display (Some now))
            (\<lambda>r. r\<lparr>ur_email := email, ur_display := display, ur_last_seen := Some now\<rparr>) d in
      case List.find (user_of tenant subject) (db_users d) of
        Some r \<Rightarrow> if fresh_user now email display r then (Inr r, d) else write
      | None \<Rightarrow> write)"

definition GetUserBySubject :: "string \<Rightarrow> string \<Rightarrow> db \<Rightarrow> dberr + user_row" where
  "GetUserBySubject tenant subject d =
     (case List.find (user_of tenant subject) (db_users d) of None \<Rightarrow> Inl ErrNotFound | Some u \<Rightarrow> Inr u)"

definition GetUserByID :: "string \<Rightarrow> string \<Rightarrow> db \<Rightarrow> dberr + user_row" where
  "GetUserByID tenant i d =
     (case List.find (user_at tenant i) (db_users d) of None \<Rightarrow> Inl ErrNotFound | Some u \<Rightarrow> Inr u)"

definition ListUsersByTenant :: "(string \<Rightarrow> string \<Rightarrow> bool) \<Rightarrow> string \<Rightarrow> db \<Rightarrow> user_row list" where
  "ListUsersByTenant le tenant d =
     foldr (insert_by (\<lambda>a b. le (ur_subject a) (ur_subject b))) (filter (\<lambda>u. ur_tenant u = tenant) (db_users d)) []"

definition set_deactivated :: "int option \<Rightarrow> string \<Rightarrow> string \<Rightarrow> db \<Rightarrow> dberr option \<times> db" where
  "set_deactivated at tenant i d =
     (if list_ex (user_at tenant i) (db_users d)
      then (None, d\<lparr>db_users := map (\<lambda>u. if user_at tenant i u then u\<lparr>ur_deactivated := at\<rparr> else u) (db_users d)\<rparr>)
      else (Some ErrNotFound, d))"

definition DeactivateUser :: "int \<Rightarrow> string \<Rightarrow> string \<Rightarrow> db \<Rightarrow> dberr option \<times> db" where
  "DeactivateUser now = set_deactivated (Some now)"

definition ReactivateUser :: "string \<Rightarrow> string \<Rightarrow> db \<Rightarrow> dberr option \<times> db" where
  "ReactivateUser = set_deactivated None"

definition seated :: "string \<Rightarrow> int \<Rightarrow> user_row \<Rightarrow> bool" where
  "seated tenant since u \<longleftrightarrow> ur_tenant u = tenant \<and>
     (case ur_last_seen u of None \<Rightarrow> False | Some t \<Rightarrow> since < t) \<and> ur_deactivated u = None"

definition CountActiveUsers :: "string \<Rightarrow> int \<Rightarrow> db \<Rightarrow> nat" where
  "CountActiveUsers tenant since d = length (filter (seated tenant since) (db_users d))"

definition UpsertProvisionedUser ::
  "string \<Rightarrow> string \<Rightarrow> string \<Rightarrow> string \<Rightarrow> string \<Rightarrow> db \<Rightarrow> (dberr + user_row) \<times> db" where
  "UpsertProvisionedUser i tenant subject email display d =
     upsert_row (new_user i tenant subject email display None) (\<lambda>r. r\<lparr>ur_email := email, ur_display := display\<rparr>) d"

text \<open>
  Deleting a user revokes the keys the user created, then \<open>ON DELETE SET NULL\<close> clears their
  creator; the deployments of migration 00017 are a table this edition never writes.
\<close>

record deleted_user =
  du_subject :: string
  du_email :: string
  du_display :: string
  du_revoked :: "string list"

definition DeleteUser :: "int \<Rightarrow> string \<Rightarrow> string \<Rightarrow> db \<Rightarrow> (dberr + deleted_user) \<times> db" where
  "DeleteUser now tenant i d =
     (case List.find (user_at tenant i) (db_users d) of
        None \<Rightarrow> (Inl ErrNotFound, d)
      | Some u \<Rightarrow>
          let mine = (\<lambda>k. vk_tenant k = tenant \<and> vk_created_by k = Some i);
              keys = map (\<lambda>k. if mine k then k\<lparr>vk_revoked := Some now\<rparr> else k) (db_vkeys d) in
          (Inr \<lparr>du_subject = ur_subject u, du_email = ur_email u, du_display = ur_display u,
             du_revoked = map vk_id (filter mine (db_vkeys d))\<rparr>,
           d\<lparr>db_vkeys := map (\<lambda>k. if vk_created_by k = Some i then k\<lparr>vk_created_by := None\<rparr> else k) keys,
             db_users := filter (\<lambda>u. \<not> user_at tenant i u) (db_users d)\<rparr>))"

end
