(* ===== verification/Identity.thy ===== *)
theory Identity
  imports Directory ArtifactApi AccessStore
begin

text \<open>
  From a validated token to the context of a request: \<open>internal/authz\<close> (\<open>resolver.go\<close>,
  \<open>seatcap.go\<close>, \<open>resolved.go\<close>, \<open>middleware.go\<close>) and the deletion of a user
  (\<open>internal/api/admin_users.go\<close>).
\<close>

record token_principal =
  tp_subject :: string
  tp_email :: string
  tp_roles :: "string list"

subsection \<open>Role gates\<close>

fun hasRole :: "string list \<Rightarrow> string \<Rightarrow> bool" where
  "hasRole [] want = False"
| "hasRole (r # rs) want = (r = want \<or> hasRole rs want)"

fun hasAnyRole :: "string list \<Rightarrow> string list \<Rightarrow> bool" where
  "hasAnyRole have [] = False"
| "hasAnyRole have (w # ws) = (if w = [] then hasAnyRole have ws else hasRole have w \<or> hasAnyRole have ws)"

datatype 'a gate = Forbidden | Pass 'a

definition RequireRole :: "string \<Rightarrow> token_principal option \<Rightarrow> 'a \<Rightarrow> 'a gate" where
  "RequireRole role p served = (case p of None \<Rightarrow> Forbidden | Some x \<Rightarrow> if hasRole (tp_roles x) role then Pass served else Forbidden)"

definition RequireAnyRole :: "string list \<Rightarrow> token_principal option \<Rightarrow> 'a \<Rightarrow> 'a gate" where
  "RequireAnyRole roles p served =
     (case p of None \<Rightarrow> Forbidden | Some x \<Rightarrow> if hasAnyRole (tp_roles x) roles then Pass served else Forbidden)"

subsection \<open>Resolving a principal\<close>

definition activeSeatWindow :: int where "activeSeatWindow = 7 * 24 * hour"

definition DefaultContactEmail :: string where "DefaultContactEmail = ''info@orbeat.org''"

definition communitySeatLimit :: nat where "communitySeatLimit = 10"

text \<open>\<open>sn_user\<close> and \<open>sn_tenant\<close> are the identifiers the database would give a new row.\<close>

record seat_env =
  sn_tenant_name :: string
  sn_limit :: nat
  sn_contact :: string
  sn_now :: int
  sn_user :: string
  sn_tenant :: string

datatype resolve_error =
    SeatLimitError nat nat string
  | DeactivatedUserError string int
  | ResolveFailed string dberr

record resolved_identity =
  ri_tenant :: string
  ri_user :: string
  ri_roles :: "string list"

definition checkDeactivated :: "string \<Rightarrow> string \<Rightarrow> db \<Rightarrow> resolve_error option" where
  "checkDeactivated tenant subject d =
     (case GetUserBySubject tenant subject d of
        Inl e \<Rightarrow> if e = ErrNotFound then None else Some (ResolveFailed ''authz: check deactivated'' e)
      | Inr u \<Rightarrow> map_option (DeactivatedUserError subject) (ur_deactivated u))"

definition checkSeatCap :: "seat_env \<Rightarrow> string \<Rightarrow> string \<Rightarrow> db \<Rightarrow> resolve_error option" where
  "checkSeatCap se tenant subject d =
     (if sn_limit se = 0 then None
      else (case GetUserBySubject tenant subject d of
          Inr _ \<Rightarrow> None
        | Inl e \<Rightarrow>
            if e \<noteq> ErrNotFound then Some (ResolveFailed ''authz: check existing user'' e)
            else
              let n = CountActiveUsers tenant (sn_now se - activeSeatWindow) d in
              if n \<ge> sn_limit se then Some (SeatLimitError (sn_limit se) n (sn_contact se)) else None))"

definition resolve_principal :: "seat_env \<Rightarrow> token_principal \<Rightarrow> db \<Rightarrow> (resolve_error + resolved_identity) \<times> db" where
  "resolve_principal se p d =
     (case GetOrCreateTenantByName (sn_tenant se) (sn_tenant_name se) d of
        (Inl e, d1) \<Rightarrow> (Inl (ResolveFailed ''authz: resolve tenant'' e), d1)
      | (Inr tn, d1) \<Rightarrow>
          (case checkDeactivated (tn_id tn) (tp_subject p) d1 of Some e \<Rightarrow> (Inl e, d1) | None \<Rightarrow>
           case checkSeatCap se (tn_id tn) (tp_subject p) d1 of Some e \<Rightarrow> (Inl e, d1) | None \<Rightarrow>
           (case UpsertUser (sn_now se) (sn_user se) (tn_id tn) (tp_subject p) (tp_email p) (tp_email p) d1 of
              (Inl e, d2) \<Rightarrow> (Inl (ResolveFailed ''authz: resolve user'' e), d2)
            | (Inr u, d2) \<Rightarrow>
                (Inr \<lparr>ri_tenant = tn_id tn, ri_user = ur_id u,
                   ri_roles = map ro_id (GetRolesByNames (tn_id tn) (tp_roles p) d2)\<rparr>, d2))))"

subsection \<open>The middleware\<close>

datatype 'a resolved_outcome =
    Unauthorized
  | SeatLimitReached string nat nat string
  | UserDeactivated
  | ResolveInternal
  | Continue 'a

definition seat_message :: "nat \<Rightarrow> nat \<Rightarrow> string" where
  "seat_message mx current = ''community edition seat limit reached: '' @ format_nat current @ '' of '' @ format_nat mx @ '' used''"

definition resolver_middleware ::
  "seat_env \<Rightarrow> token_principal option \<Rightarrow> (resolved_identity \<Rightarrow> 'a) \<Rightarrow> db \<Rightarrow> 'a resolved_outcome \<times> db" where
  "resolver_middleware se p nxt d =
     (case p of
        None \<Rightarrow> (Unauthorized, d)
      | Some x \<Rightarrow>
          (case resolve_principal se x d of
             (Inr rc, d1) \<Rightarrow> (Continue (nxt rc), d1)
           | (Inl e, d1) \<Rightarrow>
               ((case e of
                   SeatLimitError mx n contact \<Rightarrow> SeatLimitReached (seat_message mx n) mx n contact
                 | DeactivatedUserError s t \<Rightarrow> UserDeactivated
                 | ResolveFailed m x \<Rightarrow> ResolveInternal), d1)))"

subsection \<open>Deleting a user\<close>

definition delete_user_tx :: "int \<Rightarrow> caller \<Rightarrow> string \<Rightarrow> db \<Rightarrow> (api_error + audit_event \<times> deleted_user) \<times> db" where
  "delete_user_tx now c i d =
     (case DeleteUser now (cl_tenant c) i d of
        (Inl e, d1) \<Rightarrow> (Inl (StoreErr e), d1)
      | (Inr u, d1) \<Rightarrow> (Inr (\<lparr>ae_tenant = cl_tenant c, ae_actor = cl_subject c, ae_action = ''user.delete'', ae_target = i,
          ae_decision = ''allow'', ae_metadata = [(''subject'', MStr (du_subject u)), (''email'', MStr (du_email u)),
            (''displayName'', MStr (du_display u))]\<rparr>, u), d1))"

definition handleDeleteUser ::
  "tx_env \<Rightarrow> int \<Rightarrow> caller option \<Rightarrow> string \<Rightarrow> api_state \<Rightarrow> (string \<times> string \<times> string) reply \<times> api_state" where
  "handleDeleteUser env now ctx i st =
     (case resolved ctx of Inl r \<Rightarrow> (r, st) | Inr c \<Rightarrow>
      (case auditedTx env (delete_user_tx now c i) st of
         (Inl e, st1) \<Rightarrow> (api_fail e, st1)
       | (Inr u, st1) \<Rightarrow> (Reply 200 (du_subject u, du_email u, du_display u), st1)))"

end
