(* ===== verification/IdentityProofs.thy ===== *)
theory IdentityProofs
  imports Identity
begin

text \<open>
  Admission: who is let in, how far behind the record of who was seen can be, and that the seat cap
  never shuts out a subject it already knows.
\<close>

subsection \<open>The tenant\<close>

lemma tenant_users: "GetOrCreateTenantByName i name d = (x, d1) \<Longrightarrow> db_users d1 = db_users d \<and> db_roles d1 = db_roles d"
  by (auto simp: GetOrCreateTenantByName_def CreateTenant_def Let_def split: option.splits if_splits)

lemma tenant_exists:
  "GetOrCreateTenantByName i name d = (Inr tn, d1) \<Longrightarrow> tn \<in> set (db_tenants d1) \<and> tn_name tn = name"
  by (auto simp: GetOrCreateTenantByName_def CreateTenant_def Let_def find_Some_iff split: option.splits if_splits)

subsection \<open>What a write of a user leaves behind\<close>

lemma find_append: "List.find p (xs @ ys) = (case List.find p xs of None \<Rightarrow> List.find p ys | Some x \<Rightarrow> Some x)"
  by (induction xs) auto

text \<open>After \<open>UpsertUser\<close> the row of the subject was seen less than the threshold ago.\<close>

lemma update_find:
  assumes "\<And>x. p x \<Longrightarrow> p (f x)"
  shows "List.find p (map (\<lambda>x. if p x then f x else x) xs) = map_option f (List.find p xs)"
  using assms by (induction xs) auto

lemma upsert_seen:
  assumes "UpsertUser now i t s email display d = (Inr u, d1)"
  shows "\<exists>r seen. List.find (user_of t s) (db_users d1) = Some r \<and> ur_last_seen r = Some seen \<and>
    now - seen < lastSeenWriteThreshold \<and> ur_id r = ur_id u \<and> ur_email r = email \<and> ur_display r = display"
proof (cases "List.find (user_of t s) (db_users d)")
  case None
  have "d1 = d\<lparr>db_users := db_users d @ [new_user i t s email display (Some now)]\<rparr>" "u = new_user i t s email display (Some now)"
    using assms None by (auto simp: UpsertUser_def upsert_row_def new_user_def split: if_splits)
  then show ?thesis
    using None by (auto simp: find_append new_user_def user_of_def lastSeenWriteThreshold_def hour_def split: option.splits)
next
  case (Some r)
  show ?thesis
  proof (cases "fresh_user now email display r")
    case True
    with assms Some show ?thesis by (auto simp: UpsertUser_def fresh_user_def split: option.splits)
  next
    case False
    let ?f = "\<lambda>r. r\<lparr>ur_email := email, ur_display := display, ur_last_seen := Some now\<rparr>"
    have d1: "db_users d1 = map (\<lambda>x. if user_of t s x then ?f x else x) (db_users d)" and u: "ur_id u = ur_id r"
      using assms Some False by (auto simp: UpsertUser_def upsert_row_def new_user_def)
    have "List.find (user_of t s) (db_users d1) = Some (?f r)"
      unfolding d1 using Some by (subst update_find) (auto simp: user_of_def)
    then show ?thesis using u by (auto simp: lastSeenWriteThreshold_def hour_def)
  qed
qed

lemma upsert_known:
  assumes u: "UpsertUser now i t s email display d = (x, d1)" and r: "List.find (user_of t s) (db_users d) = Some r"
  shows "\<exists>u. x = Inr u \<and> ur_id u = ur_id r \<and> map ur_id (db_users d1) = map ur_id (db_users d)"
proof (cases "fresh_user now email display r")
  case True
  with u r show ?thesis by (auto simp: UpsertUser_def)
next
  case False
  with u r show ?thesis by (auto simp: UpsertUser_def upsert_row_def new_user_def)
qed

lemma upsert_unknown:
  assumes "UpsertUser now i t s email display d = (x, d1)" "List.find (user_of t s) (db_users d) = None"
    and "i \<notin> ur_id ` set (db_users d)" "t \<in> tn_id ` set (db_tenants d)"
  shows "x = Inr (new_user i t s email display (Some now)) \<and>
    db_users d1 = db_users d @ [new_user i t s email display (Some now)]"
proof -
  have "\<not> list_ex (\<lambda>x. ur_id x = i) (db_users d)" "list_ex (\<lambda>x. tn_id x = t) (db_tenants d)"
    using assms(3,4) by (auto simp: list_ex_iff)
  with assms(1,2) show ?thesis by (auto simp: UpsertUser_def upsert_row_def new_user_def)
qed

lemma upsert_roles: "UpsertUser now i t s email display d = (x, d1) \<Longrightarrow> db_roles d1 = db_roles d"
  by (auto simp: UpsertUser_def upsert_row_def Let_def split: option.splits if_splits)

subsection \<open>Admission\<close>

definition known_user :: "seat_env \<Rightarrow> token_principal \<Rightarrow> tenant_row \<Rightarrow> db \<Rightarrow> user_row option" where
  "known_user se p tn d = List.find (user_of (tn_id tn) (tp_subject p)) (db_users d)"

definition admitted :: "seat_env \<Rightarrow> token_principal \<Rightarrow> tenant_row \<Rightarrow> db \<Rightarrow> db \<Rightarrow> resolved_identity \<Rightarrow> bool" where
  "admitted se p tn d d1 rc \<longleftrightarrow>
     ri_tenant rc = tn_id tn \<and> ri_roles rc = map ro_id (GetRolesByNames (tn_id tn) (tp_roles p) d) \<and>
     (\<exists>r seen. known_user se p tn d1 = Some r \<and> ur_id r = ri_user rc \<and> ur_last_seen r = Some seen \<and>
        sn_now se - seen < lastSeenWriteThreshold)"

lemma resolve_admitted:
  assumes t: "GetOrCreateTenantByName (sn_tenant se) (sn_tenant_name se) d = (Inr tn, d0)"
    and c: "checkDeactivated (tn_id tn) (tp_subject p) d0 = None" "checkSeatCap se (tn_id tn) (tp_subject p) d0 = None"
    and u: "UpsertUser (sn_now se) (sn_user se) (tn_id tn) (tp_subject p) (tp_email p) (tp_email p) d0 = (Inr u, d2)"
    and r: "resolve_principal se p d = (x, d1)"
  shows "d1 = d2 \<and> (\<exists>rc. x = Inr rc \<and> ri_user rc = ur_id u \<and> admitted se p tn d d1 rc)"
proof -
  have "x = Inr \<lparr>ri_tenant = tn_id tn, ri_user = ur_id u, ri_roles = map ro_id (GetRolesByNames (tn_id tn) (tp_roles p) d2)\<rparr>"
    "d1 = d2" using r t c u by (auto simp: resolve_principal_def)
  moreover have "GetRolesByNames (tn_id tn) (tp_roles p) d2 = GetRolesByNames (tn_id tn) (tp_roles p) d"
    using upsert_roles [OF u] tenant_users [OF t] by (simp add: GetRolesByNames_def)
  ultimately show ?thesis using upsert_seen [OF u] by (fastforce simp: admitted_def known_user_def)
qed

text \<open>
  C27. Who is admitted. A subject the tenant knows is never stopped by the seat cap, however many seats
  are taken and however long ago it was last seen; it is refused exactly when it is deactivated. A
  subject the tenant does not know is admitted exactly when the active users of the last week are
  fewer than the cap (or there is no cap), and takes one row. A refusal changes no user. Whoever is
  admitted has the roles of the tenant that the token names, and a row seen within the last hour.
\<close>

theorem who_is_admitted:
  assumes t: "GetOrCreateTenantByName (sn_tenant se) (sn_tenant_name se) d = (Inr tn, d0)"
    and i: "sn_user se \<notin> ur_id ` set (db_users d)"
    and r: "resolve_principal se p d = (x, d1)"
  shows "case known_user se p tn d of
      Some u \<Rightarrow>
        (case ur_deactivated u of
           Some at \<Rightarrow> x = Inl (DeactivatedUserError (tp_subject p) at) \<and> db_users d1 = db_users d
         | None \<Rightarrow> \<exists>rc. x = Inr rc \<and> ri_user rc = ur_id u \<and> admitted se p tn d d1 rc \<and>
             map ur_id (db_users d1) = map ur_id (db_users d))
    | None \<Rightarrow>
        let n = CountActiveUsers (tn_id tn) (sn_now se - activeSeatWindow) d in
        if sn_limit se = 0 \<or> n < sn_limit se
        then \<exists>rc. x = Inr rc \<and> ri_user rc = sn_user se \<and> admitted se p tn d d1 rc \<and>
          map ur_id (db_users d1) = map ur_id (db_users d) @ [sn_user se]
        else x = Inl (SeatLimitError (sn_limit se) n (sn_contact se)) \<and> db_users d1 = db_users d"
proof (cases "known_user se p tn d")
  case None
  have u0: "db_users d0 = db_users d" using tenant_users [OF t] by simp
  have k: "List.find (user_of (tn_id tn) (tp_subject p)) (db_users d0) = None" using None u0 by (simp add: known_user_def)
  let ?n = "CountActiveUsers (tn_id tn) (sn_now se - activeSeatWindow) d"
  have cd: "checkDeactivated (tn_id tn) (tp_subject p) d0 = None" using k by (simp add: checkDeactivated_def GetUserBySubject_def)
  have cs: "checkSeatCap se (tn_id tn) (tp_subject p) d0 =
      (if sn_limit se = 0 \<or> ?n < sn_limit se then None else Some (SeatLimitError (sn_limit se) ?n (sn_contact se)))"
    using k u0 by (simp add: checkSeatCap_def GetUserBySubject_def CountActiveUsers_def Let_def)
  show ?thesis
  proof (cases "sn_limit se = 0 \<or> ?n < sn_limit se")
    case True
    obtain y d2 where u: "UpsertUser (sn_now se) (sn_user se) (tn_id tn) (tp_subject p) (tp_email p) (tp_email p) d0 = (y, d2)"
      by fastforce
    have y: "y = Inr (new_user (sn_user se) (tn_id tn) (tp_subject p) (tp_email p) (tp_email p) (Some (sn_now se)))"
      "db_users d2 = db_users d0 @ [new_user (sn_user se) (tn_id tn) (tp_subject p) (tp_email p) (tp_email p) (Some (sn_now se))]"
      using upsert_unknown [OF u k] i tenant_exists [OF t] u0 by auto
    have "checkSeatCap se (tn_id tn) (tp_subject p) d0 = None" using cs True by simp
    from resolve_admitted [OF t cd this u [unfolded y(1)] r] y(2) show ?thesis
      using None True u0 by (auto simp: new_user_def Let_def)
  next
    case False
    with r t cd cs u0 None show ?thesis by (auto simp: resolve_principal_def Let_def)
  qed
next
  case (Some u)
  have u0: "db_users d0 = db_users d" using tenant_users [OF t] by simp
  have k: "List.find (user_of (tn_id tn) (tp_subject p)) (db_users d0) = Some u" using Some u0 by (simp add: known_user_def)
  show ?thesis
  proof (cases "ur_deactivated u")
    case None
    obtain y d2 where w: "UpsertUser (sn_now se) (sn_user se) (tn_id tn) (tp_subject p) (tp_email p) (tp_email p) d0 = (y, d2)"
      by fastforce
    from upsert_known [OF w k] obtain v where v: "y = Inr v" "ur_id v = ur_id u" "map ur_id (db_users d2) = map ur_id (db_users d0)"
      by auto
    have "checkDeactivated (tn_id tn) (tp_subject p) d0 = None" "checkSeatCap se (tn_id tn) (tp_subject p) d0 = None"
      using k None by (simp_all add: checkDeactivated_def checkSeatCap_def GetUserBySubject_def)
    from resolve_admitted [OF t this w [unfolded v(1)] r] v Some None u0 show ?thesis by auto
  next
    case (Some at)
    then show ?thesis using \<open>known_user se p tn d = Some u\<close> r t k u0
      by (auto simp: resolve_principal_def checkDeactivated_def GetUserBySubject_def)
  qed
qed

subsection \<open>A full house\<close>

definition crew :: db where
  "crew = \<lparr>db_artifacts = [], db_revisions = [], db_grants = [],
     db_roles = [\<lparr>ro_id = ''r'', ro_tenant = ''t'', ro_name = ''dev'', ro_row_version = 1\<rparr>], db_servers = [], db_entitlements = [],
     db_vkeys = [], db_usage = [], db_quotas = [], db_tenants = [\<lparr>tn_id = ''t'', tn_name = ''default''\<rparr>],
     db_users = [new_user ''u1'' ''t'' ''anna'' ''a'' ''a'' (Some 0), new_user ''u2'' ''t'' ''ben'' ''b'' ''b'' (Some (800 * hour))]\<rparr>"

definition one_seat :: seat_env where
  "one_seat = \<lparr>sn_tenant_name = ''default'', sn_limit = 1, sn_contact = DefaultContactEmail, sn_now = 801 * hour, sn_user = ''u3'', sn_tenant = []\<rparr>"

text \<open>Anna was away for a month and the only seat is taken: she is admitted, Carl is not.\<close>

theorem who_is_admitted_witness:
  "(\<exists>rc d1. resolve_principal one_seat \<lparr>tp_subject = ''anna'', tp_email = ''a'', tp_roles = [''dev'']\<rparr> crew = (Inr rc, d1) \<and>
      ri_roles rc = [''r'']) \<and>
   (\<exists>d1. resolve_principal one_seat \<lparr>tp_subject = ''carl'', tp_email = ''c'', tp_roles = [''dev'']\<rparr> crew =
      (Inl (SeatLimitError 1 1 DefaultContactEmail), d1) \<and> db_users d1 = db_users crew)"
proof -
  let ?p = "\<lambda>s. \<lparr>tp_subject = s, tp_email = s, tp_roles = [''dev'']\<rparr>"
  let ?anna = "\<lparr>tp_subject = ''anna'', tp_email = ''a'', tp_roles = [''dev'']\<rparr>"
  let ?carl = "\<lparr>tp_subject = ''carl'', tp_email = ''c'', tp_roles = [''dev'']\<rparr>"
  have t: "GetOrCreateTenantByName (sn_tenant one_seat) (sn_tenant_name one_seat) crew = (Inr \<lparr>tn_id = ''t'', tn_name = ''default''\<rparr>, crew)"
    by (simp add: GetOrCreateTenantByName_def one_seat_def crew_def)
  have i: "sn_user one_seat \<notin> ur_id ` set (db_users crew)" by (simp add: one_seat_def crew_def new_user_def)
  have k: "known_user one_seat ?anna \<lparr>tn_id = ''t'', tn_name = ''default''\<rparr> crew = Some (new_user ''u1'' ''t'' ''anna'' ''a'' ''a'' (Some 0))"
    "known_user one_seat ?carl \<lparr>tn_id = ''t'', tn_name = ''default''\<rparr> crew = None"
    by (simp_all add: known_user_def crew_def user_of_def new_user_def)
  have n: "CountActiveUsers ''t'' (sn_now one_seat - activeSeatWindow) crew = 1"
    by (simp add: CountActiveUsers_def crew_def one_seat_def activeSeatWindow_def hour_def seated_def new_user_def)
  have g: "map ro_id (GetRolesByNames ''t'' [''dev''] crew) = [''r'']" by (simp add: GetRolesByNames_def crew_def)
  obtain x d1 where a: "resolve_principal one_seat ?anna crew = (x, d1)" by fastforce
  obtain y d2 where c: "resolve_principal one_seat ?carl crew = (y, d2)" by fastforce
  from who_is_admitted [OF t i a] k(1) g have "\<exists>rc. x = Inr rc \<and> ri_roles rc = [''r'']" by (auto simp: new_user_def admitted_def)
  moreover from who_is_admitted [OF t i c] k(2) n have "y = Inl (SeatLimitError 1 1 DefaultContactEmail)" "db_users d2 = db_users crew"
    by (simp_all add: one_seat_def)
  ultimately show ?thesis using a c by auto
qed

end
