(* ===== verification/Nudge.thy ===== *)
theory Nudge
  imports SessionCacheProofs
begin

text \<open>
  The gateway's listener for changes of entitlements: \<open>internal/gateway/nudge.go\<close> over
  \<open>Listen\<close> of \<open>internal/store/notify.go\<close>. One run of \<open>Listen\<close> is the notifications it
  delivered, each at its instant, and how it ended.
\<close>

definition second :: int where "second = 10 ^ 9"
definition nudgeRetryMin :: int where "nudgeRetryMin = second"
definition nudgeRetryMax :: int where "nudgeRetryMax = 30 * second"

definition onNotify :: "string \<times> instant \<Rightarrow> sessionCache \<Rightarrow> sessionCache" where
  "onNotify n c = (case n of (tenantID, now) \<Rightarrow> if tenantID = [] then c else snd (invalidateTenant tenantID now c))"

record listen_run =
  lr_notified :: "(string \<times> instant) list"
  lr_cancelled :: bool
  lr_no_pool :: bool
  lr_stopped_waiting :: bool

text \<open>The delays waited before a reconnection, and the cache.\<close>

fun nudge_loop :: "int \<Rightarrow> listen_run list \<Rightarrow> sessionCache \<Rightarrow> int list \<times> sessionCache" where
  "nudge_loop backoff [] c = ([], c)"
| "nudge_loop backoff (r # rs) c =
     (let c1 = fold onNotify (lr_notified r) c in
      if lr_cancelled r \<or> lr_no_pool r then ([], c1)
      else if lr_stopped_waiting r then ([backoff], c1)
      else (case nudge_loop (min (backoff * 2) nudgeRetryMax) rs c1 of (ds, c2) \<Rightarrow> (backoff # ds, c2)))"

definition StartEntitlementNudge :: "listen_run list \<Rightarrow> sessionCache \<Rightarrow> int list \<times> sessionCache" where
  "StartEntitlementNudge = nudge_loop nudgeRetryMin"

subsection \<open>The delays\<close>

lemma nudge_delays:
  "second \<le> b \<Longrightarrow> b \<le> nudgeRetryMax \<Longrightarrow> k < length (fst (nudge_loop b rs c)) \<Longrightarrow>
     fst (nudge_loop b rs c) ! k = min (b * 2 ^ k) nudgeRetryMax"
proof (induction b rs c arbitrary: k rule: nudge_loop.induct)
  case (2 b r rs c)
  let ?c1 = "fold onNotify (lr_notified r) c" and ?b = "min (b * 2) nudgeRetryMax"
  have s: "0 < second" by (simp add: second_def)
  show ?case
  proof (cases "lr_cancelled r \<or> lr_no_pool r \<or> lr_stopped_waiting r")
    case True
    then show ?thesis using 2(2-4) by (auto simp: Let_def split: if_splits)
  next
    case False
    then have l: "fst (nudge_loop b (r # rs) c) = b # fst (nudge_loop ?b rs ?c1)"
      by (simp add: Let_def split: prod.split)
    show ?thesis
    proof (cases k)
      case 0
      then show ?thesis unfolding l using 2(3) by simp
    next
      case (Suc j)
      have b: "second \<le> ?b" "?b \<le> nudgeRetryMax" using 2(2,3) s by (auto simp: nudgeRetryMax_def)
      have "fst (nudge_loop ?b rs ?c1) ! j = min (?b * 2 ^ j) nudgeRetryMax"
        using 2(1) [OF refl _ _ b] False 2(4) Suc l by (simp add: Let_def)
      moreover have "min (?b * 2 ^ j) nudgeRetryMax = min (b * 2 ^ Suc j) nudgeRetryMax"
      proof (cases "b * 2 \<le> nudgeRetryMax")
        case False
        have "nudgeRetryMax * 1 \<le> nudgeRetryMax * 2 ^ j" "b * 2 * 1 \<le> b * 2 * 2 ^ j"
          using s 2(2) by (intro mult_left_mono; simp add: nudgeRetryMax_def)+
        with False show ?thesis by (simp add: mult.assoc)
      qed (simp add: mult.assoc)
      ultimately show ?thesis using l Suc by simp
    qed
  qed
qed simp

text \<open>
  The listener reconnects at bounded intervals: the k-th delay is one second doubled k times, never
  more than thirty seconds, whatever was delivered in between.
\<close>

theorem nudge_backoff:
  assumes "k < length (fst (StartEntitlementNudge rs c))"
  shows "fst (StartEntitlementNudge rs c) ! k = min (second * 2 ^ k) (30 * second)"
  using nudge_delays [of nudgeRetryMin k rs c] assms
  by (simp add: StartEntitlementNudge_def nudgeRetryMin_def nudgeRetryMax_def second_def)

theorem nudge_backoff_witness:
  "fst (StartEntitlementNudge (replicate 7 \<lparr>lr_notified = [], lr_cancelled = False, lr_no_pool = False, lr_stopped_waiting = False\<rparr>) c) ! 6
     = 30 * second"
proof -
  let ?rs = "replicate 7 \<lparr>lr_notified = [], lr_cancelled = False, lr_no_pool = False, lr_stopped_waiting = False\<rparr>"
  have n: "length (fst (nudge_loop b (replicate n \<lparr>lr_notified = [], lr_cancelled = False, lr_no_pool = False,
      lr_stopped_waiting = False\<rparr>) c)) = n" for b n
    by (induction n arbitrary: b) (auto simp: Let_def case_prod_beta)
  have "length (fst (StartEntitlementNudge ?rs c)) = 7" unfolding StartEntitlementNudge_def by (rule n)
  with nudge_backoff [of 6 ?rs c] show ?thesis by (simp add: second_def)
qed

subsection \<open>What a notification leaves in the cache\<close>

lemma tenant_frames [simp]:
  "se_tenant (sc_heap (close_session a c) x) = se_tenant (sc_heap c x)"
  "se_tenant (sc_heap (staleTransportsLocked a r t c) x) = se_tenant (sc_heap c x)"
  by (auto simp: close_session_def stale_heap)

lemma tenant_close_all [simp]: "se_tenant (sc_heap (close_all as c) x) = se_tenant (sc_heap c x)"
  by (induction as arbitrary: c) auto

lemma tenant_evict_all [simp]: "se_tenant (sc_heap (evict_all now vs c) x) = se_tenant (sc_heap c x)"
  by (induction now vs c rule: evict_all.induct) (auto simp: Let_def)

lemma tenant_dropped:
  assumes "\<not> sc_down c" "map_of (sc_m (snd (invalidateTenant t now c))) k = Some a"
  shows "se_tenant (sc_heap (snd (invalidateTenant t now c)) a) \<noteq> t \<and> map_of (sc_m c) k = Some a"
proof -
  let ?vs = "tenant_victims t c"
  have m: "map_of (sc_m (snd (invalidateTenant t now c))) k = (if k \<in> fst ` set ?vs then None else map_of (sc_m c) k)"
    and h: "se_tenant (sc_heap (snd (invalidateTenant t now c)) a) = se_tenant (sc_heap c a)"
    using assms(1) by (simp_all add: invalidateTenant_def Let_def evict_all_m)
  have k: "k \<notin> fst ` set ?vs" "map_of (sc_m c) k = Some a" using assms(2) m by (auto split: if_splits)
  from map_of_SomeD [OF k(2)] k(1) have "se_tenant (sc_heap c a) \<noteq> t" by (force simp: tenant_victims_def)
  with h k(2) show ?thesis by simp
qed

end
