(* ===== verification/Revocation.thy ===== *)
theory Revocation
  imports AccessInvariants IdentityProofs Nudge "HOL-Library.Multiset"
begin

text \<open>
  What a change of the access tables does to the sessions of the gateway: the sessions of the tenant
  are dropped by the nudge the change sends, and the sessions built afterwards hold what the tables
  grant now.
\<close>

subsection \<open>Building from the tables\<close>

text \<open>The reads of \<open>buildSession\<close>, against the tables and the resolver of this repository.\<close>

definition store_env :: "locale_env \<Rightarrow> seat_env \<Rightarrow> (api_error \<Rightarrow> string) \<Rightarrow> (resolve_error \<Rightarrow> string) \<Rightarrow> db \<Rightarrow> build_env" where
  "store_env lo se text1 text2 d = \<lparr>
     be_virtualKey = resolveVirtualKey,
     be_resolve = (\<lambda>p. case resolve_principal se \<lparr>tp_subject = GatewayBuild.pr_subject p, tp_email = GatewayBuild.pr_email p,
           tp_roles = GatewayBuild.pr_roles p\<rparr> d of
         (Inl e, _) \<Rightarrow> Inl (text2 e)
       | (Inr ri, _) \<Rightarrow> Inr \<lparr>rc_tenant = ri_tenant ri, rc_user = ri_user ri, rc_roles = ri_roles ri\<rparr>),
     be_entitlements = (\<lambda>t rs. Inr (ListEntitlementsByRoles t rs d)),
     be_servers = (\<lambda>t. case ListMCPServersByTenant lo t d of Inl e \<Rightarrow> Inl (text1 e) | Inr ms \<Rightarrow> Inr ms)\<rparr>"

lemma built_from_tables:
  assumes "buildSession (store_env lo se x1 x2 d) env de p w = (Inr sess, w1)"
  obtains ri d1 where
    "resolve_principal se \<lparr>tp_subject = GatewayBuild.pr_subject p, tp_email = GatewayBuild.pr_email p,
       tp_roles = GatewayBuild.pr_roles p\<rparr> d = (Inr ri, d1)"
    "gs_tenant sess = ri_tenant ri" "gs_entitlements sess = ListEntitlementsByRoles (ri_tenant ri) (ri_roles ri) d"
  using assms
proof (cases rule: buildSession_Inr)
  case (1 rc keyID narrow ents servers s0)
  have "routes_ok s0" by (simp add: 1(4) routes_ok_def)
  then have c: "same_caller s0 sess" using attach_all_routes [OF 1(5)] by blast
  obtain ri d1 where r: "resolve_principal se \<lparr>tp_subject = GatewayBuild.pr_subject p, tp_email = GatewayBuild.pr_email p,
       tp_roles = GatewayBuild.pr_roles p\<rparr> d = (Inr ri, d1)" "rc_tenant rc = ri_tenant ri" "rc_roles rc = ri_roles ri"
    using 1(1) by (auto simp: build_identity_def store_env_def resolveVirtualKey_def split: sum.splits prod.splits)
  show ?thesis
    by (rule that [OF r(1)]) (use 1(2,4) c r in \<open>auto simp: same_caller_def store_env_def\<close>)
qed

lemma built_servers: "buildSession be env de p w = (Inr sess, w1) \<Longrightarrow> \<exists>servers. be_servers be (gs_tenant sess) = Inr servers"
proof -
  assume "buildSession be env de p w = (Inr sess, w1)"
  then show ?thesis
  proof (cases rule: buildSession_Inr)
    case (1 rc keyID narrow ents servers s0)
    have "routes_ok s0" by (simp add: 1(4) routes_ok_def)
    then have "same_caller s0 sess" using attach_all_routes [OF 1(5)] by blast
    then show ?thesis using 1(3,4) by (simp add: same_caller_def)
  qed
qed

subsection \<open>Deleting a role\<close>

lemma role_deleted:
  assumes "handleDeleteRole ad env (Some c) i st = (Reply k g, clients, st1)"
  obtains gr where "g = (rk_entitlements gr, rk_artifact_entitlements gr)" "clients = deleteRoleKeycloakClients ad (rk_cleanup gr)"
    "DeleteRole (lo_le (ad_locale ad)) (cl_tenant c) i (as_db st) = (Inr gr, as_db st1)"
    "as_db st1 = drop_role (cl_tenant c) i (as_db st)"
    "committed env ''role.delete'' (cl_tenant c) st st1"
proof -
  obtain x s1 where t: "auditedTx env (delete_role_tx ad c i) st = (x, s1)" by fastforce
  show ?thesis
  proof (cases x)
    case (Inl e)
    with t assms fail_no_success [of e k g] show ?thesis by (simp add: handleDeleteRole_def resolved_def)
  next
    case (Inr y)
    with t assms have g: "g = (rk_entitlements y, rk_artifact_entitlements y)" "clients = deleteRoleKeycloakClients ad (rk_cleanup y)"
      and t1: "auditedTx env (delete_role_tx ad c i) st = (Inr y, st1)"
      by (auto simp: handleDeleteRole_def resolved_def)
    show ?thesis
    proof (rule audited_outcome [OF tx_writes(5) t1])
      fix ev z assume yz: "(Inr y :: api_error + revoked_grants) = Inr z"
        and m: "delete_role_tx ad c i (as_db st) = (Inr (ev, z), as_db st1)"
        and cm: "committed env ''role.delete'' (cl_tenant c) st st1"
      from m yz have d: "DeleteRole (lo_le (ad_locale ad)) (cl_tenant c) i (as_db st) = (Inr y, as_db st1)"
        by (auto simp: delete_role_tx_def split: sum.splits prod.splits)
      show thesis by (rule that [OF g d DeleteRole_Inr(1) [OF d] cm])
    qed simp
  qed
qed

text \<open>The counts of the delete: one per row of the join, and with sound tables one row per entitlement.\<close>

lemma read_count: "fst (snd (read_names mx acc rows)) = fst (snd acc) + length rows"
  by (induction mx acc rows rule: read_names.induct) auto

lemma one_match: "distinct (map k xs) \<Longrightarrow> x \<in> set xs \<Longrightarrow> length (filter (\<lambda>y. k y = k x) xs) = 1"
proof (induction xs)
  case (Cons y ys)
  have "k y \<notin> k ` set ys" using Cons.prems(1) by simp
  then have none: "filter (\<lambda>z. k z = k y) ys = []" unfolding filter_empty_conv by (metis imageI)
  show ?case
  proof (cases "x = y")
    case False
    then have "x \<in> set ys" "k y \<noteq> k x" using Cons.prems by auto
    then show ?thesis using Cons by simp
  qed (simp add: none)
qed simp

lemma join_length:
  assumes "\<And>e. e \<in> set es \<Longrightarrow> length (f e) = 1"
  shows "length (concat (map f es)) = length es"
  using assms by (induction es) auto

lemma linked_server: "linked d \<Longrightarrow> e \<in> set (db_entitlements d) \<Longrightarrow> length (filter (\<lambda>m. ms_id m = en_server e) (db_servers d)) = 1"
proof -
  assume l: "linked d" and e: "e \<in> set (db_entitlements d)"
  from l e obtain m where "m \<in> set (db_servers d)" "ms_id m = en_server e" by (auto simp: linked_def exists_defs)
  with one_match [of ms_id "db_servers d" m] l show ?thesis by (simp add: linked_def)
qed

lemma role_tenant:
  assumes "linked d" "List.find (role_at t i) (db_roles d) = Some r" "e \<in> set (db_entitlements d)" "en_role e = i"
  shows "en_tenant e = t"
proof -
  from assms(1,3,4) obtain r' where r': "r' \<in> set (db_roles d)" "ro_id r' = i" "ro_tenant r' = en_tenant e"
    by (auto simp: linked_def exists_defs)
  from assms(2) have r: "r \<in> set (db_roles d)" "ro_id r = i" "ro_tenant r = t" by (auto simp: find_Some_iff role_at_def)
  have "r = r'" using same_row [of ro_id "db_roles d"] assms(1) r r' by (simp add: linked_def)
  with r r' show ?thesis by simp
qed

lemma deleted_count:
  assumes l: "linked d" and d: "DeleteRole le t i d = (Inr g, d1)"
  shows "rk_entitlements g = length (filter (\<lambda>e. en_role e = i) (db_entitlements d))"
proof -
  from DeleteRole_Inr(2) [OF d] obtain r where r: "List.find (role_at t i) (db_roles d) = Some r" by blast
  have f: "filter (\<lambda>e. en_tenant e = t \<and> en_role e = i) (db_entitlements d) = filter (\<lambda>e. en_role e = i) (db_entitlements d)"
    using role_tenant [OF l r] by (intro filter_cong) auto
  have "length (granted_servers le t i d) = length (filter (\<lambda>e. en_role e = i) (db_entitlements d))"
    unfolding granted_servers_def length_insert_all f
    by (rule join_length) (use linked_server [OF l] in auto)
  moreover have "rk_entitlements g = length (granted_servers le t i d)"
    using d r read_count [of MaxGrantNames "([], 0, False)" "granted_servers le t i d"]
    by (auto simp: DeleteRole_def Let_def readGrantNames_def split: prod.splits)
  ultimately show ?thesis by simp
qed

lemma cleanup_clients: "map fst (deleteRoleKeycloakClients ad keys) = map fst keys"
  by (auto simp: deleteRoleKeycloakClients_def comp_def case_prod_beta split: option.splits)

lemma cleanup_keys:
  assumes "DeleteRole le t i d = (Inr g, d1)"
  shows "set (map fst (rk_cleanup g)) = vk_client ` {k \<in> set (db_vkeys d). vk_tenant k = t \<and> vk_role k = i}"
proof -
  have "rk_cleanup g = map (\<lambda>k. (vk_client k, vk_token k)) (role_vkeys le t i d)"
    using assms by (auto simp: DeleteRole_def Let_def split: option.splits prod.splits)
  then show ?thesis by (simp add: role_vkeys_def image_image)
qed

text \<open>The same for the artifact grants: the foreign keys of \<open>artifact_entitlement\<close> and the tenant check of its INSERT.\<close>

definition grants_linked :: "db \<Rightarrow> bool" where
  "grants_linked d \<longleftrightarrow> distinct (map ar_id (db_artifacts d)) \<and>
     (\<forall>g \<in> set (db_grants d). RoleExistsInTenant (ag_tenant g) (ag_role g) d \<and> ArtifactExistsInTenant (ag_tenant g) (ag_artifact g) d)"

lemma linked_artifact:
  assumes "grants_linked d" "g \<in> set (db_grants d)"
  shows "length (filter (\<lambda>a. ar_id a = ag_artifact g) (db_artifacts d)) = 1"
proof -
  from assms obtain a where "a \<in> set (db_artifacts d)" "ar_id a = ag_artifact g"
    by (auto simp: grants_linked_def ArtifactExistsInTenant_def addressed_def list_ex_iff)
  with one_match [of ar_id "db_artifacts d" a] assms(1) show ?thesis by (simp add: grants_linked_def)
qed

lemma grant_tenant:
  assumes "linked d" "grants_linked d" "List.find (role_at t i) (db_roles d) = Some r" "g \<in> set (db_grants d)" "ag_role g = i"
  shows "ag_tenant g = t"
proof -
  from assms(2,4,5) obtain r' where r': "r' \<in> set (db_roles d)" "ro_id r' = i" "ro_tenant r' = ag_tenant g"
    by (auto simp: grants_linked_def exists_defs)
  from assms(3) have r: "r \<in> set (db_roles d)" "ro_id r = i" "ro_tenant r = t" by (auto simp: find_Some_iff role_at_def)
  have "r = r'" using same_row [of ro_id "db_roles d"] assms(1) r r' by (simp add: linked_def)
  with r r' show ?thesis by simp
qed

lemma deleted_artifact_count:
  assumes l: "linked d" "grants_linked d" and d: "DeleteRole le t i d = (Inr g, d1)"
  shows "rk_artifact_entitlements g = length (filter (\<lambda>x. ag_role x = i) (db_grants d))"
proof -
  from DeleteRole_Inr(2) [OF d] obtain r where r: "List.find (role_at t i) (db_roles d) = Some r" by blast
  have f: "filter (\<lambda>x. ag_tenant x = t \<and> ag_role x = i) (db_grants d) = filter (\<lambda>x. ag_role x = i) (db_grants d)"
    using grant_tenant [OF l r] by (intro filter_cong) auto
  have "length (granted_artifacts le t i d) = length (filter (\<lambda>x. ag_role x = i) (db_grants d))"
    unfolding granted_artifacts_def length_insert_all f
    by (rule join_length) (use linked_artifact [OF l(2)] in auto)
  moreover have "rk_artifact_entitlements g = length (granted_artifacts le t i d)"
    using d r read_count [of MaxGrantNames "([], 0, False)" "granted_artifacts le t i d"]
    by (auto simp: DeleteRole_def Let_def readGrantNames_def split: prod.splits)
  ultimately show ?thesis by simp
qed

text \<open>The list of keys is the one list that is never cut short.\<close>

lemma read_uncapped: "fst (read_names uncapped acc rows) = fst acc @ rows"
  by (induction uncapped acc rows rule: read_names.induct) (auto simp: uncapped_def)

lemma mset_insert_by: "mset (insert_by le x xs) = add_mset x (mset xs)"
  by (induction xs) auto

lemma mset_insert_all: "mset (foldr (insert_by le) xs []) = mset xs"
  by (induction xs) (simp_all add: mset_insert_by)

definition role_keys :: "string \<Rightarrow> string \<Rightarrow> db \<Rightarrow> vkey_row list" where
  "role_keys t i d = filter (\<lambda>k. vk_tenant k = t \<and> vk_role k = i) (db_vkeys d)"

lemma deleted_keys:
  assumes "DeleteRole le t i d = (Inr g, d1)"
  shows "mset (rk_clients g) = mset (map vk_client (role_keys t i d))" "rk_vkeys g = length (role_keys t i d)"
proof -
  have "mset (role_vkeys le t i d) = mset (role_keys t i d)" by (simp add: role_vkeys_def role_keys_def mset_insert_all)
  then have m: "mset (map vk_client (role_vkeys le t i d)) = mset (map vk_client (role_keys t i d))"
    "length (role_vkeys le t i d) = length (role_keys t i d)" by (simp, metis size_mset)
  have "rk_clients g = map vk_client (role_vkeys le t i d)" "rk_vkeys g = length (map vk_client (role_vkeys le t i d))"
    using assms read_uncapped [of "([], 0, False)" "map vk_client (role_vkeys le t i d)"]
      read_count [of uncapped "([], 0, False)" "map vk_client (role_vkeys le t i d)"]
    by (auto simp: DeleteRole_def Let_def readGrantNames_def split: option.splits prod.splits)
  with m show "mset (rk_clients g) = mset (map vk_client (role_keys t i d))" "rk_vkeys g = length (role_keys t i d)" by simp_all
qed

text \<open>The audit row of a deletion, against the tables before it.\<close>

definition deletion_recorded :: "string \<Rightarrow> string \<Rightarrow> nat \<Rightarrow> nat \<Rightarrow> db \<Rightarrow> audit_event \<Rightarrow> bool" where
  "deletion_recorded t i n m d ev \<longleftrightarrow>
     ae_tenant ev = t \<and> ae_action ev = ''role.delete'' \<and> ae_target ev = i \<and> ae_decision ev = ''allow'' \<and>
     map_of (ae_metadata ev) ''entitlementsRevoked'' = Some (MInt (int n)) \<and>
     map_of (ae_metadata ev) ''artifactEntitlementsRevoked'' = Some (MInt (int m)) \<and>
     map_of (ae_metadata ev) ''virtualKeysRevoked'' = Some (MInt (int (length (role_keys t i d)))) \<and>
     (\<exists>ks. map_of (ae_metadata ev) ''virtualKeyClientIds'' = Some (MStrs ks) \<and> mset ks = mset (map vk_client (role_keys t i d)))"

lemma deletion_audited:
  assumes "handleDeleteRole ad env (Some c) i st = (Reply k (n, m), clients, st1)"
  shows "\<exists>ev. as_audit st1 = as_audit st @ [ev] \<and> deletion_recorded (cl_tenant c) i n m (as_db st) ev"
proof -
  obtain x s1 where t: "auditedTx env (delete_role_tx ad c i) st = (x, s1)" by fastforce
  show ?thesis
  proof (cases x)
    case (Inl e)
    with t assms fail_no_success [of e k "(n, m)"] show ?thesis by (simp add: handleDeleteRole_def resolved_def)
  next
    case (Inr y)
    with t assms have g: "n = rk_entitlements y" "m = rk_artifact_entitlements y" "s1 = st1"
      by (auto simp: handleDeleteRole_def resolved_def)
    with t Inr obtain ev d1 where m: "delete_role_tx ad c i (as_db st) = (Inr (ev, y), d1)" "as_audit st1 = as_audit st @ [ev]"
      by (auto simp: auditedTx_def split: option.splits sum.splits prod.splits)
    from m(1) have d: "DeleteRole (lo_le (ad_locale ad)) (cl_tenant c) i (as_db st) = (Inr y, d1)"
      by (auto simp: delete_role_tx_def split: sum.splits prod.splits)
    have "deletion_recorded (cl_tenant c) i n m (as_db st) ev"
      using m(1) d deleted_keys [OF d] by (auto simp: delete_role_tx_def server_event_def deletion_recorded_def g)
    with m(2) show ?thesis by blast
  qed
qed

text \<open>
  C18. Deleting a role takes everything it granted and nothing else: from sound tables, a deletion that
  succeeds leaves no row that mentions the role (the role, its entitlements, grants, keys, metered
  usage and quota) and every other row as it was. The two counts it reports are the numbers of
  entitlements and of artifact grants removed; its one audit row repeats both, counts the keys of the
  role and names every one of them; and every key is handed to the clean-up of the identity provider,
  whether that succeeds or not.
\<close>

theorem role_delete_revokes:
  assumes "administered quiet (as_db st)" "grants_linked (as_db st)"
    and "handleDeleteRole ad env (Some c) i st = (Reply k (n, m), clients, st1)"
  shows "as_db st1 = (as_db st)\<lparr>db_roles := filter (\<lambda>r. ro_id r \<noteq> i) (db_roles (as_db st)),
       db_entitlements := filter (\<lambda>e. en_role e \<noteq> i) (db_entitlements (as_db st)),
       db_grants := filter (\<lambda>g. ag_role g \<noteq> i) (db_grants (as_db st)),
       db_vkeys := filter (\<lambda>k. vk_role k \<noteq> i) (db_vkeys (as_db st)),
       db_usage := filter (\<lambda>u. us_role u \<noteq> i) (db_usage (as_db st)),
       db_quotas := filter (\<lambda>q. qu_role q \<noteq> i) (db_quotas (as_db st))\<rparr> \<and>
    n + length (db_entitlements (as_db st1)) = length (db_entitlements (as_db st)) \<and>
    m + length (db_grants (as_db st1)) = length (db_grants (as_db st)) \<and>
    (\<exists>ev. as_audit st1 = as_audit st @ [ev] \<and> deletion_recorded (cl_tenant c) i n m (as_db st) ev) \<and>
    set (map fst clients) = vk_client ` {k \<in> set (db_vkeys (as_db st)). vk_tenant k = cl_tenant c \<and> vk_role k = i}"
  using assms(3)
proof (cases rule: role_deleted)
  case (1 gr)
  have l: "linked (as_db st)" using administered_inv [OF assms(1)] by blast
  from DeleteRole_Inr(2) [OF 1(3)] obtain r where r: "List.find (role_at (cl_tenant c) i) (db_roles (as_db st)) = Some r" by blast
  then have r': "r \<in> set (db_roles (as_db st))" "ro_id r = i" "ro_tenant r = cl_tenant c" by (auto simp: find_Some_iff role_at_def)
  have "role_at (cl_tenant c) i x \<longleftrightarrow> ro_id x = i" if "x \<in> set (db_roles (as_db st))" for x
    using same_row [of ro_id "db_roles (as_db st)" x r] l that r' by (auto simp: linked_def role_at_def)
  then have roles: "filter (\<lambda>x. \<not> role_at (cl_tenant c) i x) (db_roles (as_db st)) = filter (\<lambda>x. ro_id x \<noteq> i) (db_roles (as_db st))"
    by (intro filter_cong) auto
  have "n = length (filter (\<lambda>e. en_role e = i) (db_entitlements (as_db st)))" using deleted_count [OF l 1(3)] 1(1) by simp
  then have n: "n + length (filter (\<lambda>e. en_role e \<noteq> i) (db_entitlements (as_db st))) = length (db_entitlements (as_db st))"
    using sum_length_filter_compl [of "\<lambda>e. en_role e = i" "db_entitlements (as_db st)"] by simp
  have "m = length (filter (\<lambda>g. ag_role g = i) (db_grants (as_db st)))" using deleted_artifact_count [OF l assms(2) 1(3)] 1(1) by simp
  then have m: "m + length (filter (\<lambda>g. ag_role g \<noteq> i) (db_grants (as_db st))) = length (db_grants (as_db st))"
    using sum_length_filter_compl [of "\<lambda>g. ag_role g = i" "db_grants (as_db st)"] by simp
  have cl: "set (map fst clients) = vk_client ` {k \<in> set (db_vkeys (as_db st)). vk_tenant k = cl_tenant c \<and> vk_role k = i}"
    unfolding 1(2) set_map [symmetric] cleanup_clients by (rule cleanup_keys [OF 1(3)])
  show ?thesis using n m cl deletion_audited [OF assms(3)] by (simp add: 1(4) drop_role_def roles)
qed

subsection \<open>The deletion reaches the gateway\<close>

text \<open>
  C2. Revocation takes effect. When an administrator deletes a role and the database accepts the
  notification, the nudge for the tenant goes out with the commit; a gateway that receives it keeps
  no session of that tenant, whatever its age; and a session built from the tables from then on, for
  any token, holds no entitlement of the role and owns a slug only for a server another role grants.
\<close>

theorem revocation_takes_effect:
  assumes adm: "administered quiet (as_db st)"
    and del: "handleDeleteRole ad env (Some c) i st = (Reply k g, clients, st1)" "te_notify env = None" "cl_tenant c \<noteq> []"
    and up: "\<not> sc_down cache"
    and build: "buildSession (store_env lo se x1 x2 (as_db st1)) genv de p w = (Inr sess, w1)"
  shows "as_nudges st1 = as_nudges st @ [cl_tenant c] \<and>
    (map_of (sc_m (onNotify (cl_tenant c, now) cache)) key = Some a \<longrightarrow>
       se_tenant (sc_heap (onNotify (cl_tenant c, now) cache) a) \<noteq> cl_tenant c) \<and>
    (\<forall>e \<in> set (gs_entitlements sess). en_role e \<noteq> i) \<and>
    (map_of (gs_slugs sess) slug = Some server \<longrightarrow>
       (\<exists>e \<in> set (db_entitlements (as_db st)). en_server e = server \<and> en_role e \<noteq> i))"
  using del(1)
proof (cases rule: role_deleted)
  case (1 gr)
  have nudged: "as_nudges st1 = as_nudges st @ [cl_tenant c]" using 1(5) del(2) by (simp add: committed_def)
  have gone: "se_tenant (sc_heap (onNotify (cl_tenant c, now) cache) a) \<noteq> cl_tenant c"
    if "map_of (sc_m (onNotify (cl_tenant c, now) cache)) key = Some a"
    using tenant_dropped [OF up] that del(3) by (simp add: onNotify_def)
  from build obtain ri :: resolved_identity where ents: "gs_entitlements sess = ListEntitlementsByRoles (ri_tenant ri) (ri_roles ri) (as_db st1)"
    by (rule built_from_tables) blast
  then have kept: "set (gs_entitlements sess) \<subseteq> {e \<in> set (db_entitlements (as_db st)). en_role e \<noteq> i}"
    by (auto simp: ListEntitlementsByRoles_def 1(4) drop_role_def split: if_splits)
  have "\<exists>e \<in> set (gs_entitlements sess). en_server e = server" if "map_of (gs_slugs sess) slug = Some server"
  proof -
    from built_servers [OF build] obtain servers where s: "be_servers (store_env lo se x1 x2 (as_db st1)) (gs_tenant sess) = Inr servers" ..
    have "map_option ms_id (List.find (\<lambda>c. servable de c \<and> Slugify (ms_name c) = slug)
        (build_candidates (VisibleServerIDs (gs_entitlements sess)) servers)) = Some server"
      using slug_owner [OF build s, of slug] that by simp
    then obtain m where
      m: "List.find (\<lambda>c. servable de c \<and> Slugify (ms_name c) = slug) (build_candidates (VisibleServerIDs (gs_entitlements sess)) servers)
        = Some m" "ms_id m = server" by auto
    then have "m \<in> set (build_candidates (VisibleServerIDs (gs_entitlements sess)) servers)" by (auto simp: find_Some_iff)
    with m(2) show ?thesis by (auto simp: build_candidates_def VisibleServerIDs_def)
  qed
  with nudged gone kept show ?thesis by blast
qed

subsection \<open>An office without its role\<close>

text \<open>The office of the invariants loses its role, and its gateway the session it held.\<close>

definition seats :: seat_env where
  "seats = \<lparr>sn_tenant_name = ''default'', sn_limit = communitySeatLimit, sn_contact = DefaultContactEmail, sn_now = 0,
     sn_user = ''u'', sn_tenant = ''t''\<rparr>"

lemma office_delete:
  "\<exists>st1. handleDeleteRole office_admin calm boss ''r'' office = (Reply 200 (1, 0), [], st1) \<and>
     as_db st1 = drop_role ''t'' ''r'' (as_db office)"
proof -
  have d: "DeleteRole (\<lambda>_ _. True) ''t'' ''r'' (as_db office) =
    (Inr \<lparr>rk_role = ''dev'', rk_entitlements = 1, rk_artifact_entitlements = 0, rk_servers = [''My Files''], rk_artifacts = [],
       rk_vkeys = 0, rk_clients = [], rk_cleanup = [], rk_usage_rows = 0, rk_usage_calls = 0, rk_quota = None, rk_truncated = False\<rparr>,
     drop_role ''t'' ''r'' (as_db office))"
    by (simp add: DeleteRole_def office_rows role_at_def granted_servers_def granted_artifacts_def role_vkeys_def
        readGrantNames_def MaxGrantNames_def uncapped_def dev_files_def files_server_def)
  show ?thesis
    by (simp add: handleDeleteRole_def resolved_def boss_def auditedTx_def calm_def delete_role_tx_def d
        deleteRoleKeycloakClients_def office_admin_def)
qed

text \<open>The office with an artifact, granted to its role, and a key of the role.\<close>

definition granting_office :: api_state where
  "granting_office = office\<lparr>as_db := (as_db office)\<lparr>db_artifacts := [(blank_row ''t'' ''a'')\<lparr>ar_type := ''skill'', ar_name := ''lint''\<rparr>],
     db_grants := [\<lparr>ag_id = ''g'', ag_tenant = ''t'', ag_role = ''r'', ag_artifact = ''a''\<rparr>]\<rparr>\<rparr>"

lemma granting_office_ok: "administered quiet (as_db granting_office)" "grants_linked (as_db granting_office)"
  by (rule administered.other [OF office_administered])
    (simp_all add: granting_office_def grants_linked_def exists_defs ArtifactExistsInTenant_def addressed_def office_rows blank_row_def)

lemma granting_office_delete:
  "\<exists>st1. handleDeleteRole office_admin calm boss ''r'' granting_office = (Reply 200 (1, 1), [], st1)"
proof -
  have d: "DeleteRole (\<lambda>_ _. True) ''t'' ''r'' (as_db granting_office) =
    (Inr \<lparr>rk_role = ''dev'', rk_entitlements = 1, rk_artifact_entitlements = 1, rk_servers = [''My Files''], rk_artifacts = [''lint''],
       rk_vkeys = 0, rk_clients = [], rk_cleanup = [], rk_usage_rows = 0, rk_usage_calls = 0, rk_quota = None, rk_truncated = False\<rparr>,
     drop_role ''t'' ''r'' (as_db granting_office))"
    by (simp add: DeleteRole_def granting_office_def office_rows role_at_def granted_servers_def granted_artifacts_def role_vkeys_def
        readGrantNames_def MaxGrantNames_def uncapped_def dev_files_def files_server_def blank_row_def)
  show ?thesis
    by (simp add: handleDeleteRole_def resolved_def boss_def auditedTx_def calm_def delete_role_tx_def d
        deleteRoleKeycloakClients_def office_admin_def)
qed

theorem role_delete_revokes_witness:
  "\<exists>st1 ev. handleDeleteRole office_admin calm boss ''r'' granting_office = (Reply 200 (1, 1), [], st1) \<and>
     db_entitlements (as_db st1) = [] \<and> db_grants (as_db st1) = [] \<and> db_servers (as_db st1) = [files_server] \<and>
     as_audit st1 = as_audit granting_office @ [ev] \<and>
     map_of (ae_metadata ev) ''artifactEntitlementsRevoked'' = Some (MInt 1)"
proof -
  obtain st1 where h: "handleDeleteRole office_admin calm boss ''r'' granting_office = (Reply 200 (1, 1), [], st1)"
    using granting_office_delete by blast
  from role_delete_revokes [OF granting_office_ok h [unfolded boss_def]] h show ?thesis
    by (auto simp: granting_office_def office_rows dev_files_def deletion_recorded_def)
qed

theorem revocation_takes_effect_witness:
  "\<exists>st1 sess w1. handleDeleteRole office_admin calm boss ''r'' office = (Reply 200 (1, 0), [], st1) \<and>
     as_nudges st1 = as_nudges office @ [''t''] \<and>
     map_of (sc_m (onNotify (''t'', 12) warm)) ''u'' = None \<and>
     buildSession (store_env (ad_locale office_admin) seats (\<lambda>_. []) (\<lambda>_. []) (as_db st1)) echo_env (files_dial False) anna still_world =
       (Inr sess, w1) \<and> gs_entitlements sess = []"
proof -
  obtain st1 where h: "handleDeleteRole office_admin calm boss ''r'' office = (Reply 200 (1, 0), [], st1)"
    and d: "as_db st1 = drop_role ''t'' ''r'' (as_db office)" using office_delete by blast
  have e: "db_entitlements (as_db st1) = []" "db_users (as_db st1) = []" "db_tenants (as_db st1) = []"
    by (simp_all add: d drop_role_def office_rows dev_files_def)
  let ?be = "store_env (ad_locale office_admin) seats (\<lambda>_. []) (\<lambda>_. []) (as_db st1)"
  have "\<exists>sess w1. buildSession ?be echo_env (files_dial False) anna still_world = (Inr sess, w1)"
  proof -
    have "\<exists>rc. build_identity ?be anna = Inr (rc, [], None)"
      by (simp add: build_identity_def store_env_def resolveVirtualKey_def resolve_principal_def seats_def anna_def e
          GetOrCreateTenantByName_def CreateTenant_def checkDeactivated_def GetUserBySubject_def checkSeatCap_def
          CountActiveUsers_def communitySeatLimit_def UpsertUser_def upsert_row_def new_user_def Let_def)
    then obtain rc where "build_identity ?be anna = Inr (rc, [], None)" ..
    moreover have "\<exists>ms. be_servers ?be t = Inr ms" for t
      by (simp add: store_env_def ListMCPServersByTenant_def ListMCPServersPage_def mcpServerPageSQL_def keysetTail_def
          cursor_error_def split: prod.split)
    then obtain ms where "be_servers ?be (rc_tenant rc) = Inr ms" ..
    moreover have "be_entitlements ?be x y = Inr []" for x y by (simp add: store_env_def ListEntitlementsByRoles_def e)
    ultimately show ?thesis
      by (simp add: buildSession_def Let_def VisibleServerIDs_def build_candidates_def)
  qed
  then obtain sess w1 where b: "buildSession ?be echo_env (files_dial False) anna still_world = (Inr sess, w1)" by blast
  have up: "\<not> sc_down warm" by (simp add: warm_eval)
  have n: "te_notify calm = None" by (simp add: calm_def)
  have r: "handleDeleteRole office_admin calm (Some \<lparr>cl_tenant = ''t'', cl_roles = [], cl_subject = ''boss''\<rparr>) ''r'' office =
      (Reply 200 (1, 0), [], st1)" using h by (simp add: boss_def)
  have x: "cl_tenant \<lparr>cl_tenant = ''t'', cl_roles = [], cl_subject = ''boss''\<rparr> \<noteq> []" by simp
  note effect = revocation_takes_effect [OF office_administered r n x up b, where now = 12 and key = "''u''"]
  have t: "se_tenant (sc_heap (onNotify (''t'', 12) warm) a) = se_tenant (sc_heap warm a)" for a
    by (simp add: onNotify_def invalidateTenant_def Let_def)
  have "se_tenant (sc_heap warm a) = ''t''" for a by (simp add: warm_eval)
  then have g: "map_of (sc_m (onNotify (''t'', 12) warm)) ''u'' = None" using effect t by (cases "map_of (sc_m (onNotify (''t'', 12) warm)) ''u''") auto
  from b obtain ri :: resolved_identity where "gs_entitlements sess = ListEntitlementsByRoles (ri_tenant ri) (ri_roles ri) (as_db st1)"
    by (rule built_from_tables) blast
  then have "gs_entitlements sess = []" by (simp add: ListEntitlementsByRoles_def e)
  with effect h b g show ?thesis by auto
qed

end
