(* ===== verification/RoleListing.thy ===== *)
theory RoleListing
  imports AccessProofs
begin

text \<open>
  Walking the list of roles page by page, and the version a new entitlement is returned with.
\<close>

lemma q_get_other: "k \<noteq> ''cursor'' \<Longrightarrow> q_get ((''cursor'', c) # q) k = q_get q k"
  by (simp add: q_get_def)

lemma page_limit_cursor: "page_limit a b ((''cursor'', c) # q) = page_limit a b q"
  by (simp add: page_limit_def q_get_other)

lemma sort_cursor: "sortOrderParams ((''cursor'', c) # q) w = sortOrderParams q w"
  by (simp add: sortOrderParams_def q_get_other)

lemma limit_positive: "page_limit defaultListLimit maxListLimit q = Inr l \<Longrightarrow> 0 < l"
  by (auto simp: page_limit_def defaultListLimit_def maxListLimit_def split: if_splits option.splits)

lemma rolePage_ok: "cursor_error ''role'' roleKeys desc cursor = None \<Longrightarrow>
  ListRolesPage lo t cursor limit desc search d = Inr (page_select (lo_lt lo) role_key desc cursor limit
    (filter (\<lambda>r. ro_tenant r = t \<and> search_matches (lo_fold lo) search (ro_name r)) (db_roles d)))"
  by (simp add: ListRolesPage_def rolePageSQL_def keysetTail_def Let_def split: prod.split)

definition role_rows :: "locale_env \<Rightarrow> string \<Rightarrow> query \<Rightarrow> db \<Rightarrow> role_row list" where
  "role_rows lo t q d = filter (\<lambda>r. ro_tenant r = t \<and> search_matches (lo_fold lo) (searchParam q) (ro_name r)) (db_roles d)"

text \<open>One request of the walk: everything but the cursor is fixed.\<close>

definition ask_roles :: "admin_env \<Rightarrow> caller \<Rightarrow> query \<Rightarrow> db \<Rightarrow> string \<Rightarrow> (role_row list \<times> nat \<times> string) reply" where
  "ask_roles ad c q d cursor = handleListRoles ad (Some c) ((''cursor'', cursor) # q) d"

lemma directed_order: "keyset_order lt \<Longrightarrow> keyset_order (directed desc lt)"
  by (cases desc) (auto simp: directed_def keyset_order_def)

lemma role_page:
  assumes o: "keyset_order (lo_lt (ad_locale ad))"
    and j: "\<And>xs. jc_dec (ad_json ad) (jc_enc (ad_json ad) xs) = Some xs" "jc_dec (ad_json ad) [] = None"
    and rows: "distinct (map role_key (role_rows (ad_locale ad) (cl_tenant c) q d))"
      "\<And>r. r \<in> set (db_roles d) \<Longrightarrow> uuidRe (ro_id r) \<and> CHR 0x00 \<notin> set (ro_name r)"
    and q: "page_limit defaultListLimit maxListLimit q = Inr limit" "sortOrderParams q ''name'' = Inr desc"
    and ord: "order_rows (directed desc (lo_lt (ad_locale ad))) role_key (role_rows (ad_locale ad) (cl_tenant c) q d) = pre @ rest"
    and cur: "if pre = [] then cursor = [] else cursor = encodeListCursor (ad_json ad) (RoleCursor (last pre) desc)"
  shows "ask_roles ad c q d cursor = Reply 200 (take limit rest, limit,
    if length (take limit rest) = limit then encodeListCursor (ad_json ad) (RoleCursor (last (take limit rest)) desc) else [])"
proof -
  let ?q = "(''cursor'', cursor) # q" and ?rows = "role_rows (ad_locale ad) (cl_tenant c) q d"
    and ?lt = "directed desc (lo_lt (ad_locale ad))"
  have l: "0 < limit" by (rule limit_positive [OF q(1)])
  have ql: "page_limit defaultListLimit maxListLimit ?q = Inr limit" using q(1) by (simp add: page_limit_cursor)
  have qs: "sortOrderParams ?q ''name'' = Inr desc" using q(2) by (simp add: sort_cursor)
  have sr: "searchParam ?q = searchParam q" by (simp add: searchParam_def q_get_other)
  have qc: "q_get ?q ''cursor'' = cursor" by (simp add: q_get_def)
  obtain cc where pp: "pageParams (ad_json ad) ?q defaultListLimit maxListLimit [CursorText] = Inr (limit, cc)"
    and sel: "cursor_error ''role'' roleKeys desc cc = None"
      "page_select (lo_lt (ad_locale ad)) role_key desc cc limit ?rows = take limit rest"
  proof (cases "pre = []")
    case True
    then have "pageParams (ad_json ad) ?q defaultListLimit maxListLimit [CursorText] = Inr (limit, None)"
      using cur ql qc by (simp add: pageParams_def)
    moreover have "page_select (lo_lt (ad_locale ad)) role_key desc None limit ?rows = take limit rest"
      using ord True l by (simp add: page_select_def)
    ultimately show ?thesis using that by (simp add: cursor_error_def)
  next
    case False
    let ?r = "last pre"
    have pr: "pre = butlast pre @ [?r]" using False by simp
    have "?r \<in> set (order_rows ?lt role_key ?rows)" using ord False by simp
    then have r: "?r \<in> set (db_roles d)"
      unfolding keyset_order.set_order [OF directed_order [OF o]] by (simp add: role_rows_def)
    have rt: "decodeListCursor (ad_json ad) cursor [CursorText] = Inr (RoleCursor ?r desc)"
      using cur False rows(2) [OF r] by (simp add: cursor_roundtrip [OF j(1)] RoleCursor_def key_shaped_def)
    have "cursor \<noteq> []" using cur False encoded_not_empty [OF j(1) j(2)] by (simp add: encodeListCursor_def)
    then have pp: "pageParams (ad_json ad) ?q defaultListLimit maxListLimit [CursorText] = Inr (limit, Some (RoleCursor ?r desc))"
      using ql qc rt by (simp add: pageParams_def)
    have "order_rows ?lt role_key ?rows = butlast pre @ ?r # rest" using ord pr by (metis append.assoc append_Cons append_Nil)
    from keyset_order.rows_after [OF directed_order [OF o] rows(1) this]
    have "page_select (lo_lt (ad_locale ad)) role_key desc (Some (RoleCursor ?r desc)) limit ?rows = take limit rest"
      using l by (simp add: page_select_def RoleCursor_def role_key_def)
    then show ?thesis using that [OF pp] by (simp add: cursor_error_def RoleCursor_def roleKeys_def)
  qed
  have "ListRolesPage (ad_locale ad) (cl_tenant c) cc limit desc (searchParam q) d = Inr (take limit rest)"
    using rolePage_ok [OF sel(1)] sel(2) by (simp add: role_rows_def)
  then show ?thesis
    using pp qs l by (auto simp: ask_roles_def handleListRoles_def resolved_def list_reply_def sr next_cursor_def)
qed

text \<open>
  C26. A client that follows \<^verbatim>\<open>nextCursor\<close> sees every role once. Whatever page size, direction and
  search it asks for, a walk that starts without a cursor ends after at most one request more than
  there are matching roles, and has then collected exactly the matching roles of the tenant, in the
  order of the list. (The database's order on names and identifiers is strict and total, JSON decodes
  what it encodes, identifiers are UUIDs and names hold no NUL byte, which the columns ensure.)
\<close>

theorem role_walk_complete:
  assumes "keyset_order (lo_lt (ad_locale ad))"
    and "\<And>xs. jc_dec (ad_json ad) (jc_enc (ad_json ad) xs) = Some xs" "jc_dec (ad_json ad) [] = None"
    and "distinct (map ro_id (db_roles d))" "\<And>r. r \<in> set (db_roles d) \<Longrightarrow> uuidRe (ro_id r) \<and> CHR 0x00 \<notin> set (ro_name r)"
    and "page_limit defaultListLimit maxListLimit q = Inr limit" "sortOrderParams q ''name'' = Inr desc"
  shows "\<exists>rows. follow (Suc (length (role_rows (ad_locale ad) (cl_tenant c) q d))) (ask_roles ad c q d) [] = Some rows \<and>
    set rows = set (role_rows (ad_locale ad) (cl_tenant c) q d) \<and>
    sorted_wrt (\<lambda>a b. directed desc (lo_lt (ad_locale ad)) (role_key a) (role_key b)) rows"
proof -
  let ?rows = "role_rows (ad_locale ad) (cl_tenant c) q d" and ?lt = "directed desc (lo_lt (ad_locale ad))"
  let ?ord = "order_rows ?lt role_key ?rows"
  note o = directed_order [OF assms(1), of desc]
  have "distinct (map ro_id ?rows)" using assms(4) by (simp add: role_rows_def distinct_map_filter)
  then have d: "distinct (map role_key ?rows)"
    by (auto simp: distinct_map role_key_def inj_on_def)
  have ne: "encodeListCursor (ad_json ad) (RoleCursor r desc) \<noteq> []" for r
    using encoded_not_empty [OF assms(2,3)] by (simp add: encodeListCursor_def)
  have f: "follow (Suc (length ?rows)) (ask_roles ad c q d) [] = Some ?ord"
  proof (rule follow_suffix [where mk = "\<lambda>r. encodeListCursor (ad_json ad) (RoleCursor r desc)" and pre = "[]"
        and ordered = ?ord and limit = limit])
    show "ask_roles ad c q d cur = Reply 200 (take limit rest, limit,
        if length (take limit rest) = limit then encodeListCursor (ad_json ad) (RoleCursor (last (take limit rest)) desc) else [])"
      if "?ord = pre @ rest" "if pre = [] then cur = [] else cur = encodeListCursor (ad_json ad) (RoleCursor (last pre) desc)"
      for pre rest cur
      by (rule role_page [OF assms(1-3) d assms(5-7) that])
  qed (simp_all add: length_order ne limit_positive [OF assms(6)])
  show ?thesis
    by (intro exI [of _ ?ord] conjI f keyset_order.set_order [OF o] keyset_order.order_strict [OF o d])
qed

text \<open>A codec that satisfies the laws: every character is flagged, every string closed.\<close>

fun flag_enc :: "string list \<Rightarrow> string" where
  "flag_enc [] = []"
| "flag_enc ([] # xs) = CHR ''0'' # flag_enc xs"
| "flag_enc ((c # s) # xs) = CHR ''1'' # c # flag_enc (s # xs)"

fun flag_dec :: "string \<Rightarrow> string list option" where
  "flag_dec [] = Some []"
| "flag_dec [x] = (if x = CHR ''0'' then Some [[]] else None)"
| "flag_dec (x # c # r) =
     (if x = CHR ''0'' then map_option (Cons []) (flag_dec (c # r))
      else (case flag_dec r of Some (s # xs) \<Rightarrow> Some ((c # s) # xs) | _ \<Rightarrow> None))"

lemma flag_dec_zero: "flag_dec (CHR ''0'' # r) = map_option (Cons []) (flag_dec r)"
  by (cases r) simp_all

lemma flag_dec_enc: "flag_dec (flag_enc xs) = Some xs"
proof (induction xs rule: flag_enc.induct)
  case (2 xs)
  then show ?case by (simp add: flag_dec_zero)
next
  case (3 c s xs)
  then show ?case by simp
qed simp

definition flag_codec :: json_codec where
  "flag_codec = \<lparr>jc_enc = (\<lambda>xs. CHR ''j'' # flag_enc xs), jc_dec = (\<lambda>b. case b of [] \<Rightarrow> None | _ # r \<Rightarrow> flag_dec r)\<rparr>"

definition lister :: admin_env where
  "lister = \<lparr>ad_locale = \<lparr>lo_lt = bytewise_lt, lo_le = (\<lambda>_ _. True), lo_fold = id\<rparr>, ad_json = flag_codec, ad_servers = 0,
     ad_roles = 0, ad_contact = [], ad_parse_url = (\<lambda>_. None), ad_secrets = [], ad_roleExists = None, ad_dcrDelete = None\<rparr>"

definition two_roles :: db where
  "two_roles = \<lparr>db_artifacts = [], db_revisions = [], db_grants = [],
     db_roles = [\<lparr>ro_id = ''00000000-0000-0000-0000-000000000001'', ro_tenant = ''t'', ro_name = ''ops'', ro_row_version = 1\<rparr>,
       \<lparr>ro_id = ''00000000-0000-0000-0000-000000000002'', ro_tenant = ''t'', ro_name = ''dev'', ro_row_version = 1\<rparr>],
     db_servers = [], db_entitlements = [], db_vkeys = [], db_usage = [], db_quotas = [], db_tenants = [], db_users = []\<rparr>"

lemma strict_distinct: "(\<And>x. \<not> lt (k x) (k x)) \<Longrightarrow> sorted_wrt (\<lambda>a b. lt (k a) (k b)) xs \<Longrightarrow> distinct xs"
  by (induction xs) auto

theorem role_walk_complete_witness:
  "\<exists>rows. follow 3 (ask_roles lister \<lparr>cl_tenant = ''t'', cl_roles = [], cl_subject = []\<rparr> [(''limit'', ''1''), (''order'', ''desc'')] two_roles) [] =
     Some rows \<and> map ro_name rows \<in> {[''dev'', ''ops''], [''ops'', ''dev'']}"
proof -
  let ?c = "\<lparr>cl_tenant = ''t'', cl_roles = [], cl_subject = []\<rparr>" and ?q = "[(''limit'', ''1''), (''order'', ''desc'')]"
  have k: "keyset_order (lo_lt (ad_locale lister))" by (simp add: lister_def bytewise.keyset_order_axioms)
  have j: "jc_dec (ad_json lister) (jc_enc (ad_json lister) xs) = Some xs" "jc_dec (ad_json lister) [] = None" for xs
    by (simp_all add: lister_def flag_codec_def flag_dec_enc)
  have u: "uuidRe ''00000000-0000-0000-0000-000000000001''" "uuidRe ''00000000-0000-0000-0000-000000000002''" by code_simp+
  have r: "distinct (map ro_id (db_roles two_roles))" by (simp add: two_roles_def)
  have n: "uuidRe (ro_id r) \<and> CHR 0x00 \<notin> set (ro_name r)" if "r \<in> set (db_roles two_roles)" for r
    using that u by (auto simp: two_roles_def)
  have q: "page_limit defaultListLimit maxListLimit ?q = Inr 1" "sortOrderParams ?q ''name'' = Inr True" by code_simp+
  have rows: "role_rows (ad_locale lister) (cl_tenant ?c) ?q two_roles = db_roles two_roles"
    by (simp add: role_rows_def two_roles_def searchParam_def q_get_def search_matches_def likeSearchArg_def)
  have l: "length (db_roles two_roles) = 2" by (simp add: two_roles_def)
  from role_walk_complete [OF k j r n q, of ?c] obtain out where
    o: "follow 3 (ask_roles lister ?c ?q two_roles) [] = Some out" "set out = set (db_roles two_roles)"
      "sorted_wrt (\<lambda>a b. directed True (lo_lt (ad_locale lister)) (role_key a) (role_key b)) out"
    unfolding rows l by (auto simp: numeral_3_eq_3)
  have "distinct out"
    by (rule strict_distinct [where lt = "directed True (lo_lt (ad_locale lister))" and k = role_key])
      (use o(3) keyset_order.irrefl [OF directed_order [OF k]] in blast)+
  then have "length out = 2" using o(2) distinct_card [of out] by (simp add: two_roles_def)
  then obtain a b where ab: "out = [a, b]" by (auto simp: length_Suc_conv numeral_2_eq_2)
  obtain r1 r2 where rs: "db_roles two_roles = [r1, r2]" "ro_name r1 = ''ops''" "ro_name r2 = ''dev''"
    by (simp add: two_roles_def)
  have "{a, b} = {r1, r2}" using o(2) by (simp add: ab rs(1))
  then have "(a = r1 \<and> b = r2) \<or> (a = r2 \<and> b = r1)" by (simp add: doubleton_eq_iff)
  then have "map ro_name out \<in> {[''dev'', ''ops''], [''ops'', ''dev'']}" by (elim disjE) (simp_all add: ab rs)
  with o(1) show ?thesis by (intro exI [of _ out] conjI)
qed

subsection \<open>The version of a new entitlement\<close>

lemma ifMatch_zero: "\<exists>m. ifMatch (etag 0) = Inl (ValidationError m)"
proof -
  have "case ifMatch (etag 0) of Inl (ValidationError m) \<Rightarrow> True | _ \<Rightarrow> False" by code_simp
  then show ?thesis by (auto split: sum.splits api_error.splits)
qed

text \<open>
  The reply to a creation of an entitlement carries the version 0, whatever the request: the
  statement returns the identifier only. The stored row has version 1, so an update that echoes the
  version of the reply is refused, as malformed since 0 is no version at all.
\<close>

theorem created_entitlement_unversioned:
  assumes "handleCreateEntitlement env i ctx body st = (Reply 201 (Some (dto, tag)), st1)"
  shows "ed_rowVersion dto = 0 \<and> tag = None \<and>
    (\<exists>e. db_entitlements (as_db st1) = db_entitlements (as_db st) @ [e] \<and> en_id e = ed_id dto \<and> en_row_version e = 1) \<and>
    (\<exists>m. ifMatch (etag (ed_rowVersion dto)) = Inl (ValidationError m))"
proof -
  obtain c where c: "ctx = Some c" using assms by (cases ctx) (auto simp: handleCreateEntitlement_def resolved_def)
  obtain inp where b: "body = Body inp"
    using assms by (cases body) (auto simp: handleCreateEntitlement_def resolved_def c decodeJSONOrFail_def)
  have ne: "ei_role inp \<noteq> []" "ei_server inp \<noteq> []"
    using assms by (auto simp: handleCreateEntitlement_def resolved_def c decodeJSONOrFail_def b split: if_splits)
  obtain x s1 where t: "auditedTx env (create_entitlement_tx c i inp) st = (x, s1)" by fastforce
  have h: "(case x of Inl e \<Rightarrow> (api_fail e, s1) | Inr e \<Rightarrow> (Reply 201 (Some (toEntitlementDTO e, None)), s1)) =
      (Reply 201 (Some (dto, tag)), st1)"
    using assms ne by (simp add: handleCreateEntitlement_def resolved_def c decodeJSONOrFail_def b t split: sum.splits)
  then obtain e where e: "x = Inr e" "dto = toEntitlementDTO e" "tag = None" "s1 = st1"
    by (cases x) (auto simp: fail_no_success)
  from auditedTx_Inr [OF t [unfolded e]] obtain ev where m: "create_entitlement_tx c i inp (as_db st) = (Inr (ev, e), as_db st1)" by blast
  then obtain old where o: "CreateEntitlement i old (as_db st) = (Inr e, as_db st1)" and v: "en_row_version old = 0"
    by (auto simp: create_entitlement_tx_def split: if_splits sum.splits prod.splits)
  then have "e = old\<lparr>en_id := i\<rparr>" "as_db st1 = (as_db st)\<lparr>db_entitlements := db_entitlements (as_db st) @
      [old\<lparr>en_id := i, en_row_version := 1\<rparr>]\<rparr>"
    by (auto simp: CreateEntitlement_def split: if_splits)
  with v have "en_row_version e = 0 \<and> (\<exists>r. db_entitlements (as_db st1) = db_entitlements (as_db st) @ [r] \<and> en_id r = en_id e \<and>
      en_row_version r = 1)" by simp
  with ifMatch_zero e show ?thesis by (simp add: toEntitlementDTO_def)
qed

end
