(* ===== verification/Catalog.thy ===== *)
theory Catalog
  imports Identity
begin

text \<open>
  What a caller is shown: the catalogue of servers (\<open>internal/api/catalog.go\<close>) and the identity
  with the edition's features (\<open>me.go\<close>).
\<close>

record serverDTO =
  cd_id :: string
  cd_name :: string
  cd_description :: string
  cd_transport :: string
  cd_version :: string
  cd_protocol :: string
  cd_status :: string
  cd_tools :: "string list option"

definition toServerDTO :: "mcp_server \<Rightarrow> serverDTO" where
  "toServerDTO m = \<lparr>cd_id = ms_id m, cd_name = ms_name m, cd_description = ms_description m, cd_transport = ms_transport m,
     cd_version = ms_version m, cd_protocol = ms_protocol m, cd_status = ms_status m, cd_tools = None\<rparr>"

text \<open>\<open>append(s, xs...)\<close>: the nil slice stays nil when nothing is appended.\<close>

definition append_slice :: "'a list option \<Rightarrow> 'a list \<Rightarrow> 'a list option" where
  "append_slice s xs = (case s of None \<Rightarrow> if xs = [] then None else Some xs | Some ys \<Rightarrow> Some (ys @ xs))"

text \<open>
  The loop over the entitlements: the tools gathered for each server, an absent key reading as the
  nil slice, and the servers of which one entitlement allows every tool.
\<close>

fun gather_tools ::
  "entitlement list \<Rightarrow> (string \<Rightarrow> string list option) \<Rightarrow> string set \<Rightarrow> (string \<Rightarrow> string list option) \<times> string set" where
  "gather_tools [] tools allTools = (tools, allTools)"
| "gather_tools (e # ents) tools allTools =
     (case en_tools e of
        None \<Rightarrow> gather_tools ents tools (insert (en_server e) allTools)
      | Some ts \<Rightarrow> gather_tools ents (tools(en_server e := append_slice (tools (en_server e)) ts)) allTools)"

definition catalog_entries :: "entitlement list \<Rightarrow> mcp_server list \<Rightarrow> serverDTO list" where
  "catalog_entries ents servers =
     (case gather_tools ents (\<lambda>_. None) {} of (tools, allTools) \<Rightarrow>
        map (\<lambda>sv. (toServerDTO sv)\<lparr>cd_tools := (if ms_id sv \<in> allTools then None else tools (ms_id sv))\<rparr>)
          (filter (\<lambda>sv. ms_status sv = ''active'' \<and> ms_id sv \<in> VisibleServerIDs ents) servers))"

definition handleCatalog ::
  "locale_env \<Rightarrow> tx_env \<Rightarrow> caller option \<Rightarrow> api_state \<Rightarrow> serverDTO list reply \<times> api_state" where
  "handleCatalog lo env ctx st =
     (case resolved ctx of Inl r \<Rightarrow> (r, st) | Inr c \<Rightarrow>
      case ListMCPServersByTenant lo (cl_tenant c) (as_db st) of Inl e \<Rightarrow> (api_fail e, st) | Inr servers \<Rightarrow>
        let out = catalog_entries (ListEntitlementsByRoles (cl_tenant c) (cl_roles c) (as_db st)) servers in
        (Reply 200 out,
         logBestEffortAudit env \<lparr>ae_tenant = cl_tenant c, ae_actor = cl_subject c, ae_action = ''catalog.list'', ae_target = [],
           ae_decision = ''allow'', ae_metadata = [(''count'', MInt (int (length out)))]\<rparr> st))"

record meFeaturesDTO =
  mf_pinning :: bool
  mf_virtualKeys :: bool

record meResponseDTO =
  me_subject :: string
  me_email :: string
  me_roles :: "string list"
  me_features :: meFeaturesDTO

definition handleMe :: "bool \<Rightarrow> bool \<Rightarrow> token_principal option \<Rightarrow> meResponseDTO reply" where
  "handleMe pinning virtualKeys p =
     (let x = (case p of None \<Rightarrow> \<lparr>tp_subject = [], tp_email = [], tp_roles = []\<rparr> | Some x \<Rightarrow> x) in
      Reply 200 \<lparr>me_subject = tp_subject x, me_email = tp_email x, me_roles = tp_roles x,
        me_features = \<lparr>mf_pinning = pinning, mf_virtualKeys = virtualKeys\<rparr>\<rparr>)"

subsection \<open>The catalogue and the gateway\<close>

definition shows_tool :: "serverDTO \<Rightarrow> string \<Rightarrow> bool" where
  "shows_tool d tool \<longleftrightarrow> (case cd_tools d of None \<Rightarrow> True | Some ts \<Rightarrow> tool \<in> set ts)"

lemma append_slice_set: "set (case append_slice s xs of None \<Rightarrow> [] | Some ys \<Rightarrow> ys) = set (case s of None \<Rightarrow> [] | Some ys \<Rightarrow> ys) \<union> set xs"
  by (auto simp: append_slice_def split: option.splits)

lemma append_slice_None: "append_slice s xs = None \<longleftrightarrow> s = None \<and> xs = []"
  by (auto simp: append_slice_def split: option.splits)

lemma gather_all: "snd (gather_tools ents tools A) = A \<union> {en_server e | e. e \<in> set ents \<and> en_tools e = None}"
proof (induction ents arbitrary: tools A)
  case (Cons e ents)
  then show ?case by (cases "en_tools e") (auto simp: Cons.IH)
qed simp

lemma gather_some:
  "set (str (fst (gather_tools ents tools A) i)) =
     set (str (tools i)) \<union> {t. \<exists>e \<in> set ents. en_server e = i \<and> (\<exists>ts. en_tools e = Some ts \<and> t \<in> set ts)}"
proof (induction ents arbitrary: tools A)
  case (Cons e ents)
  show ?case
  proof (cases "en_tools e")
    case (Some ts)
    have "set (str (append_slice (tools i) ts)) = set (str (tools i)) \<union> set ts"
      using append_slice_set [of "tools i" ts] by (simp add: str_def)
    then show ?thesis by (auto simp: Cons.IH Some)
  qed (auto simp: Cons.IH)
qed simp

lemma gather_nil:
  "fst (gather_tools ents tools A) i = None \<longleftrightarrow>
     tools i = None \<and> (\<forall>e \<in> set ents. en_server e = i \<longrightarrow> en_tools e = None \<or> en_tools e = Some [])"
proof (induction ents arbitrary: tools A)
  case (Cons e ents)
  then show ?case by (cases "en_tools e") (auto simp: Cons.IH append_slice_None)
qed simp

text \<open>
  C34. The catalogue tells a caller what the gateway will allow, except in one case: an active server an
  entitlement makes visible is listed with exactly the tools the gateway authorizes, unless every
  entitlement of the server has an empty list of tools; then the gateway refuses every tool while the
  catalogue shows the absent list, which its documentation reads as all tools permitted.
\<close>

theorem catalog_tools_agree:
  assumes "d \<in> set (catalog_entries ents servers)"
  shows "shows_tool d tool \<longleftrightarrow> ToolAllowed ents (cd_id d) tool \<or>
    (\<forall>e. e \<in> set ents \<and> en_server e = cd_id d \<longrightarrow> en_tools e = Some [])"
proof -
  obtain tools A where g: "gather_tools ents (\<lambda>_. None) {} = (tools, A)" by force
  from assms obtain sv where d: "d = (toServerDTO sv)\<lparr>cd_tools := (if ms_id sv \<in> A then None else tools (ms_id sv))\<rparr>"
    and v: "ms_id sv \<in> VisibleServerIDs ents"
    by (auto simp: catalog_entries_def g)
  let ?i = "ms_id sv"
  have i: "cd_id d = ?i" by (simp add: d toServerDTO_def)
  have A: "?i \<in> A \<longleftrightarrow> (\<exists>e \<in> set ents. en_server e = ?i \<and> en_tools e = None)"
    using gather_all [of ents "\<lambda>_. None" "{}"] by (force simp: g)
  have T: "set (str (tools ?i)) = {t. \<exists>e \<in> set ents. en_server e = ?i \<and> (\<exists>ts. en_tools e = Some ts \<and> t \<in> set ts)}"
    using gather_some [of ents "\<lambda>_. None" "{}" ?i] by (simp add: g str_def)
  have N: "tools ?i = None \<longleftrightarrow> (\<forall>e \<in> set ents. en_server e = ?i \<longrightarrow> en_tools e = None \<or> en_tools e = Some [])"
    using gather_nil [of ents "\<lambda>_. None" "{}" ?i] by (simp add: g)
  have all: "ToolAllowed ents ?i tool \<longleftrightarrow> ?i \<in> A \<or> tool \<in> set (str (tools ?i))"
    unfolding ToolAllowed_iff A T en_admits_def by (auto split: option.splits)
  show ?thesis
  proof (cases "?i \<in> A")
    case True
    then show ?thesis using all by (simp add: shows_tool_def d toServerDTO_def)
  next
    case False
    then have "shows_tool d tool \<longleftrightarrow> tools ?i = None \<or> tool \<in> set (str (tools ?i))"
      by (auto simp: shows_tool_def d str_def split: option.splits)
    moreover have "tools ?i = None \<longleftrightarrow> (\<forall>e. e \<in> set ents \<and> en_server e = ?i \<longrightarrow> en_tools e = Some [])"
      using N False A by blast
    ultimately show ?thesis using all False by (simp add: i) blast
  qed
qed

definition no_tools :: entitlement where
  "no_tools = \<lparr>en_id = ''e'', en_tenant = ''t'', en_role = ''r'', en_server = ''s1'', en_tools = Some [],
     en_permissions = [], en_row_version = 1\<rparr>"

definition shown_server :: mcp_server where
  "shown_server = \<lparr>ms_id = ''s1'', ms_tenant = ''t'', ms_name = ''files'', ms_description = [], ms_transport = ''http'',
     ms_endpoint = [], ms_version = [], ms_protocol = [], ms_secret_ref = [], ms_tls_ca_ref = [],
     ms_status = ''active'', ms_row_version = 1\<rparr>"

theorem catalog_tools_agree_witness:
  "map cd_tools (catalog_entries [no_tools] [shown_server]) = [None] \<and>
   shows_tool (hd (catalog_entries [no_tools] [shown_server])) ''drop'' \<and> \<not> ToolAllowed [no_tools] ''s1'' ''drop'' \<and>
   \<not> shows_tool (hd (catalog_entries [no_tools\<lparr>en_tools := Some [''read'']\<rparr>] [shown_server])) ''drop''"
proof -
  let ?e = "no_tools\<lparr>en_tools := Some [''read'']\<rparr>"
  let ?d = "hd (catalog_entries [no_tools] [shown_server])" and ?f = "hd (catalog_entries [?e] [shown_server])"
  have c: "map cd_tools (catalog_entries [no_tools] [shown_server]) = [None]" "catalog_entries [?e] [shown_server] \<noteq> []"
    "\<not> ToolAllowed [no_tools] ''s1'' ''drop''" "\<not> ToolAllowed [?e] ''s1'' ''drop''" "cd_id ?d = ''s1''" "cd_id ?f = ''s1''"
    by (simp_all add: catalog_entries_def no_tools_def shown_server_def VisibleServerIDs_def append_slice_def toServerDTO_def
        ToolAllowed_def)
  then have m: "?d \<in> set (catalog_entries [no_tools] [shown_server])" "?f \<in> set (catalog_entries [?e] [shown_server])"
    by (metis list.set_sel(1) list.simps(8) not_Cons_self2, metis list.set_sel(1))
  have "shows_tool ?d ''drop''"
    using catalog_tools_agree [OF m(1), of "''drop''"] c by (simp add: no_tools_def)
  moreover have "\<not> shows_tool ?f ''drop''"
    using catalog_tools_agree [OF m(2), of "''drop''"] c by (simp add: no_tools_def)
  ultimately show ?thesis using c by simp
qed

end
