(* ===== verification/Spec2Isabelle.thy ===== *)
theory Spec2Isabelle
  imports PinProtocol SyncCommandProofs Semaphore SessionCacheProofs GatewayProofs ArtifactApiProofs Revocation RoleListing Catalog
begin

text \<open>
  A model of Orbeat (github.com/stefanocalabrese/orbeat-community): the sync client that writes
  governed artifacts into a developer's directories, and the decisions of the gateway and the API.
\<close>

section \<open>From the admin route to the file on disk\<close>

lemma slugRe_artifactNameRe: "slugRe s \<longleftrightarrow> artifactNameRe s"
  by (cases s) (simp_all add: slugRe_def)

lemma marker_reserved:
  assumes "k \<in> {''SEED'', ''RULES''}" "b \<in> {''BEGIN'', ''END''}"
    and "sublist (''<!--'' @ CHR '' '' # ''ORBEAT-'' @ k @ '':'' @ b @ CHR '' '' # w) s"
  shows "HasReservedMarker s"
proof -
  from assms(3) obtain u v where s: "s = u @ (''<!--'' @ CHR '' '' # ''ORBEAT-'' @ k @ '':'' @ b @ CHR '' '' # w) @ v"
    by (auto simp: sublist_def)
  have "MatchString reservedMarkerRe (u @ (''<!--'' @ CHR '' '' # ''ORBEAT-'' @ k @ '':'' @ b @ CHR '' '' # (w @ v)))"
    by (rule MatchString_occurrence) (rule reserved_here [OF assms(1,2)])
  then show ?thesis by (simp add: HasReservedMarker_def s)
qed

lemma unreserved_rules_free: "\<not> HasReservedMarker s \<Longrightarrow> rules_free s"
  using marker_reserved [of "''RULES''" "''BEGIN''" "[]" s] marker_reserved [of "''RULES''" "''END''" "''-->''" s]
  by (auto simp: rules_free_def marker_free_def contains_iff rulesBegin_def rulesEnd_def)

lemma unreserved_seed_free: "\<not> HasReservedMarker s \<Longrightarrow> seed_free name s"
  using marker_reserved [of "''SEED''" "''BEGIN''" "name @ '' ''" s] marker_reserved [of "''SEED''" "''END''" "name @ '' -->''" s]
  by (auto simp: seed_free_def marker_free_def contains_iff seedBeginRe_def seedEndRe_def)

text \<open>An unpinned entry carries the approved row as it is; a rule's content is served verbatim.\<close>

lemma served_unpinned:
  assumes "handleSyncArtifacts s env (Some c) raw d1 d2 d3 st = (Reply 200 out, st1)" "\<not> sv_pinning s" "x \<in> set out"
  obtains a where
    "a \<in> set (ListEntitledArtifacts (sv_collation s) (cl_tenant c) (cl_roles c) d1) \<union>
      set (ListActiveOrgRules (sv_collation s) (cl_tenant c) d2)"
    "sd_type x = da_type a" "sd_name x = da_name a" "sd_seed x \<in> {[], da_seed a}"
    "da_type a = ''rule'' \<Longrightarrow> sd_content x = da_content a"
proof -
  from handler_reply [OF assms(1)] assms(2) obtain payloads where
    "out = map (\<lambda>a. sync_dto s a (resolve_pin [] a) (fst (resolveSyncPayload a (resolve_pin [] a) payloads)))
      (ListEntitledArtifacts (sv_collation s) (cl_tenant c) (cl_roles c) d1 @ ListActiveOrgRules (sv_collation s) (cl_tenant c) d2)"
    by (simp only: option.inject) blast
  with assms(3) obtain a where
    a: "a \<in> set (ListEntitledArtifacts (sv_collation s) (cl_tenant c) (cl_roles c) d1) \<union>
      set (ListActiveOrgRules (sv_collation s) (cl_tenant c) d2)"
    and x: "x = sync_dto s a (resolve_pin [] a) (fst (resolveSyncPayload a (resolve_pin [] a) payloads))"
    by auto
  have "\<not> pr_served (resolve_pin [] a) < da_revision a" by (simp add: resolve_pin_def pin_of_def pinResolve_def)
  with x show thesis
    by (intro that [OF a]) (simp_all add: resolveSyncPayload_def sync_dto_def Let_def RenderArtifactContent_def)
qed

lemma served_entry_clean:
  assumes "served s roles sa" "served s roles sb" "sv_autoApprove s" "\<not> sv_pinning s"
    and "handleSyncArtifacts s env (Some c) raw (as_db sa) (as_db sb) d3 st = (Reply 200 out, st1)" "x \<in> set (map wire out)"
  shows "artifactNameRe (art_name x) \<and> (art_type x = ''rule'' \<longrightarrow> rules_free (art_content x)) \<and> seed_free name (art_memory_seed x)"
proof -
  from assms(6) obtain e where e: "e \<in> set out" "x = wire e" by auto
  from served_unpinned [OF assms(5,4) e(1)] obtain a where
    a: "a \<in> set (ListEntitledArtifacts (sv_collation s) (cl_tenant c) (cl_roles c) (as_db sa)) \<union>
      set (ListActiveOrgRules (sv_collation s) (cl_tenant c) (as_db sb))"
    and f: "sd_type e = da_type a" "sd_name e = da_name a" "sd_seed e \<in> {[], da_seed a}"
    "da_type a = ''rule'' \<Longrightarrow> sd_content e = da_content a" by metis
  have "slugRe (da_name a) \<and> \<not> HasReservedMarker (da_content a) \<and> \<not> HasReservedMarker (da_seed a)"
    using a distributed_vetted [OF assms(1,3), of a] distributed_vetted [OF assms(2,3), of a] by blast
  moreover have "seed_free name []" by (rule unreserved_seed_free) code_simp
  ultimately show ?thesis
    using f unreserved_rules_free unreserved_seed_free by (auto simp: e wire_def slugRe_artifactNameRe)
qed

text \<open>
  C1. What the admin routes admit can be enforced on disk. Take any rules out of a reply of the
  sync endpoint, whatever requests came before and between its reads: merged into any file with
  healthy markers they leave healthy markers and a second run changes nothing. Every memory seed
  served settles too: merged into any memory file, a second merge changes nothing. That the merged
  memory file has healthy markers is not claimed, and not so: hoisting a block joins the text before it
  to the text after it, which can form a marker (\<open>hoist_makes_orphan\<close> in theory SeedBlock).
\<close>

theorem served_content_settles:
  assumes "served s roles sa" "served s roles sb" "sv_autoApprove s" "\<not> sv_pinning s"
    and "handleSyncArtifacts s env (Some c) raw (as_db sa) (as_db sb) d3 st = (Reply 200 out, st1)"
    and "set rs \<subseteq> {x \<in> set (map wire out). art_type x = ''rule''}" "rulesMarkersHealthy existing"
    and "seeded \<in> set (map wire out)"
  shows "let merged = fst (mergeRules existing (renderRulesBody rs));
      memory = fst (mergeSeed prior (art_name seeded) (art_memory_seed seeded)) in
    rulesMarkersHealthy merged \<and> mergeRules merged (renderRulesBody rs) = (merged, False, False) \<and>
    mergeSeed memory (art_name seeded) (art_memory_seed seeded) = (memory, False, False)"
proof -
  note clean = served_entry_clean [OF assms(1-5)]
  have "rules_free (renderRulesBody rs)" using assms(6) clean by (intro renderRulesBody_free) blast
  note rules = mergeRules_settles [OF assms(7) this]
  have seed: "artifactNameRe (art_name seeded)" "seed_free (art_name seeded) (art_memory_seed seeded)"
    using clean [OF assms(8)] by simp_all
  obtain memory ch re where m: "mergeSeed prior (art_name seeded) (art_memory_seed seeded) = (memory, ch, re)"
    by (metis prod_cases3)
  show ?thesis using rules mergeSeed_settles [OF seed m] by (simp add: m Let_def)
qed

theorem served_content_settles_witness:
  "\<exists>sa out st1 x merged. served demo_server [] sa \<and>
     handleSyncArtifacts demo_server quiet_env (Some demo_caller) [] (as_db sa) (as_db sa) (as_db sa) sa = (Reply 200 out, st1) \<and>
     x \<in> set (map wire out) \<and> art_name x = ''no-secrets'' \<and> art_content x = ''Keep secrets out.'' \<and>
     mergeRules [] (renderRulesBody [x]) = (merged, True, False) \<and> mergeRules merged (renderRulesBody [x]) = (merged, False, False)"
proof -
  obtain r sa where s: "serve demo_server (CreateReq quiet_env ''a1'' (Some demo_caller) (Body tiny_rule)) (start []) = (r, sa)"
    and d: "db_artifacts (as_db sa) = [demo_row]" using artifact_create_run by blast
  have sv: "served demo_server [] sa"
    using served_step [OF served_start, of demo_server "[]" "CreateReq quiet_env ''a1'' (Some demo_caller) (Body tiny_rule)"] s by simp
  have row: "ar_tenant demo_row = ''t''" "ar_app_visibility demo_row = Some ''org''" "ar_app_type demo_row = Some ''rule''"
    "ar_app_content demo_row = Some ''Keep secrets out.''" "ar_app_name demo_row = Some ''no-secrets''" by code_simp+
  let ?a = "scanDistArtifact (as_db sa) demo_row"
  have org: "ListActiveOrgRules (\<lambda>_ _. True) ''t'' (as_db sa) = [?a]"
    using row by (simp add: ListActiveOrgRules_def d order_by_def)
  let ?h = "handleSyncArtifacts demo_server quiet_env (Some demo_caller) [] (as_db sa) (as_db sa) (as_db sa) sa"
  obtain e st1 where h: "?h = (Reply 200 [e], st1)" and e: "sd_name e = ''no-secrets''" "sd_content e = ''Keep secrets out.''" "sd_type e = ''rule''"
    using row org by (auto simp: handleSyncArtifacts_def resolved_def demo_caller_def demo_server_def ListEntitledArtifacts_def
      payload_keys_def resolve_pin_def pin_of_def pinResolve_def resolveSyncPayload_def sync_dto_def Let_def RenderArtifactContent_def
      scanDistArtifact_def str_def)
  have f: "sv_autoApprove demo_server" "\<not> sv_pinning demo_server" by (simp_all add: demo_server_def)
  have "rulesMarkersHealthy []" by code_simp
  from served_content_settles [OF sv sv f h, of "[wire e]", OF _ this, of "wire e" "[]"] e
  have m: "mergeRules (fst (mergeRules [] (renderRulesBody [wire e]))) (renderRulesBody [wire e]) =
      (fst (mergeRules [] (renderRulesBody [wire e])), False, False)" by (simp add: wire_def Let_def)
  have "rulesBlockRe [] = None" by code_simp
  then have b: "mergeRules [] (renderRulesBody [wire e]) = (renderRulesBlock (renderRulesBody [wire e]), True, False)"
    by (simp add: mergeRules_def Let_def)
  show ?thesis
  proof (intro exI conjI)
    show "served demo_server [] sa" by (rule sv)
    show "?h = (Reply 200 [e], st1)" by (rule h)
    show "wire e \<in> set (map wire [e])" by simp
    show "art_name (wire e) = ''no-secrets''" "art_content (wire e) = ''Keep secrets out.''" using e by (simp_all add: wire_def)
    show "mergeRules [] (renderRulesBody [wire e]) = (renderRulesBlock (renderRulesBody [wire e]), True, False)" by (rule b)
    show "mergeRules (renderRulesBlock (renderRulesBody [wire e])) (renderRulesBody [wire e]) =
        (renderRulesBlock (renderRulesBody [wire e]), False, False)" using m b by simp
  qed
qed

end
